(* ===== verification/LDAP_Prelude.thy ===== *)
theory LDAP_Prelude
  imports Main "HOL-Library.Char_ord" "HOL-Library.List_Lexorder" "HOL-Library.Multiset"
    "HOL-Library.Sublist"
begin

text \<open>
  What every component of the development shares: Go's strings and bytes, the collections of
  simplification rules, generic lemmas on lists, and the interface of an encoder with a decoder.

  A Go \<^verbatim>\<open>string\<close> and a \<^verbatim>\<open>[]byte\<close> are both sequences of bytes.  The type
  \<^typ>\<open>char\<close> has exactly the 256 values of a byte, so both are a \<^typ>\<open>string\<close>; the numeric
  value of a byte is \<^verbatim>\<open>ord\<close>.
\<close>

type_synonym bytes = string

abbreviation ord :: "char \<Rightarrow> nat" where
  "ord c \<equiv> of_char c"

abbreviation BSLASH :: char where
  "BSLASH \<equiv> CHR 0x5C"

abbreviation DQUOTE :: char where
  "DQUOTE \<equiv> CHR 0x22"

named_theorems utf8_simps \<open>evaluation of the UTF-8 routines on ASCII and on encoded runes\<close>
named_theorems escape_simps \<open>evaluation of the escaping routines byte by byte\<close>
named_theorems ber_simps \<open>what the BER library's constructors leave in a packet\<close>

section \<open>Bytes\<close>

lemma ord_inject: "ord c = ord d \<longleftrightarrow> c = d"
  by (metis char_of_char)

text \<open>Comparison with a character literal, as a comparison of numbers.\<close>

lemma char_lit_iff:
  "c = Char b0 b1 b2 b3 b4 b5 b6 b7 \<longleftrightarrow> ord c = ord (Char b0 b1 b2 b3 b4 b5 b6 b7)"
  by (rule ord_inject [symmetric])

definition is_ascii :: "char \<Rightarrow> bool" where
  "is_ascii c \<longleftrightarrow> ord c < 128"

abbreviation ascii_string :: "string \<Rightarrow> bool" where
  "ascii_string s \<equiv> list_all is_ascii s"

section \<open>Lists\<close>

lemma sort_map_sort_key: "sort (map f xs) = map f (sort_key f xs)"
  by (rule properties_for_sort) (simp_all add: mset_map)

lemma takeWhile_all_iff: "takeWhile P xs = xs \<longleftrightarrow> (\<forall>x \<in> set xs. P x)"
  by (induction xs) auto

section \<open>Encoders and their decoders\<close>

text \<open>
  The contract the escaping and encoding routines of the code share: on the values a decoder is
  meant for, decoding what the encoder wrote gives the value back.  An encoder with such a
  decoder never maps two values to the same text.
\<close>

locale codec =
  fixes valid :: "'a \<Rightarrow> bool"
    and encode :: "'a \<Rightarrow> 'b"
    and decode :: "'b \<Rightarrow> 'e + 'a"
  assumes decode_encode: "valid x \<Longrightarrow> decode (encode x) = Inr x"
begin

lemma encode_inject: "valid x \<Longrightarrow> valid y \<Longrightarrow> encode x = encode y \<longleftrightarrow> x = y"
  by (metis decode_encode sum.inject(2))

lemma inj_on_encode: "inj_on encode {x. valid x}"
  by (rule inj_onI) (auto simp: encode_inject)

end

end
