(* ===== verification/Go_Utf8.thy ===== *)
theory Go_Utf8
  imports LDAP_Prelude
begin

text \<open>
  The part of Go's UTF-8 support the program uses: \<^verbatim>\<open>utf8.DecodeRuneInString\<close> (and
  \<^verbatim>\<open>bytes.Reader.ReadRune\<close>, which decodes the same way), \<^verbatim>\<open>WriteRune\<close>, the
  conversions \<^verbatim>\<open>[]rune(s)\<close> and \<^verbatim>\<open>string(runes)\<close>, and the indices of a
  \<^verbatim>\<open>for i, r := range s\<close> loop.  A rune is its code point, a \<^typ>\<open>nat\<close>.
\<close>

type_synonym rune = nat

definition RuneError :: rune where "RuneError = 0xFFFD"

definition valid_rune :: "rune \<Rightarrow> bool" where
  "valid_rune r \<longleftrightarrow> r < 0xD800 \<or> 0xE000 \<le> r \<and> r \<le> 0x10FFFF"

section \<open>Encoding a rune\<close>

definition encode3 :: "rune \<Rightarrow> string" where
  "encode3 r = [char_of (0xE0 + r div 4096), char_of (0x80 + r div 64 mod 64),
                char_of (0x80 + r mod 64)]"

definition EncodeRune :: "rune \<Rightarrow> string" where
  "EncodeRune r =
     (if r < 0x80 then [char_of r]
      else if r < 0x800 then [char_of (0xC0 + r div 64), char_of (0x80 + r mod 64)]
      else if \<not> valid_rune r then encode3 RuneError
      else if r < 0x10000 then encode3 r
      else [char_of (0xF0 + r div 262144), char_of (0x80 + r div 4096 mod 64),
            char_of (0x80 + r div 64 mod 64), char_of (0x80 + r mod 64)])"

definition encodeRunes :: "rune list \<Rightarrow> string" where
  "encodeRunes rs = concat (map EncodeRune rs)"

section \<open>Decoding a rune\<close>

text \<open>
  The table of first bytes: how many bytes the rune takes and the range its second byte must be
  in.  A byte that starts no rune, a missing byte and a byte out of range all give
  \<^const>\<open>RuneError\<close> with width 1; the empty string gives it with width 0.
\<close>

definition first_byte :: "nat \<Rightarrow> (nat \<times> nat \<times> nat) option" where
  "first_byte b =
     (if b < 0xC2 then None
      else if b \<le> 0xDF then Some (2, 0x80, 0xBF)
      else if b = 0xE0 then Some (3, 0xA0, 0xBF)
      else if b = 0xED then Some (3, 0x80, 0x9F)
      else if b \<le> 0xEF then Some (3, 0x80, 0xBF)
      else if b = 0xF0 then Some (4, 0x90, 0xBF)
      else if b \<le> 0xF3 then Some (4, 0x80, 0xBF)
      else if b = 0xF4 then Some (4, 0x80, 0x8F)
      else None)"

abbreviation cont :: "char \<Rightarrow> bool" where
  "cont c \<equiv> 0x80 \<le> ord c \<and> ord c \<le> 0xBF"

definition decode_tail :: "nat \<Rightarrow> nat \<times> nat \<times> nat \<Rightarrow> string \<Rightarrow> rune \<times> nat" where
  "decode_tail b0 = (\<lambda>(size, lo, hi) cs.
     (case cs of
        [] \<Rightarrow> (RuneError, 1)
      | c1 # cs1 \<Rightarrow>
          if \<not> (lo \<le> ord c1 \<and> ord c1 \<le> hi) then (RuneError, 1)
          else if size = 2 then (b0 mod 32 * 64 + ord c1 mod 64, 2)
          else (case cs1 of
             [] \<Rightarrow> (RuneError, 1)
           | c2 # cs2 \<Rightarrow>
               if \<not> cont c2 then (RuneError, 1)
               else if size = 3
                 then (b0 mod 16 * 4096 + ord c1 mod 64 * 64 + ord c2 mod 64, 3)
               else (case cs2 of
                  [] \<Rightarrow> (RuneError, 1)
                | c3 # _ \<Rightarrow>
                    if \<not> cont c3 then (RuneError, 1)
                    else (b0 mod 8 * 262144 + ord c1 mod 64 * 4096 + ord c2 mod 64 * 64
                            + ord c3 mod 64, 4)))))"

fun DecodeRune :: "string \<Rightarrow> rune \<times> nat" where
  "DecodeRune [] = (RuneError, 0)"
| "DecodeRune (c # cs) =
     (if ord c < 0x80 then (ord c, 1)
      else case first_byte (ord c) of
             None \<Rightarrow> (RuneError, 1)
           | Some e \<Rightarrow> decode_tail (ord c) e cs)"

lemma DecodeRune_ascii [simp, utf8_simps]: "is_ascii c \<Longrightarrow> DecodeRune (c # cs) = (ord c, 1)"
  by (simp add: is_ascii_def)

lemma DecodeRune_width_pos: "DecodeRune (c # cs) = (r, w) \<Longrightarrow> 0 < w"
  by (auto simp: decode_tail_def split: if_splits option.splits list.splits)

lemma DecodeRune_width_le: "DecodeRune s = (r, w) \<Longrightarrow> w \<le> length s"
  by (cases s) (auto simp: decode_tail_def split: if_splits option.splits list.splits)

declare DecodeRune.simps(2) [simp del]

text \<open>\<^verbatim>\<open>[]rune(s)\<close>, and the byte indices a \<^verbatim>\<open>range\<close> loop gives its runes.\<close>

function range_from :: "nat \<Rightarrow> string \<Rightarrow> (nat \<times> rune) list" where
  "range_from i [] = []"
| "range_from i (c # cs) =
     (case DecodeRune (c # cs) of (r, w) \<Rightarrow> (i, r) # range_from (i + w) (drop w (c # cs)))"
  by pat_completeness auto
termination
  by (relation "measure (\<lambda>(i, s). length s)") (auto dest: DecodeRune_width_pos [OF sym])

definition range_string :: "string \<Rightarrow> (nat \<times> rune) list" where
  "range_string s = range_from 0 s"

definition runes :: "string \<Rightarrow> rune list" where
  "runes s = map snd (range_string s)"

text \<open>\<^verbatim>\<open>utf8.ValidString\<close>: re-encoding the decoded runes gives the string back.\<close>

definition valid_utf8 :: "string \<Rightarrow> bool" where
  "valid_utf8 s \<longleftrightarrow> encodeRunes (runes s) = s"

section \<open>Encoding, then decoding\<close>

text \<open>The six-bit groups of a code point, and what the decoder makes of the bytes that carry them.\<close>

lemma six_bit_groups:
  fixes r :: nat
  shows "r = r div 64 * 64 + r mod 64"
    and "r = r div 4096 * 4096 + r div 64 mod 64 * 64 + r mod 64"
    and "r = r div 262144 * 262144 + r div 4096 mod 64 * 4096 + r div 64 mod 64 * 64 + r mod 64"
proof -
  have two: "r div 4096 = r div 64 div 64" and three: "r div 262144 = r div 4096 div 64"
    by (simp_all flip: div_mult2_eq)
  show one: "r = r div 64 * 64 + r mod 64" by simp
  have "r div 64 = r div 4096 * 64 + r div 64 mod 64" unfolding two by simp
  with one show *: "r = r div 4096 * 4096 + r div 64 mod 64 * 64 + r mod 64" by linarith
  have "r div 4096 = r div 262144 * 64 + r div 4096 mod 64" unfolding three by simp
  with * show "r = r div 262144 * 262144 + r div 4096 mod 64 * 4096 + r div 64 mod 64 * 64 + r mod 64"
    by linarith
qed

lemma continuation_byte:
  fixes m :: nat
  assumes "m < 64"
  shows "ord (char_of (0x80 + m)) = 0x80 + m" and "(0x80 + m) mod 64 = m"
  using assms mod_mult_self3 [of 2 64 m] by simp_all

lemma DecodeRune_two:
  assumes "2 \<le> a" "a < 32" "b < 64"
  shows "DecodeRune (char_of (0xC0 + a) # char_of (0x80 + b) # s) = (a * 64 + b, 2)"
proof -
  have "(0xC0 + a) mod 32 = a" using assms mod_mult_self3 [of 6 32 a] by simp
  with assms continuation_byte [OF assms(3)] show ?thesis
    by (simp add: DecodeRune.simps first_byte_def decode_tail_def)
qed

lemma DecodeRune_three:
  assumes "a < 16" "b < 64" "c < 64" "a = 0 \<longrightarrow> 32 \<le> b" "a = 13 \<longrightarrow> b < 32"
  shows "DecodeRune (char_of (0xE0 + a) # char_of (0x80 + b) # char_of (0x80 + c) # s)
           = (a * 4096 + b * 64 + c, 3)"
proof -
  have "(0xE0 + a) mod 16 = a" using assms mod_mult_self3 [of 14 16 a] by simp
  with assms continuation_byte [OF assms(2)] continuation_byte [OF assms(3)] show ?thesis
    by (auto simp: DecodeRune.simps first_byte_def decode_tail_def)
qed

lemma DecodeRune_four:
  assumes "a < 5" "b < 64" "c < 64" "d < 64" "a = 0 \<longrightarrow> 16 \<le> b" "a = 4 \<longrightarrow> b < 16"
  shows "DecodeRune (char_of (0xF0 + a) # char_of (0x80 + b) # char_of (0x80 + c)
           # char_of (0x80 + d) # s) = (a * 262144 + b * 4096 + c * 64 + d, 4)"
proof -
  have "(0xF0 + a) mod 8 = a" using assms mod_mult_self3 [of 30 8 a] by simp
  with assms continuation_byte [OF assms(2)] continuation_byte [OF assms(3)]
    continuation_byte [OF assms(4)] show ?thesis
    by (auto simp: DecodeRune.simps first_byte_def decode_tail_def)
qed

lemma DecodeRune_encode3:
  assumes "0x800 \<le> r" "r < 0x10000" "valid_rune r"
  shows "DecodeRune (encode3 r @ s) = (r, 3)"
proof -
  have "r div 64 mod 64 < 64" "r mod 64 < 64" by simp_all
  with assms six_bit_groups(2) [of r]
  have "r div 4096 < 16" "r div 4096 = 0 \<longrightarrow> 32 \<le> r div 64 mod 64"
    "r div 4096 = 13 \<longrightarrow> r div 64 mod 64 < 32"
    unfolding valid_rune_def by linarith+
  then show ?thesis
    using DecodeRune_three [of "r div 4096" "r div 64 mod 64" "r mod 64" s] six_bit_groups(2) [of r]
    by (simp add: encode3_def)
qed

lemma DecodeRune_EncodeRune [utf8_simps]:
  assumes "valid_rune r"
  shows "DecodeRune (EncodeRune r @ s) = (r, length (EncodeRune r))"
proof -
  consider "r < 0x80" | "0x80 \<le> r" "r < 0x800" | "0x800 \<le> r" "r < 0x10000" | "0x10000 \<le> r"
    by linarith
  then show ?thesis
  proof cases
    case 1
    then show ?thesis by (simp add: EncodeRune_def is_ascii_def)
  next
    case 2
    then have "2 \<le> r div 64" "r div 64 < 32"
      by (simp_all add: less_eq_div_iff_mult_less_eq div_less_iff_less_mult)
    moreover have "EncodeRune r = [char_of (0xC0 + r div 64), char_of (0x80 + r mod 64)]"
      using 2 by (simp add: EncodeRune_def)
    ultimately show ?thesis
      using DecodeRune_two [of "r div 64" "r mod 64" s] six_bit_groups(1) [of r] by simp
  next
    case 3
    with assms have "EncodeRune r = encode3 r" "length (encode3 r) = 3"
      by (simp_all add: EncodeRune_def encode3_def)
    with 3 assms show ?thesis by (simp add: DecodeRune_encode3)
  next
    case 4
    have "r div 4096 mod 64 < 64" "r div 64 mod 64 < 64" "r mod 64 < 64" by simp_all
    with 4 assms six_bit_groups(3) [of r]
    have "r div 262144 < 5" "r div 262144 = 0 \<longrightarrow> 16 \<le> r div 4096 mod 64"
      "r div 262144 = 4 \<longrightarrow> r div 4096 mod 64 < 16"
      unfolding valid_rune_def by linarith+
    with 4 assms show ?thesis
      using DecodeRune_four [of "r div 262144" "r div 4096 mod 64" "r div 64 mod 64" "r mod 64" s]
        six_bit_groups(3) [of r]
      by (simp add: EncodeRune_def)
  qed
qed

lemma EncodeRune_not_Nil [simp]: "EncodeRune r \<noteq> []"
  by (simp add: EncodeRune_def encode3_def)

lemma EncodeRune_ascii [simp, utf8_simps]: "r < 128 \<Longrightarrow> EncodeRune r = [char_of r]"
  by (simp add: EncodeRune_def)

lemma length_EncodeRune_ge2: "128 \<le> r \<Longrightarrow> 2 \<le> length (EncodeRune r)"
  by (simp add: EncodeRune_def encode3_def)

lemma encodeRunes_simps [simp]:
  "encodeRunes [] = []"
  "encodeRunes (r # rs) = EncodeRune r @ encodeRunes rs"
  "encodeRunes (rs @ rs') = encodeRunes rs @ encodeRunes rs'"
  by (simp_all add: encodeRunes_def)

section \<open>The runes of a string\<close>

lemma map_snd_range_from: "map snd (range_from i s) = runes s"
proof -
  have "map snd (range_from i s) = map snd (range_from j s)" for i j
  proof (induction i s arbitrary: j rule: range_from.induct)
    case (2 i c cs)
    obtain r w where *: "DecodeRune (c # cs) = (r, w)" by fastforce
    then have "map snd (range_from (i + w) (drop w (c # cs)))
               = map snd (range_from (j + w) (drop w (c # cs)))"
      by (intro 2) auto
    with * show ?case by simp
  qed simp
  from this [of i 0] show ?thesis by (simp only: runes_def range_string_def)
qed

lemma runes_Nil [simp]: "runes [] = []"
  by (simp only: runes_def range_string_def range_from.simps list.map)

lemma runes_step:
  assumes "DecodeRune (c # cs) = (r, w)"
  shows "runes (c # cs) = r # runes (drop w (c # cs))"
proof -
  have "range_from 0 (c # cs) = (0, r) # range_from w (drop w (c # cs))"
    using assms by simp
  then have "map snd (range_from 0 (c # cs)) = r # map snd (range_from w (drop w (c # cs)))"
    by (simp only: list.map snd_conv)
  then show ?thesis by (simp only: map_snd_range_from)
qed

lemma runes_ascii_Cons [simp, utf8_simps]: "is_ascii c \<Longrightarrow> runes (c # cs) = ord c # runes cs"
  by (simp add: runes_step [of c cs "ord c" 1])

lemma runes_ascii: "ascii_string s \<Longrightarrow> runes s = map ord s"
  by (induction s) auto

lemma runes_EncodeRune [simp, utf8_simps]:
  assumes "valid_rune r"
  shows "runes (EncodeRune r @ s) = r # runes s"
proof (cases "EncodeRune r @ s")
  case Nil
  then show ?thesis by simp
next
  case (Cons c cs)
  with DecodeRune_EncodeRune [OF assms, of s]
  have "DecodeRune (c # cs) = (r, length (EncodeRune r))" by simp
  then have "runes (c # cs) = r # runes (drop (length (EncodeRune r)) (c # cs))"
    by (rule runes_step)
  then show ?thesis by (simp flip: Cons)
qed

lemma runes_encodeRunes_append [utf8_simps]:
  "list_all valid_rune rs \<Longrightarrow> runes (encodeRunes rs @ s) = rs @ runes s"
  by (induction rs) auto

lemma runes_encodeRunes [simp]: "list_all valid_rune rs \<Longrightarrow> runes (encodeRunes rs) = rs"
  using runes_encodeRunes_append [of rs "[]"] by simp

text \<open>Decoding only produces valid runes, and a rune decoded without an error is re-encoded as the
  bytes it was read from.\<close>

lemma valid_RuneError [simp]: "valid_rune RuneError"
  by (simp add: valid_rune_def RuneError_def)

lemma ascii_valid_rune: "r < 128 \<Longrightarrow> valid_rune r"
  by (simp add: valid_rune_def)

lemma group_div_mod:
  fixes x y :: nat
  assumes "y < 64"
  shows "(x * 64 + y) div 64 = x" "(x * 64 + y) mod 64 = y"
  using assms by simp_all

lemma group_div_4096:
  fixes x y z :: nat
  assumes "y < 64" "z < 64"
  shows "(x * 4096 + y * 64 + z) div 4096 = x"
proof -
  have "(x * 4096 + y * 64 + z) div 4096 = ((x * 64 + y) * 64 + z) div 64 div 64"
    by (simp flip: div_mult2_eq)
  then show ?thesis using assms by (simp only: group_div_mod)
qed

lemma EncodeRune_two:
  assumes "2 \<le> x" "x < 32" "y < 64"
  shows "valid_rune (x * 64 + y)"
    and "EncodeRune (x * 64 + y) = [char_of (0xC0 + x), char_of (0x80 + y)]"
  using assms by (simp_all add: EncodeRune_def valid_rune_def)

lemma EncodeRune_three:
  assumes "x < 16" "y < 64" "z < 64" "x = 0 \<longrightarrow> 32 \<le> y" "x = 13 \<longrightarrow> y < 32"
  shows "valid_rune (x * 4096 + y * 64 + z)"
    and "EncodeRune (x * 4096 + y * 64 + z) = [char_of (0xE0 + x), char_of (0x80 + y), char_of (0x80 + z)]"
proof -
  let ?r = "x * 4096 + y * 64 + z"
  have range: "0x800 \<le> ?r" "?r < 0x10000" using assms by linarith+
  have "x < 13 \<or> x = 13 \<or> 14 \<le> x" by linarith
  then show "valid_rune ?r" using assms unfolding valid_rune_def by (elim disjE) auto
  moreover have "?r div 4096 = x" by (rule group_div_4096) fact+
  moreover have "?r div 64 = x * 64 + y" "?r mod 64 = z"
    using group_div_mod [OF assms(3), of "x * 64 + y"] by (simp_all add: algebra_simps)
  ultimately show "EncodeRune ?r = [char_of (0xE0 + x), char_of (0x80 + y), char_of (0x80 + z)]"
    using range assms(2) unfolding EncodeRune_def encode3_def by simp
qed

lemma EncodeRune_four:
  assumes "x < 5" "y < 64" "z < 64" "u < 64" "x = 0 \<longrightarrow> 16 \<le> y" "x = 4 \<longrightarrow> y < 16"
  shows "valid_rune (x * 262144 + y * 4096 + z * 64 + u)"
    and "EncodeRune (x * 262144 + y * 4096 + z * 64 + u)
           = [char_of (0xF0 + x), char_of (0x80 + y), char_of (0x80 + z), char_of (0x80 + u)]"
proof -
  let ?r = "x * 262144 + y * 4096 + z * 64 + u"
  have range: "0x10000 \<le> ?r" using assms by linarith
  show valid: "valid_rune ?r" using assms unfolding valid_rune_def by linarith
  have 4096: "?r div 4096 = x * 64 + y"
    using group_div_4096 [OF assms(3,4), of "x * 64 + y"] by (simp add: algebra_simps)
  have "?r div 64 = (x * 64 + y) * 64 + z" and "?r mod 64 = u"
    using group_div_mod [OF assms(4), of "(x * 64 + y) * 64 + z"] by (simp_all add: algebra_simps)
  then have "?r div 64 mod 64 = z" and "?r mod 64 = u"
    using assms(3) by (simp_all only: group_div_mod)
  moreover have "?r div 4096 mod 64 = y" using assms(2) by (simp only: 4096 group_div_mod)
  moreover have "?r div 262144 = x"
  proof -
    have "?r div 262144 = ?r div 4096 div 64" by (simp flip: div_mult2_eq)
    then show ?thesis using assms by (simp only: 4096 group_div_mod)
  qed
  ultimately show "EncodeRune ?r
      = [char_of (0xF0 + x), char_of (0x80 + y), char_of (0x80 + z), char_of (0x80 + u)]"
    using range valid unfolding EncodeRune_def by simp
qed

lemma decode_tail_cases:
  assumes "decode_tail b (sz, lo, hi) cs = (r, w)"
  obtains (error) "r = RuneError" "w = 1"
  | (two) c1 cs1 where "cs = c1 # cs1" "sz = 2" "lo \<le> ord c1" "ord c1 \<le> hi"
      "r = b mod 32 * 64 + ord c1 mod 64" "w = 2"
  | (three) c1 c2 cs2 where "cs = c1 # c2 # cs2" "sz = 3" "lo \<le> ord c1" "ord c1 \<le> hi"
      "cont c2" "r = b mod 16 * 4096 + ord c1 mod 64 * 64 + ord c2 mod 64" "w = 3"
  | (four) c1 c2 c3 cs3 where "cs = c1 # c2 # c3 # cs3" "sz \<noteq> 2" "sz \<noteq> 3"
      "lo \<le> ord c1" "ord c1 \<le> hi" "cont c2" "cont c3"
      "r = b mod 8 * 262144 + ord c1 mod 64 * 4096 + ord c2 mod 64 * 64 + ord c3 mod 64" "w = 4"
  using assms by (auto simp: decode_tail_def split: list.splits if_splits)

lemma first_byte_Some:
  assumes "first_byte b = Some (sz, lo, hi)"
  shows "0x80 \<le> lo" "hi \<le> 0xBF"
    and "sz = 2 \<Longrightarrow> 0xC2 \<le> b \<and> b \<le> 0xDF"
    and "sz = 3 \<Longrightarrow> 0xE0 \<le> b \<and> b \<le> 0xEF \<and> (b = 0xE0 \<longrightarrow> lo = 0xA0) \<and> (b = 0xED \<longrightarrow> hi = 0x9F)"
    and "sz \<noteq> 2 \<Longrightarrow> sz \<noteq> 3 \<Longrightarrow>
           0xF0 \<le> b \<and> b \<le> 0xF4 \<and> (b = 0xF0 \<longrightarrow> lo = 0x90) \<and> (b = 0xF4 \<longrightarrow> hi = 0x8F)"
  using assms by (auto simp: first_byte_def split: if_splits)

lemma mod_of_offset:
  fixes x q m :: nat
  assumes "q * m \<le> x" "x < q * m + m"
  shows "x mod m = x - q * m"
  using assms mod_mult_self3 [of q m "x - q * m"] by simp

lemma char_of_offset: "k \<le> ord c \<Longrightarrow> char_of (k + (ord c - k)) = c"
  by simp

lemma cont_mod: "0x80 \<le> ord c \<Longrightarrow> ord c \<le> 0xBF \<Longrightarrow> ord c mod 64 = ord c - 0x80"
  using mod_of_offset [of 2 64 "ord c"] by simp

text \<open>What a decoded multi-byte rune is the encoding of.\<close>

lemma decode_tail_encoded:
  assumes "first_byte (ord c) = Some (sz, lo, hi)" "decode_tail (ord c) (sz, lo, hi) cs = (r, w)"
  shows "r = RuneError \<and> w = 1
    \<or> (\<exists>rest. c # cs = EncodeRune r @ rest \<and> w = length (EncodeRune r) \<and> valid_rune r)"
proof -
  note fb = first_byte_Some [OF assms(1)]
  from assms(2) show ?thesis
  proof (cases rule: decode_tail_cases)
    case error
    then show ?thesis by simp
  next
    case (two c1 cs1)
    have "0xC2 \<le> ord c" "ord c \<le> 0xDF" "0x80 \<le> ord c1" "ord c1 \<le> 0xBF"
      using two fb(1,2,3) by linarith+
    moreover from this have "r = (ord c - 0xC0) * 64 + (ord c1 - 0x80)"
      unfolding two(5) using mod_of_offset [of 6 32 "ord c"] by (simp add: cont_mod)
    ultimately have "EncodeRune r = [c, c1]" and "valid_rune r"
      using EncodeRune_two [of "ord c - 0xC0" "ord c1 - 0x80"] by (simp_all only: char_of_offset)
    with two show ?thesis by simp
  next
    case (three c1 c2 cs2)
    have "0xE0 \<le> ord c" "ord c \<le> 0xEF" "0x80 \<le> ord c1" "ord c1 \<le> 0xBF" "0x80 \<le> ord c2"
        "ord c2 \<le> 0xBF" "ord c - 0xE0 = 0 \<longrightarrow> 32 \<le> ord c1 - 0x80"
        "ord c - 0xE0 = 13 \<longrightarrow> ord c1 - 0x80 < 32"
      using three fb(1,2,4) by linarith+
    moreover from this have "r = (ord c - 0xE0) * 4096 + (ord c1 - 0x80) * 64 + (ord c2 - 0x80)"
      unfolding three(6) using mod_of_offset [of 14 16 "ord c"] by (simp add: cont_mod)
    ultimately have "EncodeRune r = [c, c1, c2]" and "valid_rune r"
      using EncodeRune_three [of "ord c - 0xE0" "ord c1 - 0x80" "ord c2 - 0x80"]
      by (simp_all only: char_of_offset)
    with three show ?thesis by simp
  next
    case (four c1 c2 c3 cs3)
    have "0xF0 \<le> ord c" "ord c \<le> 0xF4" "0x80 \<le> ord c1" "ord c1 \<le> 0xBF" "0x80 \<le> ord c2"
        "ord c2 \<le> 0xBF" "0x80 \<le> ord c3" "ord c3 \<le> 0xBF"
        "ord c - 0xF0 = 0 \<longrightarrow> 16 \<le> ord c1 - 0x80" "ord c - 0xF0 = 4 \<longrightarrow> ord c1 - 0x80 < 16"
      using four fb(1,2,5) by linarith+
    moreover from this have "r = (ord c - 0xF0) * 262144 + (ord c1 - 0x80) * 4096
        + (ord c2 - 0x80) * 64 + (ord c3 - 0x80)"
      unfolding four(8) using mod_of_offset [of 30 8 "ord c"] by (simp add: cont_mod)
    ultimately have "EncodeRune r = [c, c1, c2, c3]" and "valid_rune r"
      using EncodeRune_four [of "ord c - 0xF0" "ord c1 - 0x80" "ord c2 - 0x80" "ord c3 - 0x80"]
      by (simp_all only: char_of_offset)
    with four show ?thesis by simp
  qed
qed

lemma DecodeRune_sound:
  assumes "DecodeRune s = (r, w)" "s \<noteq> []"
  shows "r = RuneError \<and> w = 1
    \<or> (\<exists>rest. s = EncodeRune r @ rest \<and> w = length (EncodeRune r) \<and> valid_rune r)"
proof -
  obtain c cs where s: "s = c # cs" using assms(2) by (cases s) auto
  show ?thesis
  proof (cases "ord c < 128 \<or> first_byte (ord c) = None")
    case True
    with s assms(1) show ?thesis
      by (cases "ord c < 128") (auto simp: DecodeRune.simps ascii_valid_rune)
  next
    case False
    then obtain sz lo hi where "first_byte (ord c) = Some (sz, lo, hi)" by auto
    moreover from this False s assms(1) have "decode_tail (ord c) (sz, lo, hi) cs = (r, w)"
      by (simp add: DecodeRune.simps)
    ultimately show ?thesis unfolding s by (rule decode_tail_encoded)
  qed
qed

lemma valid_runes: "list_all valid_rune (runes s)"
proof (induction s rule: length_induct)
  case (1 s)
  show ?case
  proof (cases s)
    case (Cons c cs)
    obtain r w where d: "DecodeRune (c # cs) = (r, w)" by fastforce
    then have "valid_rune r" using DecodeRune_sound by fastforce
    moreover have "length (drop w (c # cs)) < length s"
      using DecodeRune_width_pos [OF d] Cons by simp
    ultimately show ?thesis using 1 Cons by (simp add: runes_step [OF d])
  qed simp
qed

lemma valid_utf8_iff: "valid_utf8 s \<longleftrightarrow> (\<exists>rs. list_all valid_rune rs \<and> s = encodeRunes rs)"
  using valid_runes [of s] by (auto simp: valid_utf8_def)

lemma valid_utf8_induct [consumes 1, case_names Nil Rune]:
  assumes "valid_utf8 s" and "P []"
    and "\<And>r s. valid_rune r \<Longrightarrow> valid_utf8 s \<Longrightarrow> P s \<Longrightarrow> P (EncodeRune r @ s)"
  shows "P s"
proof -
  obtain rs where "list_all valid_rune rs" "s = encodeRunes rs"
    using assms(1) unfolding valid_utf8_iff by blast
  then show ?thesis
    by (induction rs arbitrary: s) (use assms(2,3) valid_utf8_iff in auto)
qed

end
