(* ===== verification/Ber_Packet.thy ===== *)
theory Ber_Packet
  imports Go_Utf8 "HOL-Library.Monad_Syntax" "HOL-Library.Word"
begin

text \<open>
  The boundary to the third-party package \<^verbatim>\<open>asn1-ber\<close>: the packet structure the program
  reads and builds, the error values it passes around, and the library's routines as a record of
  operations that every definition using them takes as an argument.  The laws the program relies
  on are the assumptions of the locale \<^verbatim>\<open>ber_library\<close> below.
\<close>

section \<open>Packets\<close>

datatype ber_class = ClassUniversal | ClassApplication | ClassContext | ClassPrivate

datatype ber_type = TypePrimitive | TypeConstructed

text \<open>A packet's \<^verbatim>\<open>Value\<close> is a Go \<^verbatim>\<open>interface{}\<close>; the constructors are the dynamic types the
  program stores or tests for; \<^verbatim>\<open>VOther\<close> is any other dynamic type, with its name and its
  \<^verbatim>\<open>%v\<close> text.\<close>

datatype ber_value =
    VNil
  | VString string
  | VInt64 int
  | VUint64 "64 word"
  | VInt32 "32 word"
  | VInt8 int
  | VInt int
  | VBool bool
  | VBytes bytes
  | VOther string string

text \<open>
  A \<^verbatim>\<open>*ber.Packet\<close> is nil or points to the structure.  \<^verbatim>\<open>Data\<close> is a pointer to a buffer,
  \<^const>\<open>None\<close> when nil.  Reading a field through a nil pointer panics; the definitions test for
  \<^verbatim>\<open>NilPacket\<close> wherever the code can meet it.
\<close>

datatype packet =
    NilPacket
  | Packet
      (ClassType: ber_class) (TagType: ber_type) (Tag: nat) (Value: ber_value)
      (ByteValue: bytes) (Data: "bytes option") (Children: "packet list") (Description: string)
  where
    "ClassType NilPacket = ClassUniversal"
  | "TagType NilPacket = TypePrimitive"
  | "Tag NilPacket = 0"
  | "Value NilPacket = VNil"
  | "ByteValue NilPacket = []"
  | "Data NilPacket = None"
  | "Children NilPacket = []"
  | "Description NilPacket = []"

text \<open>Reading a field through a nil pointer panics, and so does \<^verbatim>\<open>packet.Children[i]\<close> out of
  range: \<^const>\<open>None\<close>.\<close>

definition deref :: "packet \<Rightarrow> packet option" where
  "deref p = (if p = NilPacket then None else Some p)"

definition nth_child :: "packet \<Rightarrow> nat \<Rightarrow> packet option" where
  "nth_child p i = (if i < length (Children p) then Some (Children p ! i) else None)"

fun set_Tag :: "nat \<Rightarrow> packet \<Rightarrow> packet" where
  "set_Tag g NilPacket = NilPacket"
| "set_Tag g (Packet c t _ v b d cs ds) = Packet c t g v b d cs ds"

fun set_Value :: "ber_value \<Rightarrow> packet \<Rightarrow> packet" where
  "set_Value v NilPacket = NilPacket"
| "set_Value v (Packet c t g _ b d cs ds) = Packet c t g v b d cs ds"

fun set_Data :: "bytes option \<Rightarrow> packet \<Rightarrow> packet" where
  "set_Data d NilPacket = NilPacket"
| "set_Data d (Packet c t g v b _ cs ds) = Packet c t g v b d cs ds"

fun set_Description :: "string \<Rightarrow> packet \<Rightarrow> packet" where
  "set_Description ds NilPacket = NilPacket"
| "set_Description ds (Packet c t g v b d cs _) = Packet c t g v b d cs ds"

lemma set_Tag_simps [simp]:
  "set_Tag g p = NilPacket \<longleftrightarrow> p = NilPacket"
  "p \<noteq> NilPacket \<Longrightarrow> Tag (set_Tag g p) = g"
  "ClassType (set_Tag g p) = ClassType p" "TagType (set_Tag g p) = TagType p"
  "Value (set_Tag g p) = Value p" "Data (set_Tag g p) = Data p"
  "Children (set_Tag g p) = Children p"
  by (cases p; simp)+

lemma set_Value_simps [simp]:
  "set_Value v p = NilPacket \<longleftrightarrow> p = NilPacket"
  "p \<noteq> NilPacket \<Longrightarrow> Value (set_Value v p) = v"
  "ClassType (set_Value v p) = ClassType p" "TagType (set_Value v p) = TagType p"
  "Tag (set_Value v p) = Tag p" "Data (set_Value v p) = Data p"
  "Children (set_Value v p) = Children p"
  by (cases p; simp)+

lemma set_Data_simps [simp]:
  "set_Data d p = NilPacket \<longleftrightarrow> p = NilPacket"
  "p \<noteq> NilPacket \<Longrightarrow> Data (set_Data d p) = d"
  "ClassType (set_Data d p) = ClassType p" "TagType (set_Data d p) = TagType p"
  "Tag (set_Data d p) = Tag p" "Value (set_Data d p) = Value p"
  "Children (set_Data d p) = Children p"
  by (cases p; simp)+

lemma set_Description_simps [simp]:
  "set_Description ds p = NilPacket \<longleftrightarrow> p = NilPacket"
  "ClassType (set_Description ds p) = ClassType p" "TagType (set_Description ds p) = TagType p"
  "Tag (set_Description ds p) = Tag p" "Value (set_Description ds p) = Value p"
  "Data (set_Description ds p) = Data p" "Children (set_Description ds p) = Children p"
  by (cases p; simp)+

text \<open>The universal tag numbers of X.690 the program names.\<close>

abbreviation (input) "TagEOC \<equiv> (0x00 :: nat)"
abbreviation (input) "TagBoolean \<equiv> (0x01 :: nat)"
abbreviation (input) "TagInteger \<equiv> (0x02 :: nat)"
abbreviation (input) "TagBitString \<equiv> (0x03 :: nat)"
abbreviation (input) "TagOctetString \<equiv> (0x04 :: nat)"
abbreviation (input) "TagObjectDescriptor \<equiv> (0x07 :: nat)"
abbreviation (input) "TagEnumerated \<equiv> (0x0a :: nat)"
abbreviation (input) "TagEmbeddedPDV \<equiv> (0x0b :: nat)"
abbreviation (input) "TagSequence \<equiv> (0x10 :: nat)"
abbreviation (input) "TagSet \<equiv> (0x11 :: nat)"
abbreviation (input) "TagPrintableString \<equiv> (0x13 :: nat)"

section \<open>Errors\<close>

text \<open>
  A Go \<^verbatim>\<open>error\<close>.  \<^verbatim>\<open>ErrText\<close> is \<^verbatim>\<open>errors.New\<close> or \<^verbatim>\<open>fmt.Errorf\<close> with the text written out,
  \<^verbatim>\<open>ErrTextOf\<close> a text that ends with another error's text, \<^verbatim>\<open>ErrWrap\<close> a \<^verbatim>\<open>%w\<close>, which
  \<^verbatim>\<open>errors.As\<close> sees through.  \<^verbatim>\<open>LdapError\<close> is the \<^verbatim>\<open>Error\<close> structure of
  \<^verbatim>\<open>src/v3/error.go\<close>.  The other two are the errors of Go's \<^verbatim>\<open>encoding/hex\<close>.
\<close>

datatype go_error =
    ErrText string
  | ErrTextOf string go_error
  | ErrWrap string go_error
  | InvalidByteError char
  | ErrLength
  | LdapError (ErrOf: go_error) (ResultCode: "16 word") (MatchedDN: string) (PacketOf: packet)

section \<open>The library's routines\<close>

record ber =
  ber_Encode :: "ber_class \<Rightarrow> ber_type \<Rightarrow> nat \<Rightarrow> ber_value \<Rightarrow> string \<Rightarrow> packet"
  ber_NewString :: "ber_class \<Rightarrow> ber_type \<Rightarrow> nat \<Rightarrow> string \<Rightarrow> string \<Rightarrow> packet"
  ber_NewInteger :: "ber_class \<Rightarrow> ber_type \<Rightarrow> nat \<Rightarrow> ber_value \<Rightarrow> string \<Rightarrow> packet"
  ber_NewBoolean :: "ber_class \<Rightarrow> ber_type \<Rightarrow> nat \<Rightarrow> bool \<Rightarrow> string \<Rightarrow> packet"
  ber_NewLDAPBoolean :: "ber_class \<Rightarrow> ber_type \<Rightarrow> nat \<Rightarrow> bool \<Rightarrow> string \<Rightarrow> packet"
  ber_AppendChild :: "packet \<Rightarrow> packet \<Rightarrow> packet option"
  ber_DecodeString :: "bytes \<Rightarrow> string"
  ber_DecodePacketErr :: "bytes \<Rightarrow> go_error + packet"
  ber_ReadPacket :: "bytes \<Rightarrow> go_error + packet \<times> bytes"
  ber_ParseInt64 :: "bytes \<Rightarrow> go_error + int"
  ber_Bytes :: "packet \<Rightarrow> bytes"
  ber_Packet_v :: "packet \<Rightarrow> string"

text \<open>
  \<^const>\<open>ber_Packet_v\<close> is the \<^verbatim>\<open>%v\<close> text of a packet's structure.
  \<^const>\<open>ber_AppendChild\<close> gives the receiver after the call, and \<^const>\<open>None\<close> when the call
  panics.  A run of \<^verbatim>\<open>AppendChild\<close> calls on one packet:
\<close>

fun appendChildren :: "ber \<Rightarrow> packet \<Rightarrow> packet list \<Rightarrow> packet option" where
  "appendChildren B p [] = Some p"
| "appendChildren B p (c # cs) =
     (case ber_AppendChild B p c of None \<Rightarrow> None | Some p' \<Rightarrow> appendChildren B p' cs)"

text \<open>What a successful run leaves: the same packet with the children added.\<close>

definition grown :: "packet \<Rightarrow> packet list \<Rightarrow> packet \<Rightarrow> bool" where
  "grown p ks p' \<longleftrightarrow> p' \<noteq> NilPacket \<and> Data p' \<noteq> None \<and> ClassType p' = ClassType p
     \<and> TagType p' = TagType p \<and> Tag p' = Tag p \<and> Value p' = Value p
     \<and> Children p' = Children p @ ks \<and> Description p' = Description p"

lemma grown_trans: "grown p ks p' \<Longrightarrow> grown p' ks' p'' \<Longrightarrow> grown p (ks @ ks') p''"
  by (simp add: grown_def)

lemma grown_Cons: "grown p [k] p' \<Longrightarrow> grown p' ks p'' \<Longrightarrow> grown p (k # ks) p''"
  using grown_trans [of p "[k]"] by simp

text \<open>The dynamic types \<^verbatim>\<open>NewInteger\<close> accepts; it panics on another one.\<close>

fun integer_value :: "ber_value \<Rightarrow> bool" where
  "integer_value (VInt64 _) = True"
| "integer_value (VUint64 _) = True"
| "integer_value (VInt32 _) = True"
| "integer_value (VInt8 _) = True"
| "integer_value (VInt _) = True"
| "integer_value _ = False"

text \<open>
  What the program relies on: the constructors store the identifier, the value and the bytes they
  are given; \<^verbatim>\<open>Encode\<close> writes no content for an application-wide tag, which is why the caller does; \<^verbatim>\<open>AppendChild\<close> adds the child at the end and changes nothing else that is read,
  and dereferences the child, so a nil child panics; \<^verbatim>\<open>DecodeString\<close> is the bytes as a string.
\<close>

locale ber_library =
  fixes B :: ber
  assumes Encode_packet:
      "\<exists>d. ber_Encode B c t g v ds = Packet c t g v [] (Some d) [] ds"
    and Encode_application:
      "ber_Encode B ClassApplication t g v ds = Packet ClassApplication t g v [] (Some []) [] ds"
    and NewString_packet:
      "ber_NewString B c t g s ds = Packet c t g (VString s) [] (Some s) [] ds"
    and NewInteger_packet:
      "integer_value v \<Longrightarrow> \<exists>d. ber_NewInteger B c t g v ds = Packet c t g v [] (Some d) [] ds"
    and NewBoolean_packet:
      "\<exists>d. ber_NewBoolean B c t g x ds = Packet c t g (VBool x) [] (Some d) [] ds"
    and NewLDAPBoolean_packet:
      "\<exists>d. ber_NewLDAPBoolean B c t g x ds = Packet c t g (VBool x) [] (Some d) [] ds"
    and AppendChild_nil: "ber_AppendChild B p NilPacket = None"
    and AppendChild_packet: "ber_AppendChild B p k = Some p' \<Longrightarrow> p' \<noteq> NilPacket"
    and AppendChild_child: "k \<noteq> NilPacket \<Longrightarrow>
      \<exists>d'. ber_AppendChild B (Packet c t g v b (Some d) cs ds) k
            = Some (Packet c t g v b (Some d') (cs @ [k]) ds)"
    and DecodeString_bytes: "ber_DecodeString B s = s"
begin

lemma Encode_sel [simp, ber_simps]:
  "ber_Encode B c t g v ds \<noteq> NilPacket"
  "ClassType (ber_Encode B c t g v ds) = c" "TagType (ber_Encode B c t g v ds) = t"
  "Tag (ber_Encode B c t g v ds) = g" "Value (ber_Encode B c t g v ds) = v"
  "Children (ber_Encode B c t g v ds) = []" "Data (ber_Encode B c t g v ds) \<noteq> None"
  using Encode_packet [of c t g v ds] by auto

lemma NewString_sel [simp, ber_simps]:
  "ber_NewString B c t g s ds \<noteq> NilPacket"
  "ClassType (ber_NewString B c t g s ds) = c" "TagType (ber_NewString B c t g s ds) = t"
  "Tag (ber_NewString B c t g s ds) = g" "Value (ber_NewString B c t g s ds) = VString s"
  "Children (ber_NewString B c t g s ds) = []" "Data (ber_NewString B c t g s ds) = Some s"
  by (simp_all add: NewString_packet)

lemma NewInteger_sel [simp, ber_simps]:
  assumes "integer_value v"
  shows "ber_NewInteger B c t g v ds \<noteq> NilPacket"
    "ClassType (ber_NewInteger B c t g v ds) = c" "TagType (ber_NewInteger B c t g v ds) = t"
    "Tag (ber_NewInteger B c t g v ds) = g" "Value (ber_NewInteger B c t g v ds) = v"
    "Children (ber_NewInteger B c t g v ds) = []" "Data (ber_NewInteger B c t g v ds) \<noteq> None"
  using NewInteger_packet [OF assms, of c t g ds] by auto

lemma NewBoolean_sel [simp, ber_simps]:
  "ber_NewBoolean B c t g b ds \<noteq> NilPacket"
  "ClassType (ber_NewBoolean B c t g b ds) = c" "TagType (ber_NewBoolean B c t g b ds) = t"
  "Tag (ber_NewBoolean B c t g b ds) = g" "Value (ber_NewBoolean B c t g b ds) = VBool b"
  "Children (ber_NewBoolean B c t g b ds) = []" "Data (ber_NewBoolean B c t g b ds) \<noteq> None"
  using NewBoolean_packet [of c t g b ds] by auto

lemma NewLDAPBoolean_sel [simp, ber_simps]:
  "ber_NewLDAPBoolean B c t g b ds \<noteq> NilPacket"
  "ClassType (ber_NewLDAPBoolean B c t g b ds) = c" "TagType (ber_NewLDAPBoolean B c t g b ds) = t"
  "Tag (ber_NewLDAPBoolean B c t g b ds) = g" "Value (ber_NewLDAPBoolean B c t g b ds) = VBool b"
  "Children (ber_NewLDAPBoolean B c t g b ds) = []" "Data (ber_NewLDAPBoolean B c t g b ds) \<noteq> None"
  using NewLDAPBoolean_packet [of c t g b ds] by auto

lemma AppendChild_grown:
  assumes "p \<noteq> NilPacket" "Data p \<noteq> None" "k \<noteq> NilPacket"
  shows "\<exists>p'. ber_AppendChild B p k = Some p' \<and> grown p [k] p'"
proof -
  from assms obtain c t g v b d cs ds where p: "p = Packet c t g v b (Some d) cs ds"
    by (cases p) auto
  from AppendChild_child [OF assms(3), of c t g v b d cs ds] show ?thesis
    unfolding p by (auto simp: grown_def)
qed

lemma appendChildren_grown:
  assumes "p \<noteq> NilPacket" "Data p \<noteq> None" "NilPacket \<notin> set ks"
  shows "\<exists>p'. appendChildren B p ks = Some p' \<and> grown p ks p'"
  using assms
proof (induction ks arbitrary: p)
  case Nil
  then show ?case by (simp add: grown_def)
next
  case (Cons k ks)
  then obtain p1 where p1: "ber_AppendChild B p k = Some p1" "grown p [k] p1"
    using AppendChild_grown [of p k] by auto
  then have "p1 \<noteq> NilPacket" "Data p1 \<noteq> None" by (simp_all add: grown_def)
  moreover from Cons.prems(3) have "NilPacket \<notin> set ks" by simp
  ultimately obtain p2 where "appendChildren B p1 ks = Some p2" "grown p1 ks p2"
    using Cons.IH by blast
  with p1 show ?case by (auto intro: grown_Cons)
qed

lemma appendChildren_nil: "NilPacket \<in> set ks \<Longrightarrow> appendChildren B p ks = None"
  by (induction ks arbitrary: p) (auto simp: AppendChild_nil split: option.splits)

end

end
