(* ===== verification/Go_Strings.thy ===== *)
theory Go_Strings
  imports Ber_Packet
begin

text \<open>
  The routines of Go's packages \<^verbatim>\<open>strings\<close>, \<^verbatim>\<open>sort\<close>, \<^verbatim>\<open>encoding/hex\<close> and \<^verbatim>\<open>unicode\<close> that
  the program calls.
\<close>

section \<open>Hexadecimal\<close>

definition hexDigit :: "nat \<Rightarrow> char" where
  "hexDigit n = ''0123456789abcdef'' ! n"

definition hexValue :: "char \<Rightarrow> nat option" where
  "hexValue c =
     (if 0x30 \<le> ord c \<and> ord c \<le> 0x39 then Some (ord c - 0x30)
      else if 0x61 \<le> ord c \<and> ord c \<le> 0x66 then Some (ord c - 0x61 + 10)
      else if 0x41 \<le> ord c \<and> ord c \<le> 0x46 then Some (ord c - 0x41 + 10)
      else None)"

definition hexByte :: "char \<Rightarrow> string" where
  "hexByte c = [hexDigit (ord c div 16), hexDigit (ord c mod 16)]"

text \<open>\<^verbatim>\<open>hex.EncodeToString\<close> and \<^verbatim>\<open>hex.DecodeString\<close>; the decoder reports the first byte that is no
  digit, and an odd length only when the last byte is a digit.\<close>

definition hex_encode :: "bytes \<Rightarrow> string" where
  "hex_encode s = concat (map hexByte s)"

fun hex_decode :: "string \<Rightarrow> go_error + bytes" where
  "hex_decode [] = Inr []"
| "hex_decode [p] = (case hexValue p of None \<Rightarrow> Inl (InvalidByteError p) | Some _ \<Rightarrow> Inl ErrLength)"
| "hex_decode (p # q # r) =
     (case hexValue p of
        None \<Rightarrow> Inl (InvalidByteError p)
      | Some a \<Rightarrow>
          (case hexValue q of
             None \<Rightarrow> Inl (InvalidByteError q)
           | Some b \<Rightarrow>
               (case hex_decode r of
                  Inl e \<Rightarrow> Inl e
                | Inr s \<Rightarrow> Inr (char_of (a * 16 + b) # s))))"

lemma hexDigit_cases:
  assumes "n < 16"
  shows "hexDigit n = (if n < 10 then char_of (0x30 + n) else char_of (0x57 + n))"
proof -
  have "list_all (\<lambda>n. hexDigit n = (if n < 10 then char_of (0x30 + n) else char_of (0x57 + n))) [0..<16]"
    by code_simp
  with assms show ?thesis by (simp add: list_all_iff)
qed

lemma ord_hexDigit: "n < 16 \<Longrightarrow> ord (hexDigit n) = (if n < 10 then 0x30 + n else 0x57 + n)"
  by (simp add: hexDigit_cases)

lemma hexDigit_ascii [simp]: "n < 16 \<Longrightarrow> is_ascii (hexDigit n)"
  by (simp add: hexDigit_cases is_ascii_def)

lemma hexValue_hexDigit [simp]: "n < 16 \<Longrightarrow> hexValue (hexDigit n) = Some n"
  by (simp add: hexDigit_cases hexValue_def)

lemma ord_div_16 [simp]: "ord c div 16 < 16"
  by (simp add: div_less_iff_less_mult)

lemma hexByte_value [simp]: "char_of (ord c div 16 * 16 + ord c mod 16) = c"
  by simp

lemma hex_decode_hex_encode: "hex_decode (hex_encode s) = Inr s"
  by (induction s) (simp_all add: hex_encode_def hexByte_def)

interpretation hex: codec "\<lambda>_. True" hex_encode hex_decode
  by unfold_locales (rule hex_decode_hex_encode)

section \<open>Trimming, splitting and joining\<close>

abbreviation is_space :: "char \<Rightarrow> bool" where
  "is_space c \<equiv> c = CHR '' ''"

definition trim_right :: "string \<Rightarrow> string" where
  "trim_right s = rev (dropWhile is_space (rev s))"

text \<open>\<^verbatim>\<open>strings.Trim(s, " ")\<close>\<close>

definition trim_spaces :: "string \<Rightarrow> string" where
  "trim_spaces s = trim_right (dropWhile is_space s)"

text \<open>\<^verbatim>\<open>unicode.IsSpace\<close>, and whether \<^verbatim>\<open>strings.TrimSpace(s)\<close> is empty.\<close>

definition IsSpace :: "rune \<Rightarrow> bool" where
  "IsSpace r \<longleftrightarrow> 0x09 \<le> r \<and> r \<le> 0x0D
     \<or> r \<in> {0x20, 0x85, 0xA0, 0x1680, 0x2028, 0x2029, 0x202F, 0x205F, 0x3000}
     \<or> 0x2000 \<le> r \<and> r \<le> 0x200A"

definition blank :: "string \<Rightarrow> bool" where
  "blank s \<longleftrightarrow> list_all IsSpace (runes s)"

text \<open>\<^verbatim>\<open>strings.Split\<close> at a one-byte separator, and \<^verbatim>\<open>strings.Join\<close>.\<close>

fun split_at :: "char \<Rightarrow> string \<Rightarrow> string list" where
  "split_at c [] = [[]]"
| "split_at c (x # xs) =
     (if x = c then [] # split_at c xs
      else (case split_at c xs of [] \<Rightarrow> [[x]] | y # ys \<Rightarrow> (x # y) # ys))"

fun join :: "string \<Rightarrow> string list \<Rightarrow> string" where
  "join sep [] = []"
| "join sep [x] = x"
| "join sep (x # y # ys) = x @ sep @ join sep (y # ys)"

lemma split_at_not_Nil [simp]: "split_at c s \<noteq> []"
  by (cases s) (auto split: list.splits)

lemma split_at_piece:
  "c \<notin> set x \<Longrightarrow> split_at c (x @ c # s) = x # split_at c s"
  by (induction x) auto

lemma split_at_last: "c \<notin> set x \<Longrightarrow> split_at c x = [x]"
  by (induction x) auto

lemma split_at_join:
  "xs \<noteq> [] \<Longrightarrow> \<forall>x \<in> set xs. c \<notin> set x \<Longrightarrow> split_at c (join [c] xs) = xs"
  by (induction "[c]" xs rule: join.induct) (auto simp: split_at_last split_at_piece)

lemma trim_right_snoc [simp]:
  "\<not> is_space c \<Longrightarrow> trim_right (s @ [c]) = s @ [c]"
  "trim_right (s @ [CHR '' '']) = trim_right s"
  by (simp_all add: trim_right_def)

lemma trim_right_Nil [simp]: "trim_right [] = []"
  by (simp add: trim_right_def)

lemma trim_spaces_id: "s \<noteq> [] \<Longrightarrow> \<not> is_space (hd s) \<Longrightarrow> trim_spaces s = trim_right s"
  by (cases s) (simp_all add: trim_spaces_def)

text \<open>\<^verbatim>\<open>%d\<close> of a number that is not negative.\<close>

fun decimal :: "nat \<Rightarrow> string" where
  "decimal n = (if n < 10 then [char_of (0x30 + n)] else decimal (n div 10) @ [char_of (0x30 + n mod 10)])"

declare decimal.simps [simp del]

section \<open>Sorting\<close>

text \<open>\<^verbatim>\<open>sort.Strings\<close>: the increasing bytewise lexicographic order.\<close>

definition sort_strings :: "string list \<Rightarrow> string list" where
  "sort_strings xs = sort xs"

lemma sort_strings_map: "sort_strings (map f xs) = map f (sort_key f xs)"
  by (simp add: sort_strings_def sort_map_sort_key)

lemma mset_sort_strings [simp]: "mset (sort_strings xs) = mset xs"
  by (simp add: sort_strings_def)

section \<open>Case folding\<close>

text \<open>
  \<^verbatim>\<open>unicode.SimpleFold\<close> walks through the orbit of a rune under simple case folding; its tables
  are a parameter \<^verbatim>\<open>sf\<close> of everything that folds.  \<^verbatim>\<open>strings.EqualFold\<close> compares the runes of
  two strings one by one: ASCII letters by their case pair, other runes by walking the orbit
  upwards from the smaller rune.  The walk stops where the orbit wraps around: from there it only
  climbs back to the rune it started from, which is smaller than the one looked for.
\<close>

type_synonym simple_fold = "rune \<Rightarrow> rune"

text \<open>A rune is an int32, so a walk that only goes up has an end.\<close>

abbreviation max_int32 :: nat where "max_int32 \<equiv> 2 ^ 31 - 1"

function fold_walk :: "simple_fold \<Rightarrow> rune \<Rightarrow> rune \<Rightarrow> bool" where
  "fold_walk sf r target =
     (let r2 = sf r in
      if r2 = target then True
      else if r2 \<le> r \<or> target < r2 \<or> max_int32 < r2 then False
      else fold_walk sf r2 target)"
  by pat_completeness auto
termination
  by (relation "measure (\<lambda>(sf, r, target). target - r)") auto

declare fold_walk.simps [simp del]

definition upper_lower :: "rune \<Rightarrow> rune \<Rightarrow> bool" where
  "upper_lower r r' \<longleftrightarrow> 0x41 \<le> r \<and> r \<le> 0x5A \<and> r' = r + 0x20"

definition EqualFold_rune :: "simple_fold \<Rightarrow> rune \<Rightarrow> rune \<Rightarrow> bool" where
  "EqualFold_rune sf r r' =
     (let lo = min r r'; hi = max r r' in
      if lo = hi then True
      else if hi < 0x80 then upper_lower lo hi
      else fold_walk sf lo hi)"

definition EqualFold :: "simple_fold \<Rightarrow> string \<Rightarrow> string \<Rightarrow> bool" where
  "EqualFold sf s t \<longleftrightarrow> list_all2 (EqualFold_rune sf) (runes s) (runes t)"

end
