(* ===== verification/DN_Text.thy ===== *)
theory DN_Text
  imports Go_Strings
begin

text \<open>
  The text of an attribute type or value of a distinguished name, \<^verbatim>\<open>src/v3/dn.go\<close>: stripping
  spaces, decoding and encoding escapes, and that decoding undoes encoding on every byte string.
\<close>

abbreviation SQUOTE :: char where
  "SQUOTE \<equiv> CHR 0x27"

section \<open>Decoding an attribute type or value\<close>

definition trailing_backslashes :: "string \<Rightarrow> nat" where
  "trailing_backslashes s = length (takeWhile (\<lambda>c. c = BSLASH) (rev s))"

definition stripLeadingAndTrailingSpaces :: "string \<Rightarrow> string" where
  "stripLeadingAndTrailingSpaces inVal =
     (let noSpaces = trim_spaces inVal in
      if noSpaces \<noteq> [] \<and> last inVal = CHR '' '' then
        (let backslashes = trailing_backslashes noSpaces in
         if backslashes mod 2 = 1 then noSpaces @ '' '' else noSpaces)
      else noSpaces)"

text \<open>The escaped characters that stand for themselves: space, \<^verbatim>\<open>" # + , ; < = > \\<close>.\<close>

definition escapable :: "rune \<Rightarrow> bool" where
  "escapable r \<longleftrightarrow> r \<in> {0x20, 0x22, 0x23, 0x2B, 0x2C, 0x3B, 0x3C, 0x3D, 0x3E, 0x5C}"

definition prepend :: "string \<Rightarrow> go_error + string \<Rightarrow> go_error + string" where
  "prepend t res = (case res of Inl e \<Rightarrow> Inl e | Inr u \<Rightarrow> Inr (t @ u))"

text \<open>The loop of \<^verbatim>\<open>decodeString\<close>; its first argument is the whole input, for the error text.\<close>

fun decodeRunes :: "rune list \<Rightarrow> rune list \<Rightarrow> go_error + string" where
  "decodeRunes s [] = Inr []"
| "decodeRunes s (r # rest) =
     (if r \<noteq> 0x5C then
        (if r \<in> {0x22, 0x3B, 0x3C, 0x3E} then
           Inl (ErrText (''got unescaped character: '' @ [SQUOTE] @ EncodeRune r @ [SQUOTE]))
         else if r = 0 then Inl (ErrText ''got unescaped NULL character'')
         else prepend (EncodeRune r) (decodeRunes s rest))
      else
        (case rest of
           [] \<Rightarrow> Inl (ErrText (''got corrupted escaped character: '' @ [SQUOTE] @ encodeRunes s @ [SQUOTE]))
         | x # rest1 \<Rightarrow>
             if escapable x then prepend (EncodeRune x) (decodeRunes s rest1)
             else
               (case rest1 of
                  [] \<Rightarrow> Inl (ErrText (''failed to decode escaped character: encoding/hex: invalid byte: ''
                                     @ EncodeRune x))
                | y # rest2 \<Rightarrow>
                    let xx = encodeRunes [x, y] in
                    if length xx \<noteq> 2 then
                      Inl (ErrText (''failed to decode escaped character: invalid byte: '' @ xx))
                    else
                      (case hex_decode xx of
                         Inl e \<Rightarrow> Inl (ErrTextOf ''failed to decode escaped character: '' e)
                       | Inr dst \<Rightarrow>
                           if length dst \<noteq> 1 then
                             Inl (ErrText (''failed to decode escaped character: encoding/hex: expected 1 byte when un-escaping, got ''
                                  @ decimal (length dst)))
                           else prepend dst (decodeRunes s rest2)))))"

definition decodeString :: "string \<Rightarrow> go_error + string" where
  "decodeString str =
     (let s = runes (stripLeadingAndTrailingSpaces str) in decodeRunes s s)"

section \<open>Encoding an attribute type or value\<close>

text \<open>The body of the loop of \<^verbatim>\<open>encodeString\<close> at index \<^verbatim>\<open>i\<close> of a string of length \<^verbatim>\<open>n\<close>.\<close>

definition encodeByte :: "nat \<Rightarrow> nat \<Rightarrow> bool \<Rightarrow> char \<Rightarrow> string" where
  "encodeByte i n isValue c =
     (if i = 0 \<and> (c = CHR '' '' \<or> c = CHR ''#'') then [BSLASH, c]
      else if i + 1 = n \<and> c = CHR '' '' then [BSLASH, c]
      else if c \<in> {DQUOTE, CHR ''+'', CHR '','', CHR '';'', CHR ''<'', CHR ''>'', BSLASH} then [BSLASH, c]
      else if \<not> isValue \<and> c = CHR ''='' then [BSLASH, c]
      else if ord c < 0x20 \<or> 0x7E < ord c then BSLASH # hexByte c
      else [c])"

fun encodeBytes :: "nat \<Rightarrow> nat \<Rightarrow> bool \<Rightarrow> string \<Rightarrow> string" where
  "encodeBytes i n isValue [] = []"
| "encodeBytes i n isValue (c # cs) = encodeByte i n isValue c @ encodeBytes (Suc i) n isValue cs"

definition encodeString :: "string \<Rightarrow> bool \<Rightarrow> string" where
  "encodeString v isValue = encodeBytes 0 (length v) isValue v"

section \<open>Decoding undoes encoding\<close>

text \<open>
  An escaped text is a sequence of tokens.  A token that ends in a backslash is the escaped
  backslash itself, so the backslashes at the end of an escaped text pair up, and a final escaped
  space keeps its backslash odd: this is what makes \<^const>\<open>stripLeadingAndTrailingSpaces\<close> leave an
  escaped text alone.
\<close>

definition escape_token :: "string \<Rightarrow> bool" where
  "escape_token t \<longleftrightarrow> t = [BSLASH, BSLASH] \<or> t \<noteq> [] \<and> last t \<noteq> BSLASH"

lemma trailing_backslashes_simps [simp]:
  "trailing_backslashes [] = 0"
  "trailing_backslashes (s @ [c]) = (if c = BSLASH then Suc (trailing_backslashes s) else 0)"
  by (simp_all add: trailing_backslashes_def)

lemma trailing_backslashes_token:
  assumes "escape_token t"
  shows "even (trailing_backslashes (s @ t)) \<longleftrightarrow> t \<noteq> [BSLASH, BSLASH] \<or> even (trailing_backslashes s)"
proof (cases "t = [BSLASH, BSLASH]")
  case False
  with assms obtain u c where "t = u @ [c]" "c \<noteq> BSLASH"
    by (cases t rule: rev_cases) (auto simp: escape_token_def)
  with False show ?thesis using trailing_backslashes_simps(2) [of "s @ u" c] by simp
next
  case True
  then show ?thesis using trailing_backslashes_simps(2) [of "s @ [BSLASH]" BSLASH] by simp
qed

lemma even_trailing_backslashes:
  "list_all escape_token ts \<Longrightarrow> even (trailing_backslashes (concat ts))"
  by (induction ts rule: rev_induct) (auto simp: trailing_backslashes_token)

lemma strip_escaped_text:
  assumes tokens: "list_all escape_token ts" and head: "concat ts @ t \<noteq> []" "\<not> is_space (hd (concat ts @ t))"
    and final: "t = [BSLASH, CHR '' ''] \<or> t \<noteq> [] \<and> \<not> is_space (last t)"
  shows "stripLeadingAndTrailingSpaces (concat ts @ t) = concat ts @ t"
proof (cases "t = [BSLASH, CHR '' '']")
  case True
  have "trim_right (concat ts @ [BSLASH, CHR '' '']) = concat ts @ [BSLASH]"
    using trim_right_snoc(2) [of "concat ts @ [BSLASH]"] trim_right_snoc(1) [of BSLASH "concat ts"]
    by simp
  moreover have "Suc (trailing_backslashes (concat ts)) mod 2 = 1"
    using even_trailing_backslashes [OF tokens] by presburger
  ultimately show ?thesis
    using head by (simp add: True stripLeadingAndTrailingSpaces_def trim_spaces_id)
next
  case False
  with final obtain u c where t: "t = u @ [c]" "\<not> is_space c"
    by (cases t rule: rev_cases) auto
  then have "trim_right (concat ts @ t) = concat ts @ t"
    using trim_right_snoc(1) [of c "concat ts @ u"] by simp
  with head t show ?thesis by (simp add: stripLeadingAndTrailingSpaces_def trim_spaces_id)
qed

lemma encodeByte_cases:
  obtains (escaped) "encodeByte i n isValue c = [BSLASH, c]" "escapable (ord c)"
  | (hex) "encodeByte i n isValue c = BSLASH # hexByte c"
  | (plain) "encodeByte i n isValue c = [c]" "0x20 \<le> ord c" "ord c \<le> 0x7E"
      "ord c \<notin> {0x22, 0x3B, 0x3C, 0x3E, 0x5C}" "i = 0 \<or> i + 1 = n \<Longrightarrow> \<not> is_space c"
proof -
  have "encodeByte i n isValue c = [BSLASH, c] \<and> escapable (ord c)
    \<or> encodeByte i n isValue c = BSLASH # hexByte c
    \<or> encodeByte i n isValue c = [c] \<and> 0x20 \<le> ord c \<and> ord c \<le> 0x7E
        \<and> ord c \<notin> {0x22, 0x3B, 0x3C, 0x3E, 0x5C} \<and> (i = 0 \<or> i + 1 = n \<longrightarrow> \<not> is_space c)"
    unfolding encodeByte_def escapable_def by (auto simp: char_lit_iff)
  then show thesis using that by blast
qed

lemma hexDigit_plain [simp]: "n < 16 \<Longrightarrow> hexDigit n \<noteq> BSLASH" "n < 16 \<Longrightarrow> \<not> is_space (hexDigit n)"
  by (simp_all add: hexDigit_cases char_lit_iff)

lemma encodeByte_token [simp]: "escape_token (encodeByte i n isValue c)"
  by (cases rule: encodeByte_cases [of i n isValue c])
    (auto simp: escape_token_def hexByte_def)


lemma encodeByte_ascii [simp]: "ascii_string (encodeByte i n isValue c)"
proof (cases rule: encodeByte_cases [of i n isValue c])
  case escaped
  then show ?thesis by (auto simp: escapable_def is_ascii_def)
qed (auto simp: is_ascii_def hexByte_def hexDigit_ascii [unfolded is_ascii_def])

lemma encodeBytes_ascii: "ascii_string (encodeBytes i n isValue cs)"
  by (induction cs arbitrary: i) auto

lemma decodeRunes_encodeByte [escape_simps]:
  "decodeRunes s (map ord (encodeByte i n isValue c) @ rs) = prepend [c] (decodeRunes s rs)"
proof (cases rule: encodeByte_cases [of i n isValue c])
  case escaped
  then have "ord c < 128" by (auto simp: escapable_def)
  with escaped show ?thesis by simp
next
  case hex
  have "\<not> escapable (ord (hexDigit (ord c div 16)))"
    by (simp add: ord_hexDigit escapable_def)
  moreover have "ord (hexDigit k) < 128" if "k < 16" for k
    using that by (simp add: ord_hexDigit)
  ultimately show ?thesis by (simp add: hex hexByte_def)
next
  case plain
  then show ?thesis by simp
qed

lemma decodeRunes_encodeBytes:
  "decodeRunes s (map ord (encodeBytes i n isValue cs)) = Inr cs"
  by (induction cs arbitrary: i) (simp_all add: decodeRunes_encodeByte prepend_def)

lemma encodeBytes_snoc:
  "encodeBytes i n isValue (cs @ [c]) = encodeBytes i n isValue cs @ encodeByte (i + length cs) n isValue c"
  by (induction cs arbitrary: i) simp_all

lemma encodeBytes_tokens: "\<exists>ts. list_all escape_token ts \<and> encodeBytes i n isValue cs = concat ts"
proof (induction cs arbitrary: i)
  case (Cons c cs)
  then obtain ts where "list_all escape_token ts" "encodeBytes (Suc i) n isValue cs = concat ts"
    by blast
  then show ?case by (intro exI [of _ "encodeByte i n isValue c # ts"]) simp
qed (auto intro: exI [of _ "[]"])

lemma hd_encodeByte_0: "\<not> is_space (hd (encodeByte 0 n isValue c))"
  by (cases rule: encodeByte_cases [of 0 n isValue c]) auto

lemma encodeByte_not_Nil [simp]: "encodeByte i n isValue c \<noteq> []"
  by (cases rule: encodeByte_cases [of i n isValue c]) auto

lemma last_encodeByte:
  "Suc i = n \<Longrightarrow> encodeByte i n isValue c = [BSLASH, CHR '' ''] \<or> \<not> is_space (last (encodeByte i n isValue c))"
  by (cases rule: encodeByte_cases [of i n isValue c]) (auto simp: hexByte_def)

lemma strip_encodeString: "stripLeadingAndTrailingSpaces (encodeString v isValue) = encodeString v isValue"
proof (cases v rule: rev_cases)
  case Nil
  then show ?thesis
    by (simp add: encodeString_def stripLeadingAndTrailingSpaces_def trim_spaces_def)
next
  case (snoc u c)
  let ?n = "Suc (length u)"
  obtain ts where ts: "list_all escape_token ts" "encodeBytes 0 ?n isValue u = concat ts"
    using encodeBytes_tokens by blast
  have enc: "encodeString v isValue = concat ts @ encodeByte (length u) ?n isValue c"
    by (simp add: encodeString_def snoc encodeBytes_snoc ts)
  moreover have "\<not> is_space (hd (concat ts @ encodeByte (length u) ?n isValue c))"
  proof -
    have "\<not> is_space (hd (encodeBytes 0 ?n isValue (u @ [c])))"
      using hd_encodeByte_0 by (cases u) (simp_all add: hd_append)
    then show ?thesis by (simp add: encodeBytes_snoc ts)
  qed
  ultimately show ?thesis
    using ts(1) last_encodeByte [of "length u" ?n isValue c] by (auto intro!: strip_escaped_text)
qed

lemma decodeString_encodeString: "decodeString (encodeString v isValue) = Inr v"
  unfolding decodeString_def strip_encodeString
  by (simp add: encodeString_def runes_ascii encodeBytes_ascii decodeRunes_encodeBytes)

interpretation dn_text: codec "\<lambda>_. True" "\<lambda>v. encodeString v isValue" decodeString for isValue
  by unfold_locales (rule decodeString_encodeString)

end
