(* ===== verification/DN_Fold.thy ===== *)
theory DN_Fold
  imports Go_Strings
begin

text \<open>
  Case folding of attribute types, \<^verbatim>\<open>foldString\<close> and \<^verbatim>\<open>foldRune\<close> of \<^verbatim>\<open>src/v3/dn.go\<close>, and how it
  relates to \<^verbatim>\<open>strings.EqualFold\<close> under what Go documents of \<^verbatim>\<open>unicode.SimpleFold\<close>.
\<close>

section \<open>The program's folding\<close>

function foldRune :: "simple_fold \<Rightarrow> rune \<Rightarrow> rune" where
  "foldRune sf r =
     (let r2 = sf r in
      if r2 \<le> r \<or> max_int32 < r2 then r else foldRune sf r2)"
  by pat_completeness auto
termination
  by (relation "measure (\<lambda>(sf, r). max_int32 - r)") auto

declare foldRune.simps [simp del]

definition foldChar :: "simple_fold \<Rightarrow> rune \<Rightarrow> rune" where
  "foldChar sf r =
     (if r < 0x80 then (if 0x41 \<le> r \<and> r \<le> 0x5A then r + 0x20 else r)
      else foldRune sf r)"

definition foldString :: "simple_fold \<Rightarrow> string \<Rightarrow> string" where
  "foldString sf s = encodeRunes (map (foldChar sf) (runes s))"

text \<open>The largest runes of the orbits a string runs through: a key for equality under folding.\<close>

definition fold_key :: "simple_fold \<Rightarrow> string \<Rightarrow> rune list" where
  "fold_key sf s = map (foldRune sf) (runes s)"

section \<open>What Go documents of SimpleFold\<close>

text \<open>
  Among the code points equivalent to \<^verbatim>\<open>r\<close> under simple case folding, \<^verbatim>\<open>SimpleFold(r)\<close> is the
  smallest one above \<^verbatim>\<open>r\<close>, or the smallest one when there is none above.  Only code points are
  equivalent to one another, and two ASCII characters are equivalent exactly when they are the two
  cases of one letter.
\<close>

locale simple_folding =
  fixes sf :: simple_fold and same :: "rune \<Rightarrow> rune \<Rightarrow> bool"
  assumes same_equiv: "equivp same"
    and same_valid: "same r r' \<Longrightarrow> r \<noteq> r' \<Longrightarrow> valid_rune r'"
    and next_above: "same r r' \<Longrightarrow> r < r' \<Longrightarrow> same r (sf r) \<and> r < sf r \<and> sf r \<le> r'"
    and wraps: "\<forall>r'. same r r' \<longrightarrow> r' \<le> r \<Longrightarrow> same r (sf r) \<and> sf r \<le> r"
    and same_ascii: "r < 0x80 \<Longrightarrow> r' < 0x80 \<Longrightarrow>
      same r r' \<longleftrightarrow> r = r' \<or> upper_lower r r' \<or> upper_lower r' r"
begin

lemma same_refl [simp]: "same r r"
  using same_equiv by (rule equivp_reflp)

lemma same_sym: "same r r' \<Longrightarrow> same r' r"
  using same_equiv by (rule equivp_symp)

lemma same_trans: "same r r' \<Longrightarrow> same r' r'' \<Longrightarrow> same r r''"
  using same_equiv by (rule equivp_transp)

lemma same_next: "same r (sf r)"
  using next_above wraps by (meson linorder_not_le)

lemma above_iff: "r < sf r \<longleftrightarrow> (\<exists>r' > r. same r r')"
  using next_above wraps same_next by (meson linorder_not_le)

lemma next_bounded: "r < sf r \<Longrightarrow> sf r \<le> max_int32"
  using same_valid [OF same_next, of r] by (auto simp: valid_rune_def)

text \<open>The program's loop stops at the largest member of the orbit.\<close>

lemma foldRune_step:
  "foldRune sf r = (if r < sf r then foldRune sf (sf r) else r)"
proof (cases "r < sf r")
  case True
  with next_bounded [of r] show ?thesis by (simp add: foldRune.simps [of sf r])
qed (simp add: foldRune.simps [of sf r])

lemma climb_induct [case_names climb]:
  assumes "\<And>r. (r < sf r \<Longrightarrow> P (sf r)) \<Longrightarrow> P r"
  shows "P r"
proof (induction r rule: measure_induct_rule [of "\<lambda>r. max_int32 - r"])
  case (less r)
  show ?case
  proof (rule assms)
    assume "r < sf r"
    with next_bounded [of r] show "P (sf r)" by (intro less) linarith
  qed
qed

lemma same_foldRune: "same r (foldRune sf r)"
proof (induction r rule: climb_induct)
  case (climb r)
  then show ?case
    by (subst foldRune_step) (auto intro: same_trans [OF same_next])
qed

lemma foldRune_largest: "same r r' \<Longrightarrow> r' \<le> foldRune sf r"
proof (induction r rule: climb_induct)
  case (climb r)
  show ?case
  proof (cases "r < sf r")
    case True
    have "same (sf r) r'"
      using climb.prems same_next same_sym same_trans by blast
    with climb True show ?thesis by (simp add: foldRune_step [of r])
  next
    case False
    with climb.prems have "r' \<le> r" using above_iff [of r] by (meson linorder_not_le)
    with False show ?thesis by (simp add: foldRune_step [of r])
  qed
qed

lemma same_iff_foldRune: "same r r' \<longleftrightarrow> foldRune sf r = foldRune sf r'"
proof
  assume "same r r'"
  then have "same r (foldRune sf r')" "same r' (foldRune sf r)"
    using same_foldRune same_sym same_trans by blast+
  then show "foldRune sf r = foldRune sf r'"
    using foldRune_largest by (blast intro: antisym)
next
  assume "foldRune sf r = foldRune sf r'"
  then show "same r r'" using same_foldRune same_sym same_trans by metis
qed

lemma fold_walk_iff: "r < r' \<Longrightarrow> fold_walk sf r r' \<longleftrightarrow> same r r'"
proof (induction r rule: climb_induct)
  case (climb r)
  consider "sf r = r'" | "sf r \<le> r" "sf r \<noteq> r'" | "r' < sf r" "r < sf r" | "r < sf r" "sf r < r'"
    using climb.prems by linarith
  then show ?case
  proof cases
    case 1
    then show ?thesis using same_next [of r] by (simp add: fold_walk.simps [of sf r])
  next
    case 2
    then have "\<not> same r r'" using climb.prems above_iff [of r] by auto
    with 2 show ?thesis by (simp add: fold_walk.simps [of sf r])
  next
    case 3
    then have "\<not> same r r'" using climb.prems next_above [of r r'] by auto
    with 3 show ?thesis by (simp add: fold_walk.simps [of sf r])
  next
    case 4
    then have "fold_walk sf r r' \<longleftrightarrow> fold_walk sf (sf r) r'"
      using next_bounded [of r] by (simp add: fold_walk.simps [of sf r])
    moreover have "same (sf r) r' \<longleftrightarrow> same r r'"
      using same_next same_sym same_trans by blast
    ultimately show ?thesis using 4 climb.IH by simp
  qed
qed

lemma EqualFold_rune_iff: "EqualFold_rune sf r r' \<longleftrightarrow> same r r'"
proof (cases r r' rule: linorder_cases)
  case less
  then show ?thesis
    by (auto simp: EqualFold_rune_def min_def max_def same_ascii fold_walk_iff upper_lower_def)
next
  case equal
  then show ?thesis by (simp add: EqualFold_rune_def)
next
  case greater
  then have "same r' r \<longleftrightarrow> same r r'" using same_sym by blast
  with greater show ?thesis
    by (auto simp: EqualFold_rune_def min_def max_def same_ascii fold_walk_iff upper_lower_def)
qed

lemma EqualFold_iff: "EqualFold sf s t \<longleftrightarrow> fold_key sf s = fold_key sf t"
proof -
  have "EqualFold_rune sf = (\<lambda>r r'. foldRune sf r = foldRune sf r')"
    by (intro ext) (simp add: EqualFold_rune_iff same_iff_foldRune)
  then show ?thesis
    by (simp add: EqualFold_def fold_key_def list_all2_map1 list_all2_map2 flip: list.rel_eq)
qed

text \<open>Every rune is equivalent to what \<^verbatim>\<open>foldString\<close> writes for it, so strings with the same folded
  form are equal under folding.\<close>

lemma same_foldChar: "same r (foldChar sf r)"
  by (simp add: foldChar_def same_foldRune same_ascii upper_lower_def)

lemma valid_foldChar: "valid_rune r \<Longrightarrow> valid_rune (foldChar sf r)"
  using same_valid [OF same_foldChar, of r] by metis

lemma runes_foldString: "runes (foldString sf s) = map (foldChar sf) (runes s)"
  unfolding foldString_def
  by (rule runes_encodeRunes) (use valid_runes [of s] valid_foldChar in \<open>auto simp: list_all_iff\<close>)

lemma fold_key_foldString: "fold_key sf (foldString sf s) = fold_key sf s"
proof -
  have "foldRune sf (foldChar sf r) = foldRune sf r" for r
    using same_foldChar [of r] by (simp add: same_iff_foldRune)
  then show ?thesis by (simp add: fold_key_def runes_foldString)
qed

lemma EqualFold_foldString: "EqualFold sf (foldString sf s) s"
  by (simp add: EqualFold_iff fold_key_foldString)

lemma foldString_eq_imp_EqualFold: "foldString sf s = foldString sf t \<Longrightarrow> EqualFold sf s t"
  by (metis EqualFold_iff fold_key_foldString)

lemma foldString_idem: "foldString sf (foldString sf s) = foldString sf s"
proof -
  have "foldRune sf (foldRune sf r) = foldRune sf r" for r
    using same_foldRune [of r] by (simp add: same_iff_foldRune)
  moreover have "r \<le> foldRune sf r" for r by (rule foldRune_largest) simp
  ultimately have "foldChar sf (foldChar sf r) = foldChar sf r" for r
    by (auto simp: foldChar_def) (meson linorder_not_le order_trans)
  then have "map (foldChar sf) (runes (foldString sf s)) = map (foldChar sf) (runes s)"
    by (simp add: runes_foldString)
  then show ?thesis by (metis foldString_def)
qed

end

section \<open>The Basic Latin part of the table\<close>

text \<open>
  Go's table restricted to the orbits that contain an ASCII letter: the two cases of each letter,
  with the Kelvin sign joining K and k, and the long s joining S and s.
\<close>

definition latin_class :: "rune \<Rightarrow> rune" where
  "latin_class r =
     (if 0x41 \<le> r \<and> r \<le> 0x5A then r + 0x20
      else if r = 0x212A then 0x6B else if r = 0x17F then 0x73 else r)"

definition latin_SimpleFold :: simple_fold where
  "latin_SimpleFold r =
     (if 0x41 \<le> r \<and> r \<le> 0x5A then r + 0x20
      else if r = 0x6B then 0x212A else if r = 0x212A then 0x4B
      else if r = 0x73 then 0x17F else if r = 0x17F then 0x53
      else if 0x61 \<le> r \<and> r \<le> 0x7A then r - 0x20
      else r)"

lemma latin_next_above:
  assumes "latin_class r = latin_class r'" "r < r'"
  shows "r < latin_SimpleFold r \<and> latin_SimpleFold r \<le> r'"
proof (cases "0x41 \<le> r \<and> r \<le> 0x5A")
  case True
  with assms have "latin_class r' = r + 0x20" by (simp add: latin_class_def)
  with assms(2) True have "r + 0x20 \<le> r'" by (auto simp: latin_class_def split: if_splits)
  with True show ?thesis by (simp add: latin_SimpleFold_def)
next
  case False
  with assms have "r = 0x6B \<and> r' = 0x212A \<or> r = 0x73 \<and> r' = 0x17F"
    by (auto simp: latin_class_def split: if_splits)
  then show ?thesis by (auto simp: latin_SimpleFold_def)
qed

lemma latin_class_SimpleFold: "latin_class (latin_SimpleFold r) = latin_class r"
  unfolding latin_SimpleFold_def latin_class_def by auto

interpretation latin: simple_folding latin_SimpleFold "\<lambda>r r'. latin_class r = latin_class r'"
proof
  show "equivp (\<lambda>r r'. latin_class r = latin_class r')"
    by (auto intro!: equivpI reflpI sympI transpI)
next
  fix r r' :: rune
  assume "latin_class r = latin_class r'" "r \<noteq> r'"
  then show "valid_rune r'" by (auto simp: latin_class_def valid_rune_def split: if_splits)
next
  fix r r' :: rune
  assume "latin_class r = latin_class r'" "r < r'"
  then show "latin_class r = latin_class (latin_SimpleFold r) \<and> r < latin_SimpleFold r
      \<and> latin_SimpleFold r \<le> r'"
    using latin_next_above by (simp add: latin_class_SimpleFold)
next
  fix r :: rune
  assume "\<forall>r'. latin_class r = latin_class r' \<longrightarrow> r' \<le> r"
  then show "latin_class r = latin_class (latin_SimpleFold r) \<and> latin_SimpleFold r \<le> r"
    by (simp add: latin_class_SimpleFold)
next
  fix r r' :: rune
  assume "r < 0x80" "r' < 0x80"
  then show "latin_class r = latin_class r' \<longleftrightarrow> r = r' \<or> upper_lower r r' \<or> upper_lower r' r"
    by (auto simp: latin_class_def upper_lower_def)
qed

end
