(* ===== verification/LDAP_DN.thy ===== *)
theory LDAP_DN
  imports DN_Text DN_Fold
begin

text \<open>
  Distinguished names, \<^verbatim>\<open>src/v3/dn.go\<close>: the structures, the normalised string form, the parser,
  equality and ancestry.
\<close>

section \<open>Data\<close>

record AttributeTypeAndValue =
  attr_Type :: string
  attr_Value :: string

record RelativeDN =
  Attributes :: "AttributeTypeAndValue list"

record DN =
  RDNs :: "RelativeDN list"

abbreviation new_attr :: AttributeTypeAndValue where
  "new_attr \<equiv> \<lparr>attr_Type = [], attr_Value = []\<rparr>"

section \<open>The normalised string form\<close>

definition AttributeTypeAndValue_String :: "simple_fold \<Rightarrow> AttributeTypeAndValue \<Rightarrow> string" where
  "AttributeTypeAndValue_String sf a =
     encodeString (foldString sf (attr_Type a)) False @ ''='' @ encodeString (attr_Value a) True"

definition RelativeDN_String :: "simple_fold \<Rightarrow> RelativeDN \<Rightarrow> string" where
  "RelativeDN_String sf r =
     join ''+'' (sort_strings (map (AttributeTypeAndValue_String sf) (Attributes r)))"

definition DN_String :: "simple_fold \<Rightarrow> DN \<Rightarrow> string" where
  "DN_String sf d = join '','' (map (RelativeDN_String sf) (RDNs d))"

section \<open>Setting the type and the value of an attribute\<close>

definition setType :: "AttributeTypeAndValue \<Rightarrow> string \<Rightarrow> go_error + AttributeTypeAndValue" where
  "setType a str =
     (case decodeString str of
        Inl e \<Rightarrow> Inl e
      | Inr result \<Rightarrow> Inr (a\<lparr>attr_Type := result\<rparr>))"

text \<open>The hexadecimal form: one BER element and nothing after it.  \<^verbatim>\<open>String()\<close> of a nil buffer is
  the text \<^verbatim>\<open><nil>\<close>.\<close>

definition decodeEncodedString :: "ber \<Rightarrow> string \<Rightarrow> go_error + string" where
  "decodeEncodedString B str =
     (case hex_decode str of
        Inl e \<Rightarrow> Inl (ErrWrap ''failed to decode BER encoding: '' e)
      | Inr decoded \<Rightarrow>
          (case ber_ReadPacket B decoded of
             Inl e \<Rightarrow> Inl (ErrWrap ''failed to decode BER encoding: '' e)
           | Inr (packet, rest) \<Rightarrow>
               if rest \<noteq> [] then
                 Inl (ErrText ''failed to decode BER encoding: trailing bytes after value'')
               else Inr (case Data packet of None \<Rightarrow> ''<nil>'' | Some d \<Rightarrow> d)))"

definition setValue :: "ber \<Rightarrow> AttributeTypeAndValue \<Rightarrow> string \<Rightarrow> go_error + AttributeTypeAndValue" where
  "setValue B a s =
     (if s \<noteq> [] \<and> hd s = CHR ''#'' then
        (case decodeEncodedString B (tl s) of
           Inl e \<Rightarrow> Inl e
         | Inr v \<Rightarrow> Inr (a\<lparr>attr_Value := v\<rparr>))
      else
        (case decodeString s of
           Inl e \<Rightarrow> Inl e
         | Inr v \<Rightarrow> Inr (a\<lparr>attr_Value := v\<rparr>)))"

section \<open>The parser\<close>

text \<open>
  The variables of \<^verbatim>\<open>ParseDN\<close>'s loop.  \<^verbatim>\<open>seg\<close> is the slice \<^verbatim>\<open>str[startPos:i]\<close>: it starts empty
  after each assignment \<^verbatim>\<open>startPos = i + 1\<close> and grows by the character at \<^verbatim>\<open>i\<close> otherwise.
\<close>

record parse_state =
  ps_dn :: DN
  ps_rdn :: RelativeDN
  ps_attr :: AttributeTypeAndValue
  ps_escaping :: bool
  ps_seg :: string

definition parse_start :: parse_state where
  "parse_start = \<lparr>ps_dn = \<lparr>RDNs = []\<rparr>, ps_rdn = \<lparr>Attributes = []\<rparr>, ps_attr = new_attr,
                  ps_escaping = False, ps_seg = []\<rparr>"

definition appendAttributesToRDN :: "bool \<Rightarrow> parse_state \<Rightarrow> parse_state" where
  "appendAttributesToRDN end st =
     (let rdn = \<lparr>Attributes = Attributes (ps_rdn st) @ [ps_attr st]\<rparr> in
      if end then
        st\<lparr>ps_attr := new_attr, ps_dn := \<lparr>RDNs = RDNs (ps_dn st) @ [rdn]\<rparr>,
           ps_rdn := \<lparr>Attributes = []\<rparr>\<rparr>
      else st\<lparr>ps_attr := new_attr, ps_rdn := rdn\<rparr>)"

text \<open>One turn of the loop; \<^const>\<open>Inl\<close> is a \<^verbatim>\<open>return\<close> from inside it, with the two values it
  returns.\<close>

definition ParseDN_step :: "ber \<Rightarrow> parse_state \<Rightarrow> char \<Rightarrow> (DN option \<times> go_error) + parse_state" where
  "ParseDN_step B st c =
     (if ps_escaping st then Inr (st\<lparr>ps_escaping := False, ps_seg := ps_seg st @ [c]\<rparr>)
      else if c = BSLASH then Inr (st\<lparr>ps_escaping := True, ps_seg := ps_seg st @ [c]\<rparr>)
      else if c = CHR ''='' \<and> attr_Type (ps_attr st) = [] then
        (case setType (ps_attr st) (ps_seg st) of
           Inl e \<Rightarrow> Inl (None, e)
         | Inr a \<Rightarrow> Inr (st\<lparr>ps_attr := a, ps_seg := []\<rparr>))
      else if c = CHR '','' \<or> c = CHR ''+'' \<or> c = CHR '';'' then
        (if attr_Type (ps_attr st) = [] then
           Inl (Some (ps_dn st), ErrText ''incomplete type, value pair'')
         else
           (case setValue B (ps_attr st) (ps_seg st) of
              Inl e \<Rightarrow> Inl (None, e)
            | Inr a \<Rightarrow>
                Inr (appendAttributesToRDN (c = CHR '','' \<or> c = CHR '';'')
                       (st\<lparr>ps_attr := a, ps_seg := []\<rparr>))))
      else Inr (st\<lparr>ps_seg := ps_seg st @ [c]\<rparr>))"

fun ParseDN_loop :: "ber \<Rightarrow> parse_state \<Rightarrow> string \<Rightarrow> (DN option \<times> go_error) + parse_state" where
  "ParseDN_loop B st [] = Inr st"
| "ParseDN_loop B st (c # cs) =
     (case ParseDN_step B st c of Inl e \<Rightarrow> Inl e | Inr st' \<Rightarrow> ParseDN_loop B st' cs)"

definition ParseDN :: "ber \<Rightarrow> string \<Rightarrow> DN option \<times> go_error option" where
  "ParseDN B str =
     (if blank str then (Some \<lparr>RDNs = []\<rparr>, None)
      else
        (case ParseDN_loop B parse_start str of
           Inl (d, e) \<Rightarrow> (d, Some e)
         | Inr st \<Rightarrow>
             if attr_Type (ps_attr st) = [] then
               (Some (ps_dn st), Some (ErrText ''DN ended with incomplete type, value pair''))
             else
               (case setValue B (ps_attr st) (ps_seg st) of
                  Inl e \<Rightarrow> (Some (ps_dn st), Some e)
                | Inr a \<Rightarrow>
                    (Some (ps_dn (appendAttributesToRDN True (st\<lparr>ps_attr := a\<rparr>))), None))))"

section \<open>Equality and ancestry\<close>

definition AttributeTypeAndValue_Equal ::
    "simple_fold \<Rightarrow> AttributeTypeAndValue \<Rightarrow> AttributeTypeAndValue \<Rightarrow> bool" where
  "AttributeTypeAndValue_Equal sf a other \<longleftrightarrow>
     EqualFold sf (attr_Type a) (attr_Type other) \<and> attr_Value a = attr_Value other"

definition AttributeTypeAndValue_EqualFold ::
    "simple_fold \<Rightarrow> AttributeTypeAndValue \<Rightarrow> AttributeTypeAndValue \<Rightarrow> bool" where
  "AttributeTypeAndValue_EqualFold sf a other \<longleftrightarrow>
     EqualFold sf (attr_Type a) (attr_Type other) \<and> EqualFold sf (attr_Value a) (attr_Value other)"

text \<open>
  The inner loop of \<^verbatim>\<open>hasAllAttributes\<close>: the first attribute of the receiver that is not matched
  yet and equals the candidate is marked; \<^const>\<open>None\<close> when there is none.  The outer loop does so
  for every candidate.
\<close>

fun mark_first :: "('a \<Rightarrow> bool) \<Rightarrow> 'a list \<Rightarrow> bool list \<Rightarrow> bool list option" where
  "mark_first p (x # xs) (m # ms) =
     (if m then map_option (Cons m) (mark_first p xs ms)
      else if p x then Some (True # ms)
      else map_option (Cons m) (mark_first p xs ms))"
| "mark_first p _ _ = None"

fun match_all :: "('a \<Rightarrow> 'a \<Rightarrow> bool) \<Rightarrow> 'a list \<Rightarrow> bool list \<Rightarrow> 'a list \<Rightarrow> bool" where
  "match_all eq mine matched [] = True"
| "match_all eq mine matched (a # as) =
     (case mark_first (\<lambda>my. eq my a) mine matched of
        None \<Rightarrow> False
      | Some matched' \<Rightarrow> match_all eq mine matched' as)"

definition hasAllAttributes :: "simple_fold \<Rightarrow> RelativeDN \<Rightarrow> AttributeTypeAndValue list \<Rightarrow> bool" where
  "hasAllAttributes sf r attrs =
     match_all (AttributeTypeAndValue_Equal sf) (Attributes r)
       (replicate (length (Attributes r)) False) attrs"

definition hasAllAttributesFold :: "simple_fold \<Rightarrow> RelativeDN \<Rightarrow> AttributeTypeAndValue list \<Rightarrow> bool" where
  "hasAllAttributesFold sf r attrs =
     match_all (AttributeTypeAndValue_EqualFold sf) (Attributes r)
       (replicate (length (Attributes r)) False) attrs"

definition RelativeDN_Equal :: "simple_fold \<Rightarrow> RelativeDN \<Rightarrow> RelativeDN \<Rightarrow> bool" where
  "RelativeDN_Equal sf r other =
     (if length (Attributes r) \<noteq> length (Attributes other) then False
      else hasAllAttributes sf r (Attributes other) \<and> hasAllAttributes sf other (Attributes r))"

definition RelativeDN_EqualFold :: "simple_fold \<Rightarrow> RelativeDN \<Rightarrow> RelativeDN \<Rightarrow> bool" where
  "RelativeDN_EqualFold sf r other =
     (if length (Attributes r) \<noteq> length (Attributes other) then False
      else hasAllAttributesFold sf r (Attributes other) \<and> hasAllAttributesFold sf other (Attributes r))"

text \<open>The loops over the RDNs return at the first pair that differs.\<close>

fun all_pairs :: "('a \<Rightarrow> 'a \<Rightarrow> bool) \<Rightarrow> 'a list \<Rightarrow> 'a list \<Rightarrow> bool" where
  "all_pairs eq (x # xs) (y # ys) = (if \<not> eq x y then False else all_pairs eq xs ys)"
| "all_pairs eq _ _ = True"

definition DN_Equal :: "simple_fold \<Rightarrow> DN \<Rightarrow> DN \<Rightarrow> bool" where
  "DN_Equal sf d other =
     (if length (RDNs d) \<noteq> length (RDNs other) then False
      else all_pairs (RelativeDN_Equal sf) (RDNs d) (RDNs other))"

definition DN_EqualFold :: "simple_fold \<Rightarrow> DN \<Rightarrow> DN \<Rightarrow> bool" where
  "DN_EqualFold sf d other =
     (if length (RDNs d) \<noteq> length (RDNs other) then False
      else all_pairs (RelativeDN_EqualFold sf) (RDNs d) (RDNs other))"

definition DN_AncestorOf :: "simple_fold \<Rightarrow> DN \<Rightarrow> DN \<Rightarrow> bool" where
  "DN_AncestorOf sf d other =
     (if length (RDNs other) \<le> length (RDNs d) then False
      else all_pairs (RelativeDN_Equal sf) (RDNs d)
             (drop (length (RDNs other) - length (RDNs d)) (RDNs other)))"

definition DN_AncestorOfFold :: "simple_fold \<Rightarrow> DN \<Rightarrow> DN \<Rightarrow> bool" where
  "DN_AncestorOfFold sf d other =
     (if length (RDNs other) \<le> length (RDNs d) then False
      else all_pairs (RelativeDN_EqualFold sf) (RDNs d)
             (drop (length (RDNs other) - length (RDNs d)) (RDNs other)))"

end
