(* ===== verification/DN_Equality.thy ===== *)
theory DN_Equality
  imports LDAP_DN
begin

text \<open>
  What the equality and ancestry tests of \<^verbatim>\<open>src/v3/dn.go\<close> decide.  The greedy matching loops pair
  off the attributes of two RDNs exactly when the RDNs are equal as multisets up to attribute
  equality; the comparison of DNs is then an equivalence, and ancestry the proper-suffix order.
\<close>

section \<open>Pairing off attributes\<close>

definition unmatched :: "'a list \<Rightarrow> bool list \<Rightarrow> 'a list" where
  "unmatched xs ms = map fst (filter (\<lambda>(x, m). \<not> m) (zip xs ms))"

lemma unmatched_simps [simp]:
  "unmatched [] ms = []"
  "unmatched (x # xs) (m # ms) = (if m then unmatched xs ms else x # unmatched xs ms)"
  by (simp_all add: unmatched_def)

lemma unmatched_none: "unmatched xs (replicate (length xs) False) = xs"
  by (induction xs) simp_all

lemma mark_first_None:
  "length xs = length ms \<Longrightarrow> mark_first p xs ms = None \<longleftrightarrow> (\<forall>x \<in> set (unmatched xs ms). \<not> p x)"
  by (induction p xs ms rule: mark_first.induct) auto

lemma mark_first_Some:
  assumes "length xs = length ms" "mark_first p xs ms = Some ms'"
  shows "length ms' = length ms
    \<and> (\<exists>x. p x \<and> mset (unmatched xs ms) = add_mset x (mset (unmatched xs ms')))"
  using assms
proof (induction p xs ms arbitrary: ms' rule: mark_first.induct)
  case (1 p x xs m ms)
  then show ?case by (fastforce split: if_splits)
qed auto

lemma strict_suffix_map: "strict_suffix xs ys \<Longrightarrow> strict_suffix (map f xs) (map f ys)"
proof -
  assume "strict_suffix xs ys"
  then obtain zs where "ys = zs @ xs" "zs \<noteq> []" by (auto simp: strict_suffix_def suffix_def)
  then have "map f ys = map f zs @ map f xs" "map f zs \<noteq> []" by simp_all
  then show ?thesis by (metis append_self_conv2 strict_suffix_def suffix_def)
qed

text \<open>
  A comparison given by a key.  The laws are those the program's comparison of attributes has;
  the lemmas say what the loops over attributes compute with it.
\<close>

locale keyed_equality =
  fixes eq :: "'a \<Rightarrow> 'a \<Rightarrow> bool" and key :: "'a \<Rightarrow> 'k"
  assumes eq_iff: "eq x y \<longleftrightarrow> key x = key y"
begin

lemma match_all_iff:
  assumes "length matched = length mine"
  shows "match_all eq mine matched as \<longleftrightarrow>
    image_mset key (mset as) \<subseteq># image_mset key (mset (unmatched mine matched))"
  using assms
proof (induction as arbitrary: matched)
  case Nil
  then show ?case by simp
next
  case (Cons a as)
  show ?case
  proof (cases "mark_first (\<lambda>my. eq my a) mine matched")
    case None
    then have "key a \<notin># image_mset key (mset (unmatched mine matched))"
      using Cons.prems by (auto simp: mark_first_None eq_iff)
    then have "\<not> add_mset (key a) (image_mset key (mset as))
        \<subseteq># image_mset key (mset (unmatched mine matched))"
      by (meson mset_subset_eqD union_single_eq_member)
    with None show ?thesis by simp
  next
    case (Some matched')
    from mark_first_Some [OF Cons.prems [symmetric] Some] obtain x where
      "length matched' = length matched" "key x = key a"
      "mset (unmatched mine matched) = add_mset x (mset (unmatched mine matched'))"
      by (auto simp: eq_iff)
    with Some Cons show ?thesis by simp
  qed
qed

lemma rel_mset_iff: "rel_mset eq X Y \<longleftrightarrow> image_mset key X = image_mset key Y"
proof -
  have "eq = (\<lambda>x y. key x = key y)" by (intro ext) (rule eq_iff)
  moreover have "rel_mset (=) (image_mset key X) (image_mset key Y)
      \<longleftrightarrow> rel_mset (\<lambda>x y. key x = key y) X Y"
    by (simp only: multiset.rel_map)
  ultimately show ?thesis by (simp only: multiset.rel_eq)
qed

lemma both_directions:
  assumes "length xs = length ys"
  shows "match_all eq xs (replicate (length xs) False) ys
      \<and> match_all eq ys (replicate (length ys) False) xs
    \<longleftrightarrow> rel_mset eq (mset xs) (mset ys)"
  by (auto simp: match_all_iff unmatched_none rel_mset_iff subset_mset.order_antisym)

lemma equivp_eq: "equivp eq"
  by (auto intro!: equivpI reflpI sympI transpI simp: eq_iff)

lemma all_pairs_iff: "length xs = length ys \<Longrightarrow> all_pairs eq xs ys \<longleftrightarrow> map key xs = map key ys"
  by (induction xs ys rule: list_induct2) (simp_all add: eq_iff)

text \<open>Comparing two lists position by position, and a list with the end of a longer one.\<close>

lemma same_length_all_pairs:
  "(if length xs \<noteq> length ys then False else all_pairs eq xs ys) \<longleftrightarrow> map key xs = map key ys"
  by (auto simp: all_pairs_iff dest: map_eq_imp_length_eq)

lemma proper_suffix_all_pairs:
  "(if length ys \<le> length xs then False
    else all_pairs eq xs (drop (length ys - length xs) ys))
   \<longleftrightarrow> strict_suffix (map key xs) (map key ys)"
proof (cases "length ys \<le> length xs")
  case True
  then show ?thesis by (auto dest: suffix_length_less)
next
  case False
  then have "length xs = length (drop (length ys - length xs) ys)" by simp
  then have "all_pairs eq xs (drop (length ys - length xs) ys)
      \<longleftrightarrow> map key xs = drop (length ys - length xs) (map key ys)"
    by (simp add: all_pairs_iff drop_map)
  also have "\<dots> \<longleftrightarrow> strict_suffix (map key xs) (map key ys)"
  proof
    assume eq: "map key xs = drop (length ys - length xs) (map key ys)"
    have "map key ys = take (length ys - length xs) (map key ys) @ map key xs"
      unfolding eq by simp
    with False show "strict_suffix (map key xs) (map key ys)"
      by (metis length_map less_irrefl not_le_imp_less strict_suffix_def suffix_def)
  next
    assume "strict_suffix (map key xs) (map key ys)"
    then obtain zs where "map key ys = zs @ map key xs" by (auto simp: strict_suffix_def suffix_def)
    moreover from this have "length ys - length xs = length zs"
      by (metis add_diff_cancel_right' length_append length_map)
    ultimately show "map key xs = drop (length ys - length xs) (map key ys)" by simp
  qed
  finally show ?thesis using False by simp
qed

end

section \<open>The four comparisons of the program\<close>

definition attr_key :: "simple_fold \<Rightarrow> AttributeTypeAndValue \<Rightarrow> rune list \<times> string" where
  "attr_key sf a = (fold_key sf (attr_Type a), attr_Value a)"

definition attr_key_fold :: "simple_fold \<Rightarrow> AttributeTypeAndValue \<Rightarrow> rune list \<times> rune list" where
  "attr_key_fold sf a = (fold_key sf (attr_Type a), fold_key sf (attr_Value a))"

context simple_folding
begin

sublocale attr: keyed_equality "AttributeTypeAndValue_Equal sf" "attr_key sf"
  by unfold_locales (auto simp: AttributeTypeAndValue_Equal_def attr_key_def EqualFold_iff)

sublocale attr_fold: keyed_equality "AttributeTypeAndValue_EqualFold sf" "attr_key_fold sf"
  by unfold_locales (auto simp: AttributeTypeAndValue_EqualFold_def attr_key_fold_def EqualFold_iff)

lemma RelativeDN_Equal_rel_mset:
  "RelativeDN_Equal sf r other \<longleftrightarrow>
     rel_mset (AttributeTypeAndValue_Equal sf) (mset (Attributes r)) (mset (Attributes other))"
proof (cases "length (Attributes r) = length (Attributes other)")
  case True
  with attr.both_directions [OF True] show ?thesis
    by (simp add: RelativeDN_Equal_def hasAllAttributes_def)
next
  case False
  then show ?thesis by (auto simp: RelativeDN_Equal_def dest: rel_mset_size)
qed

lemma RelativeDN_EqualFold_rel_mset:
  "RelativeDN_EqualFold sf r other \<longleftrightarrow>
     rel_mset (AttributeTypeAndValue_EqualFold sf) (mset (Attributes r)) (mset (Attributes other))"
proof (cases "length (Attributes r) = length (Attributes other)")
  case True
  with attr_fold.both_directions [OF True] show ?thesis
    by (simp add: RelativeDN_EqualFold_def hasAllAttributesFold_def)
next
  case False
  then show ?thesis by (auto simp: RelativeDN_EqualFold_def dest: rel_mset_size)
qed

sublocale rdn: keyed_equality "RelativeDN_Equal sf"
    "\<lambda>r. image_mset (attr_key sf) (mset (Attributes r))"
  by unfold_locales (simp add: RelativeDN_Equal_rel_mset attr.rel_mset_iff)

sublocale rdn_fold: keyed_equality "RelativeDN_EqualFold sf"
    "\<lambda>r. image_mset (attr_key_fold sf) (mset (Attributes r))"
  by unfold_locales (simp add: RelativeDN_EqualFold_rel_mset attr_fold.rel_mset_iff)

lemma DN_Equal_keys:
  "DN_Equal sf d other \<longleftrightarrow>
     map (\<lambda>r. image_mset (attr_key sf) (mset (Attributes r))) (RDNs d)
     = map (\<lambda>r. image_mset (attr_key sf) (mset (Attributes r))) (RDNs other)"
  unfolding DN_Equal_def by (rule rdn.same_length_all_pairs)

lemma DN_EqualFold_keys:
  "DN_EqualFold sf d other \<longleftrightarrow>
     map (\<lambda>r. image_mset (attr_key_fold sf) (mset (Attributes r))) (RDNs d)
     = map (\<lambda>r. image_mset (attr_key_fold sf) (mset (Attributes r))) (RDNs other)"
  unfolding DN_EqualFold_def by (rule rdn_fold.same_length_all_pairs)

lemma DN_AncestorOf_keys:
  "DN_AncestorOf sf d other \<longleftrightarrow>
     strict_suffix (map (\<lambda>r. image_mset (attr_key sf) (mset (Attributes r))) (RDNs d))
       (map (\<lambda>r. image_mset (attr_key sf) (mset (Attributes r))) (RDNs other))"
  unfolding DN_AncestorOf_def by (rule rdn.proper_suffix_all_pairs)

lemma DN_AncestorOfFold_keys:
  "DN_AncestorOfFold sf d other \<longleftrightarrow>
     strict_suffix (map (\<lambda>r. image_mset (attr_key_fold sf) (mset (Attributes r))) (RDNs d))
       (map (\<lambda>r. image_mset (attr_key_fold sf) (mset (Attributes r))) (RDNs other))"
  unfolding DN_AncestorOfFold_def by (rule rdn_fold.proper_suffix_all_pairs)

lemma equivp_DN_Equal: "equivp (DN_Equal sf)" and equivp_DN_EqualFold: "equivp (DN_EqualFold sf)"
  by (auto intro!: equivpI reflpI sympI transpI simp: DN_Equal_keys DN_EqualFold_keys)

text \<open>The key under folding is a function of the exact key, so each fold comparison is coarser.\<close>

lemma attr_key_fold_of: "attr_key_fold sf = (\<lambda>(t, v). (t, fold_key sf v)) \<circ> attr_key sf"
  by (rule ext) (simp add: attr_key_def attr_key_fold_def)

lemma rdn_keys_fold_of:
  "map (\<lambda>r. image_mset (attr_key_fold sf) (mset (Attributes r))) rs
   = map (image_mset (\<lambda>(t, v). (t, fold_key sf v)))
       (map (\<lambda>r. image_mset (attr_key sf) (mset (Attributes r))) rs)"
  by (simp add: attr_key_fold_of multiset.map_comp)

lemma DN_Equal_imp_EqualFold: "DN_Equal sf d other \<Longrightarrow> DN_EqualFold sf d other"
  by (simp only: DN_Equal_keys DN_EqualFold_keys rdn_keys_fold_of)

text \<open>Ancestry, as the existence of the RDNs by which the descendant is longer.\<close>

lemma DN_AncestorOf_iff_suffix:
  "DN_AncestorOf sf d other \<longleftrightarrow>
     (\<exists>below above. RDNs other = below @ above \<and> below \<noteq> [] \<and> DN_Equal sf d \<lparr>RDNs = above\<rparr>)"
proof
  assume "DN_AncestorOf sf d other"
  then have "length (RDNs d) < length (RDNs other)"
    "all_pairs (RelativeDN_Equal sf) (RDNs d) (drop (length (RDNs other) - length (RDNs d)) (RDNs other))"
    by (auto simp: DN_AncestorOf_def split: if_splits)
  then show "\<exists>below above. RDNs other = below @ above \<and> below \<noteq> [] \<and> DN_Equal sf d \<lparr>RDNs = above\<rparr>"
    by (intro exI [of _ "take (length (RDNs other) - length (RDNs d)) (RDNs other)"]
        exI [of _ "drop (length (RDNs other) - length (RDNs d)) (RDNs other)"])
      (auto simp: DN_Equal_def)
next
  assume "\<exists>below above. RDNs other = below @ above \<and> below \<noteq> [] \<and> DN_Equal sf d \<lparr>RDNs = above\<rparr>"
  then show "DN_AncestorOf sf d other"
    by (auto simp: DN_AncestorOf_def DN_Equal_def split: if_splits)
qed

lemma DN_AncestorOf_trans:
  "DN_AncestorOf sf a b \<Longrightarrow> DN_AncestorOf sf b c \<Longrightarrow> DN_AncestorOf sf a c"
  by (simp add: DN_AncestorOf_keys suffix_order.less_trans)

lemma DN_AncestorOf_cong:
  "DN_Equal sf a a' \<Longrightarrow> DN_Equal sf b b' \<Longrightarrow> DN_AncestorOf sf a b \<longleftrightarrow> DN_AncestorOf sf a' b'"
  by (simp add: DN_AncestorOf_keys DN_Equal_keys)

lemma DN_AncestorOf_irrefl: "DN_Equal sf a b \<Longrightarrow> \<not> DN_AncestorOf sf a b"
  by (simp add: DN_AncestorOf_keys DN_Equal_keys)

lemma DN_AncestorOf_imp_Fold: "DN_AncestorOf sf d other \<Longrightarrow> DN_AncestorOfFold sf d other"
  unfolding DN_AncestorOf_keys DN_AncestorOfFold_keys rdn_keys_fold_of
  by (rule strict_suffix_map)

end

section \<open>Properties\<close>

text \<open>C25. Under the documented behaviour of \<^verbatim>\<open>SimpleFold\<close>, \<^verbatim>\<open>RelativeDN.Equal\<close> holds exactly when the
  attributes of the two RDNs can be paired off one to one, each pair equal under
  \<^verbatim>\<open>AttributeTypeAndValue.Equal\<close>: order is irrelevant and repeated attributes count.  The same holds
  of \<^verbatim>\<open>EqualFold\<close>.\<close>

theorem RelativeDN_Equal_iff_pairing:
  assumes "simple_folding sf same"
  shows "(RelativeDN_Equal sf r other \<longleftrightarrow>
       rel_mset (AttributeTypeAndValue_Equal sf) (mset (Attributes r)) (mset (Attributes other)))
    \<and> (RelativeDN_EqualFold sf r other \<longleftrightarrow>
       rel_mset (AttributeTypeAndValue_EqualFold sf) (mset (Attributes r)) (mset (Attributes other)))"
  using simple_folding.RelativeDN_Equal_rel_mset [OF assms]
    simple_folding.RelativeDN_EqualFold_rel_mset [OF assms] by blast

abbreviation rdn_ab :: RelativeDN where
  "rdn_ab \<equiv> \<lparr>Attributes = [\<lparr>attr_Type = ''cn'', attr_Value = ''a''\<rparr>, \<lparr>attr_Type = ''OU'', attr_Value = ''b''\<rparr>]\<rparr>"

abbreviation rdn_ba :: RelativeDN where
  "rdn_ba \<equiv> \<lparr>Attributes = [\<lparr>attr_Type = ''ou'', attr_Value = ''b''\<rparr>, \<lparr>attr_Type = ''CN'', attr_Value = ''a''\<rparr>]\<rparr>"

theorem RelativeDN_Equal_iff_pairing_witness:
  "RelativeDN_Equal latin_SimpleFold rdn_ab rdn_ba
   \<and> rel_mset (AttributeTypeAndValue_Equal latin_SimpleFold)
       (mset (Attributes rdn_ab)) (mset (Attributes rdn_ba))"
proof -
  have "RelativeDN_Equal latin_SimpleFold rdn_ab rdn_ba" by code_simp
  with RelativeDN_Equal_iff_pairing [OF latin.simple_folding_axioms, of rdn_ab rdn_ba]
  show ?thesis by blast
qed

text \<open>\<^verbatim>\<open>DN.Equal\<close> and \<^verbatim>\<open>DN.EqualFold\<close> are equivalence relations, and DNs that are equal are equal
  under folding.\<close>

theorem DN_Equal_equivalence:
  assumes "simple_folding sf same"
  shows "equivp (DN_Equal sf) \<and> equivp (DN_EqualFold sf)
    \<and> (DN_Equal sf d other \<longrightarrow> DN_EqualFold sf d other)"
  using simple_folding.equivp_DN_Equal [OF assms] simple_folding.equivp_DN_EqualFold [OF assms]
    simple_folding.DN_Equal_imp_EqualFold [OF assms] by blast

theorem DN_Equal_equivalence_witness:
  "DN_Equal latin_SimpleFold \<lparr>RDNs = [rdn_ab]\<rparr> \<lparr>RDNs = [rdn_ba]\<rparr>
   \<and> DN_EqualFold latin_SimpleFold \<lparr>RDNs = [rdn_ab]\<rparr> \<lparr>RDNs = [rdn_ba]\<rparr>
   \<and> DN_Equal latin_SimpleFold \<lparr>RDNs = [rdn_ba]\<rparr> \<lparr>RDNs = [rdn_ab]\<rparr>"
proof -
  have "DN_Equal latin_SimpleFold \<lparr>RDNs = [rdn_ab]\<rparr> \<lparr>RDNs = [rdn_ba]\<rparr>" by code_simp
  with DN_Equal_equivalence [OF latin.simple_folding_axioms, of "\<lparr>RDNs = [rdn_ab]\<rparr>" "\<lparr>RDNs = [rdn_ba]\<rparr>"]
  show ?thesis by (auto dest: equivp_symp)
qed

text \<open>\<^verbatim>\<open>d.AncestorOf(other)\<close> holds exactly when \<^verbatim>\<open>other\<close> is some RDNs, at least one, followed
  by RDNs that make a DN equal to \<^verbatim>\<open>d\<close>; it is a strict order up to \<^verbatim>\<open>Equal\<close> and implies
  \<^verbatim>\<open>AncestorOfFold\<close>.\<close>

theorem DN_AncestorOf_strict_order:
  assumes "simple_folding sf same"
  shows "(DN_AncestorOf sf d other \<longleftrightarrow>
       (\<exists>below above. RDNs other = below @ above \<and> below \<noteq> [] \<and> DN_Equal sf d \<lparr>RDNs = above\<rparr>))
    \<and> (DN_Equal sf d other \<longrightarrow> \<not> DN_AncestorOf sf d other)
    \<and> (DN_AncestorOf sf d other \<and> DN_AncestorOf sf other e \<longrightarrow> DN_AncestorOf sf d e)
    \<and> (DN_Equal sf d d' \<and> DN_Equal sf e e' \<longrightarrow> (DN_AncestorOf sf d e \<longleftrightarrow> DN_AncestorOf sf d' e'))
    \<and> (DN_AncestorOf sf d other \<longrightarrow> DN_AncestorOfFold sf d other)"
  using simple_folding.DN_AncestorOf_iff_suffix [OF assms, of d other]
    simple_folding.DN_AncestorOf_irrefl [OF assms, of d other]
    simple_folding.DN_AncestorOf_trans [OF assms, of d other e]
    simple_folding.DN_AncestorOf_cong [OF assms, of d d' e e']
    simple_folding.DN_AncestorOf_imp_Fold [OF assms, of d other]
  by blast

theorem DN_AncestorOf_strict_order_witness:
  "DN_AncestorOf latin_SimpleFold \<lparr>RDNs = [rdn_ba]\<rparr> \<lparr>RDNs = [rdn_ba, rdn_ab]\<rparr>
   \<and> DN_AncestorOfFold latin_SimpleFold \<lparr>RDNs = [rdn_ba]\<rparr> \<lparr>RDNs = [rdn_ba, rdn_ab]\<rparr>
   \<and> \<not> DN_AncestorOf latin_SimpleFold \<lparr>RDNs = [rdn_ba]\<rparr> \<lparr>RDNs = [rdn_ab]\<rparr>"
proof -
  have eq: "DN_Equal latin_SimpleFold \<lparr>RDNs = [rdn_ba]\<rparr> \<lparr>RDNs = [rdn_ab]\<rparr>" by code_simp
  note order = DN_AncestorOf_strict_order [OF latin.simple_folding_axioms]
  have "RDNs \<lparr>RDNs = [rdn_ba, rdn_ab]\<rparr> = [rdn_ba] @ [rdn_ab]" by simp
  with eq have "DN_AncestorOf latin_SimpleFold \<lparr>RDNs = [rdn_ba]\<rparr> \<lparr>RDNs = [rdn_ba, rdn_ab]\<rparr>"
    using order by blast
  with eq order show ?thesis by blast
qed

end
