(* ===== verification/Ber_Reference.thy ===== *)
theory Ber_Reference
  imports Ber_Packet
begin

text \<open>
  A reference instance of the library's interface: the definite-length encoding of X.690.  It
  shows that the laws of \<^verbatim>\<open>ber_library\<close> can hold together, and it is what the
  witnesses evaluate; no definition of the program's model depends on it.
\<close>

section \<open>Octets\<close>

definition octet :: "nat \<Rightarrow> char" where
  "octet n = char_of (n mod 256)"

lemma ord_octet [simp]: "ord (octet n) = n mod 256"
  by (simp add: octet_def)

text \<open>Base 256, most significant octet first, at least one octet.\<close>

fun base256 :: "nat \<Rightarrow> bytes" where
  "base256 n = (if n < 256 then [octet n] else base256 (n div 256) @ [octet n])"

declare base256.simps [simp del]

definition from256 :: "bytes \<Rightarrow> nat" where
  "from256 bs = foldl (\<lambda>n c. n * 256 + ord c) 0 bs"

lemma from256_base256: "from256 (base256 n) = n"
proof (induction n rule: base256.induct)
  case (1 n)
  then show ?case by (subst base256.simps) (simp add: from256_def)
qed

text \<open>Two's complement with as few octets as possible.\<close>

definition int_width :: "int \<Rightarrow> nat" where
  "int_width i = length (base256 (nat (if i < 0 then - i - 1 else i) * 2))"

fun low_octets :: "nat \<Rightarrow> int \<Rightarrow> bytes" where
  "low_octets 0 i = []"
| "low_octets (Suc n) i = low_octets n (i div 256) @ [octet (nat (i mod 256))]"

definition int_octets :: "int \<Rightarrow> bytes" where
  "int_octets i = low_octets (int_width i) i"

definition octets_int :: "bytes \<Rightarrow> int" where
  "octets_int bs =
     (let n = int (from256 bs) in
      if bs \<noteq> [] \<and> 128 \<le> ord (hd bs) then n - 256 ^ length bs else n)"

section \<open>Encoding\<close>

fun class_bits :: "ber_class \<Rightarrow> nat" where
  "class_bits ClassUniversal = 0"
| "class_bits ClassApplication = 64"
| "class_bits ClassContext = 128"
| "class_bits ClassPrivate = 192"

fun type_bit :: "ber_type \<Rightarrow> nat" where
  "type_bit TypePrimitive = 0"
| "type_bit TypeConstructed = 32"

fun base128 :: "nat \<Rightarrow> nat \<Rightarrow> bytes" where
  "base128 mark n = (if n < 128 then [octet (n + mark)] else base128 128 (n div 128) @ [octet (n mod 128 + mark)])"

declare base128.simps [simp del]

definition identifier_octets :: "ber_class \<Rightarrow> ber_type \<Rightarrow> nat \<Rightarrow> bytes" where
  "identifier_octets c t g =
     (if g < 31 then [octet (class_bits c + type_bit t + g)]
      else octet (class_bits c + type_bit t + 31) # base128 0 g)"

definition length_octets :: "nat \<Rightarrow> bytes" where
  "length_octets n =
     (if n < 128 then [octet n] else octet (128 + length (base256 n)) # base256 n)"

fun ref_Bytes :: "packet \<Rightarrow> bytes" where
  "ref_Bytes NilPacket = []"
| "ref_Bytes (Packet c t g v b d cs ds) =
     identifier_octets c t g @ length_octets (length (case d of None \<Rightarrow> [] | Some x \<Rightarrow> x))
       @ (case d of None \<Rightarrow> [] | Some x \<Rightarrow> x)"

fun value_octets :: "ber_value \<Rightarrow> bytes" where
  "value_octets (VString s) = s"
| "value_octets (VBytes s) = s"
| "value_octets (VInt64 i) = int_octets i"
| "value_octets (VUint64 w) = int_octets (sint w)"
| "value_octets (VInt32 w) = int_octets (sint w)"
| "value_octets (VInt8 i) = int_octets i"
| "value_octets (VInt i) = int_octets i"
| "value_octets (VBool b) = [octet (if b then 255 else 0)]"
| "value_octets VNil = []"
| "value_octets (VOther t s) = []"

fun ref_AppendChild :: "packet \<Rightarrow> packet \<Rightarrow> packet option" where
  "ref_AppendChild (Packet c t g v b (Some d) cs ds) k =
     (if k = NilPacket then None
      else Some (Packet c t g v b (Some (d @ ref_Bytes k)) (cs @ [k]) ds))"
| "ref_AppendChild _ _ = None"

section \<open>Decoding\<close>

text \<open>The identifier and length octets; \<^const>\<open>None\<close> when the input ends too early.\<close>

fun read_base128 :: "nat \<Rightarrow> bytes \<Rightarrow> (nat \<times> bytes) option" where
  "read_base128 n [] = None"
| "read_base128 n (c # cs) =
     (if ord c < 128 then Some (n * 128 + ord c, cs) else read_base128 (n * 128 + (ord c - 128)) cs)"

definition read_class :: "nat \<Rightarrow> ber_class" where
  "read_class n =
     (if n < 64 then ClassUniversal else if n < 128 then ClassApplication
      else if n < 192 then ClassContext else ClassPrivate)"

definition read_type :: "nat \<Rightarrow> ber_type" where
  "read_type n = (if (n div 32) mod 2 = 1 then TypeConstructed else TypePrimitive)"

fun read_identifier :: "bytes \<Rightarrow> (ber_class \<times> ber_type \<times> nat \<times> bytes) option" where
  "read_identifier [] = None"
| "read_identifier (c # cs) =
     (if ord c mod 32 < 31 then Some (read_class (ord c), read_type (ord c), ord c mod 32, cs)
      else map_option (\<lambda>(g, r). (read_class (ord c), read_type (ord c), g, r)) (read_base128 0 cs))"

fun read_length :: "bytes \<Rightarrow> (nat \<times> bytes) option" where
  "read_length [] = None"
| "read_length (c # cs) =
     (if ord c < 128 then Some (ord c, cs)
      else if length cs < ord c - 128 then None
      else Some (from256 (take (ord c - 128) cs), drop (ord c - 128) cs))"

definition read_header :: "bytes \<Rightarrow> ((ber_class \<times> ber_type \<times> nat) \<times> bytes \<times> bytes) option" where
  "read_header s =
     do { (c, t, g, s1) \<leftarrow> read_identifier s;
          (n, s2) \<leftarrow> read_length s1;
          if length s2 < n then None else Some ((c, t, g), take n s2, drop n s2) }"

text \<open>The value of a primitive universal element.\<close>

definition octets_int64 :: "bytes \<Rightarrow> int" where
  "octets_int64 s = (if 8 < length s then 0 else octets_int s)"

definition universal_value :: "nat \<Rightarrow> bytes \<Rightarrow> ber_value" where
  "universal_value g s =
     (if g = TagBoolean then VBool (octets_int64 s \<noteq> 0)
      else if g = TagInteger \<or> g = TagEnumerated then VInt64 (octets_int64 s)
      else if g = TagOctetString then VString s
      else if g = TagPrintableString then VString s
      else VNil)"

text \<open>Every element is shorter than its input, so the input's length bounds the nesting.\<close>

fun read_elements :: "nat \<Rightarrow> bytes \<Rightarrow> packet list option" where
  "read_elements 0 s = (if s = [] then Some [] else None)"
| "read_elements (Suc n) s =
     (if s = [] then Some []
      else do { ((c, t, g), content, rest) \<leftarrow> read_header s;
                ks \<leftarrow> (if t = TypeConstructed then read_elements n content else Some []);
                ps \<leftarrow> read_elements n rest;
                Some (Packet c t g
                        (if t = TypePrimitive \<and> c = ClassUniversal then universal_value g content else VNil)
                        (if t = TypePrimitive \<and> c = ClassUniversal then content else [])
                        (Some content) ks [] # ps) })"

definition ref_ReadPacket :: "bytes \<Rightarrow> go_error + packet \<times> bytes" where
  "ref_ReadPacket s =
     (case read_header s of
        None \<Rightarrow> Inl (ErrText ''unexpected EOF'')
      | Some (_, _, rest) \<Rightarrow>
          (case read_elements (length s) (take (length s - length rest) s) of
             Some [p] \<Rightarrow> Inr (p, rest)
           | _ \<Rightarrow> Inl (ErrText ''unexpected EOF'')))"

definition ref_DecodePacketErr :: "bytes \<Rightarrow> go_error + packet" where
  "ref_DecodePacketErr s = (case ref_ReadPacket s of Inl e \<Rightarrow> Inl e | Inr (p, _) \<Rightarrow> Inr p)"

definition ref_ParseInt64 :: "bytes \<Rightarrow> go_error + int" where
  "ref_ParseInt64 s = (if 8 < length s then Inl (ErrText ''integer too large'') else Inr (octets_int s))"

definition ref_new :: "ber_class \<Rightarrow> ber_type \<Rightarrow> nat \<Rightarrow> ber_value \<Rightarrow> string \<Rightarrow> packet" where
  "ref_new c t g v ds = Packet c t g v [] (Some (value_octets v)) [] ds"

definition ref_ber :: ber where
  "ref_ber = \<lparr>ber_Encode = (\<lambda>c t g v ds.
       if c = ClassApplication then Packet c t g v [] (Some []) [] ds else ref_new c t g v ds),
     ber_NewString = (\<lambda>c t g s. ref_new c t g (VString s)),
     ber_NewInteger = ref_new,
     ber_NewBoolean = (\<lambda>c t g x ds.
       Packet c t g (VBool x) [] (Some [octet (if x then 1 else 0)]) [] ds),
     ber_NewLDAPBoolean = (\<lambda>c t g x. ref_new c t g (VBool x)),
     ber_AppendChild = ref_AppendChild,
     ber_DecodeString = (\<lambda>s. s),
     ber_DecodePacketErr = ref_DecodePacketErr,
     ber_ReadPacket = ref_ReadPacket,
     ber_ParseInt64 = ref_ParseInt64,
     ber_Bytes = ref_Bytes,
     ber_Packet_v = (\<lambda>p. if p = NilPacket then ''<nil>'' else ''&{'' @ Description p @ ''}'')\<rparr>"

interpretation ref: ber_library ref_ber
proof
  fix p k p'
  show "ber_AppendChild ref_ber p NilPacket = None"
    by (cases "(p, NilPacket)" rule: ref_AppendChild.cases) (simp_all add: ref_ber_def)
  show "p' \<noteq> NilPacket" if "ber_AppendChild ref_ber p k = Some p'"
    using that by (cases "(p, k)" rule: ref_AppendChild.cases) (auto simp: ref_ber_def split: if_splits)
qed (auto simp: ref_ber_def ref_new_def)

end
