(* ===== verification/DN_Parse.thy ===== *)
theory DN_Parse
  imports DN_Equality Ber_Reference
begin

text \<open>
  What \<^verbatim>\<open>ParseDN\<close> and the \<^verbatim>\<open>String\<close> methods of \<^verbatim>\<open>src/v3/dn.go\<close> do together: the string form of a
  DN parses back to the DN in normal form, what the parser accepts is well-formed, and the string
  form identifies a DN up to equality.
\<close>

section \<open>Well-formed and normal DNs\<close>

definition wf_RDN :: "RelativeDN \<Rightarrow> bool" where
  "wf_RDN r \<longleftrightarrow> Attributes r \<noteq> [] \<and> list_all (\<lambda>a. attr_Type a \<noteq> []) (Attributes r)"

definition wf_DN :: "DN \<Rightarrow> bool" where
  "wf_DN d \<longleftrightarrow> list_all wf_RDN (RDNs d)"

definition normal_attr :: "simple_fold \<Rightarrow> AttributeTypeAndValue \<Rightarrow> AttributeTypeAndValue" where
  "normal_attr sf a = a\<lparr>attr_Type := foldString sf (attr_Type a)\<rparr>"

definition normal_RDN :: "simple_fold \<Rightarrow> RelativeDN \<Rightarrow> RelativeDN" where
  "normal_RDN sf r =
     \<lparr>Attributes = map (normal_attr sf) (sort_key (AttributeTypeAndValue_String sf) (Attributes r))\<rparr>"

definition normal_DN :: "simple_fold \<Rightarrow> DN \<Rightarrow> DN" where
  "normal_DN sf d = \<lparr>RDNs = map (normal_RDN sf) (RDNs d)\<rparr>"

section \<open>The parser on encoded text\<close>

lemma hexDigit_not_separator:
  "n < 16 \<Longrightarrow> hexDigit n \<noteq> CHR ''=''" "n < 16 \<Longrightarrow> hexDigit n \<noteq> CHR '',''"
  "n < 16 \<Longrightarrow> hexDigit n \<noteq> CHR ''+''" "n < 16 \<Longrightarrow> hexDigit n \<noteq> CHR '';''"
  by (simp_all add: hexDigit_cases char_lit_iff)

lemma loop_escape:
  "\<not> ps_escaping st \<Longrightarrow>
   ParseDN_loop B st (BSLASH # c # rest) = ParseDN_loop B (st\<lparr>ps_seg := ps_seg st @ [BSLASH, c]\<rparr>) rest"
  by (cases st) (simp add: ParseDN_step_def)

lemma loop_plain:
  "\<not> ps_escaping st \<Longrightarrow> c \<notin> {BSLASH, CHR '','', CHR ''+'', CHR '';''}
   \<Longrightarrow> c = CHR ''='' \<longrightarrow> attr_Type (ps_attr st) \<noteq> []
   \<Longrightarrow> ParseDN_loop B st (c # rest) = ParseDN_loop B (st\<lparr>ps_seg := ps_seg st @ [c]\<rparr>) rest"
  by (auto simp: ParseDN_step_def)

lemma encodeByte_plain_cases:
  obtains (escaped) "encodeByte i n isValue c = [BSLASH, c]"
  | (hex) "encodeByte i n isValue c = BSLASH # hexByte c"
  | (plain) "encodeByte i n isValue c = [c]" "c \<notin> {BSLASH, CHR '','', CHR ''+'', CHR '';''}"
      "c = CHR ''='' \<longrightarrow> isValue"
proof -
  have "encodeByte i n isValue c = [BSLASH, c] \<or> encodeByte i n isValue c = BSLASH # hexByte c
    \<or> encodeByte i n isValue c = [c] \<and> c \<notin> {BSLASH, CHR '','', CHR ''+'', CHR '';''}
       \<and> (c = CHR ''='' \<longrightarrow> isValue)"
    unfolding encodeByte_def by simp
  then show thesis using that by blast
qed

lemma loop_encodeByte:
  assumes "\<not> ps_escaping st" and "isValue \<Longrightarrow> attr_Type (ps_attr st) \<noteq> []"
  shows "ParseDN_loop B st (encodeByte i n isValue c @ rest)
    = ParseDN_loop B (st\<lparr>ps_seg := ps_seg st @ encodeByte i n isValue c\<rparr>) rest"
proof (cases rule: encodeByte_plain_cases [of i n isValue c])
  case escaped
  with assms show ?thesis by (simp add: loop_escape del: ParseDN_loop.simps)
next
  case hex
  with assms show ?thesis
    by (simp add: hexByte_def loop_escape loop_plain hexDigit_not_separator del: ParseDN_loop.simps)
next
  case plain
  with assms show ?thesis by (auto simp: loop_plain simp del: ParseDN_loop.simps)
qed

lemma loop_encodeBytes:
  assumes "\<not> ps_escaping st" and "isValue \<Longrightarrow> attr_Type (ps_attr st) \<noteq> []"
  shows "ParseDN_loop B st (encodeBytes i n isValue cs @ rest)
    = ParseDN_loop B (st\<lparr>ps_seg := ps_seg st @ encodeBytes i n isValue cs\<rparr>) rest"
  using assms
  by (induction cs arbitrary: i st) (simp_all add: loop_encodeByte)

lemma hd_encodeString_not_hash:
  "encodeString v isValue \<noteq> [] \<Longrightarrow> hd (encodeString v isValue) \<noteq> CHR ''#''"
  by (cases v) (auto simp: encodeString_def encodeByte_def)

lemma setValue_encodeString: "setValue B a (encodeString v True) = Inr (a\<lparr>attr_Value := v\<rparr>)"
  using hd_encodeString_not_hash [of v True] by (auto simp: setValue_def decodeString_encodeString)

lemma setType_encodeString: "setType a (encodeString t False) = Inr (a\<lparr>attr_Type := t\<rparr>)"
  by (simp add: setType_def decodeString_encodeString)

text \<open>The parser between two attributes, and at the end of an attribute's value.\<close>

definition at_start :: "RelativeDN list \<Rightarrow> AttributeTypeAndValue list \<Rightarrow> parse_state" where
  "at_start rs as = \<lparr>ps_dn = \<lparr>RDNs = rs\<rparr>, ps_rdn = \<lparr>Attributes = as\<rparr>, ps_attr = new_attr,
                     ps_escaping = False, ps_seg = []\<rparr>"

definition at_value ::
    "simple_fold \<Rightarrow> RelativeDN list \<Rightarrow> AttributeTypeAndValue list \<Rightarrow> AttributeTypeAndValue \<Rightarrow> parse_state" where
  "at_value sf rs as a = (at_start rs as)\<lparr>
     ps_attr := \<lparr>attr_Type = foldString sf (attr_Type a), attr_Value = []\<rparr>,
     ps_seg := encodeString (attr_Value a) True\<rparr>"

lemma foldString_Nil_iff [simp]: "foldString sf s = [] \<longleftrightarrow> s = []"
proof -
  have "runes s = [] \<longleftrightarrow> s = []"
    by (cases s; cases "DecodeRune s") (auto dest: runes_step)
  then show ?thesis by (cases "runes s") (simp_all add: foldString_def)
qed

lemma loop_attribute:
  assumes "attr_Type a \<noteq> []"
  shows "ParseDN_loop B (at_start rs as) (AttributeTypeAndValue_String sf a @ rest)
    = ParseDN_loop B (at_value sf rs as a) rest"
  using assms
  by (simp add: AttributeTypeAndValue_String_def at_start_def at_value_def encodeString_def
      loop_encodeBytes ParseDN_step_def setType_encodeString [unfolded encodeString_def])

lemma step_separator:
  assumes "attr_Type a \<noteq> []"
  shows "ParseDN_step B (at_value sf rs as a) (CHR ''+'') = Inr (at_start rs (as @ [normal_attr sf a]))" (is ?plus)
    and "ParseDN_step B (at_value sf rs as a) (CHR '','')
      = Inr (at_start (rs @ [\<lparr>Attributes = as @ [normal_attr sf a]\<rparr>]) [])" (is ?comma)
proof -
  have "\<lparr>attr_Type = foldString sf (attr_Type a), attr_Value = attr_Value a\<rparr> = normal_attr sf a"
    by (simp add: normal_attr_def)
  with assms show ?plus ?comma
    by (simp_all add: at_value_def at_start_def ParseDN_step_def setValue_encodeString
        appendAttributesToRDN_def)
qed

lemma loop_attributes:
  assumes "list_all (\<lambda>a. attr_Type a \<noteq> []) (bs @ [b])"
  shows "ParseDN_loop B (at_start rs as) (join ''+'' (map (AttributeTypeAndValue_String sf) (bs @ [b])) @ rest)
    = ParseDN_loop B (at_value sf rs (as @ map (normal_attr sf) bs) b) rest"
  using assms
proof (induction bs arbitrary: as)
  case Nil
  then show ?case by (simp add: loop_attribute)
next
  case (Cons a bs)
  obtain t ts where ts: "map (AttributeTypeAndValue_String sf) (bs @ [b]) = t # ts"
    by (cases "map (AttributeTypeAndValue_String sf) (bs @ [b])") auto
  with Cons show ?case by (simp add: loop_attribute step_separator)
qed

lemma RelativeDN_String_sorted:
  "RelativeDN_String sf r = join ''+'' (map (AttributeTypeAndValue_String sf)
     (sort_key (AttributeTypeAndValue_String sf) (Attributes r)))"
  by (simp add: RelativeDN_String_def sort_strings_map)

text \<open>The sorted attributes of a well-formed RDN, the last one apart.\<close>

lemma wf_RDN_sorted:
  assumes "wf_RDN r"
  obtains bs b where "sort_key (AttributeTypeAndValue_String sf) (Attributes r) = bs @ [b]"
    "list_all (\<lambda>a. attr_Type a \<noteq> []) (bs @ [b])" "attr_Type b \<noteq> []"
    "normal_RDN sf r = \<lparr>Attributes = map (normal_attr sf) bs @ [normal_attr sf b]\<rparr>"
proof -
  let ?s = "sort_key (AttributeTypeAndValue_String sf) (Attributes r)"
  have set: "set ?s = set (Attributes r)" by simp
  with assms have ne: "?s \<noteq> []" by (auto simp: wf_RDN_def simp del: set_sort)
  from assms have all: "list_all (\<lambda>a. attr_Type a \<noteq> []) ?s"
    by (simp add: wf_RDN_def list_all_iff)
  from ne have "?s = butlast ?s @ [last ?s]" by simp
  then obtain bs b where bs: "?s = bs @ [b]" by blast
  with all show thesis by (intro that [of bs b]) (simp_all add: normal_RDN_def)
qed

lemma loop_RDNs:
  assumes "list_all wf_RDN (qs @ [q])"
  shows "\<exists>bs b. normal_RDN sf q = \<lparr>Attributes = map (normal_attr sf) bs @ [normal_attr sf b]\<rparr>
    \<and> attr_Type b \<noteq> []
    \<and> ParseDN_loop B (at_start rs []) (join '','' (map (RelativeDN_String sf) (qs @ [q])))
       = Inr (at_value sf (rs @ map (normal_RDN sf) qs) (map (normal_attr sf) bs) b)"
  using assms
proof (induction qs arbitrary: rs)
  case Nil
  then obtain bs b where "sort_key (AttributeTypeAndValue_String sf) (Attributes q) = bs @ [b]"
    "list_all (\<lambda>a. attr_Type a \<noteq> []) (bs @ [b])" "attr_Type b \<noteq> []"
    "normal_RDN sf q = \<lparr>Attributes = map (normal_attr sf) bs @ [normal_attr sf b]\<rparr>"
    using wf_RDN_sorted [of q sf] by auto
  then show ?case
    using loop_attributes [where as = "[]" and rest = "[]" and rs = rs and bs = bs and b = b and B = B and sf = sf]
    by (auto simp: RelativeDN_String_sorted)
next
  case (Cons p qs)
  obtain t ts where ts: "map (RelativeDN_String sf) (qs @ [q]) = t # ts"
    by (cases "map (RelativeDN_String sf) (qs @ [q])") auto
  from Cons.prems obtain bs b where p: "sort_key (AttributeTypeAndValue_String sf) (Attributes p) = bs @ [b]"
    "list_all (\<lambda>a. attr_Type a \<noteq> []) (bs @ [b])" "attr_Type b \<noteq> []"
    "normal_RDN sf p = \<lparr>Attributes = map (normal_attr sf) bs @ [normal_attr sf b]\<rparr>"
    using wf_RDN_sorted [of p sf] by auto
  have "ParseDN_loop B (at_start rs []) (join '','' (map (RelativeDN_String sf) ((p # qs) @ [q])))
      = ParseDN_loop B (at_start (rs @ [normal_RDN sf p]) []) (join '','' (map (RelativeDN_String sf) (qs @ [q])))"
    using p ts loop_attributes [OF p(2), where as = "[]"]
    by (simp add: RelativeDN_String_sorted [of sf p] step_separator)
  moreover have "\<exists>bs b. normal_RDN sf q = \<lparr>Attributes = map (normal_attr sf) bs @ [normal_attr sf b]\<rparr>
    \<and> attr_Type b \<noteq> []
    \<and> ParseDN_loop B (at_start (rs @ [normal_RDN sf p]) []) (join '','' (map (RelativeDN_String sf) (qs @ [q])))
       = Inr (at_value sf ((rs @ [normal_RDN sf p]) @ map (normal_RDN sf) qs) (map (normal_attr sf) bs) b)"
    using Cons.prems by (intro Cons.IH) simp
  ultimately show ?case by simp
qed

lemma not_blank_member:
  assumes "ascii_string s" "c \<in> set s" "\<not> IsSpace (ord c)"
  shows "\<not> blank s"
  using assms by (auto simp: blank_def runes_ascii list_all_iff)

text \<open>The string form is ASCII and holds an equals sign, so it is not taken for the empty DN.\<close>

lemma in_set_join: "c \<in> set x \<Longrightarrow> x \<in> set xs \<Longrightarrow> c \<in> set (join sep xs)"
  by (induction sep xs rule: join.induct) auto

lemma ascii_join: "ascii_string sep \<Longrightarrow> list_all ascii_string xs \<Longrightarrow> ascii_string (join sep xs)"
  by (induction sep xs rule: join.induct) auto

lemma AttributeTypeAndValue_String_ascii: "ascii_string (AttributeTypeAndValue_String sf a)"
  by (simp add: AttributeTypeAndValue_String_def encodeString_def encodeBytes_ascii is_ascii_def)

lemma RelativeDN_String_ascii: "ascii_string (RelativeDN_String sf r)"
  unfolding RelativeDN_String_sorted
  by (intro ascii_join) (auto simp: is_ascii_def list_all_iff [of _ "map _ _"] AttributeTypeAndValue_String_ascii)

lemma DN_String_ascii: "ascii_string (DN_String sf d)"
  unfolding DN_String_def
  by (intro ascii_join) (auto simp: is_ascii_def list_all_iff [of _ "map _ _"] RelativeDN_String_ascii)

lemma DN_String_not_blank:
  assumes "RDNs d \<noteq> []" "wf_DN d"
  shows "\<not> blank (DN_String sf d)"
proof (rule not_blank_member [OF DN_String_ascii])
  obtain r rs where r: "RDNs d = r # rs" using assms by (cases "RDNs d") auto
  with assms obtain a as where a: "Attributes r = a # as"
    by (cases "Attributes r") (auto simp: wf_DN_def wf_RDN_def)
  have "CHR ''='' \<in> set (AttributeTypeAndValue_String sf a)"
    by (simp add: AttributeTypeAndValue_String_def)
  then have "CHR ''='' \<in> set (RelativeDN_String sf r)"
    unfolding RelativeDN_String_sorted by (rule in_set_join) (simp add: a set_insort_key)
  then show "CHR ''='' \<in> set (DN_String sf d)"
    unfolding DN_String_def by (rule in_set_join) (simp add: r)
qed (simp add: IsSpace_def)

lemma ParseDN_DN_String:
  assumes "wf_DN d"
  shows "ParseDN B (DN_String sf d) = (Some (normal_DN sf d), None)"
proof (cases "RDNs d" rule: rev_cases)
  case Nil
  then show ?thesis by (simp add: DN_String_def normal_DN_def ParseDN_def blank_def)
next
  case (snoc qs q)
  with assms have "list_all wf_RDN (qs @ [q])" by (simp add: wf_DN_def)
  from loop_RDNs [OF this, of sf B "[]"] obtain bs b where
    b: "normal_RDN sf q = \<lparr>Attributes = map (normal_attr sf) bs @ [normal_attr sf b]\<rparr>" "attr_Type b \<noteq> []"
    and loop: "ParseDN_loop B (at_start [] []) (DN_String sf d)
       = Inr (at_value sf (map (normal_RDN sf) qs) (map (normal_attr sf) bs) b)"
    by (auto simp: DN_String_def snoc)
  have "\<lparr>attr_Type = foldString sf (attr_Type b), attr_Value = attr_Value b\<rparr> = normal_attr sf b"
    by (simp add: normal_attr_def)
  moreover have "parse_start = at_start [] []" by (simp add: parse_start_def at_start_def)
  ultimately show ?thesis
    using b loop DN_String_not_blank [of d sf] assms snoc
    by (simp add: ParseDN_def at_value_def at_start_def setValue_encodeString
        appendAttributesToRDN_def normal_DN_def)
qed

section \<open>What the parser accepts\<close>

definition parse_wf :: "parse_state \<Rightarrow> bool" where
  "parse_wf st \<longleftrightarrow> wf_DN (ps_dn st) \<and> list_all (\<lambda>a. attr_Type a \<noteq> []) (Attributes (ps_rdn st))"

lemma setValue_keeps_type: "setValue B a s = Inr a' \<Longrightarrow> attr_Type a' = attr_Type a"
  by (auto simp: setValue_def split: if_splits sum.splits)

lemma appendAttributesToRDN_wf:
  "parse_wf st \<Longrightarrow> attr_Type (ps_attr st) \<noteq> [] \<Longrightarrow> parse_wf (appendAttributesToRDN end st)"
  by (auto simp: parse_wf_def appendAttributesToRDN_def Let_def wf_DN_def wf_RDN_def)

lemma ParseDN_step_wf:
  assumes "ParseDN_step B st c = Inr st'" "parse_wf st"
  shows "parse_wf st'"
proof -
  have upd: "parse_wf (st\<lparr>ps_attr := a, ps_seg := s\<rparr>)" "parse_wf (st\<lparr>ps_seg := s\<rparr>)"
    "parse_wf (st\<lparr>ps_escaping := e, ps_seg := s\<rparr>)" for a s e
    using assms(2) by (simp_all add: parse_wf_def)
  from assms(1) show ?thesis
    unfolding ParseDN_step_def
    by (auto split: if_splits sum.splits dest!: setValue_keeps_type
        intro!: upd appendAttributesToRDN_wf)
qed

lemma ParseDN_loop_wf: "ParseDN_loop B st s = Inr st' \<Longrightarrow> parse_wf st \<Longrightarrow> parse_wf st'"
  by (induction B st s rule: ParseDN_loop.induct) (auto split: sum.splits intro: ParseDN_step_wf)

lemma ParseDN_success_wf: "ParseDN B s = (d, None) \<Longrightarrow> \<exists>d'. d = Some d' \<and> wf_DN d'"
proof -
  assume ok: "ParseDN B s = (d, None)"
  show ?thesis
  proof (cases "blank s")
    case True
    with ok show ?thesis by (auto simp: ParseDN_def wf_DN_def)
  next
    case False
    with ok obtain st a where st: "ParseDN_loop B parse_start s = Inr st"
      "attr_Type (ps_attr st) \<noteq> []" "setValue B (ps_attr st) (ps_seg st) = Inr a"
      "d = Some (ps_dn (appendAttributesToRDN True (st\<lparr>ps_attr := a\<rparr>)))"
      by (auto simp: ParseDN_def split: sum.splits if_splits prod.splits)
    have "parse_wf parse_start" by (simp add: parse_wf_def parse_start_def wf_DN_def)
    then have "parse_wf st" using ParseDN_loop_wf [OF st(1)] by simp
    then have "parse_wf (st\<lparr>ps_attr := a\<rparr>)" by (simp add: parse_wf_def)
    then have "parse_wf (appendAttributesToRDN True (st\<lparr>ps_attr := a\<rparr>))"
      using st setValue_keeps_type [OF st(3)] by (intro appendAttributesToRDN_wf) auto
    with st show ?thesis by (simp add: parse_wf_def)
  qed
qed

section \<open>The normal form\<close>

context simple_folding
begin

lemma attr_key_normal: "attr_key sf (normal_attr sf a) = attr_key sf a"
  by (simp add: attr_key_def normal_attr_def fold_key_foldString)

lemma DN_Equal_normal: "DN_Equal sf d (normal_DN sf d)"
proof -
  have "image_mset (attr_key sf) (mset (Attributes (normal_RDN sf r)))
      = image_mset (attr_key sf) (mset (Attributes r))" for r
    by (simp add: normal_RDN_def multiset.map_comp comp_def attr_key_normal)
  then show ?thesis by (simp add: DN_Equal_keys normal_DN_def)
qed

lemma String_normal_attr:
  "AttributeTypeAndValue_String sf (normal_attr sf a) = AttributeTypeAndValue_String sf a"
  by (simp add: AttributeTypeAndValue_String_def normal_attr_def foldString_idem)

lemma String_normal_DN: "DN_String sf (normal_DN sf d) = DN_String sf d"
proof -
  have "RelativeDN_String sf (normal_RDN sf r) = RelativeDN_String sf r" for r
  proof -
    have "mset (map (AttributeTypeAndValue_String sf) (Attributes (normal_RDN sf r)))
        = mset (map (AttributeTypeAndValue_String sf) (Attributes r))"
      by (simp add: normal_RDN_def multiset.map_comp comp_def String_normal_attr)
    then show ?thesis
      unfolding RelativeDN_String_def sort_strings_def by (metis sorted_list_of_multiset_mset)
  qed
  then show ?thesis by (simp add: DN_String_def normal_DN_def comp_def)
qed

lemma DN_String_sound:
  assumes "wf_DN d" "wf_DN e" "DN_String sf d = DN_String sf e"
  shows "DN_Equal sf d e"
proof -
  have "normal_DN sf d = normal_DN sf e"
    using ParseDN_DN_String [OF assms(1), of ref_ber sf] ParseDN_DN_String [OF assms(2), of ref_ber sf]
      assms(3) by simp
  with DN_Equal_normal [of d] DN_Equal_normal [of e] equivp_DN_Equal show ?thesis
    by (metis equivp_symp equivp_transp)
qed

end

section \<open>Properties\<close>

lemmas parse_eval = ParseDN_def blank_def IsSpace_def ParseDN_step_def parse_start_def setType_def
  setValue_def appendAttributesToRDN_def decodeString_def stripLeadingAndTrailingSpaces_def
  trim_spaces_def trim_right_def prepend_def is_ascii_def

text \<open>C23. \<^verbatim>\<open>ParseDN\<close> undoes \<^verbatim>\<open>String\<close>: for every DN whose RDNs have attributes and whose attribute
  types are not empty, whatever bytes its types and values hold, parsing its string form succeeds
  and gives the DN with folded types and sorted attributes.\<close>

theorem ParseDN_String_roundtrip:
  assumes "wf_DN d"
  shows "ParseDN B (DN_String sf d) = (Some (normal_DN sf d), None)"
  using assms by (rule ParseDN_DN_String)

abbreviation dn_tricky :: DN where
  "dn_tricky \<equiv> \<lparr>RDNs = [\<lparr>Attributes = [\<lparr>attr_Type = ''OU'', attr_Value = ''#a,b ''\<rparr>,
                                        \<lparr>attr_Type = ''CN'', attr_Value = [BSLASH, CHR 0xFF]\<rparr>]\<rparr>,
                       \<lparr>Attributes = [\<lparr>attr_Type = ''c=o'', attr_Value = ''x=y+z''\<rparr>]\<rparr>]\<rparr>"

theorem ParseDN_String_roundtrip_witness:
  "wf_DN dn_tricky
   \<and> ParseDN ref_ber (DN_String latin_SimpleFold dn_tricky) = (Some (normal_DN latin_SimpleFold dn_tricky), None)"
proof -
  have "wf_DN dn_tricky" by code_simp
  with ParseDN_String_roundtrip [of dn_tricky ref_ber latin_SimpleFold] show ?thesis by blast
qed

text \<open>C24. When \<^verbatim>\<open>ParseDN\<close> succeeds, the DN it gives is well-formed (no RDN without attributes, no
  attribute without a type), and printing it and parsing again gives an equal DN with the same
  string form: one round normalises.\<close>

theorem ParseDN_normalises:
  assumes "simple_folding sf same" and "ParseDN B s = (Some d, None)"
  shows "wf_DN d \<and> (\<exists>d'. ParseDN B (DN_String sf d) = (Some d', None)
    \<and> DN_Equal sf d d' \<and> DN_String sf d' = DN_String sf d)"
proof -
  have wf: "wf_DN d" using ParseDN_success_wf [OF assms(2)] by simp
  with ParseDN_DN_String [OF wf, of B sf] simple_folding.DN_Equal_normal [OF assms(1), of d]
    simple_folding.String_normal_DN [OF assms(1), of d] show ?thesis by blast
qed

theorem ParseDN_normalises_witness:
  "ParseDN ref_ber ''CN=a+ou=b'' = (Some \<lparr>RDNs = [\<lparr>Attributes =
       [\<lparr>attr_Type = ''CN'', attr_Value = ''a''\<rparr>, \<lparr>attr_Type = ''ou'', attr_Value = ''b''\<rparr>]\<rparr>]\<rparr>, None)
   \<and> wf_DN \<lparr>RDNs = [\<lparr>Attributes =
       [\<lparr>attr_Type = ''CN'', attr_Value = ''a''\<rparr>, \<lparr>attr_Type = ''ou'', attr_Value = ''b''\<rparr>]\<rparr>]\<rparr>"
proof -
  have "ParseDN ref_ber ''CN=a+ou=b'' = (Some \<lparr>RDNs = [\<lparr>Attributes =
       [\<lparr>attr_Type = ''CN'', attr_Value = ''a''\<rparr>, \<lparr>attr_Type = ''ou'', attr_Value = ''b''\<rparr>]\<rparr>]\<rparr>, None)"
    by (simp add: parse_eval char_lit_iff)
  with ParseDN_normalises [OF latin.simple_folding_axioms this] show ?thesis by blast
qed

text \<open>The string form identifies a well-formed DN up to \<^verbatim>\<open>Equal\<close>: two such DNs with the same
  string are equal.\<close>

theorem DN_String_identifies:
  assumes "simple_folding sf same" "wf_DN d" "wf_DN e" "DN_String sf d = DN_String sf e"
  shows "DN_Equal sf d e"
  using assms by (rule simple_folding.DN_String_sound)

theorem DN_String_identifies_witness:
  "DN_String latin_SimpleFold \<lparr>RDNs = [rdn_ab]\<rparr> = DN_String latin_SimpleFold \<lparr>RDNs = [rdn_ba]\<rparr>
   \<and> DN_Equal latin_SimpleFold \<lparr>RDNs = [rdn_ab]\<rparr> \<lparr>RDNs = [rdn_ba]\<rparr>"
proof -
  have "DN_String latin_SimpleFold \<lparr>RDNs = [rdn_ab]\<rparr> = DN_String latin_SimpleFold \<lparr>RDNs = [rdn_ba]\<rparr>"
    by code_simp
  moreover have "wf_DN \<lparr>RDNs = [rdn_ab]\<rparr>" "wf_DN \<lparr>RDNs = [rdn_ba]\<rparr>" by code_simp+
  ultimately show ?thesis using DN_String_identifies [OF latin.simple_folding_axioms] by blast
qed

text \<open>The converse fails: on the part of Go's table that holds the Kelvin sign, the DNs \<^verbatim>\<open>k=v\<close>
  and the same with the Kelvin sign (bytes E2 84 AA) for the type are \<^verbatim>\<open>Equal\<close> while their normalised strings
  differ, because \<^verbatim>\<open>foldString\<close> lower-cases the ASCII rune but folds the other to the largest rune
  of the same orbit.\<close>

theorem DN_Equal_strings_differ:
  "let d = \<lparr>RDNs = [\<lparr>Attributes = [\<lparr>attr_Type = ''k'', attr_Value = ''v''\<rparr>]\<rparr>]\<rparr>;
       e = \<lparr>RDNs = [\<lparr>Attributes = [\<lparr>attr_Type = [CHR 0xE2, CHR 0x84, CHR 0xAA], attr_Value = ''v''\<rparr>]\<rparr>]\<rparr>
   in DN_Equal latin_SimpleFold d e
      \<and> DN_String latin_SimpleFold d = ''k=v''
      \<and> DN_String latin_SimpleFold e = [BSLASH] @ ''e2'' @ [BSLASH] @ ''84'' @ [BSLASH] @ ''aa=v''"
proof -
  have kelvin: "runes [CHR 0xE2, CHR 0x84, CHR 0xAA] = [0x212A]"
    using runes_encodeRunes [of "[0x212A]"] by (simp add: valid_rune_def EncodeRune_def encode3_def char_of_def bit_0)
  have fold: "foldRune latin_SimpleFold 0x212A = 0x212A" "foldRune latin_SimpleFold 0x6B = 0x212A"
    by (simp_all add: foldRune.simps latin_SimpleFold_def)
  have "foldString latin_SimpleFold [CHR 0xE2, CHR 0x84, CHR 0xAA] = [CHR 0xE2, CHR 0x84, CHR 0xAA]"
    by (simp add: foldString_def kelvin foldChar_def fold EncodeRune_def valid_rune_def encode3_def char_of_def bit_0)
  moreover have "foldString latin_SimpleFold ''k'' = ''k''"
    by (simp add: foldString_def foldChar_def is_ascii_def char_of_def bit_0)
  ultimately show ?thesis
    by (simp add: Let_def latin.DN_Equal_keys attr_key_def fold_key_def kelvin fold is_ascii_def
        DN_String_def RelativeDN_String_def AttributeTypeAndValue_String_def sort_strings_def
        encodeString_def encodeByte_def hexByte_def hexDigit_def char_lit_iff)
qed

end
