(* ===== verification/LDAP_Error.thy ===== *)
theory LDAP_Error
  imports Go_Strings
begin

text \<open>
  Result codes and errors, \<^verbatim>\<open>src/v3/error.go\<close>: the error structure (\<^const>\<open>LdapError\<close>), its
  text, how a response becomes an error, and the tests for result codes.
\<close>

section \<open>Result codes\<close>

abbreviation (input) "LDAPResultSuccess \<equiv> (0 :: 16 word)"
abbreviation (input) "LDAPResultOperationsError \<equiv> (1 :: 16 word)"
abbreviation (input) "LDAPResultProtocolError \<equiv> (2 :: 16 word)"
abbreviation (input) "LDAPResultTimeLimitExceeded \<equiv> (3 :: 16 word)"
abbreviation (input) "LDAPResultSizeLimitExceeded \<equiv> (4 :: 16 word)"
abbreviation (input) "LDAPResultCompareFalse \<equiv> (5 :: 16 word)"
abbreviation (input) "LDAPResultCompareTrue \<equiv> (6 :: 16 word)"
abbreviation (input) "LDAPResultAuthMethodNotSupported \<equiv> (7 :: 16 word)"
abbreviation (input) "LDAPResultStrongAuthRequired \<equiv> (8 :: 16 word)"
abbreviation (input) "LDAPResultReferral \<equiv> (10 :: 16 word)"
abbreviation (input) "LDAPResultAdminLimitExceeded \<equiv> (11 :: 16 word)"
abbreviation (input) "LDAPResultUnavailableCriticalExtension \<equiv> (12 :: 16 word)"
abbreviation (input) "LDAPResultConfidentialityRequired \<equiv> (13 :: 16 word)"
abbreviation (input) "LDAPResultSaslBindInProgress \<equiv> (14 :: 16 word)"
abbreviation (input) "LDAPResultNoSuchAttribute \<equiv> (16 :: 16 word)"
abbreviation (input) "LDAPResultUndefinedAttributeType \<equiv> (17 :: 16 word)"
abbreviation (input) "LDAPResultInappropriateMatching \<equiv> (18 :: 16 word)"
abbreviation (input) "LDAPResultConstraintViolation \<equiv> (19 :: 16 word)"
abbreviation (input) "LDAPResultAttributeOrValueExists \<equiv> (20 :: 16 word)"
abbreviation (input) "LDAPResultInvalidAttributeSyntax \<equiv> (21 :: 16 word)"
abbreviation (input) "LDAPResultNoSuchObject \<equiv> (32 :: 16 word)"
abbreviation (input) "LDAPResultAliasProblem \<equiv> (33 :: 16 word)"
abbreviation (input) "LDAPResultInvalidDNSyntax \<equiv> (34 :: 16 word)"
abbreviation (input) "LDAPResultIsLeaf \<equiv> (35 :: 16 word)"
abbreviation (input) "LDAPResultAliasDereferencingProblem \<equiv> (36 :: 16 word)"
abbreviation (input) "LDAPResultInappropriateAuthentication \<equiv> (48 :: 16 word)"
abbreviation (input) "LDAPResultInvalidCredentials \<equiv> (49 :: 16 word)"
abbreviation (input) "LDAPResultInsufficientAccessRights \<equiv> (50 :: 16 word)"
abbreviation (input) "LDAPResultBusy \<equiv> (51 :: 16 word)"
abbreviation (input) "LDAPResultUnavailable \<equiv> (52 :: 16 word)"
abbreviation (input) "LDAPResultUnwillingToPerform \<equiv> (53 :: 16 word)"
abbreviation (input) "LDAPResultLoopDetect \<equiv> (54 :: 16 word)"
abbreviation (input) "LDAPResultSortControlMissing \<equiv> (60 :: 16 word)"
abbreviation (input) "LDAPResultOffsetRangeError \<equiv> (61 :: 16 word)"
abbreviation (input) "LDAPResultNamingViolation \<equiv> (64 :: 16 word)"
abbreviation (input) "LDAPResultObjectClassViolation \<equiv> (65 :: 16 word)"
abbreviation (input) "LDAPResultNotAllowedOnNonLeaf \<equiv> (66 :: 16 word)"
abbreviation (input) "LDAPResultNotAllowedOnRDN \<equiv> (67 :: 16 word)"
abbreviation (input) "LDAPResultEntryAlreadyExists \<equiv> (68 :: 16 word)"
abbreviation (input) "LDAPResultObjectClassModsProhibited \<equiv> (69 :: 16 word)"
abbreviation (input) "LDAPResultResultsTooLarge \<equiv> (70 :: 16 word)"
abbreviation (input) "LDAPResultAffectsMultipleDSAs \<equiv> (71 :: 16 word)"
abbreviation (input) "LDAPResultVirtualListViewErrorOrControlError \<equiv> (76 :: 16 word)"
abbreviation (input) "LDAPResultOther \<equiv> (80 :: 16 word)"
abbreviation (input) "LDAPResultServerDown \<equiv> (81 :: 16 word)"
abbreviation (input) "LDAPResultLocalError \<equiv> (82 :: 16 word)"
abbreviation (input) "LDAPResultEncodingError \<equiv> (83 :: 16 word)"
abbreviation (input) "LDAPResultDecodingError \<equiv> (84 :: 16 word)"
abbreviation (input) "LDAPResultTimeout \<equiv> (85 :: 16 word)"
abbreviation (input) "LDAPResultAuthUnknown \<equiv> (86 :: 16 word)"
abbreviation (input) "LDAPResultFilterError \<equiv> (87 :: 16 word)"
abbreviation (input) "LDAPResultUserCanceled \<equiv> (88 :: 16 word)"
abbreviation (input) "LDAPResultParamError \<equiv> (89 :: 16 word)"
abbreviation (input) "LDAPResultNoMemory \<equiv> (90 :: 16 word)"
abbreviation (input) "LDAPResultConnectError \<equiv> (91 :: 16 word)"
abbreviation (input) "LDAPResultNotSupported \<equiv> (92 :: 16 word)"
abbreviation (input) "LDAPResultControlNotFound \<equiv> (93 :: 16 word)"
abbreviation (input) "LDAPResultNoResultsReturned \<equiv> (94 :: 16 word)"
abbreviation (input) "LDAPResultMoreResultsToReturn \<equiv> (95 :: 16 word)"
abbreviation (input) "LDAPResultClientLoop \<equiv> (96 :: 16 word)"
abbreviation (input) "LDAPResultReferralLimitExceeded \<equiv> (97 :: 16 word)"
abbreviation (input) "LDAPResultInvalidResponse \<equiv> (100 :: 16 word)"
abbreviation (input) "LDAPResultAmbiguousResponse \<equiv> (101 :: 16 word)"
abbreviation (input) "LDAPResultTLSNotSupported \<equiv> (112 :: 16 word)"
abbreviation (input) "LDAPResultIntermediateResponse \<equiv> (113 :: 16 word)"
abbreviation (input) "LDAPResultUnknownType \<equiv> (114 :: 16 word)"
abbreviation (input) "LDAPResultCanceled \<equiv> (118 :: 16 word)"
abbreviation (input) "LDAPResultNoSuchOperation \<equiv> (119 :: 16 word)"
abbreviation (input) "LDAPResultTooLate \<equiv> (120 :: 16 word)"
abbreviation (input) "LDAPResultCannotCancel \<equiv> (121 :: 16 word)"
abbreviation (input) "LDAPResultAssertionFailed \<equiv> (122 :: 16 word)"
abbreviation (input) "LDAPResultAuthorizationDenied \<equiv> (123 :: 16 word)"
abbreviation (input) "LDAPResultSyncRefreshRequired \<equiv> (4096 :: 16 word)"
abbreviation (input) "ErrorNetwork \<equiv> (200 :: 16 word)"
abbreviation (input) "ErrorFilterCompile \<equiv> (201 :: 16 word)"
abbreviation (input) "ErrorFilterDecompile \<equiv> (202 :: 16 word)"
abbreviation (input) "ErrorDebugging \<equiv> (203 :: 16 word)"
abbreviation (input) "ErrorUnexpectedMessage \<equiv> (204 :: 16 word)"
abbreviation (input) "ErrorUnexpectedResponse \<equiv> (205 :: 16 word)"
abbreviation (input) "ErrorEmptyPassword \<equiv> (206 :: 16 word)"

definition result_code_texts :: "(16 word \<times> string) list" where
  "result_code_texts =
   [(LDAPResultSuccess, ''Success''),
    (LDAPResultOperationsError, ''Operations Error''),
    (LDAPResultProtocolError, ''Protocol Error''),
    (LDAPResultTimeLimitExceeded, ''Time Limit Exceeded''),
    (LDAPResultSizeLimitExceeded, ''Size Limit Exceeded''),
    (LDAPResultCompareFalse, ''Compare False''),
    (LDAPResultCompareTrue, ''Compare True''),
    (LDAPResultAuthMethodNotSupported, ''Auth Method Not Supported''),
    (LDAPResultStrongAuthRequired, ''Strong Auth Required''),
    (LDAPResultReferral, ''Referral''),
    (LDAPResultAdminLimitExceeded, ''Admin Limit Exceeded''),
    (LDAPResultUnavailableCriticalExtension, ''Unavailable Critical Extension''),
    (LDAPResultConfidentialityRequired, ''Confidentiality Required''),
    (LDAPResultSaslBindInProgress, ''Sasl Bind In Progress''),
    (LDAPResultNoSuchAttribute, ''No Such Attribute''),
    (LDAPResultUndefinedAttributeType, ''Undefined Attribute Type''),
    (LDAPResultInappropriateMatching, ''Inappropriate Matching''),
    (LDAPResultConstraintViolation, ''Constraint Violation''),
    (LDAPResultAttributeOrValueExists, ''Attribute Or Value Exists''),
    (LDAPResultInvalidAttributeSyntax, ''Invalid Attribute Syntax''),
    (LDAPResultNoSuchObject, ''No Such Object''),
    (LDAPResultAliasProblem, ''Alias Problem''),
    (LDAPResultInvalidDNSyntax, ''Invalid DN Syntax''),
    (LDAPResultIsLeaf, ''Is Leaf''),
    (LDAPResultAliasDereferencingProblem, ''Alias Dereferencing Problem''),
    (LDAPResultInappropriateAuthentication, ''Inappropriate Authentication''),
    (LDAPResultInvalidCredentials, ''Invalid Credentials''),
    (LDAPResultInsufficientAccessRights, ''Insufficient Access Rights''),
    (LDAPResultBusy, ''Busy''),
    (LDAPResultUnavailable, ''Unavailable''),
    (LDAPResultUnwillingToPerform, ''Unwilling To Perform''),
    (LDAPResultLoopDetect, ''Loop Detect''),
    (LDAPResultSortControlMissing, ''Sort Control Missing''),
    (LDAPResultOffsetRangeError, ''Result Offset Range Error''),
    (LDAPResultNamingViolation, ''Naming Violation''),
    (LDAPResultObjectClassViolation, ''Object Class Violation''),
    (LDAPResultResultsTooLarge, ''Results Too Large''),
    (LDAPResultNotAllowedOnNonLeaf, ''Not Allowed On Non Leaf''),
    (LDAPResultNotAllowedOnRDN, ''Not Allowed On RDN''),
    (LDAPResultEntryAlreadyExists, ''Entry Already Exists''),
    (LDAPResultObjectClassModsProhibited, ''Object Class Mods Prohibited''),
    (LDAPResultAffectsMultipleDSAs, ''Affects Multiple DSAs''),
    (LDAPResultVirtualListViewErrorOrControlError, ''Failed because of a problem related to the virtual list view''),
    (LDAPResultOther, ''Other''),
    (LDAPResultServerDown, ''Cannot establish a connection''),
    (LDAPResultLocalError, ''An error occurred''),
    (LDAPResultEncodingError, ''LDAP encountered an error while encoding''),
    (LDAPResultDecodingError, ''LDAP encountered an error while decoding''),
    (LDAPResultTimeout, ''LDAP timeout while waiting for a response from the server''),
    (LDAPResultAuthUnknown, ''The auth method requested in a bind request is unknown''),
    (LDAPResultFilterError, ''An error occurred while encoding the given search filter''),
    (LDAPResultUserCanceled, ''The user canceled the operation''),
    (LDAPResultParamError, ''An invalid parameter was specified''),
    (LDAPResultNoMemory, ''Out of memory error''),
    (LDAPResultConnectError, ''A connection to the server could not be established''),
    (LDAPResultNotSupported, ''An attempt has been made to use a feature not supported LDAP''),
    (LDAPResultControlNotFound, ''The controls required to perform the requested operation were not found''),
    (LDAPResultNoResultsReturned, ''No results were returned from the server''),
    (LDAPResultMoreResultsToReturn, ''There are more results in the chain of results''),
    (LDAPResultClientLoop, ''A loop has been detected. For example when following referrals''),
    (LDAPResultReferralLimitExceeded, ''The referral hop limit has been exceeded''),
    (LDAPResultCanceled, ''Operation was canceled''),
    (LDAPResultNoSuchOperation, ''Server has no knowledge of the operation requested for cancellation''),
    (LDAPResultTooLate, ''Too late to cancel the outstanding operation''),
    (LDAPResultCannotCancel, ''The identified operation does not support cancellation or the cancel operation cannot be performed''),
    (LDAPResultAssertionFailed, ''An assertion control given in the LDAP operation evaluated to false causing the operation to not be performed''),
    (LDAPResultSyncRefreshRequired, ''Refresh Required''),
    (LDAPResultInvalidResponse, ''Invalid Response''),
    (LDAPResultAmbiguousResponse, ''Ambiguous Response''),
    (LDAPResultTLSNotSupported, ''Tls Not Supported''),
    (LDAPResultIntermediateResponse, ''Intermediate Response''),
    (LDAPResultUnknownType, ''Unknown Type''),
    (LDAPResultAuthorizationDenied, ''Authorization Denied''),
    (ErrorNetwork, ''Network Error''),
    (ErrorFilterCompile, ''Filter Compile Error''),
    (ErrorFilterDecompile, ''Filter Decompile Error''),
    (ErrorDebugging, ''Debugging Error''),
    (ErrorUnexpectedMessage, ''Unexpected Message''),
    (ErrorUnexpectedResponse, ''Unexpected Response''),
    (ErrorEmptyPassword, ''Empty password not allowed by the client'')]"

text \<open>Reading a missing key of a Go map gives the zero value, here the empty string.\<close>

definition LDAPResultCodeMap :: "16 word \<Rightarrow> string" where
  "LDAPResultCodeMap c = (case map_of result_code_texts c of None \<Rightarrow> [] | Some t \<Rightarrow> t)"

section \<open>Error values\<close>

definition NewError :: "16 word \<Rightarrow> go_error \<Rightarrow> go_error" where
  "NewError resultCode err = LdapError err resultCode [] NilPacket"

text \<open>The error text.  The descriptions hold only printable ASCII without quotes, so \<^verbatim>\<open>%q\<close> just
  puts quotes around them.  The byte of an \<^verbatim>\<open>InvalidByteError\<close> is printed with \<^verbatim>\<open>%#U\<close>.\<close>

definition upper_hex :: "nat \<Rightarrow> char" where
  "upper_hex n = ''0123456789ABCDEF'' ! n"

definition printable_latin1 :: "nat \<Rightarrow> bool" where
  "printable_latin1 r \<longleftrightarrow> 0x20 \<le> r \<and> r \<le> 0x7E \<or> 0xA1 \<le> r \<and> r \<noteq> 0xAD"

fun Error_Error :: "go_error \<Rightarrow> string" where
  "Error_Error (ErrText s) = s"
| "Error_Error (ErrTextOf s e) = s @ Error_Error e"
| "Error_Error (ErrWrap s e) = s @ Error_Error e"
| "Error_Error (InvalidByteError c) =
     ''encoding/hex: invalid byte: U+00'' @ [upper_hex (ord c div 16), upper_hex (ord c mod 16)]
     @ (if printable_latin1 (ord c) then '' '' @ [CHR 0x27] @ EncodeRune (ord c) @ [CHR 0x27] else [])"
| "Error_Error ErrLength = ''encoding/hex: odd length hex string''"
| "Error_Error (LdapError err code _ _) =
     ''LDAP Result Code '' @ decimal (unat code) @ '' '' @ [DQUOTE] @ LDAPResultCodeMap code @ [DQUOTE]
     @ '': '' @ Error_Error err"

text \<open>\<^verbatim>\<open>Unwrap\<close>, and \<^verbatim>\<open>errors.As\<close> for the type \<^verbatim>\<open>*Error\<close>: the first such error on the chain.\<close>

fun Error_Unwrap :: "go_error \<Rightarrow> go_error option" where
  "Error_Unwrap (ErrWrap s e) = Some e"
| "Error_Unwrap (LdapError err _ _ _) = Some err"
| "Error_Unwrap _ = None"

fun errors_As :: "go_error \<Rightarrow> go_error option" where
  "errors_As (LdapError err code dn p) = Some (LdapError err code dn p)"
| "errors_As (ErrWrap s e) = errors_As e"
| "errors_As _ = None"

fun code_in :: "16 word \<Rightarrow> 16 word list \<Rightarrow> bool" where
  "code_in c [] = False"
| "code_in c (code # codes) = (if c = code then True else code_in c codes)"

definition IsErrorAnyOf :: "go_error option \<Rightarrow> 16 word list \<Rightarrow> bool" where
  "IsErrorAnyOf err codes =
     (case err of
        None \<Rightarrow> False
      | Some e \<Rightarrow>
          (case errors_As e of
             None \<Rightarrow> False
           | Some serverError \<Rightarrow> code_in (ResultCode serverError) codes))"

definition IsErrorWithCode :: "go_error option \<Rightarrow> 16 word \<Rightarrow> bool" where
  "IsErrorWithCode err desiredResultCode = IsErrorAnyOf err [desiredResultCode]"

section \<open>Responses as errors\<close>

text \<open>\<^verbatim>\<open>%v\<close> of a packet's value.\<close>

definition show_int :: "int \<Rightarrow> string" where
  "show_int i = (if i < 0 then ''-'' @ decimal (nat (- i)) else decimal (nat i))"

fun format_v :: "ber_value \<Rightarrow> string" where
  "format_v VNil = ''<nil>''"
| "format_v (VString s) = s"
| "format_v (VInt64 i) = show_int i"
| "format_v (VUint64 w) = show_int (uint w)"
| "format_v (VInt32 w) = show_int (sint w)"
| "format_v (VInt8 i) = show_int i"
| "format_v (VInt i) = show_int i"
| "format_v (VBool b) = (if b then ''true'' else ''false'')"
| "format_v (VBytes s) = ''['' @ join '' '' (map (\<lambda>c. decimal (ord c)) s) @ '']''"
| "format_v (VOther t s) = s"

text \<open>The type assertions \<^verbatim>\<open>x.(int64)\<close> and \<^verbatim>\<open>x.(string)\<close> panic on another dynamic type.\<close>

fun as_int64 :: "ber_value \<Rightarrow> int option" where
  "as_int64 (VInt64 i) = Some i"
| "as_int64 _ = None"

fun as_string :: "ber_value \<Rightarrow> string option" where
  "as_string (VString s) = Some s"
| "as_string _ = None"

text \<open>
  \<^verbatim>\<open>GetLDAPError\<close>: \<^verbatim>\<open>None\<close> is a panic, \<^verbatim>\<open>Some None\<close> the nil error.  The conversions
  \<^verbatim>\<open>ber.Type(tag)\<close> keep the low eight bits of a tag, \<^verbatim>\<open>uint16(code)\<close> the low sixteen of a code.
\<close>

definition type_of_tag :: "nat \<Rightarrow> nat" where
  "type_of_tag g = g mod 256"

abbreviation invalid_format :: "packet \<Rightarrow> go_error" where
  "invalid_format p \<equiv> LdapError (ErrText ''Invalid packet format'') ErrorNetwork [] p"

definition GetLDAPError :: "packet \<Rightarrow> go_error option option" where
  "GetLDAPError p =
     (if p = NilPacket then
        Some (Some (LdapError (ErrText ''Empty packet'') ErrorUnexpectedResponse [] NilPacket))
      else if length (Children p) < 2 then Some (Some (invalid_format p))
      else
        (let response = Children p ! 1 in
         if response = NilPacket then
           Some (Some (LdapError (ErrText ''Empty response in packet'') ErrorUnexpectedResponse [] p))
         else if \<not> (ClassType response = ClassApplication \<and> TagType response = TypeConstructed
                    \<and> 3 \<le> length (Children response)) then Some (Some (invalid_format p))
         else
           do { c0 \<leftarrow> deref (Children response ! 0);
                if \<not> (type_of_tag (Tag c0) = TagInteger \<or> type_of_tag (Tag c0) = TagEnumerated) then
                  Some (Some (invalid_format p))
                else if Value c0 = VNil then
                  Some (Some (LdapError (ErrText ''Invalid result code in packet'') ErrorNetwork [] p))
                else
                  do { code \<leftarrow> as_int64 (Value c0);
                       let resultCode = (word_of_int code :: 16 word) in
                       if resultCode = 0 then Some None
                       else
                         do { c1 \<leftarrow> deref (Children response ! 1);
                              if type_of_tag (Tag c1) \<noteq> TagOctetString then Some (Some (invalid_format p))
                              else
                                do { c2 \<leftarrow> deref (Children response ! 2);
                                     if type_of_tag (Tag c2) \<noteq> TagOctetString then Some (Some (invalid_format p))
                                     else if Value c1 = VNil then
                                       Some (Some (LdapError (ErrText ''Invalid matchedDN in packet'') ErrorNetwork [] p))
                                     else
                                       do { matched \<leftarrow> as_string (Value c1);
                                            Some (Some (LdapError (ErrText (format_v (Value c2))) resultCode matched p)) }}}}}))"

section \<open>Lemmas\<close>

lemma code_in_iff: "code_in c codes \<longleftrightarrow> c \<in> set codes"
  by (induction codes) auto

lemma word16_eq_0_iff: "(word_of_int i :: 16 word) = 0 \<longleftrightarrow> 65536 dvd i"
proof -
  have "(word_of_int i :: 16 word) = 0 \<longleftrightarrow> uint (word_of_int i :: 16 word) = 0"
    by (simp add: uint_0_iff)
  then show ?thesis by (simp add: uint_word_of_int dvd_eq_mod_eq_0)
qed

text \<open>An LDAPResult as the packet library gives it: an application element whose first three
  components are the code, the matched DN and the diagnostic message.\<close>

definition is_LDAPResult :: "packet \<Rightarrow> int \<Rightarrow> string \<Rightarrow> string \<Rightarrow> bool" where
  "is_LDAPResult p code dn msg \<longleftrightarrow>
     p \<noteq> NilPacket \<and> 2 \<le> length (Children p)
     \<and> (let r = Children p ! 1 in
        r \<noteq> NilPacket \<and> ClassType r = ClassApplication \<and> TagType r = TypeConstructed
        \<and> 3 \<le> length (Children r)
        \<and> Tag (Children r ! 0) \<in> {TagInteger, TagEnumerated} \<and> Value (Children r ! 0) = VInt64 code
        \<and> Tag (Children r ! 1) = TagOctetString \<and> Value (Children r ! 1) = VString dn
        \<and> Tag (Children r ! 2) = TagOctetString \<and> Value (Children r ! 2) = VString msg)"

lemma deref_tagged: "Tag p = g \<Longrightarrow> 0 < g \<Longrightarrow> deref p = Some p"
  by (auto simp: deref_def)

lemma GetLDAPError_of_LDAPResult:
  assumes "is_LDAPResult p code dn msg"
  shows "GetLDAPError p =
    Some (if 65536 dvd code then None else Some (LdapError (ErrText msg) (word_of_int code) dn p))"
proof -
  let ?r = "Children p ! 1"
  from assms have "deref (Children ?r ! 0) = Some (Children ?r ! 0)"
    "deref (Children ?r ! 1) = Some (Children ?r ! 1)" "deref (Children ?r ! 2) = Some (Children ?r ! 2)"
    by (auto simp: is_LDAPResult_def Let_def intro: deref_tagged)
  with assms show ?thesis
    by (auto simp: is_LDAPResult_def GetLDAPError_def Let_def type_of_tag_def word16_eq_0_iff)
qed

lemma as_int64_Some: "as_int64 v = Some i \<longleftrightarrow> v = VInt64 i"
  by (cases v) auto

lemma GetLDAPError_cases:
  assumes "GetLDAPError p = Some res"
  obtains (ok) code where "res = None" "Value (Children (Children p ! 1) ! 0) = VInt64 code" "65536 dvd code"
  | (error) err c dn q where "res = Some (LdapError err c dn q)" "c \<noteq> 0"
  using assms unfolding GetLDAPError_def
  by (auto simp: Let_def deref_def as_int64_Some word16_eq_0_iff split: if_splits bind_splits)

section \<open>Properties\<close>

text \<open>C35. On a response that holds an LDAPResult, \<^verbatim>\<open>GetLDAPError\<close> does not panic; it returns nil
  when the result code is a multiple of 65536 and otherwise the error with the low sixteen bits of
  the code, the matched DN, the diagnostic message and the packet.\<close>

theorem GetLDAPError_LDAPResult:
  assumes "is_LDAPResult p code dn msg"
  shows "GetLDAPError p =
    Some (if 65536 dvd code then None else Some (LdapError (ErrText msg) (word_of_int code) dn p))"
  using assms by (rule GetLDAPError_of_LDAPResult)

abbreviation result_49 :: packet where
  "result_49 \<equiv> Packet ClassUniversal TypeConstructed 16 VNil [] (Some []) [
     Packet ClassUniversal TypePrimitive 2 (VInt64 1) [] (Some []) [] [],
     Packet ClassApplication TypeConstructed 1 VNil [] (Some []) [
       Packet ClassUniversal TypePrimitive 10 (VInt64 49) [] (Some []) [] [],
       Packet ClassUniversal TypePrimitive 4 (VString ''dc=x'') [] (Some []) [] [],
       Packet ClassUniversal TypePrimitive 4 (VString ''denied'') [] (Some []) [] []] []] []"

theorem GetLDAPError_LDAPResult_witness:
  "is_LDAPResult result_49 49 ''dc=x'' ''denied''
   \<and> GetLDAPError result_49 = Some (Some (LdapError (ErrText ''denied'') 49 ''dc=x'' result_49))"
proof -
  have "is_LDAPResult result_49 49 ''dc=x'' ''denied''" by (simp add: is_LDAPResult_def)
  with GetLDAPError_LDAPResult [OF this] show ?thesis by simp
qed

text \<open>A response is taken for success only if its first result component is an integer that is a
  multiple of 65536, and every error \<^verbatim>\<open>GetLDAPError\<close> returns is an LDAP error with a code other than
  success: the callers' assertions \<^verbatim>\<open>err.(*Error)\<close> hold.\<close>

theorem GetLDAPError_sound:
  assumes "GetLDAPError p = Some res"
  shows "case res of
      None \<Rightarrow> \<exists>code. Value (Children (Children p ! 1) ! 0) = VInt64 code \<and> 65536 dvd code
    | Some e \<Rightarrow> errors_As e = Some e \<and> ResultCode e \<noteq> LDAPResultSuccess"
  using assms by (cases rule: GetLDAPError_cases) auto

theorem GetLDAPError_sound_witness:
  "GetLDAPError NilPacket = Some (Some (LdapError (ErrText ''Empty packet'') ErrorUnexpectedResponse [] NilPacket))
   \<and> errors_As (LdapError (ErrText ''Empty packet'') ErrorUnexpectedResponse [] NilPacket)
     = Some (LdapError (ErrText ''Empty packet'') ErrorUnexpectedResponse [] NilPacket)"
proof -
  have e: "GetLDAPError NilPacket
      = Some (Some (LdapError (ErrText ''Empty packet'') ErrorUnexpectedResponse [] NilPacket))"
    by (simp add: GetLDAPError_def)
  from GetLDAPError_sound [OF e] show ?thesis by (simp add: e)
qed

text \<open>A server's result code 65536 is reported as success: the conversion to sixteen bits comes
  before the comparison with zero.\<close>

theorem GetLDAPError_code_65536:
  "is_LDAPResult p 65536 dn msg \<Longrightarrow> GetLDAPError p = Some None"
  by (simp add: GetLDAPError_of_LDAPResult)

abbreviation result_65536 :: packet where
  "result_65536 \<equiv> Packet ClassUniversal TypeConstructed 16 VNil [] (Some []) [
     Packet ClassUniversal TypePrimitive 2 (VInt64 1) [] (Some []) [] [],
     Packet ClassApplication TypeConstructed 1 VNil [] (Some []) [
       Packet ClassUniversal TypePrimitive 10 (VInt64 65536) [] (Some []) [] [],
       Packet ClassUniversal TypePrimitive 4 (VString []) [] (Some []) [] [],
       Packet ClassUniversal TypePrimitive 4 (VString ''denied'') [] (Some []) [] []] []] []"

theorem GetLDAPError_code_65536_witness: "GetLDAPError result_65536 = Some None"
  by (rule GetLDAPError_code_65536 [of _ "[]" "''denied''"]) (simp add: is_LDAPResult_def)

text \<open>\<^verbatim>\<open>IsErrorAnyOf\<close> sees through wrapping: it holds exactly when the first LDAP error on the
  chain of wrapped errors has one of the codes, and never of nil.\<close>

theorem IsErrorAnyOf_iff:
  "(IsErrorAnyOf err codes \<longleftrightarrow>
     (\<exists>e le. err = Some e \<and> errors_As e = Some le \<and> ResultCode le \<in> set codes))
   \<and> IsErrorAnyOf (Some (ErrWrap s e)) codes = IsErrorAnyOf (Some e) codes
   \<and> IsErrorWithCode (Some (NewError c e)) c' = (c = c')"
  by (auto simp: IsErrorAnyOf_def IsErrorWithCode_def NewError_def code_in_iff split: option.splits)

end
