(* ===== verification/LDAP_Escape.thy ===== *)
theory LDAP_Escape
  imports LDAP_Error DN_Text
begin

text \<open>
  Escaping: \<^verbatim>\<open>EscapeFilter\<close> and \<^verbatim>\<open>EscapeDN\<close> of \<^verbatim>\<open>src/v3/ldap.go\<close> with the decoders that undo them,
  \<^verbatim>\<open>decodeEscapedSymbols\<close> of \<^verbatim>\<open>src/v3/filter.go\<close> and \<^verbatim>\<open>decodeString\<close> of \<^verbatim>\<open>src/v3/dn.go\<close>.
\<close>

section \<open>Filter values\<close>

definition mustEscape :: "char \<Rightarrow> bool" where
  "mustEscape c \<longleftrightarrow> 0x7F < ord c \<or> c = CHR ''('' \<or> c = CHR '')'' \<or> c = BSLASH \<or> c = CHR ''*'' \<or> ord c = 0"

text \<open>The first pass counts, the second writes into a buffer of the counted size; an index out of
  the buffer panics: \<^const>\<open>None\<close>.\<close>

fun count_escapes :: "string \<Rightarrow> nat" where
  "count_escapes [] = 0"
| "count_escapes (c # cs) = (if mustEscape c then Suc (count_escapes cs) else count_escapes cs)"

definition put :: "bytes \<Rightarrow> nat \<Rightarrow> char \<Rightarrow> bytes option" where
  "put buf j c = (if j < length buf then Some (buf[j := c]) else None)"

fun escape_write :: "bytes \<Rightarrow> nat \<Rightarrow> string \<Rightarrow> bytes option" where
  "escape_write buf j [] = Some buf"
| "escape_write buf j (c # cs) =
     (if mustEscape c then
        do { b1 \<leftarrow> put buf (j + 0) BSLASH;
             b2 \<leftarrow> put b1 (j + 1) (hexDigit (ord c div 16));
             b3 \<leftarrow> put b2 (j + 2) (hexDigit (ord c mod 16));
             escape_write b3 (j + 3) cs }
      else do { b \<leftarrow> put buf j c; escape_write b (j + 1) cs })"

definition EscapeFilter :: "string \<Rightarrow> string option" where
  "EscapeFilter s =
     (let escape = count_escapes s in
      if escape = 0 then Some s
      else escape_write (replicate (length s + escape * 2) (char_of (0 :: nat))) 0 s)"

text \<open>
  \<^verbatim>\<open>decodeEscapedSymbols\<close> from a position of its reader on; \<^verbatim>\<open>offset\<close> is the variable of the code,
  which counts the bytes of the runes but not the two digits of an escape.
\<close>

abbreviation filter_error :: "go_error \<Rightarrow> go_error" where
  "filter_error e \<equiv> NewError ErrorFilterCompile e"

function decodeEscaped :: "nat \<Rightarrow> bytes \<Rightarrow> go_error + string" where
  "decodeEscaped offset [] = Inr []"
| "decodeEscaped offset (c # cs) =
     (case DecodeRune (c # cs) of
        (runeVal, runeSize) \<Rightarrow>
          if runeVal = RuneError then
            Inl (filter_error (ErrText (''ldap: error reading rune at position '' @ decimal offset)))
          else if runeVal = 0x5C then
            (case drop runeSize (c # cs) of
               [] \<Rightarrow> Inl (filter_error (ErrText ''ldap: invalid characters for escape in filter: EOF''))
             | [x] \<Rightarrow> Inl (filter_error (ErrText ''ldap: missing characters for escape in filter''))
             | x # y # rest \<Rightarrow>
                 (case hex_decode [x, y] of
                    Inl e \<Rightarrow> Inl (filter_error (ErrTextOf ''ldap: invalid characters for escape in filter: '' e))
                  | Inr byteVal \<Rightarrow> prepend byteVal (decodeEscaped (offset + runeSize) rest)))
          else prepend (EncodeRune runeVal) (decodeEscaped (offset + runeSize) (drop runeSize (c # cs))))"
  by pat_completeness auto
termination
  by (relation "measure (\<lambda>(offset, s). length s)")
    (auto dest: arg_cong [of "drop _ _" _ length] DecodeRune_width_pos [OF sym])

definition decodeEscapedSymbols :: "bytes \<Rightarrow> go_error + string" where
  "decodeEscapedSymbols src = decodeEscaped 0 src"

declare decodeEscaped.simps(2) [simp del]

section \<open>Distinguished names\<close>

definition EscapeDN_rune :: "nat \<Rightarrow> nat \<Rightarrow> rune \<Rightarrow> string" where
  "EscapeDN_rune n i r =
     (if (i = 0 \<or> i = n - 1) \<and> r = 0x20 then [BSLASH] @ EncodeRune r
      else if i = 0 \<and> r = 0x23 then [BSLASH] @ EncodeRune r
      else if r \<in> {0x22, 0x2B, 0x2C, 0x3B, 0x3C, 0x3E, 0x5C} then [BSLASH] @ EncodeRune r
      else if r = 0 then [BSLASH] @ ''00''
      else EncodeRune r)"

definition EscapeDN :: "string \<Rightarrow> string" where
  "EscapeDN dn =
     (if dn = [] then [] else concat (map (\<lambda>(i, r). EscapeDN_rune (length dn) i r) (range_string dn)))"

section \<open>The filter escape writes the reference escape\<close>

definition escape_byte :: "char \<Rightarrow> string" where
  "escape_byte c = (if mustEscape c then BSLASH # hexByte c else [c])"

definition escape_ref :: "string \<Rightarrow> string" where
  "escape_ref s = concat (map escape_byte s)"

lemma escape_ref_simps [simp]:
  "escape_ref [] = []" "escape_ref (c # cs) = escape_byte c @ escape_ref cs"
  by (simp_all add: escape_ref_def)

lemma length_escape_ref: "length (escape_ref s) = length s + count_escapes s * 2"
  by (induction s) (simp_all add: escape_byte_def hexByte_def)

text \<open>The buffer is always what has been written, followed by the room left.\<close>

lemma put_next: "put (pre @ x # todo) (length pre) c = Some ((pre @ [c]) @ todo)"
  by (simp add: put_def)

lemma escape_write_ref:
  assumes "length todo = length s + count_escapes s * 2"
  shows "escape_write (written @ todo) (length written) s = Some (written @ escape_ref s)"
  using assms
proof (induction s arbitrary: written todo)
  case Nil
  then show ?case by simp
next
  case (Cons c cs)
  show ?case
  proof (cases "mustEscape c")
    case True
    with Cons.prems have "3 \<le> length todo" by simp
    then obtain x y z rest where todo: "todo = x # y # z # rest"
      by (metis One_nat_def Suc_le_length_iff numeral_3_eq_3)
    let ?w = "written @ BSLASH # hexByte c"
    have "escape_write (?w @ rest) (length ?w) cs = Some (?w @ escape_ref cs)"
      using Cons.prems True todo by (intro Cons.IH) simp
    then show ?thesis
      using True put_next [of written x "y # z # rest" BSLASH]
        put_next [of "written @ [BSLASH]" y "z # rest" "hexDigit (ord c div 16)"]
        put_next [of "written @ [BSLASH, hexDigit (ord c div 16)]" z rest "hexDigit (ord c mod 16)"]
      by (simp add: todo escape_byte_def hexByte_def numeral_3_eq_3)
  next
    case False
    with Cons.prems obtain x rest where todo: "todo = x # rest" by (cases todo) auto
    have "escape_write ((written @ [c]) @ rest) (length (written @ [c])) cs = Some ((written @ [c]) @ escape_ref cs)"
      using Cons.prems False todo by (intro Cons.IH) simp
    with False show ?thesis using put_next [of written x rest c] by (simp add: todo escape_byte_def)
  qed
qed

lemma EscapeFilter_ref: "EscapeFilter s = Some (escape_ref s)"
proof (cases "count_escapes s = 0")
  case True
  then have "escape_ref s = s" by (induction s) (auto simp: escape_byte_def split: if_splits)
  with True show ?thesis by (simp add: EscapeFilter_def)
next
  case False
  with escape_write_ref [of _ s "[]"] show ?thesis by (simp add: EscapeFilter_def Let_def)
qed

lemma escape_byte_ascii: "ascii_string (escape_byte c)"
  by (auto simp: escape_byte_def hexByte_def is_ascii_def mustEscape_def
      hexDigit_ascii [unfolded is_ascii_def])

lemma escape_ref_ascii: "ascii_string (escape_ref s)"
  by (induction s) (simp_all add: escape_byte_ascii)

lemma escape_byte_plain: "set (escape_byte c) \<inter> {CHR ''('', CHR '')'', CHR ''*'', CHR 0x00} = {}"
proof (cases "mustEscape c")
  case True
  have "hexDigit k \<notin> {CHR ''('', CHR '')'', CHR ''*'', CHR 0x00}" if "k < 16" for k
    using that by (simp add: hexDigit_cases char_lit_iff)
  from this [of "ord c div 16"] this [of "ord c mod 16"] True show ?thesis
    by (simp add: escape_byte_def hexByte_def)
next
  case False
  then show ?thesis by (auto simp: escape_byte_def mustEscape_def)
qed

lemma escape_ref_plain: "set (escape_ref s) \<inter> {CHR ''('', CHR '')'', CHR ''*'', CHR 0x00} = {}"
  by (induction s) (simp_all add: Int_Un_distrib2 escape_byte_plain)

lemma decodeEscaped_escape_byte [escape_simps]:
  "\<exists>offset'. decodeEscaped offset (escape_byte c @ s) = prepend [c] (decodeEscaped offset' s)"
proof (cases "mustEscape c")
  case True
  then show ?thesis
    by (auto simp: escape_byte_def hexByte_def decodeEscaped.simps is_ascii_def RuneError_def)
next
  case False
  then have "ord c < 128" "ord c \<noteq> 0x5C" by (auto simp: mustEscape_def char_lit_iff)
  with False show ?thesis
    by (auto simp: escape_byte_def decodeEscaped.simps is_ascii_def RuneError_def)
qed

lemma decodeEscaped_escape_ref: "decodeEscaped offset (escape_ref s) = Inr s"
proof (induction s arbitrary: offset)
  case (Cons c cs)
  obtain offset' where "decodeEscaped offset (escape_byte c @ escape_ref cs)
      = prepend [c] (decodeEscaped offset' (escape_ref cs))"
    using decodeEscaped_escape_byte by blast
  with Cons show ?case by (simp add: prepend_def)
qed simp

interpretation filter_text: codec "\<lambda>_. True" escape_ref decodeEscapedSymbols
  by unfold_locales (simp add: decodeEscapedSymbols_def decodeEscaped_escape_ref)

section \<open>Decoding undoes EscapeDN\<close>

lemma range_from_EncodeRune:
  assumes "valid_rune r"
  shows "range_from i (EncodeRune r @ s) = (i, r) # range_from (i + length (EncodeRune r)) s"
proof (cases "EncodeRune r @ s")
  case Nil
  then show ?thesis by simp
next
  case (Cons c cs)
  with DecodeRune_EncodeRune [OF assms, of s]
  have "DecodeRune (c # cs) = (r, length (EncodeRune r))" by simp
  moreover have "drop (length (EncodeRune r)) (c # cs) = s" by (simp flip: Cons)
  ultimately show ?thesis by (simp add: Cons)
qed

lemma EncodeRune_high: "128 \<le> r \<Longrightarrow> c \<in> set (EncodeRune r) \<Longrightarrow> 128 \<le> ord c"
proof -
  assume "128 \<le> r" "c \<in> set (EncodeRune r)"
  moreover have "r div 4096 < 16" if "r < 0x10000" using that by simp
  moreover have "r div 262144 < 5" if "r \<le> 0x10FFFF" using that by simp
  moreover have "r div 64 < 32" if "r < 0x800" using that by simp
  ultimately show ?thesis
    by (auto simp: EncodeRune_def encode3_def RuneError_def valid_rune_def split: if_splits)
qed

text \<open>The runes an escaped rune is written as.\<close>

definition escaped_runes :: "nat \<Rightarrow> nat \<Rightarrow> rune \<Rightarrow> rune list" where
  "escaped_runes n i r =
     (if (i = 0 \<or> i = n - 1) \<and> r = 0x20 \<or> i = 0 \<and> r = 0x23
         \<or> r \<in> {0x22, 0x2B, 0x2C, 0x3B, 0x3C, 0x3E, 0x5C} then [0x5C, r]
      else if r = 0 then [0x5C, 0x30, 0x30] else [r])"

lemma char_of_literals:
  "char_of (0x5C :: nat) = BSLASH" "char_of (0x30 :: nat) = CHR ''0''" "char_of (0x20 :: nat) = CHR '' ''"
  by (simp_all add: char_of_def bit_0)

lemma EscapeDN_rune_runes: "EscapeDN_rune n i r = encodeRunes (escaped_runes n i r)"
  by (auto simp: EscapeDN_rune_def escaped_runes_def char_of_literals)

lemma escaped_runes_valid: "valid_rune r \<Longrightarrow> list_all valid_rune (escaped_runes n i r)"
  by (auto simp: escaped_runes_def ascii_valid_rune)

lemma decodeRunes_escaped:
  "decodeRunes s (escaped_runes n i r @ rs) = prepend (EncodeRune r) (decodeRunes s rs)"
  by (auto simp: escaped_runes_def escapable_def hexValue_def char_lit_iff)

lemma EscapeDN_rune_token:
  assumes "valid_rune r"
  shows "escape_token (EscapeDN_rune n i r)"
    and "EscapeDN_rune n i r \<noteq> []"
    and "is_space (last (EscapeDN_rune n i r)) \<Longrightarrow> r = 0x20"
    and "i = 0 \<Longrightarrow> \<not> is_space (hd (EscapeDN_rune n i r))"
proof -
  have high: "last (EncodeRune r) \<noteq> BSLASH" "\<not> is_space (last (EncodeRune r))"
    "\<not> is_space (hd (EncodeRune r))" if "128 \<le> r"
    using EncodeRune_high [OF that, of "last (EncodeRune r)"] EncodeRune_high [OF that, of "hd (EncodeRune r)"]
    by (auto simp: char_lit_iff)
  show "escape_token (EscapeDN_rune n i r)" "EscapeDN_rune n i r \<noteq> []"
    "is_space (last (EscapeDN_rune n i r)) \<Longrightarrow> r = 0x20"
    "i = 0 \<Longrightarrow> \<not> is_space (hd (EscapeDN_rune n i r))"
    using high by (cases "r < 128"; auto simp: EscapeDN_rune_def escape_token_def char_lit_iff
        split: if_splits)+
qed

abbreviation escape_from :: "nat \<Rightarrow> nat \<Rightarrow> string \<Rightarrow> string" where
  "escape_from n i s \<equiv> concat (map (\<lambda>(i, r). EscapeDN_rune n i r) (range_from i s))"

lemma escape_from_tokens:
  assumes "valid_utf8 s" "s \<noteq> []" "i + length s = n"
  shows "\<exists>ts t. escape_from n i s = concat ts @ t \<and> list_all escape_token ts
    \<and> (t = [BSLASH, CHR '' ''] \<or> t \<noteq> [] \<and> \<not> is_space (last t))"
  using assms
proof (induction s arbitrary: i rule: valid_utf8_induct)
  case (Rune r s)
  note r = range_from_EncodeRune [OF Rune.hyps(1)]
  show ?case
  proof (cases "s = []")
    case True
    have "EscapeDN_rune n i r = [BSLASH, CHR '' '']
        \<or> EscapeDN_rune n i r \<noteq> [] \<and> \<not> is_space (last (EscapeDN_rune n i r))"
    proof (cases "r = 0x20")
      case space: True
      with Rune.prems True show ?thesis by (auto simp: EscapeDN_rune_def char_of_literals)
    next
      case False
      with EscapeDN_rune_token [OF Rune.hyps(1), of n i] show ?thesis by blast
    qed
    with True show ?thesis using r [of i "[]"]
      by (intro exI [of _ "[]"] exI [of _ "EscapeDN_rune n i r"]) simp
  next
    case False
    with Rune.prems obtain ts t where
      "escape_from n (i + length (EncodeRune r)) s = concat ts @ t" "list_all escape_token ts"
      "t = [BSLASH, CHR '' ''] \<or> t \<noteq> [] \<and> \<not> is_space (last t)"
      using Rune.IH [of "i + length (EncodeRune r)"] by auto
    then show ?thesis using r [of i s] EscapeDN_rune_token(1) [OF Rune.hyps(1)]
      by (intro exI [of _ "EscapeDN_rune n i r # ts"] exI [of _ t]) simp
  qed
qed simp

lemma decodeRunes_escape_from:
  assumes "valid_utf8 s"
  shows "decodeRunes u (runes (escape_from n i s)) = Inr s"
  using assms
proof (induction s arbitrary: i rule: valid_utf8_induct)
  case (Rune r s)
  then show ?case
    by (simp add: range_from_EncodeRune EscapeDN_rune_runes runes_encodeRunes_append
        escaped_runes_valid decodeRunes_escaped)
      (simp add: prepend_def EscapeDN_rune_runes flip: EscapeDN_rune_runes)
qed simp

lemma decodeString_EscapeDN: "valid_utf8 s \<Longrightarrow> decodeString (EscapeDN s) = Inr s"
proof (cases "s = []")
  case True
  then show ?thesis by (simp add: EscapeDN_def decodeString_def stripLeadingAndTrailingSpaces_def trim_spaces_def)
next
  case False
  assume valid: "valid_utf8 s"
  have esc: "EscapeDN s = escape_from (length s) 0 s"
    using False by (simp add: EscapeDN_def range_string_def)
  obtain ts t where ts: "EscapeDN s = concat ts @ t" "list_all escape_token ts"
    "t = [BSLASH, CHR '' ''] \<or> t \<noteq> [] \<and> \<not> is_space (last t)"
    using escape_from_tokens [OF valid False, of 0 "length s"] unfolding esc by auto
  have "\<not> is_space (hd (EscapeDN s))"
  proof -
    obtain r rs where "valid_rune r" "s = EncodeRune r @ encodeRunes rs"
      using valid False unfolding valid_utf8_iff by (metis encodeRunes_simps list.exhaust list.pred_inject(2))
    with EscapeDN_rune_token(2,4) [where n = "length s" and i = 0] show ?thesis
      unfolding esc by (simp add: range_from_EncodeRune hd_append)
  qed
  then have "stripLeadingAndTrailingSpaces (EscapeDN s) = EscapeDN s"
    unfolding ts(1) using ts(2,3) by (intro strip_escaped_text) auto
  then show ?thesis
    using decodeRunes_escape_from [OF valid] by (simp add: decodeString_def esc)
qed

interpretation dn_escape: codec valid_utf8 EscapeDN decodeString
  by unfold_locales (rule decodeString_EscapeDN)

section \<open>Properties\<close>

text \<open>C39. \<^verbatim>\<open>EscapeFilter\<close> never writes outside its buffer, and what it writes is the string with each
  byte that must be escaped replaced by a backslash and its two hexadecimal digits; the result
  holds no parenthesis, no asterisk, no NUL and only ASCII, and \<^verbatim>\<open>decodeEscapedSymbols\<close> gives
  back the string, whatever bytes it holds.\<close>

theorem EscapeFilter_roundtrip:
  "\<exists>t. EscapeFilter s = Some t \<and> t = escape_ref s
     \<and> decodeEscapedSymbols t = Inr s
     \<and> ascii_string t \<and> set t \<inter> {CHR ''('', CHR '')'', CHR ''*'', CHR 0x00} = {}"
  using EscapeFilter_ref [of s] filter_text.decode_encode [of s] escape_ref_ascii [of s]
    escape_ref_plain [of s] by blast

text \<open>\<^verbatim>\<open>EscapeDN\<close> escapes so that \<^verbatim>\<open>ParseDN\<close>'s decoder gives back any valid UTF-8 string: spaces at
  both ends, a leading \<^verbatim>\<open>#\<close>, NUL and the special characters included.\<close>

theorem EscapeDN_roundtrip:
  assumes "valid_utf8 s"
  shows "decodeString (EscapeDN s) = Inr s"
  using assms by (rule dn_escape.decode_encode)

theorem EscapeDN_roundtrip_witness:
  "valid_utf8 ('' #a+'' @ [BSLASH, CHR 0x00] @ '' '')
   \<and> decodeString (EscapeDN ('' #a+'' @ [BSLASH, CHR 0x00] @ '' '')) = Inr ('' #a+'' @ [BSLASH, CHR 0x00] @ '' '')"
proof -
  have "valid_utf8 ('' #a+'' @ [BSLASH, CHR 0x00] @ '' '')"
    by (simp add: valid_utf8_def runes_ascii is_ascii_def char_lit_iff)
  with EscapeDN_roundtrip [OF this] show ?thesis by blast
qed

end
