(* ===== verification/Postal_Address.thy ===== *)
theory Postal_Address
  imports LDAP_Escape
begin

text \<open>
  Postal addresses, \<^verbatim>\<open>src/v3/postaladdress.go\<close>: the escaped form of RFC 4517 and its parser.
\<close>

section \<open>Data and operations\<close>

record PostalAddress =
  lines :: "string list"

abbreviation ErrEmptyPostalAddress :: go_error where
  "ErrEmptyPostalAddress \<equiv> ErrText ''ldap: postal address cannot be empty''"

fun copy_non_empty :: "string list \<Rightarrow> string list" where
  "copy_non_empty [] = []"
| "copy_non_empty (line # rest) =
     (if line = [] then copy_non_empty rest else line # copy_non_empty rest)"

definition NewPostalAddress :: "string list \<Rightarrow> go_error + PostalAddress" where
  "NewPostalAddress ls =
     (let copiedLines = copy_non_empty ls in
      if length copiedLines = 0 then Inl ErrEmptyPostalAddress else Inr \<lparr>lines = copiedLines\<rparr>)"

definition PostalAddress_Lines :: "PostalAddress \<Rightarrow> string list" where
  "PostalAddress_Lines p = lines p"

definition PostalAddress_String :: "PostalAddress \<Rightarrow> string" where
  "PostalAddress_String p = join [CHR 0x0A] (lines p)"

definition escape_postal_rune :: "rune \<Rightarrow> string" where
  "escape_postal_rune r =
     (if r = 0x5C then BSLASH # ''5C'' else if r = 0x24 then BSLASH # ''24'' else EncodeRune r)"

definition escape_line :: "string \<Rightarrow> string" where
  "escape_line line = concat (map escape_postal_rune (runes line)) @ ''$''"

definition PostalAddress_Escape :: "PostalAddress \<Rightarrow> string" where
  "PostalAddress_Escape p = concat (map escape_line (lines p))"

text \<open>The inner loop of \<^verbatim>\<open>ParsePostalAddress\<close> from index \<^verbatim>\<open>i\<close> of a line on.\<close>

fun parse_line :: "nat \<Rightarrow> string \<Rightarrow> go_error + string" where
  "parse_line i [] = Inr []"
| "parse_line i (c # cs) =
     (if c = BSLASH \<and> 2 \<le> length cs then
        (let escapeSeq = take 2 cs in
         if escapeSeq = ''5C'' \<or> escapeSeq = ''5c'' then prepend [BSLASH] (parse_line (i + 3) (drop 2 cs))
         else if escapeSeq = ''24'' then prepend ''$'' (parse_line (i + 3) (drop 2 cs))
         else Inl (ErrText (''invalid escape sequence: '' @ [BSLASH] @ escapeSeq @ '' at position '' @ decimal i)))
      else if c = BSLASH then Inl (ErrText (''incomplete escape sequence at position '' @ decimal i))
      else prepend [c] (parse_line (i + 1) cs))"

fun parse_lines :: "string list \<Rightarrow> go_error + string list" where
  "parse_lines [] = Inr []"
| "parse_lines (line # rest) =
     (if line = [] then parse_lines rest
      else
        (case parse_line 0 line of
           Inl e \<Rightarrow> Inl e
         | Inr parsed \<Rightarrow>
             (case parse_lines rest of Inl e \<Rightarrow> Inl e | Inr ls \<Rightarrow> Inr (parsed # ls))))"

definition ParsePostalAddress :: "string \<Rightarrow> go_error + PostalAddress" where
  "ParsePostalAddress escaped =
     (case parse_lines (split_at (CHR ''$'') escaped) of
        Inl e \<Rightarrow> Inl e
      | Inr parsedLines \<Rightarrow>
          if length parsedLines = 0 then Inl ErrEmptyPostalAddress else Inr \<lparr>lines = parsedLines\<rparr>)"

text \<open>\<^verbatim>\<open>Equal\<close> on two pointers, \<^const>\<open>None\<close> the nil one.  Equal pointers, which the code tests
  first, point to equal addresses or are both nil.\<close>

fun same_lines :: "string list \<Rightarrow> string list \<Rightarrow> bool" where
  "same_lines (x # xs) (y # ys) = (if x \<noteq> y then False else same_lines xs ys)"
| "same_lines _ _ = True"

definition PostalAddress_Equal :: "PostalAddress option \<Rightarrow> PostalAddress option \<Rightarrow> bool" where
  "PostalAddress_Equal p other =
     (case (p, other) of
        (None, None) \<Rightarrow> True
      | (Some a, Some b) \<Rightarrow>
          if length (lines a) \<noteq> length (lines b) then False else same_lines (lines a) (lines b)
      | _ \<Rightarrow> False)"

section \<open>Lemmas\<close>

definition wf_address :: "PostalAddress \<Rightarrow> bool" where
  "wf_address p \<longleftrightarrow> lines p \<noteq> [] \<and> [] \<notin> set (lines p)"

lemma copy_non_empty_filter: "copy_non_empty ls = filter (\<lambda>l. l \<noteq> []) ls"
  by (induction ls) auto

lemma parse_line_not_Nil: "parse_line i s = Inr t \<Longrightarrow> s \<noteq> [] \<Longrightarrow> t \<noteq> []"
  by (cases s) (auto simp: prepend_def Let_def split: if_splits sum.splits)

lemma parse_lines_not_Nil: "parse_lines ls = Inr ts \<Longrightarrow> [] \<notin> set ts"
proof (induction ls arbitrary: ts)
  case (Cons l ls)
  then show ?case by (auto split: if_splits sum.splits dest: parse_line_not_Nil)
qed simp

lemma split_at_terminated:
  "\<forall>x \<in> set xs. c \<notin> set x \<Longrightarrow> split_at c (concat (map (\<lambda>x. x @ [c]) xs)) = xs @ [[]]"
  by (induction xs) (auto simp: split_at_piece)

lemma high_not_special: "128 \<le> ord c \<Longrightarrow> c \<noteq> BSLASH" "128 \<le> ord c \<Longrightarrow> c \<noteq> CHR ''$''"
  by (auto simp: char_lit_iff)

lemma parse_line_plain:
  "BSLASH \<notin> set u \<Longrightarrow> parse_line i (u @ s) = prepend u (parse_line (i + length u) s)"
proof (induction u arbitrary: i)
  case Nil
  then show ?case by (simp add: prepend_def split: sum.splits)
next
  case (Cons c u)
  then show ?case by (auto simp: prepend_def split: sum.splits)
qed

lemma escape_postal_rune_text:
  "CHR ''$'' \<notin> set (escape_postal_rune r)"
  "\<exists>j. parse_line i (escape_postal_rune r @ s) = prepend (EncodeRune r) (parse_line j s)"
proof -
  have plain: "BSLASH \<notin> set (EncodeRune r) \<and> CHR ''$'' \<notin> set (EncodeRune r)" if "r \<noteq> 0x5C" "r \<noteq> 0x24"
  proof (cases "r < 128")
    case True
    with that show ?thesis by (auto dest!: arg_cong [of _ "char_of r" ord])
  next
    case False
    then show ?thesis using EncodeRune_high [of r] high_not_special by fastforce
  qed
  then show "CHR ''$'' \<notin> set (escape_postal_rune r)" by (auto simp: escape_postal_rune_def)
  show "\<exists>j. parse_line i (escape_postal_rune r @ s) = prepend (EncodeRune r) (parse_line j s)"
  proof (cases "r = 0x5C \<or> r = 0x24")
    case True
    then show ?thesis
      by (auto simp: escape_postal_rune_def char_of_literals char_of_def bit_0)
  next
    case False
    with plain show ?thesis by (auto simp: escape_postal_rune_def parse_line_plain)
  qed
qed

lemma parse_line_escaped:
  assumes "valid_utf8 s"
  shows "parse_line i (concat (map escape_postal_rune (runes s))) = Inr s"
  using assms
proof (induction s arbitrary: i rule: valid_utf8_induct)
  case (Rune r s)
  obtain j where "parse_line i (escape_postal_rune r @ concat (map escape_postal_rune (runes s)))
      = prepend (EncodeRune r) (parse_line j (concat (map escape_postal_rune (runes s))))"
    using escape_postal_rune_text(2) by blast
  with Rune show ?case by (simp add: prepend_def)
qed simp

lemma escaped_line_Nil_iff: "concat (map escape_postal_rune (runes s)) = [] \<longleftrightarrow> s = []"
proof -
  have "escape_postal_rune r \<noteq> []" for r by (simp add: escape_postal_rune_def)
  moreover have "runes s = [] \<longleftrightarrow> s = []" by (cases s; cases "DecodeRune s") (auto dest: runes_step)
  ultimately show ?thesis by (cases "runes s") auto
qed

lemma parse_lines_escaped:
  assumes "list_all valid_utf8 ls" "[] \<notin> set ls"
  shows "parse_lines (map (\<lambda>l. concat (map escape_postal_rune (runes l))) ls @ [[]]) = Inr ls"
  using assms by (induction ls) (auto simp: parse_line_escaped escaped_line_Nil_iff simp del: concat_eq_Nil_conv)

lemma ParsePostalAddress_Escape:
  assumes "wf_address p" "list_all valid_utf8 (lines p)"
  shows "ParsePostalAddress (PostalAddress_Escape p) = Inr p"
proof -
  let ?es = "map (\<lambda>l. concat (map escape_postal_rune (runes l))) (lines p)"
  have "PostalAddress_Escape p = concat (map (\<lambda>x. x @ [CHR ''$'']) ?es)"
    by (simp add: PostalAddress_Escape_def escape_line_def [abs_def] comp_def)
  moreover have "\<forall>x \<in> set ?es. CHR ''$'' \<notin> set x" by (auto simp: escape_postal_rune_text(1))
  ultimately have "split_at (CHR ''$'') (PostalAddress_Escape p) = ?es @ [[]]"
    by (simp only: split_at_terminated)
  with assms show ?thesis by (simp add: ParsePostalAddress_def parse_lines_escaped wf_address_def)
qed

interpretation postal: codec "\<lambda>p. wf_address p \<and> list_all valid_utf8 (lines p)"
    PostalAddress_Escape ParsePostalAddress
  by unfold_locales (simp add: ParsePostalAddress_Escape)

section \<open>Properties\<close>

text \<open>C40. Parsing an escaped postal address gives the address back when it has lines, none empty
  and all valid UTF-8; different such addresses therefore have different escaped forms.\<close>

theorem PostalAddress_roundtrip:
  assumes "wf_address p" "list_all valid_utf8 (lines p)"
  shows "ParsePostalAddress (PostalAddress_Escape p) = Inr p"
  using assms by (simp add: postal.decode_encode)

theorem PostalAddress_roundtrip_witness:
  "ParsePostalAddress (PostalAddress_Escape \<lparr>lines = [''12$'' @ [BSLASH], ''x'']\<rparr>)
   = Inr \<lparr>lines = [''12$'' @ [BSLASH], ''x'']\<rparr>"
  by (rule PostalAddress_roundtrip)
    (simp_all add: wf_address_def valid_utf8_def runes_ascii is_ascii_def char_lit_iff)

text \<open>Both constructors of an address establish its invariant, at least one line and no empty
  line: \<^verbatim>\<open>NewPostalAddress\<close> keeps exactly the non-empty lines it is given and fails only when there
  is none, and whatever \<^verbatim>\<open>ParsePostalAddress\<close> accepts satisfies it.\<close>

theorem PostalAddress_invariant:
  "NewPostalAddress ls =
     (if \<forall>l \<in> set ls. l = [] then Inl ErrEmptyPostalAddress else Inr \<lparr>lines = filter (\<lambda>l. l \<noteq> []) ls\<rparr>)
   \<and> (NewPostalAddress ls = Inr p \<or> ParsePostalAddress s = Inr p \<longrightarrow> wf_address p)"
proof -
  have new: "NewPostalAddress ls =
     (if \<forall>l \<in> set ls. l = [] then Inl ErrEmptyPostalAddress else Inr \<lparr>lines = filter (\<lambda>l. l \<noteq> []) ls\<rparr>)"
    by (simp add: NewPostalAddress_def copy_non_empty_filter filter_empty_conv)
  moreover have "wf_address p" if "NewPostalAddress ls = Inr p"
    using that by (auto simp: new wf_address_def filter_empty_conv split: if_splits)
  moreover have "wf_address p" if "ParsePostalAddress s = Inr p"
    using that parse_lines_not_Nil
    by (auto simp: ParsePostalAddress_def wf_address_def split: sum.splits if_splits)
  ultimately show ?thesis by blast
qed

theorem PostalAddress_invariant_witness:
  "NewPostalAddress [''a'', []] = Inr \<lparr>lines = [''a'']\<rparr> \<and> wf_address \<lparr>lines = [''a'']\<rparr>"
  using PostalAddress_invariant [of "[''a'', []]" "\<lparr>lines = [''a'']\<rparr>" "[]"] by simp

text \<open>\<^verbatim>\<open>Equal\<close> is equality of the addresses, nil being equal only to nil.\<close>

theorem PostalAddress_Equal_iff: "PostalAddress_Equal p other \<longleftrightarrow> p = other"
proof -
  have "length xs = length ys \<Longrightarrow> same_lines xs ys \<longleftrightarrow> xs = ys" for xs ys
    by (induction xs ys rule: list_induct2) auto
  then show ?thesis
    by (cases p; cases other) (auto simp: PostalAddress_Equal_def)
qed

end
