(* ===== verification/Go_Strconv.thy ===== *)
theory Go_Strconv
  imports Go_Strings
begin

text \<open>
  The parts of Go's packages \<^verbatim>\<open>strconv\<close> and \<^verbatim>\<open>fmt\<close> the program uses: \<^verbatim>\<open>strconv.ParseInt\<close> in base
  ten with 64 bits, quoted strings (\<^verbatim>\<open>%q\<close>), and the name of a dynamic type (\<^verbatim>\<open>%T\<close>).  The table of
  printable runes, \<^verbatim>\<open>strconv.IsPrint\<close>, is a parameter of what quotes.
\<close>

section \<open>Quoting\<close>

definition hex4 :: "nat \<Rightarrow> string" where
  "hex4 r = map (\<lambda>k. hexDigit (r div 16 ^ k mod 16)) [3, 2, 1, 0]"

definition hex8 :: "nat \<Rightarrow> string" where
  "hex8 r = map (\<lambda>k. hexDigit (r div 16 ^ k mod 16)) [7, 6, 5, 4, 3, 2, 1, 0]"

definition quote_rune :: "(rune \<Rightarrow> bool) \<Rightarrow> rune \<Rightarrow> string" where
  "quote_rune isPrint r =
     (if r = 0x22 \<or> r = 0x5C then [BSLASH, char_of r]
      else if isPrint r then EncodeRune r
      else if r = 0x07 then [BSLASH, CHR ''a'']
      else if r = 0x08 then [BSLASH, CHR ''b'']
      else if r = 0x0C then [BSLASH, CHR ''f'']
      else if r = 0x0A then [BSLASH, CHR ''n'']
      else if r = 0x0D then [BSLASH, CHR ''r'']
      else if r = 0x09 then [BSLASH, CHR ''t'']
      else if r = 0x0B then [BSLASH, CHR ''v'']
      else if r < 0x20 \<or> r = 0x7F then BSLASH # CHR ''x'' # hexByte (char_of r)
      else if \<not> valid_rune r then BSLASH # CHR ''u'' # hex4 RuneError
      else if r < 0x10000 then BSLASH # CHR ''u'' # hex4 r
      else BSLASH # CHR ''U'' # hex8 r)"

text \<open>A byte that is no UTF-8 is written as \<^verbatim>\<open>\xhh\<close>.\<close>

function quote_body :: "(rune \<Rightarrow> bool) \<Rightarrow> string \<Rightarrow> string" where
  "quote_body isPrint [] = []"
| "quote_body isPrint (c # cs) =
     (case DecodeRune (c # cs) of (r, w) \<Rightarrow>
        (if w = 1 \<and> r = RuneError then BSLASH # CHR ''x'' # hexByte c else quote_rune isPrint r)
        @ quote_body isPrint (drop w (c # cs)))"
  by pat_completeness auto
termination
  by (relation "measure (\<lambda>(p, s). length s)") (auto dest: DecodeRune_width_pos [OF sym])

definition Quote :: "(rune \<Rightarrow> bool) \<Rightarrow> string \<Rightarrow> string" where
  "Quote isPrint s = DQUOTE # quote_body isPrint s @ [DQUOTE]"

section \<open>Integers\<close>

datatype num_error = ErrSyntax | ErrRange

text \<open>The digits from the left; the first byte that is no digit and the first digit that takes the
  number beyond 64 bits end the loop.\<close>

fun parse_digits :: "nat \<Rightarrow> string \<Rightarrow> num_error + nat" where
  "parse_digits n [] = Inr n"
| "parse_digits n (c # cs) =
     (if 0x30 \<le> ord c \<and> ord c \<le> 0x39 then
        (if 2 ^ 64 \<le> n * 10 + (ord c - 0x30) then Inl ErrRange
         else parse_digits (n * 10 + (ord c - 0x30)) cs)
      else Inl ErrSyntax)"

definition ParseUint :: "string \<Rightarrow> num_error + nat" where
  "ParseUint s = (if s = [] then Inl ErrSyntax else parse_digits 0 s)"

definition ParseInt :: "string \<Rightarrow> num_error + int" where
  "ParseInt s =
     (case s of
        [] \<Rightarrow> Inl ErrSyntax
      | c # cs \<Rightarrow>
          let neg = (c = CHR ''-''); digits = (if c = CHR ''+'' \<or> c = CHR ''-'' then cs else s) in
          case ParseUint digits of
            Inl e \<Rightarrow> Inl e
          | Inr un \<Rightarrow>
              if \<not> neg \<and> 2 ^ 63 \<le> un then Inl ErrRange
              else if neg \<and> 2 ^ 63 < un then Inl ErrRange
              else Inr (if neg then - int un else int un))"

fun num_error_text :: "num_error \<Rightarrow> string" where
  "num_error_text ErrSyntax = ''invalid syntax''"
| "num_error_text ErrRange = ''value out of range''"

text \<open>The text of the \<^verbatim>\<open>*strconv.NumError\<close> that \<^verbatim>\<open>ParseInt\<close> returns.\<close>

definition NumError_text :: "(rune \<Rightarrow> bool) \<Rightarrow> string \<Rightarrow> num_error \<Rightarrow> string" where
  "NumError_text isPrint s e = ''strconv.ParseInt: parsing '' @ Quote isPrint s @ '': '' @ num_error_text e"

text \<open>The result of \<^verbatim>\<open>ParseInt\<close> is a 64-bit integer.\<close>

lemma ParseInt_int64: "ParseInt s = Inr i \<Longrightarrow> - (2 ^ 63) \<le> i \<and> i < 2 ^ 63"
  by (auto simp: ParseInt_def Let_def split: list.splits sum.splits if_splits)

section \<open>Types\<close>

fun format_T :: "ber_value \<Rightarrow> string" where
  "format_T VNil = ''<nil>''"
| "format_T (VString _) = ''string''"
| "format_T (VInt64 _) = ''int64''"
| "format_T (VUint64 _) = ''uint64''"
| "format_T (VInt32 _) = ''int32''"
| "format_T (VInt8 _) = ''int8''"
| "format_T (VInt _) = ''int''"
| "format_T (VBool _) = ''bool''"
| "format_T (VBytes _) = ''[]uint8''"
| "format_T (VOther t _) = t"

end
