(* ===== verification/Control_Types.thy ===== *)
theory Control_Types
  imports LDAP_Error Go_Strconv
begin

text \<open>
  The controls of \<^verbatim>\<open>src/v3/control.go\<close>: their object identifiers, the structures behind the interface
  \<^verbatim>\<open>Control\<close>, and the interface's methods \<^verbatim>\<open>GetControlType\<close> and \<^verbatim>\<open>Encode\<close>.  \<^verbatim>\<open>LDAP_Control\<close> has the
  decoder.
\<close>

section \<open>Object identifiers\<close>

definition ControlTypePaging :: string where "ControlTypePaging = ''1.2.840.113556.1.4.319''"
definition ControlTypeBeheraPasswordPolicy :: string where "ControlTypeBeheraPasswordPolicy = ''1.3.6.1.4.1.42.2.27.8.5.1''"
definition ControlTypeVChuPasswordMustChange :: string where "ControlTypeVChuPasswordMustChange = ''2.16.840.1.113730.3.4.4''"
definition ControlTypeVChuPasswordWarning :: string where "ControlTypeVChuPasswordWarning = ''2.16.840.1.113730.3.4.5''"
definition ControlTypeManageDsaIT :: string where "ControlTypeManageDsaIT = ''2.16.840.1.113730.3.4.2''"
definition ControlTypeWhoAmI :: string where "ControlTypeWhoAmI = ''1.3.6.1.4.1.4203.1.11.3''"
definition ControlTypeSubtreeDelete :: string where "ControlTypeSubtreeDelete = ''1.2.840.113556.1.4.805''"
definition ControlTypeServerSideSorting :: string where "ControlTypeServerSideSorting = ''1.2.840.113556.1.4.473''"
definition ControlTypeServerSideSortingResult :: string where "ControlTypeServerSideSortingResult = ''1.2.840.113556.1.4.474''"
definition ControlTypeMicrosoftPagedResults :: string where "ControlTypeMicrosoftPagedResults = ''1.2.840.113556.1.4.319''"
definition ControlTypeMicrosoftCrossDomainMoveTarget :: string where "ControlTypeMicrosoftCrossDomainMoveTarget = ''1.2.840.113556.1.4.521''"
definition ControlTypeDirSync :: string where "ControlTypeDirSync = ''1.2.840.113556.1.4.841''"
definition ControlTypeMicrosoftDomainScope :: string where "ControlTypeMicrosoftDomainScope = ''1.2.840.113556.1.4.1339''"
definition ControlTypeMicrosoftExtendedDN :: string where "ControlTypeMicrosoftExtendedDN = ''1.2.840.113556.1.4.529''"
definition ControlTypeMicrosoftGetStats :: string where "ControlTypeMicrosoftGetStats = ''1.2.840.113556.1.4.970''"
definition ControlTypeMicrosoftLazyCommit :: string where "ControlTypeMicrosoftLazyCommit = ''1.2.840.113556.1.4.619''"
definition ControlTypeMicrosoftPermissiveModify :: string where "ControlTypeMicrosoftPermissiveModify = ''1.2.840.113556.1.4.1413''"
definition ControlTypeMicrosoftNotification :: string where "ControlTypeMicrosoftNotification = ''1.2.840.113556.1.4.528''"
definition ControlTypeMicrosoftRespSort :: string where "ControlTypeMicrosoftRespSort = ''1.2.840.113556.1.4.474''"
definition ControlTypeMicrosoftSDFlags :: string where "ControlTypeMicrosoftSDFlags = ''1.2.840.113556.1.4.801''"
definition ControlTypeMicrosoftSearchOptions :: string where "ControlTypeMicrosoftSearchOptions = ''1.2.840.113556.1.4.1340''"
definition ControlTypeMicrosoftSort :: string where "ControlTypeMicrosoftSort = ''1.2.840.113556.1.4.473''"
definition ControlTypeMicrosoftShowDeleted :: string where "ControlTypeMicrosoftShowDeleted = ''1.2.840.113556.1.4.417''"
definition ControlTypeMicrosoftTreeDelete :: string where "ControlTypeMicrosoftTreeDelete = ''1.2.840.113556.1.4.805''"
definition ControlTypeMicrosoftVerifyName :: string where "ControlTypeMicrosoftVerifyName = ''1.2.840.113556.1.4.1338''"
definition ControlTypeVLVRequest :: string where "ControlTypeVLVRequest = ''2.16.840.1.113730.3.4.9''"
definition ControlTypeVLVResponse :: string where "ControlTypeVLVResponse = ''2.16.840.1.113730.3.4.10''"
definition ControlTypeMicrosoftASQ :: string where "ControlTypeMicrosoftASQ = ''1.2.840.113556.1.4.1504''"
definition ControlTypeMicrosoftQuotaControl :: string where "ControlTypeMicrosoftQuotaControl = ''1.2.840.113556.1.4.1852''"
definition ControlTypeMicrosoftRangeOption :: string where "ControlTypeMicrosoftRangeOption = ''1.2.840.113556.1.4.802''"
definition ControlTypeMicrosoftShutdownNotify :: string where "ControlTypeMicrosoftShutdownNotify = ''1.2.840.113556.1.4.1907''"
definition ControlTypeMicrosoftForceUpdate :: string where "ControlTypeMicrosoftForceUpdate = ''1.2.840.113556.1.4.1974''"
definition ControlTypeMicrosoftRangeRetrievalNoErr :: string where "ControlTypeMicrosoftRangeRetrievalNoErr = ''1.2.840.113556.1.4.1948''"
definition ControlTypeMicrosoftRODCDCPromo :: string where "ControlTypeMicrosoftRODCDCPromo = ''1.2.840.113556.1.4.1341''"
definition ControlTypeMicrosoftDNInput :: string where "ControlTypeMicrosoftDNInput = ''1.2.840.113556.1.4.2026''"
definition ControlTypeMicrosoftShowDeactivatedLink :: string where "ControlTypeMicrosoftShowDeactivatedLink = ''1.2.840.113556.1.4.2065''"
definition ControlTypeMicrosoftShowRecycled :: string where "ControlTypeMicrosoftShowRecycled = ''1.2.840.113556.1.4.2064''"
definition ControlTypeMicrosoftPolicyHintsDeprecated :: string where "ControlTypeMicrosoftPolicyHintsDeprecated = ''1.2.840.113556.1.4.2066''"
definition ControlTypeMicrosoftDirSyncEX :: string where "ControlTypeMicrosoftDirSyncEX = ''1.2.840.113556.1.4.2090''"
definition ControlTypeMicrosoftUpdateStats :: string where "ControlTypeMicrosoftUpdateStats = ''1.2.840.113556.1.4.2205''"
definition ControlTypeMicrosoftTreeDeleteEX :: string where "ControlTypeMicrosoftTreeDeleteEX = ''1.2.840.113556.1.4.2204''"
definition ControlTypeMicrosoftSearchHints :: string where "ControlTypeMicrosoftSearchHints = ''1.2.840.113556.1.4.2206''"
definition ControlTypeMicrosoftExpectedEntryCount :: string where "ControlTypeMicrosoftExpectedEntryCount = ''1.2.840.113556.1.4.2211''"
definition ControlTypeMicrosoftPolicyHints :: string where "ControlTypeMicrosoftPolicyHints = ''1.2.840.113556.1.4.2239''"
definition ControlTypeMicrosoftSetOwner :: string where "ControlTypeMicrosoftSetOwner = ''1.2.840.113556.1.4.2255''"
definition ControlTypeMicrosoftBypassQuota :: string where "ControlTypeMicrosoftBypassQuota = ''1.2.840.113556.1.4.2256''"
definition ControlTypeMicrosoftServerLinkTTL :: string where "ControlTypeMicrosoftServerLinkTTL = ''1.2.840.113556.1.4.2309''"
definition ControlTypeMicrosoftSetCorrelationID :: string where "ControlTypeMicrosoftSetCorrelationID = ''1.2.840.113556.1.4.2330''"
definition ControlTypeMicrosoftThreadTraceOverride :: string where "ControlTypeMicrosoftThreadTraceOverride = ''1.2.840.113556.1.4.2354''"
definition ControlTypeSyncRequest :: string where "ControlTypeSyncRequest = ''1.3.6.1.4.1.4203.1.9.1.1''"
definition ControlTypeSyncState :: string where "ControlTypeSyncState = ''1.3.6.1.4.1.4203.1.9.1.2''"
definition ControlTypeSyncDone :: string where "ControlTypeSyncDone = ''1.3.6.1.4.1.4203.1.9.1.3''"
definition ControlTypeSyncInfo :: string where "ControlTypeSyncInfo = ''1.3.6.1.4.1.4203.1.9.1.4''"

text \<open>The identifiers \<^verbatim>\<open>DecodeControl\<close> knows are pairwise different.\<close>

definition decoded_types :: "string list" where
  "decoded_types = [ControlTypeManageDsaIT,
     ControlTypePaging,
     ControlTypeBeheraPasswordPolicy,
     ControlTypeVChuPasswordMustChange,
     ControlTypeVChuPasswordWarning,
     ControlTypeMicrosoftNotification,
     ControlTypeMicrosoftShowDeleted,
     ControlTypeMicrosoftServerLinkTTL,
     ControlTypeSubtreeDelete,
     ControlTypeServerSideSorting,
     ControlTypeServerSideSortingResult,
     ControlTypeDirSync,
     ControlTypeSyncState,
     ControlTypeSyncDone,
     ControlTypeSyncInfo]"

lemmas ControlType_defs = ControlTypeManageDsaIT_def
  ControlTypePaging_def
  ControlTypeBeheraPasswordPolicy_def
  ControlTypeVChuPasswordMustChange_def
  ControlTypeVChuPasswordWarning_def
  ControlTypeMicrosoftNotification_def
  ControlTypeMicrosoftShowDeleted_def
  ControlTypeMicrosoftServerLinkTTL_def
  ControlTypeSubtreeDelete_def
  ControlTypeServerSideSorting_def
  ControlTypeServerSideSortingResult_def
  ControlTypeDirSync_def
  ControlTypeSyncState_def
  ControlTypeSyncDone_def
  ControlTypeSyncInfo_def

lemma decoded_types_distinct: "distinct decoded_types"
  unfolding decoded_types_def ControlType_defs by simp

text \<open>A missing key gives the empty string.\<close>

definition ControlTypeMap :: "string \<Rightarrow> string" where
  "ControlTypeMap oid =
     (case map_of [
        (ControlTypePaging, ''Paging''),
        (ControlTypeBeheraPasswordPolicy, ''Password Policy - Behera Draft''),
        (ControlTypeVChuPasswordMustChange, ''Password Must Change - VChu Draft''),
        (ControlTypeVChuPasswordWarning, ''Password Warning - VChu Draft''),
        (ControlTypeManageDsaIT, ''Manage DSA IT''),
        (ControlTypeWhoAmI, ''Who Am I''),
        (ControlTypeSubtreeDelete, ''Subtree Delete Control''),
        (ControlTypeServerSideSorting, ''Server Side Sorting''),
        (ControlTypeServerSideSortingResult, ''Server Side Sorting Result''),
        (ControlTypeMicrosoftCrossDomainMoveTarget, ''Cross Domain Move Target - Microsoft''),
        (ControlTypeDirSync, ''DirSync''),
        (ControlTypeMicrosoftDomainScope, ''Domain Scope - Microsoft''),
        (ControlTypeMicrosoftExtendedDN, ''Extended DN - Microsoft''),
        (ControlTypeMicrosoftGetStats, ''Get Stats - Microsoft''),
        (ControlTypeMicrosoftLazyCommit, ''Lazy Commit - Microsoft''),
        (ControlTypeMicrosoftPermissiveModify, ''Permissive Modify - Microsoft''),
        (ControlTypeMicrosoftNotification, ''Change Notification - Microsoft''),
        (ControlTypeMicrosoftSDFlags, ''SD Flags - Microsoft''),
        (ControlTypeMicrosoftSearchOptions, ''Search Options - Microsoft''),
        (ControlTypeMicrosoftShowDeleted, ''Show Deleted Objects - Microsoft''),
        (ControlTypeMicrosoftVerifyName, ''Verify Name - Microsoft''),
        (ControlTypeMicrosoftASQ, ''ASQ - Microsoft''),
        (ControlTypeMicrosoftQuotaControl, ''Quota Control - Microsoft''),
        (ControlTypeMicrosoftRangeOption, ''Range Option - Microsoft''),
        (ControlTypeMicrosoftShutdownNotify, ''Shutdown Notify - Microsoft''),
        (ControlTypeMicrosoftForceUpdate, ''Force Update - Microsoft''),
        (ControlTypeMicrosoftRangeRetrievalNoErr, ''Range Retrieval No Error - Microsoft''),
        (ControlTypeMicrosoftRODCDCPromo, ''RODC DC Promo - Microsoft''),
        (ControlTypeMicrosoftDNInput, ''DN Input - Microsoft''),
        (ControlTypeMicrosoftShowDeactivatedLink, ''Show Deactivated Link - Microsoft''),
        (ControlTypeMicrosoftShowRecycled, ''Show Recycled - Microsoft''),
        (ControlTypeMicrosoftPolicyHintsDeprecated, ''Policy Hints Deprecated - Microsoft''),
        (ControlTypeMicrosoftDirSyncEX, ''DirSync EX - Microsoft''),
        (ControlTypeMicrosoftUpdateStats, ''Update Stats - Microsoft''),
        (ControlTypeMicrosoftTreeDeleteEX, ''Tree Delete EX - Microsoft''),
        (ControlTypeMicrosoftSearchHints, ''Search Hints - Microsoft''),
        (ControlTypeMicrosoftExpectedEntryCount, ''Expected Entry Count - Microsoft''),
        (ControlTypeMicrosoftPolicyHints, ''Policy Hints - Microsoft''),
        (ControlTypeMicrosoftSetOwner, ''Set Owner - Microsoft''),
        (ControlTypeMicrosoftBypassQuota, ''Bypass Quota - Microsoft''),
        (ControlTypeMicrosoftServerLinkTTL, ''Return TTL-DNs for link values with associated expiry times - Microsoft''),
        (ControlTypeMicrosoftSetCorrelationID, ''Set Correlation ID - Microsoft''),
        (ControlTypeMicrosoftThreadTraceOverride, ''Thread Trace Override - Microsoft''),
        (ControlTypeSyncRequest, ''Sync Request''),
        (ControlTypeSyncState, ''Sync State''),
        (ControlTypeSyncDone, ''Sync Done''),
        (ControlTypeSyncInfo, ''Sync Info'')] oid of None \<Rightarrow> [] | Some t \<Rightarrow> t)"

section \<open>The controls\<close>

text \<open>
  A value of the interface \<^verbatim>\<open>Control\<close> is a pointer to one of the structures; the constructors carry
  their fields in the order of the source.  A \<^verbatim>\<open>uuid.UUID\<close> is its sixteen bytes.
\<close>

record SortKey =
  sk_Reverse :: bool
  sk_AttributeType :: string
  sk_MatchingRule :: string

record BeheraPasswordPolicy =
  bp_Expire :: int
  bp_Grace :: int
  bp_Error :: int
  bp_ErrorString :: string

type_synonym uuid = bytes

record ControlSyncInfoSyncIdSet =
  si_Cookie :: bytes
  si_RefreshDeletes :: bool
  si_SyncUUIDs :: "uuid list"

datatype control =
    ControlString string bool string
  | ControlPaging "32 word" bytes
  | ControlBeheraPasswordPolicy BeheraPasswordPolicy
  | ControlVChuPasswordMustChange bool
  | ControlVChuPasswordWarning int
  | ControlManageDsaIT bool
  | ControlMicrosoftNotification
  | ControlMicrosoftSDFlags bool "32 word"
  | ControlMicrosoftShowDeleted
  | ControlMicrosoftServerLinkTTL
  | ControlSubtreeDelete
  | ControlDirSync bool int int bytes
  | ControlServerSideSorting "SortKey list"
  | ControlServerSideSortingResult bool int
  | ControlSyncRequest bool int bytes bool
  | ControlSyncState bool int uuid bytes
  | ControlSyncDone bool bytes bool
  | ControlSyncInfo bool nat "bytes option" "(bytes \<times> bool) option" "(bytes \<times> bool) option"
      "ControlSyncInfoSyncIdSet option"

fun GetControlType :: "control \<Rightarrow> string" where
  "GetControlType (ControlString ControlType _ _) = ControlType"
| "GetControlType (ControlPaging _ _) = ControlTypePaging"
| "GetControlType (ControlBeheraPasswordPolicy _) = ControlTypeBeheraPasswordPolicy"
| "GetControlType (ControlVChuPasswordMustChange _) = ControlTypeVChuPasswordMustChange"
| "GetControlType (ControlVChuPasswordWarning _) = ControlTypeVChuPasswordWarning"
| "GetControlType (ControlManageDsaIT _) = ControlTypeManageDsaIT"
| "GetControlType ControlMicrosoftNotification = ControlTypeMicrosoftNotification"
| "GetControlType (ControlMicrosoftSDFlags _ _) = ControlTypeMicrosoftSDFlags"
| "GetControlType ControlMicrosoftShowDeleted = ControlTypeMicrosoftShowDeleted"
| "GetControlType ControlMicrosoftServerLinkTTL = ControlTypeMicrosoftServerLinkTTL"
| "GetControlType ControlSubtreeDelete = ControlTypeSubtreeDelete"
| "GetControlType (ControlDirSync _ _ _ _) = ControlTypeDirSync"
| "GetControlType (ControlServerSideSorting _) = ControlTypeServerSideSorting"
| "GetControlType (ControlServerSideSortingResult _ _) = ControlTypeServerSideSortingResult"
| "GetControlType (ControlSyncRequest _ _ _ _) = ControlTypeSyncRequest"
| "GetControlType (ControlSyncState _ _ _ _) = ControlTypeSyncState"
| "GetControlType (ControlSyncDone _ _ _) = ControlTypeSyncDone"
| "GetControlType (ControlSyncInfo _ _ _ _ _ _) = ControlTypeSyncInfo"

section \<open>Constructors\<close>

definition NewControlString :: "string \<Rightarrow> bool \<Rightarrow> string \<Rightarrow> control" where
  "NewControlString controlType criticality controlValue = ControlString controlType criticality controlValue"

definition NewControlPaging :: "32 word \<Rightarrow> control" where
  "NewControlPaging pagingSize = ControlPaging pagingSize []"

definition NewControlBeheraPasswordPolicy :: BeheraPasswordPolicy where
  "NewControlBeheraPasswordPolicy = \<lparr>bp_Expire = -1, bp_Grace = -1, bp_Error = -1, bp_ErrorString = []\<rparr>"

definition NewControlManageDsaIT :: "bool \<Rightarrow> control" where
  "NewControlManageDsaIT criticality = ControlManageDsaIT criticality"

definition NewControlMicrosoftSDFlags :: control where
  "NewControlMicrosoftSDFlags = ControlMicrosoftSDFlags False 0"

definition NewRequestControlDirSync :: "int \<Rightarrow> int \<Rightarrow> bytes \<Rightarrow> control" where
  "NewRequestControlDirSync flags maxAttrCount cookie = ControlDirSync True flags maxAttrCount cookie"

definition NewControlSyncRequest :: "int \<Rightarrow> bytes \<Rightarrow> bool \<Rightarrow> control" where
  "NewControlSyncRequest mode cookie reloadHint = ControlSyncRequest True mode cookie reloadHint"

text \<open>\<^verbatim>\<open>SetCookie\<close> of the two controls that have it; on another structure there is no such method.\<close>

fun ControlPaging_SetCookie :: "bytes \<Rightarrow> control \<Rightarrow> control" where
  "ControlPaging_SetCookie cookie (ControlPaging pagingSize _) = ControlPaging pagingSize cookie"
| "ControlPaging_SetCookie cookie c = c"

fun ControlDirSync_SetCookie :: "bytes \<Rightarrow> control \<Rightarrow> control" where
  "ControlDirSync_SetCookie cookie (ControlDirSync crit flags maxAttrCount _) = ControlDirSync crit flags maxAttrCount cookie"
| "ControlDirSync_SetCookie cookie c = c"

fun FindControl :: "control list \<Rightarrow> string \<Rightarrow> control option" where
  "FindControl [] controlType = None"
| "FindControl (c # cs) controlType = (if GetControlType c = controlType then Some c else FindControl cs controlType)"

section \<open>Encoding\<close>

text \<open>\<^verbatim>\<open>Data.Write\<close> on the packet's buffer; a nil pointer panics.\<close>

definition Data_Write :: "bytes \<Rightarrow> packet \<Rightarrow> packet option" where
  "Data_Write s p = (case Data p of None \<Rightarrow> None | Some d \<Rightarrow> Some (set_Data (Some (d @ s)) p))"

text \<open>The building blocks every \<^verbatim>\<open>Encode\<close> uses.  \<^const>\<open>None\<close> is a panic; \<^const>\<open>NilPacket\<close> the nil
  some of the methods return.\<close>

definition new_Control :: "ber \<Rightarrow> packet" where
  "new_Control B = ber_Encode B ClassUniversal TypeConstructed TagSequence VNil ''Control''"

definition new_sequence :: "ber \<Rightarrow> string \<Rightarrow> packet" where
  "new_sequence B ds = ber_Encode B ClassUniversal TypeConstructed TagSequence VNil ds"

definition new_value :: "ber \<Rightarrow> string \<Rightarrow> packet" where
  "new_value B ds = ber_Encode B ClassUniversal TypePrimitive TagOctetString VNil ds"

definition new_type :: "ber \<Rightarrow> string \<Rightarrow> packet" where
  "new_type B ControlType =
     ber_NewString B ClassUniversal TypePrimitive TagOctetString ControlType
       (''Control Type ('' @ ControlTypeMap ControlType @ '')'')"

definition criticality_packets :: "ber \<Rightarrow> bool \<Rightarrow> packet list" where
  "criticality_packets B crit =
     (if crit then [ber_NewBoolean B ClassUniversal TypePrimitive TagBoolean crit ''Criticality''] else [])"

definition ControlString_Encode :: "ber \<Rightarrow> string \<Rightarrow> bool \<Rightarrow> string \<Rightarrow> packet option" where
  "ControlString_Encode B ControlType crit v =
     appendChildren B (new_Control B)
       (new_type B ControlType # criticality_packets B crit
        @ (if v \<noteq> [] then [ber_NewString B ClassUniversal TypePrimitive TagOctetString v ''Control Value''] else []))"

definition ControlPaging_Encode :: "ber \<Rightarrow> 32 word \<Rightarrow> bytes \<Rightarrow> packet option" where
  "ControlPaging_Encode B PagingSize Cookie =
     do { cookie \<leftarrow> Data_Write Cookie (set_Value (VBytes Cookie) (new_value B ''Cookie''));
          seq \<leftarrow> appendChildren B (new_sequence B ''Search Control Value'')
            [ber_NewInteger B ClassUniversal TypePrimitive TagInteger (VInt64 (uint PagingSize)) ''Paging Size'', cookie];
          p2 \<leftarrow> ber_AppendChild B (new_value B ''Control Value (Paging)'') seq;
          appendChildren B (new_Control B) [new_type B ControlTypePaging, p2] }"

text \<open>The controls that have only a type, and those with a criticality.\<close>

definition type_only_Encode :: "ber \<Rightarrow> string \<Rightarrow> packet option" where
  "type_only_Encode B ControlType = appendChildren B (new_Control B) [new_type B ControlType]"

definition ControlManageDsaIT_Encode :: "ber \<Rightarrow> bool \<Rightarrow> packet option" where
  "ControlManageDsaIT_Encode B crit =
     appendChildren B (new_Control B) (new_type B ControlTypeManageDsaIT # criticality_packets B crit)"

definition ControlMicrosoftSDFlags_Encode :: "ber \<Rightarrow> bool \<Rightarrow> 32 word \<Rightarrow> packet option" where
  "ControlMicrosoftSDFlags_Encode B crit ControlValue =
     do { seq \<leftarrow> ber_AppendChild B (new_sequence B ''SDFlags'')
            (ber_NewInteger B ClassUniversal TypePrimitive TagInteger (VInt32 ControlValue) ''Flags'');
          p2 \<leftarrow> ber_AppendChild B (new_value B ''Control Value(SDFlags)'') seq;
          appendChildren B (new_Control B)
            (new_type B ControlTypeMicrosoftSDFlags # criticality_packets B crit @ [p2]) }"

text \<open>\<^verbatim>\<open>binary.BigEndian.PutUint32\<close>\<close>

definition PutUint32 :: "32 word \<Rightarrow> bytes" where
  "PutUint32 w = map (\<lambda>k. char_of (unat w div 256 ^ k mod 256)) [3, 2, 1, 0]"

definition ControlDirSync_Encode :: "ber \<Rightarrow> bool \<Rightarrow> int \<Rightarrow> int \<Rightarrow> bytes \<Rightarrow> packet option" where
  "ControlDirSync_Encode B crit Flags MaxAttrCount Cookie =
     do { let cookie = ber_Encode B ClassUniversal TypePrimitive TagOctetString (VString []) ''Cookie'';
          cookie \<leftarrow> (if Cookie \<noteq> [] then Data_Write Cookie (set_Value (VBytes Cookie) cookie) else Some cookie);
          flagsPacket \<leftarrow> Data_Write (PutUint32 (word_of_int Flags))
            (set_Value (VInt64 Flags) (ber_Encode B ClassUniversal TypePrimitive TagInteger VNil ''Flags''));
          seq \<leftarrow> appendChildren B (new_sequence B ''DirSync Control Value'')
            [flagsPacket,
             ber_NewInteger B ClassUniversal TypePrimitive TagInteger (VInt64 MaxAttrCount) ''MaxAttrCount'',
             cookie];
          val \<leftarrow> ber_AppendChild B (new_value B ''Control Value (DirSync)'') seq;
          appendChildren B (new_Control B)
            [new_type B ControlTypeDirSync,
             ber_NewLDAPBoolean B ClassUniversal TypePrimitive TagBoolean crit ''Criticality'', val] }"

definition SortKey_packet :: "ber \<Rightarrow> SortKey \<Rightarrow> packet option" where
  "SortKey_packet B f =
     appendChildren B (new_sequence B [])
       (ber_NewString B ClassUniversal TypePrimitive TagOctetString (sk_AttributeType f) ''attributeType''
        # (if sk_MatchingRule f \<noteq> [] then
             [ber_NewString B ClassContext TypePrimitive 0 (sk_MatchingRule f) ''orderingRule''] else [])
        @ (if sk_Reverse f then
             [ber_NewBoolean B ClassContext TypePrimitive 1 (sk_Reverse f) ''reverseOrder''] else []))"

fun SortKey_packets :: "ber \<Rightarrow> packet \<Rightarrow> SortKey list \<Rightarrow> packet option" where
  "SortKey_packets B seqs [] = Some seqs"
| "SortKey_packets B seqs (f # fs) =
     do { seq \<leftarrow> SortKey_packet B f; seqs' \<leftarrow> ber_AppendChild B seqs seq; SortKey_packets B seqs' fs }"

definition ControlServerSideSorting_Encode :: "ber \<Rightarrow> SortKey list \<Rightarrow> packet option" where
  "ControlServerSideSorting_Encode B SortKeys =
     do { seqs \<leftarrow> SortKey_packets B (new_sequence B ''SortKeyList'') SortKeys;
          appendChildren B (new_Control B)
            [ber_NewString B ClassUniversal TypePrimitive TagOctetString ControlTypeServerSideSorting ''Control Type'',
             ber_Encode B ClassUniversal TypePrimitive TagOctetString (VString (ber_Bytes B seqs)) ''Control Value''] }"

definition ControlServerSideSortingResult_Encode :: "ber \<Rightarrow> int \<Rightarrow> packet option" where
  "ControlServerSideSortingResult_Encode B Result =
     ber_AppendChild B (new_sequence B ''SortResult sequence'')
       (ber_NewInteger B ClassUniversal TypePrimitive TagEnumerated (VInt64 Result) ''SortResult'')"

definition ControlSyncRequest_Encode :: "ber \<Rightarrow> bool \<Rightarrow> int \<Rightarrow> bytes \<Rightarrow> bool \<Rightarrow> packet option" where
  "ControlSyncRequest_Encode B crit Mode Cookie ReloadHint =
     do { let mode = ber_NewInteger B ClassUniversal TypePrimitive TagEnumerated (VInt64 Mode) ''Mode'';
          cookies \<leftarrow> (if Cookie \<noteq> [] then
              map_option (\<lambda>k. [k]) (Data_Write Cookie (set_Value (VBytes Cookie) (new_value B ''Cookie'')))
            else Some []);
          let reloadHint = ber_NewBoolean B ClassUniversal TypePrimitive TagBoolean ReloadHint ''Reload Hint'';
          seq \<leftarrow> appendChildren B (new_sequence B ''Sync Request Value'') (mode # cookies @ [reloadHint]);
          val \<leftarrow> ber_AppendChild B (new_value B ''Control Value (Sync Request)'') seq;
          appendChildren B (new_Control B)
            [new_type B ControlTypeSyncRequest,
             ber_NewBoolean B ClassUniversal TypePrimitive TagBoolean crit ''Criticality'', val] }"

fun Control_Encode :: "ber \<Rightarrow> control \<Rightarrow> packet option" where
  "Control_Encode B (ControlString ty crit v) = ControlString_Encode B ty crit v"
| "Control_Encode B (ControlPaging pagingSize cookie) = ControlPaging_Encode B pagingSize cookie"
| "Control_Encode B (ControlBeheraPasswordPolicy _) = type_only_Encode B ControlTypeBeheraPasswordPolicy"
| "Control_Encode B (ControlVChuPasswordMustChange _) = Some NilPacket"
| "Control_Encode B (ControlVChuPasswordWarning _) = Some NilPacket"
| "Control_Encode B (ControlManageDsaIT crit) = ControlManageDsaIT_Encode B crit"
| "Control_Encode B ControlMicrosoftNotification = type_only_Encode B ControlTypeMicrosoftNotification"
| "Control_Encode B (ControlMicrosoftSDFlags crit v) = ControlMicrosoftSDFlags_Encode B crit v"
| "Control_Encode B ControlMicrosoftShowDeleted = type_only_Encode B ControlTypeMicrosoftShowDeleted"
| "Control_Encode B ControlMicrosoftServerLinkTTL = type_only_Encode B ControlTypeMicrosoftServerLinkTTL"
| "Control_Encode B ControlSubtreeDelete = type_only_Encode B ControlTypeSubtreeDelete"
| "Control_Encode B (ControlDirSync crit flags maxAttrCount cookie) = ControlDirSync_Encode B crit flags maxAttrCount cookie"
| "Control_Encode B (ControlServerSideSorting keys) = ControlServerSideSorting_Encode B keys"
| "Control_Encode B (ControlServerSideSortingResult _ r) = ControlServerSideSortingResult_Encode B r"
| "Control_Encode B (ControlSyncRequest crit mode cookie hint) = ControlSyncRequest_Encode B crit mode cookie hint"
| "Control_Encode B (ControlSyncState _ _ _ _) = Some NilPacket"
| "Control_Encode B (ControlSyncDone _ _ _) = Some NilPacket"
| "Control_Encode B (ControlSyncInfo _ _ _ _ _ _) = Some NilPacket"

fun encode_onto :: "ber \<Rightarrow> packet \<Rightarrow> control list \<Rightarrow> packet option" where
  "encode_onto B packet [] = Some packet"
| "encode_onto B packet (c # cs) =
     do { k \<leftarrow> Control_Encode B c; packet' \<leftarrow> ber_AppendChild B packet k; encode_onto B packet' cs }"

definition encodeControls :: "ber \<Rightarrow> control list \<Rightarrow> packet option" where
  "encodeControls B controls =
     encode_onto B (ber_Encode B ClassContext TypeConstructed 0 VNil ''Controls'') controls"

end
