(* ===== verification/LDAP_Control.thy ===== *)
theory LDAP_Control
  imports Control_Types
begin

text \<open>
  \<^verbatim>\<open>DecodeControl\<close> of \<^verbatim>\<open>src/v3/control.go\<close> and the constructors that read a control's value.  The code
  also rewrites the packet it reads: descriptions, and the value it has unpacked.  Every decoder here
  returns the rewritten packet beside its result, and \<^const>\<open>None\<close> when the code panics.  Packets are
  trees: no two children are the same pointer.
\<close>

type_synonym 'a decoded = "(packet \<times> (go_error + 'a)) option"

section \<open>Rewriting a packet\<close>

definition set_child :: "nat \<Rightarrow> packet \<Rightarrow> packet \<Rightarrow> packet" where
  "set_child i k p =
     (case p of NilPacket \<Rightarrow> NilPacket
      | Packet c t g v b d cs ds \<Rightarrow> Packet c t g v b d (cs[i := k]) ds)"

lemma set_child_simps [simp]:
  "set_child i k p = NilPacket \<longleftrightarrow> p = NilPacket"
  "Children (set_child i k p) = (Children p)[i := k]"
  "ClassType (set_child i k p) = ClassType p" "TagType (set_child i k p) = TagType p"
  "Tag (set_child i k p) = Tag p" "Value (set_child i k p) = Value p" "Data (set_child i k p) = Data p"
  by (cases p; simp add: set_child_def)+

text \<open>\<^verbatim>\<open>packet.Children[i].Description = ds\<close>\<close>

definition describe_child :: "nat \<Rightarrow> string \<Rightarrow> packet \<Rightarrow> packet option" where
  "describe_child i ds p =
     do { k \<leftarrow> nth_child p i; k \<leftarrow> deref k; Some (set_child i (set_Description ds k) p) }"

text \<open>\<^verbatim>\<open>value.Description += ds\<close>\<close>

definition extend_Description :: "string \<Rightarrow> packet \<Rightarrow> packet option" where
  "extend_Description ds p = do { p \<leftarrow> deref p; Some (set_Description (Description p @ ds) p) }"

text \<open>\<^verbatim>\<open>Data.String()\<close>: the method of a nil buffer gives a text.\<close>

definition Data_String :: "packet \<Rightarrow> string" where
  "Data_String p = (case Data p of None \<Rightarrow> ''<nil>'' | Some d \<Rightarrow> d)"

section \<open>Type, criticality and value\<close>

text \<open>
  The first half of \<^verbatim>\<open>DecodeControl\<close>: the control type, the criticality and the index of the child
  that is the value.  The description looks the type up before it has been read.
\<close>

definition type_description :: string where
  "type_description = ''Control Type ('' @ ControlTypeMap [] @ '')''"

definition not_a_string :: "ber_value \<Rightarrow> go_error" where
  "not_a_string v = ErrText (''control type is not a string: '' @ format_T v)"

definition control_parts :: "packet \<Rightarrow> (string \<times> bool \<times> nat option) decoded" where
  "control_parts packet =
     do { packet \<leftarrow> deref packet;
          if length (Children packet) = 0 then
            Some (packet, Inl (ErrText ''at least one child is required for control type''))
          else if length (Children packet) = 1 then
            do { packet \<leftarrow> describe_child 0 type_description packet;
                 (case Value (Children packet ! 0) of
                    VString ct \<Rightarrow> Some (packet, Inr (ct, False, None))
                  | v \<Rightarrow> Some (packet, Inl (not_a_string v))) }
          else if length (Children packet) = 2 then
            do { packet \<leftarrow> describe_child 0 type_description packet;
                 let k = Children packet ! 0 in
                 let ct = (if Value k \<noteq> VNil then
                             (case Value k of VString ct \<Rightarrow> Inr ct | v \<Rightarrow> Inl (not_a_string v))
                           else (case Data k of
                                   Some d \<Rightarrow> Inr d
                                 | None \<Rightarrow> Inl (ErrText ''not found where to get the control type''))) in
                 case ct of
                   Inl e \<Rightarrow> Some (packet, Inl e)
                 | Inr ControlType \<Rightarrow>
                     do { k1 \<leftarrow> nth_child packet 1;
                          k1 \<leftarrow> deref k1;
                          (case Value k1 of
                             VBool crit \<Rightarrow>
                               do { packet \<leftarrow> describe_child 1 ''Criticality'' packet;
                                    Some (packet, Inr (ControlType, crit, None)) }
                           | _ \<Rightarrow>
                               do { packet \<leftarrow> describe_child 1 ''Control Value'' packet;
                                    Some (packet, Inr (ControlType, False, Some 1)) }) } }
          else if length (Children packet) = 3 then
            do { packet \<leftarrow> describe_child 0 type_description packet;
                 (case Value (Children packet ! 0) of
                    VString ControlType \<Rightarrow>
                      do { packet \<leftarrow> describe_child 1 ''Criticality'' packet;
                           (case Value (Children packet ! 1) of
                              VBool crit \<Rightarrow>
                                do { packet \<leftarrow> describe_child 2 ''Control Value'' packet;
                                     Some (packet, Inr (ControlType, crit, Some 2)) }
                            | v \<Rightarrow> Some (packet, Inl (ErrText (''criticality is not a bool: '' @ format_T v)))) }
                  | v \<Rightarrow> Some (packet, Inl (not_a_string v))) }
          else Some (packet, Inl (ErrText ''more than 3 children is invalid for controls'')) }"

section \<open>The values\<close>

text \<open>The value of a control that came over the network is an octet string; three of the decoders
  replace it by the element it holds.\<close>

definition unpack_value :: "ber \<Rightarrow> packet \<Rightarrow> unit decoded" where
  "unpack_value B value =
     (if Value value \<noteq> VNil then
        do { d \<leftarrow> Data value;
             case ber_DecodePacketErr B d of
               Inl e \<Rightarrow> Some (value, Inl (ErrTextOf ''failed to decode data bytes: '' e))
             | Inr valueChildren \<Rightarrow>
                 do { value \<leftarrow> ber_AppendChild B (set_Value VNil (set_Data (Some []) value)) valueChildren;
                      Some (value, Inr ()) } }
      else Some (value, Inr ()))"

definition paging_sequence :: "packet \<Rightarrow> control decoded" where
  "paging_sequence seq =
     (if length (Children seq) < 2 then
        Some (seq, Inl (ErrText (''paging control value has '' @ decimal (length (Children seq))
                                 @ '' children, expected 2'')))
      else
        do { seq \<leftarrow> describe_child 0 ''Paging Size'' seq;
             seq \<leftarrow> describe_child 1 ''Cookie'' seq;
             (case Value (Children seq ! 0) of
                VInt64 pagingSize \<Rightarrow>
                  do { cookie \<leftarrow> Data (Children seq ! 1);
                       Some (set_child 1 (set_Value (VBytes cookie) (Children seq ! 1)) seq,
                             Inr (ControlPaging (word_of_int pagingSize) cookie)) }
              | v \<Rightarrow> Some (seq, Inl (ErrText (''paging size is not an integer: '' @ format_T v)))) })"

definition decode_paging :: "ber \<Rightarrow> packet \<Rightarrow> control decoded" where
  "decode_paging B value =
     (if value = NilPacket then Some (value, Inl (ErrText ''paging control value is missing''))
      else
        do { value \<leftarrow> extend_Description '' (Paging)'' value;
             (value, r) \<leftarrow> unpack_value B value;
             case r of
               Inl e \<Rightarrow> Some (value, Inl e)
             | Inr _ \<Rightarrow>
                 if Children value = [] then Some (value, Inl (ErrText ''paging control value is empty''))
                 else
                   do { seq \<leftarrow> deref (Children value ! 0);
                        (seq, r) \<leftarrow> paging_sequence (set_Description ''Search Control Value'' seq);
                        Some (set_child 0 seq value, r) } })"

text \<open>The Behera password policy.\<close>

definition BeheraPasswordPolicyErrorMap :: "int \<Rightarrow> string" where
  "BeheraPasswordPolicyErrorMap code =
     (case map_of [
        (0, ''Password expired''),
        (1, ''Account locked''),
        (2, ''Password must be changed''),
        (3, ''Policy prevents password modification''),
        (4, ''Policy requires old password in order to change password''),
        (5, ''Password fails quality checks''),
        (6, ''Password is too short for policy''),
        (7, ''Password has been changed too recently''),
        (8, ''New password is in list of old passwords'')] code of None \<Rightarrow> [] | Some t \<Rightarrow> t)"

definition behera_warning :: "ber \<Rightarrow> packet \<Rightarrow> BeheraPasswordPolicy \<Rightarrow> BeheraPasswordPolicy decoded" where
  "behera_warning B child c =
     do { w \<leftarrow> nth_child child 0;
          w \<leftarrow> deref w;
          d \<leftarrow> Data w;
          case ber_ParseInt64 B d of
            Inl e \<Rightarrow> Some (child, Inl (ErrTextOf ''failed to decode data bytes: '' e))
          | Inr val \<Rightarrow>
              if Tag w = 0 then Some (set_child 0 (set_Value (VInt64 val) w) child, Inr (c\<lparr>bp_Expire := val\<rparr>))
              else if Tag w = 1 then
                Some (set_child 0 (set_Value (VInt64 val) w) child, Inr (c\<lparr>bp_Grace := val\<rparr>))
              else Some (child, Inr c) }"

definition behera_error :: "packet \<Rightarrow> BeheraPasswordPolicy \<Rightarrow> BeheraPasswordPolicy decoded" where
  "behera_error child c =
     do { bs \<leftarrow> Data child;
          if length bs \<noteq> 1 \<or> 8 < ord (hd bs) then
            Some (child, Inl (ErrText ''failed to decode data bytes: invalid PasswordPolicyResponse enum value''))
          else
            let val = int (ord (hd bs)) in
            Some (set_Value (VInt8 val) child,
                  Inr (c\<lparr>bp_Error := val, bp_ErrorString := BeheraPasswordPolicyErrorMap val\<rparr>)) }"

definition behera_child :: "ber \<Rightarrow> packet \<Rightarrow> BeheraPasswordPolicy \<Rightarrow> BeheraPasswordPolicy decoded" where
  "behera_child B child c =
     do { child \<leftarrow> deref child;
          if Tag child = 0 then behera_warning B child c
          else if Tag child = 1 then behera_error child c
          else Some (child, Inr c) }"

fun behera_children ::
  "ber \<Rightarrow> packet list \<Rightarrow> BeheraPasswordPolicy \<Rightarrow> (packet list \<times> (go_error + BeheraPasswordPolicy)) option"
where
  "behera_children B [] c = Some ([], Inr c)"
| "behera_children B (child # cs) c =
     do { (child, r) \<leftarrow> behera_child B child c;
          case r of
            Inl e \<Rightarrow> Some (child # cs, Inl e)
          | Inr c' \<Rightarrow> do { (cs, r) \<leftarrow> behera_children B cs c'; Some (child # cs, r) } }"

fun set_Children :: "packet list \<Rightarrow> packet \<Rightarrow> packet" where
  "set_Children cs NilPacket = NilPacket"
| "set_Children cs (Packet c t g v b d _ ds) = Packet c t g v b d cs ds"

definition decode_behera :: "ber \<Rightarrow> packet \<Rightarrow> control decoded" where
  "decode_behera B value =
     do { value \<leftarrow> extend_Description '' (Password Policy - Behera)'' value;
          (value, r) \<leftarrow> unpack_value B value;
          case r of
            Inl e \<Rightarrow> Some (value, Inl e)
          | Inr _ \<Rightarrow>
              do { seq \<leftarrow> nth_child value 0;
                   seq \<leftarrow> deref seq;
                   (cs, r) \<leftarrow> behera_children B (Children seq) NewControlBeheraPasswordPolicy;
                   Some (set_child 0 (set_Children cs seq) value, map_sum id ControlBeheraPasswordPolicy r) } }"

definition decode_warning :: "ber \<Rightarrow> (rune \<Rightarrow> bool) \<Rightarrow> packet \<Rightarrow> control decoded" where
  "decode_warning B isPrint value =
     (if value = NilPacket then
        Some (value, Inl (ErrText ''invalid value for Control Type ControlTypeVChuPasswordWarning: <nil>''))
      else
        (case Data value of
           None \<Rightarrow> Some (value, Inl (ErrText
             (''invalid value for Control Type ControlTypeVChuPasswordWarning: '' @ ber_Packet_v B value)))
         | Some d \<Rightarrow>
             let expireStr = ber_DecodeString B d in
             case ParseInt expireStr of
               Inl e \<Rightarrow> Some (value, Inl (ErrText
                 (''failed to parse value as int: '' @ NumError_text isPrint expireStr e)))
             | Inr expire \<Rightarrow> Some (set_Value (VInt64 expire) value, Inr (ControlVChuPasswordWarning expire))))"

text \<open>\<^verbatim>\<open>NewResponseControlDirSync\<close>: the type assertions on the flags and the count panic.\<close>

definition NewResponseControlDirSync :: "ber \<Rightarrow> packet \<Rightarrow> control decoded" where
  "NewResponseControlDirSync B value =
     do { value \<leftarrow> deref value;
          (value, r) \<leftarrow> unpack_value B value;
          case r of
            Inl e \<Rightarrow> Some (value, Inl e)
          | Inr _ \<Rightarrow>
              do { child \<leftarrow> nth_child value 0;
                   child \<leftarrow> deref child;
                   if length (Children child) \<noteq> 3 then
                     Some (value, Inl (ErrText ''invalid number of children in dirSync control''))
                   else
                     do { child \<leftarrow> describe_child 0 ''Flags'' (set_Description ''DirSync Control Value'' child);
                          child \<leftarrow> describe_child 1 ''MaxAttrCount'' child;
                          child \<leftarrow> describe_child 2 ''Cookie'' child;
                          cookie \<leftarrow> Data (Children child ! 2);
                          let child = set_child 2 (set_Value (VBytes cookie) (Children child ! 2)) child;
                          flags \<leftarrow> as_int64 (Value (Children child ! 0));
                          maxAttrCount \<leftarrow> as_int64 (Value (Children child ! 1));
                          Some (set_child 0 child value, Inr (ControlDirSync True flags maxAttrCount cookie)) } } }"

text \<open>Server side sorting: the keys of the request, and the code of the result.\<close>

definition sort_member :: "packet \<Rightarrow> SortKey \<Rightarrow> SortKey option" where
  "sort_member child key =
     do { child \<leftarrow> deref child;
          if ClassType child = ClassUniversal \<and> Tag child = TagOctetString then
            (case Value child of
               VString attrType \<Rightarrow> Some (key\<lparr>sk_AttributeType := attrType\<rparr>)
             | _ \<Rightarrow> Some key)
          else if ClassType child = ClassContext \<and> Tag child = 0 then
            Some (key\<lparr>sk_MatchingRule := Data_String child\<rparr>)
          else if ClassType child = ClassContext \<and> Tag child = 1 then
            do { b \<leftarrow> Data child; Some (key\<lparr>sk_Reverse := b \<noteq> [] \<and> ord (hd b) \<noteq> 0\<rparr>) }
          else Some key }"

fun sort_members :: "packet list \<Rightarrow> SortKey \<Rightarrow> SortKey option" where
  "sort_members [] key = Some key"
| "sort_members (k # ks) key = do { key' \<leftarrow> sort_member k key; sort_members ks key' }"

definition missing_attribute :: "nat \<Rightarrow> go_error" where
  "missing_attribute i = ErrText (''attributeType is missing from sequence '' @ decimal i)"

fun sort_keys :: "nat \<Rightarrow> packet list \<Rightarrow> (go_error + SortKey list) option" where
  "sort_keys i [] = Some (Inr [])"
| "sort_keys i (sequence # rest) =
     do { sequence \<leftarrow> deref sequence;
          if length (Children sequence) < 1 \<or> 3 < length (Children sequence) then Some (Inl (missing_attribute i))
          else
            do { key \<leftarrow> sort_members (Children sequence)
                   \<lparr>sk_Reverse = False, sk_AttributeType = [], sk_MatchingRule = []\<rparr>;
                 if sk_AttributeType key = [] then Some (Inl (missing_attribute i))
                 else do { r \<leftarrow> sort_keys (Suc i) rest; Some (map_sum id ((#) key) r) } } }"

definition NewControlServerSideSorting :: "ber \<Rightarrow> packet \<Rightarrow> control decoded" where
  "NewControlServerSideSorting B value =
     do { value \<leftarrow> deref value;
          d \<leftarrow> Data value;
          case ber_DecodePacketErr B d of
            Inl e \<Rightarrow> Some (value, Inl (ErrTextOf ''decode packet err: '' e))
          | Inr val \<Rightarrow>
              do { val \<leftarrow> deref val;
                   if Children val = [] then Some (value, Inl (ErrText ''no sequence value in packet''))
                   else do { r \<leftarrow> sort_keys 0 (Children val);
                             Some (value, map_sum id ControlServerSideSorting r) } } }"

definition ControlServerSideSortingCodes :: "int list" where
  "ControlServerSideSortingCodes = [0, 1, 2, 8, 11, 16, 18, 50, 51, 53, 80]"

definition ControlServerSideSortingCode_Valid :: "int \<Rightarrow> go_error option" where
  "ControlServerSideSortingCode_Valid c =
     (if \<exists>validRet \<in> set ControlServerSideSortingCodes. c = validRet then None
      else Some (ErrText (''unknown return code : '' @ show_int c)))"

definition NewControlServerSideSortingResult :: "ber \<Rightarrow> packet \<Rightarrow> control decoded" where
  "NewControlServerSideSortingResult B pkt =
     (if pkt = NilPacket \<or> Children pkt = [] then Some (pkt, Inr (ControlServerSideSortingResult False 0))
      else
        do { k \<leftarrow> deref (Children pkt ! 0);
             d \<leftarrow> Data k;
             case ber_ParseInt64 B d of
               Inl e \<Rightarrow> Some (pkt, Inl e)
             | Inr codeInt \<Rightarrow>
                 (case ControlServerSideSortingCode_Valid codeInt of
                    Some e \<Rightarrow> Some (pkt, Inl e)
                  | None \<Rightarrow> Some (pkt, Inr (ControlServerSideSortingResult False codeInt))) })"

text \<open>
  The controls of the sync protocol.  \<^verbatim>\<open>uuid.FromBytes\<close> is the parameter \<^verbatim>\<open>fromBytes\<close>; the zero
  value of a UUID is sixteen zero bytes.
\<close>

type_synonym uuid_FromBytes = "bytes \<Rightarrow> go_error + uuid"

definition zero_uuid :: uuid where
  "zero_uuid = replicate 16 (CHR 0x00)"

definition uuid_error :: "go_error \<Rightarrow> go_error" where
  "uuid_error e = ErrWrap ''failed to decode uuid: '' e"

definition NewControlSyncState :: "uuid_FromBytes \<Rightarrow> packet \<Rightarrow> (go_error + control) option" where
  "NewControlSyncState fromBytes pkt =
     do { pkt \<leftarrow> deref pkt;
          let n = length (Children pkt) in
          if n < 2 then Some (Inl (ErrText (''at least two children are required: '' @ decimal n)))
          else if n = 2 \<or> n = 3 then
            do { k0 \<leftarrow> deref (Children pkt ! 0);
                 state \<leftarrow> as_int64 (Value k0);
                 k1 \<leftarrow> deref (Children pkt ! 1);
                 case fromBytes (ByteValue k1) of
                   Inl e \<Rightarrow> Some (Inl (uuid_error e))
                 | Inr entryUUID \<Rightarrow>
                     if n = 2 then Some (Inr (ControlSyncState False state entryUUID []))
                     else do { k2 \<leftarrow> deref (Children pkt ! 2);
                               Some (Inr (ControlSyncState False state entryUUID (ByteValue k2))) } }
          else Some (Inr (ControlSyncState False 0 zero_uuid [])) }"

fun sync_members :: "packet list \<Rightarrow> bytes \<times> bool option \<times> packet \<Rightarrow> (bytes \<times> bool option \<times> packet) option" where
  "sync_members [] acc = Some acc"
| "sync_members (child # cs) (cookie, flag, uuidSet) =
     do { child \<leftarrow> deref child;
          sync_members cs
            (if Tag child = TagOctetString then (ByteValue child, flag, uuidSet)
             else if Tag child = TagBoolean then
               (case Value child of VBool b \<Rightarrow> (cookie, Some b, uuidSet) | _ \<Rightarrow> (cookie, flag, uuidSet))
             else if Tag child = TagSet then (cookie, flag, child)
             else (cookie, flag, uuidSet)) }"

definition parseSyncMembers :: "packet list \<Rightarrow> (bytes \<times> bool option \<times> packet) option" where
  "parseSyncMembers children = sync_members children ([], None, NilPacket)"

definition flag_or :: "bool \<Rightarrow> bool option \<Rightarrow> bool" where
  "flag_or dflt flag = (case flag of None \<Rightarrow> dflt | Some b \<Rightarrow> b)"

definition NewControlSyncDone :: "packet \<Rightarrow> (go_error + control) option" where
  "NewControlSyncDone pkt =
     do { pkt \<leftarrow> deref pkt;
          (cookie, flag, _) \<leftarrow> parseSyncMembers (Children pkt);
          Some (Inr (ControlSyncDone False cookie (flag_or False flag))) }"

fun sync_uuids :: "uuid_FromBytes \<Rightarrow> packet list \<Rightarrow> (go_error + uuid list) option" where
  "sync_uuids fromBytes [] = Some (Inr [])"
| "sync_uuids fromBytes (child # cs) =
     do { child \<leftarrow> deref child;
          case fromBytes (ByteValue child) of
            Inl e \<Rightarrow> Some (Inl (uuid_error e))
          | Inr u \<Rightarrow> do { r \<leftarrow> sync_uuids fromBytes cs; Some (map_sum id ((#) u) r) } }"

definition NewControlSyncInfo :: "uuid_FromBytes \<Rightarrow> packet \<Rightarrow> (go_error + control) option" where
  "NewControlSyncInfo fromBytes pkt =
     do { pkt \<leftarrow> deref pkt;
          if Tag pkt = 0 then Some (Inr (ControlSyncInfo False 0 (Some (ByteValue pkt)) None None None))
          else if Tag pkt = 1 then
            do { (cookie, flag, _) \<leftarrow> parseSyncMembers (Children pkt);
                 Some (Inr (ControlSyncInfo False 1 None (Some (cookie, flag_or True flag)) None None)) }
          else if Tag pkt = 2 then
            do { (cookie, flag, _) \<leftarrow> parseSyncMembers (Children pkt);
                 Some (Inr (ControlSyncInfo False 2 None None (Some (cookie, flag_or True flag)) None)) }
          else if Tag pkt = 3 then
            do { (cookie, flag, uuidSet) \<leftarrow> parseSyncMembers (Children pkt);
                 r \<leftarrow> sync_uuids fromBytes (Children uuidSet);
                 Some (map_sum id (\<lambda>us. ControlSyncInfo False 3 None None None
                   (Some \<lparr>si_Cookie = cookie, si_RefreshDeletes = flag_or False flag, si_SyncUUIDs = us\<rparr>)) r) }
          else Some (Inl (ErrText (''unknown sync info value: '' @ decimal (Tag pkt)))) }"

text \<open>The three sync cases of \<^verbatim>\<open>DecodeControl\<close> differ in a description and the constructor.\<close>

definition decode_sync ::
  "ber \<Rightarrow> string \<Rightarrow> (packet \<Rightarrow> (go_error + control) option) \<Rightarrow> packet \<Rightarrow> control decoded" where
  "decode_sync B ds new value =
     do { value \<leftarrow> extend_Description ds value;
          d \<leftarrow> Data value;
          case ber_DecodePacketErr B d of
            Inl e \<Rightarrow> Some (value, Inl (ErrTextOf ''failed to decode data bytes: '' e))
          | Inr valueChildren \<Rightarrow> do { r \<leftarrow> new valueChildren; Some (value, r) } }"

definition decode_string :: "string \<Rightarrow> bool \<Rightarrow> packet \<Rightarrow> control decoded" where
  "decode_string ControlType Criticality value =
     Some (value, Inr (ControlString ControlType Criticality
       (case Value value of
          VString s \<Rightarrow> s
        | _ \<Rightarrow> (case Data value of Some d \<Rightarrow> d | None \<Rightarrow> []))))"

section \<open>Decoding a control\<close>

text \<open>The second half of \<^verbatim>\<open>DecodeControl\<close>, on the value, which is nil when there is none.\<close>

definition decode_value ::
  "ber \<Rightarrow> uuid_FromBytes \<Rightarrow> (rune \<Rightarrow> bool) \<Rightarrow> string \<Rightarrow> bool \<Rightarrow> packet \<Rightarrow> control decoded" where
  "decode_value B fromBytes isPrint ControlType Criticality value =
     (if ControlType = ControlTypeManageDsaIT then Some (value, Inr (NewControlManageDsaIT Criticality))
      else if ControlType = ControlTypePaging then decode_paging B value
      else if ControlType = ControlTypeBeheraPasswordPolicy then decode_behera B value
      else if ControlType = ControlTypeVChuPasswordMustChange then
        Some (value, Inr (ControlVChuPasswordMustChange True))
      else if ControlType = ControlTypeVChuPasswordWarning then decode_warning B isPrint value
      else if ControlType = ControlTypeMicrosoftNotification then Some (value, Inr ControlMicrosoftNotification)
      else if ControlType = ControlTypeMicrosoftShowDeleted then Some (value, Inr ControlMicrosoftShowDeleted)
      else if ControlType = ControlTypeMicrosoftServerLinkTTL then Some (value, Inr ControlMicrosoftServerLinkTTL)
      else if ControlType = ControlTypeSubtreeDelete then Some (value, Inr ControlSubtreeDelete)
      else if ControlType = ControlTypeServerSideSorting then NewControlServerSideSorting B value
      else if ControlType = ControlTypeServerSideSortingResult then NewControlServerSideSortingResult B value
      else if ControlType = ControlTypeDirSync then
        do { value \<leftarrow> extend_Description '' (DirSync)'' value; NewResponseControlDirSync B value }
      else if ControlType = ControlTypeSyncState then
        decode_sync B '' (Sync State)'' (NewControlSyncState fromBytes) value
      else if ControlType = ControlTypeSyncDone then decode_sync B '' (Sync Done)'' NewControlSyncDone value
      else if ControlType = ControlTypeSyncInfo then
        decode_sync B '' (Sync Info)'' (NewControlSyncInfo fromBytes) value
      else decode_string ControlType Criticality value)"

definition DecodeControl :: "ber \<Rightarrow> uuid_FromBytes \<Rightarrow> (rune \<Rightarrow> bool) \<Rightarrow> packet \<Rightarrow> control decoded" where
  "DecodeControl B fromBytes isPrint packet =
     do { (packet, parts) \<leftarrow> control_parts packet;
          case parts of
            Inl e \<Rightarrow> Some (packet, Inl e)
          | Inr (ControlType, Criticality, None) \<Rightarrow>
              do { (_, r) \<leftarrow> decode_value B fromBytes isPrint ControlType Criticality NilPacket;
                   Some (packet, r) }
          | Inr (ControlType, Criticality, Some i) \<Rightarrow>
              do { (value, r) \<leftarrow>
                     decode_value B fromBytes isPrint ControlType Criticality (Children packet ! i);
                   Some (set_child i value packet, r) } }"

end
