(* ===== verification/LDAP_Describe.thy ===== *)
theory LDAP_Describe
  imports LDAP_Control
begin

text \<open>
  The descriptions of \<^verbatim>\<open>src/v3/ldap.go\<close>.  The reader runs \<^verbatim>\<open>addLDAPDescriptions\<close> on every packet it receives,
  debugging or not, and the function does more than describe: it unpacks the values of two controls in
  place.  A panic in it is recovered and leaves the packet as far as it was rewritten, so an edit here
  is a function that returns the packet it leaves together with how it ended.
\<close>

section \<open>Application codes\<close>

abbreviation (input) "ApplicationBindRequest \<equiv> (0 :: nat)"
abbreviation (input) "ApplicationBindResponse \<equiv> (1 :: nat)"
abbreviation (input) "ApplicationUnbindRequest \<equiv> (2 :: nat)"
abbreviation (input) "ApplicationSearchRequest \<equiv> (3 :: nat)"
abbreviation (input) "ApplicationSearchResultEntry \<equiv> (4 :: nat)"
abbreviation (input) "ApplicationSearchResultDone \<equiv> (5 :: nat)"
abbreviation (input) "ApplicationModifyRequest \<equiv> (6 :: nat)"
abbreviation (input) "ApplicationModifyResponse \<equiv> (7 :: nat)"
abbreviation (input) "ApplicationAddRequest \<equiv> (8 :: nat)"
abbreviation (input) "ApplicationAddResponse \<equiv> (9 :: nat)"
abbreviation (input) "ApplicationDelRequest \<equiv> (10 :: nat)"
abbreviation (input) "ApplicationDelResponse \<equiv> (11 :: nat)"
abbreviation (input) "ApplicationModifyDNRequest \<equiv> (12 :: nat)"
abbreviation (input) "ApplicationModifyDNResponse \<equiv> (13 :: nat)"
abbreviation (input) "ApplicationCompareRequest \<equiv> (14 :: nat)"
abbreviation (input) "ApplicationCompareResponse \<equiv> (15 :: nat)"
abbreviation (input) "ApplicationAbandonRequest \<equiv> (16 :: nat)"
abbreviation (input) "ApplicationSearchResultReference \<equiv> (19 :: nat)"
abbreviation (input) "ApplicationExtendedRequest \<equiv> (23 :: nat)"
abbreviation (input) "ApplicationExtendedResponse \<equiv> (24 :: nat)"
abbreviation (input) "ApplicationIntermediateResponse \<equiv> (25 :: nat)"

definition ApplicationMap :: "nat \<Rightarrow> string" where
  "ApplicationMap code =
     (case map_of [
        (ApplicationBindRequest, ''Bind Request''),
        (ApplicationBindResponse, ''Bind Response''),
        (ApplicationUnbindRequest, ''Unbind Request''),
        (ApplicationSearchRequest, ''Search Request''),
        (ApplicationSearchResultEntry, ''Search Result Entry''),
        (ApplicationSearchResultDone, ''Search Result Done''),
        (ApplicationModifyRequest, ''Modify Request''),
        (ApplicationModifyResponse, ''Modify Response''),
        (ApplicationAddRequest, ''Add Request''),
        (ApplicationAddResponse, ''Add Response''),
        (ApplicationDelRequest, ''Del Request''),
        (ApplicationDelResponse, ''Del Response''),
        (ApplicationModifyDNRequest, ''Modify DN Request''),
        (ApplicationModifyDNResponse, ''Modify DN Response''),
        (ApplicationCompareRequest, ''Compare Request''),
        (ApplicationCompareResponse, ''Compare Response''),
        (ApplicationAbandonRequest, ''Abandon Request''),
        (ApplicationSearchResultReference, ''Search Result Reference''),
        (ApplicationExtendedRequest, ''Extended Request''),
        (ApplicationExtendedResponse, ''Extended Response''),
        (ApplicationIntermediateResponse, ''Intermediate Response'')] code of None \<Rightarrow> [] | Some t \<Rightarrow> t)"

section \<open>Edits\<close>

datatype edit_end = Edited | Refused go_error | Panicked

type_synonym edit = "packet \<Rightarrow> packet \<times> edit_end"

definition then_edit :: "edit \<Rightarrow> edit \<Rightarrow> edit" where
  "then_edit f g p = (case f p of (p', Edited) \<Rightarrow> g p' | (p', r) \<Rightarrow> (p', r))"

fun edits :: "edit list \<Rightarrow> edit" where
  "edits [] p = (p, Edited)"
| "edits (f # fs) p = then_edit f (edits fs) p"

definition describe :: "string \<Rightarrow> edit" where
  "describe ds p = (if p = NilPacket then (p, Panicked) else (set_Description ds p, Edited))"

definition describe_more :: "string \<Rightarrow> edit" where
  "describe_more ds p = (if p = NilPacket then (p, Panicked) else (set_Description (Description p @ ds) p, Edited))"

text \<open>An edit of the i-th child, and of every child in turn until one does not succeed.\<close>

definition at_child :: "nat \<Rightarrow> edit \<Rightarrow> edit" where
  "at_child i f p =
     (if i < length (Children p) then
        (case f (Children p ! i) of (k, r) \<Rightarrow> (set_child i k p, r))
      else (p, Panicked))"

fun edit_list :: "edit \<Rightarrow> packet list \<Rightarrow> packet list \<times> edit_end" where
  "edit_list f [] = ([], Edited)"
| "edit_list f (k # ks) =
     (case f k of
        (k', Edited) \<Rightarrow> (case edit_list f ks of (ks', r) \<Rightarrow> (k' # ks', r))
      | (k', r) \<Rightarrow> (k' # ks, r))"

definition each_child :: "edit \<Rightarrow> edit" where
  "each_child f p =
     (if p = NilPacket then (p, Panicked)
      else (case edit_list f (Children p) of (ks, r) \<Rightarrow> (set_Children ks p, r)))"

section \<open>Controls\<close>

text \<open>\<^verbatim>\<open>value.Children[1].Value = value.Children[1].Data.Bytes()\<close>\<close>

definition cookie_bytes :: edit where
  "cookie_bytes k = (case Data k of None \<Rightarrow> (k, Panicked) | Some d \<Rightarrow> (set_Value (VBytes d) k, Edited))"

text \<open>The value of a control, unpacked in place; \<^verbatim>\<open>first\<close> is what is done to the element before it is appended.\<close>

definition unpack_edit :: "ber \<Rightarrow> edit \<Rightarrow> edit" where
  "unpack_edit B first v =
     (if Value v \<noteq> VNil then
        (case Data v of
           None \<Rightarrow> (v, Panicked)
         | Some d \<Rightarrow>
             (case ber_DecodePacketErr B d of
                Inl e \<Rightarrow> (v, Refused (ErrTextOf ''failed to decode data bytes: '' e))
              | Inr k \<Rightarrow>
                  (let v = set_Value VNil (set_Data (Some []) v) in
                   case first k of
                     (k, Edited) \<Rightarrow> (case ber_AppendChild B v k of None \<Rightarrow> (v, Panicked) | Some v \<Rightarrow> (v, Edited))
                   | (k, r) \<Rightarrow> (v, r))))
      else (v, Edited))"

definition describe_paging :: "ber \<Rightarrow> edit" where
  "describe_paging B =
     edits [describe_more '' (Paging)'', unpack_edit B (at_child 1 cookie_bytes),
       at_child 0 (describe ''Real Search Control Value''),
       at_child 0 (at_child 0 (describe ''Paging Size'')),
       at_child 0 (at_child 1 (describe ''Cookie''))]"

text \<open>One element of a password policy response: the element, and what is added to the description of the value.\<close>

definition describe_policy :: "ber \<Rightarrow> packet \<Rightarrow> packet \<times> string \<times> edit_end" where
  "describe_policy B child =
     (if child = NilPacket then (child, [], Panicked)
      else if Tag child = 0 then
        (case Children child of
           [] \<Rightarrow> (child, [], Panicked)
         | w # _ \<Rightarrow>
             (case Data w of
                None \<Rightarrow> (child, [], Panicked)
              | Some d \<Rightarrow>
                  (case ber_ParseInt64 B d of
                     Inl e \<Rightarrow> (child, [], Refused (ErrTextOf ''failed to decode data bytes: '' e))
                   | Inr val \<Rightarrow>
                       if Tag w = 0 then (set_child 0 (set_Value (VInt64 val) w) child, '' (TimeBeforeExpiration)'', Edited)
                       else if Tag w = 1 then (set_child 0 (set_Value (VInt64 val) w) child, '' (GraceAuthNsRemaining)'', Edited)
                       else (child, [], Edited))))
      else if Tag child = 1 then
        (case Data child of
           None \<Rightarrow> (child, [], Panicked)
         | Some bs \<Rightarrow>
             if length bs \<noteq> 1 \<or> 8 < ord (bs ! 0) then
               (child, [], Refused (ErrText ''failed to decode data bytes: invalid PasswordPolicyResponse enum value''))
             else (set_Value (VInt8 (int (ord (bs ! 0)))) (set_Description ''Error'' child), [], Edited))
      else (child, [], Edited))"

fun describe_policies :: "ber \<Rightarrow> packet list \<Rightarrow> packet list \<times> string \<times> edit_end" where
  "describe_policies B [] = ([], [], Edited)"
| "describe_policies B (k # ks) =
     (case describe_policy B k of
        (k', ds, Edited) \<Rightarrow> (case describe_policies B ks of (ks', ds', r) \<Rightarrow> (k' # ks', ds @ ds', r))
      | (k', ds, r) \<Rightarrow> (k' # ks, ds, r))"

definition describe_sequence :: "ber \<Rightarrow> edit" where
  "describe_sequence B v =
     (case Children v of
        [] \<Rightarrow> (v, Panicked)
      | sequence # _ \<Rightarrow>
          if sequence = NilPacket then (v, Panicked)
          else
            (case describe_policies B (Children sequence) of
               (ks, ds, r) \<Rightarrow>
                 (set_Description (Description v @ ds) (set_child 0 (set_Children ks sequence) v), r)))"

definition describe_behera :: "ber \<Rightarrow> edit" where
  "describe_behera B =
     edits [describe_more '' (Password Policy - Behera Draft)'', unpack_edit B (\<lambda>k. (k, Edited)), describe_sequence B]"

definition describe_value :: "ber \<Rightarrow> string \<Rightarrow> edit" where
  "describe_value B controlType v =
     (if v = NilPacket then (v, Edited)
      else if controlType = ControlTypePaging then describe_paging B v
      else if controlType = ControlTypeBeheraPasswordPolicy then describe_behera B v
      else (v, Edited))"

text \<open>\<^verbatim>\<open>controlType = child.Children[0].Value.(string)\<close> and its description.\<close>

definition with_control_type :: "(string \<Rightarrow> edit) \<Rightarrow> edit" where
  "with_control_type f child =
     (case Children child of
        [] \<Rightarrow> (child, Panicked)
      | k # _ \<Rightarrow>
          (case as_string (Value k) of
             None \<Rightarrow> (child, Panicked)
           | Some controlType \<Rightarrow>
               then_edit (at_child 0 (describe (''Control Type ('' @ ControlTypeMap controlType @ '')'')))
                 (f controlType) child))"

definition describe_control :: "ber \<Rightarrow> edit" where
  "describe_control B child =
     (if child = NilPacket then (child, Panicked)
      else
        (let child = set_Description ''Control'' child; n = length (Children child) in
         if n = 0 then (child, Refused (ErrText ''at least one child is required for control type''))
         else if n = 1 then with_control_type (\<lambda>_ c. (c, Edited)) child
         else if n = 2 then
           with_control_type (\<lambda>controlType c.
             case Value (Children c ! 1) of
               VBool _ \<Rightarrow> at_child 1 (describe ''Criticality'') c
             | _ \<Rightarrow> at_child 1 (edits [describe ''Control Value'', describe_value B controlType]) c) child
         else if n = 3 then
           with_control_type (\<lambda>controlType.
             edits [at_child 1 (describe ''Criticality''),
               at_child 2 (edits [describe ''Control Value'', describe_value B controlType])]) child
         else (child, Refused (ErrText ''more than 3 children for control packet found''))))"

definition addControlDescriptions :: "ber \<Rightarrow> edit" where
  "addControlDescriptions B = edits [describe ''Controls'', each_child (describe_control B)]"

section \<open>Messages\<close>

definition control_descriptions :: "ber \<Rightarrow> edit" where
  "control_descriptions B p =
     (if length (Children p) = 3 then at_child 2 (addControlDescriptions B) p else (p, Edited))"

definition addRequestDescriptions :: "ber \<Rightarrow> edit" where
  "addRequestDescriptions B p =
     edits [describe ''LDAP Request'', at_child 0 (describe ''Message ID''),
       at_child 1 (describe (ApplicationMap (Tag (Children p ! 1) mod 256))), control_descriptions B] p"

definition result_descriptions :: "packet \<Rightarrow> (string \<times> string \<times> string) option" where
  "result_descriptions p =
     do { err \<leftarrow> GetLDAPError p;
          case err of
            None \<Rightarrow> Some (LDAPResultCodeMap 0, [], ''Success'')
          | Some e \<Rightarrow> Some (LDAPResultCodeMap (ResultCode e), MatchedDN e, ''Error Message'') }"

definition addDefaultLDAPResponseDescriptions :: "ber \<Rightarrow> edit" where
  "addDefaultLDAPResponseDescriptions B p =
     (case result_descriptions p of
        None \<Rightarrow> (p, Panicked)
      | Some (code, matchedDN, description) \<Rightarrow>
          edits [at_child 1 (edits [at_child 0 (describe (''Result Code ('' @ code @ '')'')),
                   at_child 1 (describe (''Matched DN ('' @ matchedDN @ '')'')), at_child 2 (describe description),
                   (\<lambda>r. if 3 < length (Children r) then at_child 3 (describe ''Referral'') r else (r, Edited))]),
            control_descriptions B] p)"

definition describe_attribute :: edit where
  "describe_attribute =
     edits [describe ''Attribute'', at_child 0 (describe ''Attribute Name''),
       at_child 1 (edits [describe ''Attribute Values'', each_child (describe ''Attribute Value'')])]"

definition describe_message :: "ber \<Rightarrow> nat \<Rightarrow> edit" where
  "describe_message B application =
     (if application \<in> {ApplicationBindRequest, ApplicationUnbindRequest, ApplicationSearchRequest,
           ApplicationModifyRequest, ApplicationAddRequest, ApplicationDelRequest, ApplicationModifyDNRequest,
           ApplicationCompareRequest, ApplicationAbandonRequest, ApplicationExtendedRequest}
      then addRequestDescriptions B
      else if application = ApplicationBindResponse \<or> application = ApplicationSearchResultDone
      then addDefaultLDAPResponseDescriptions B
      else if application = ApplicationSearchResultEntry
      then edits [at_child 1 (at_child 0 (describe ''Object Name'')),
             at_child 1 (at_child 1 (edits [describe ''Attributes'', each_child describe_attribute])),
             control_descriptions B]
      else (\<lambda>p. (p, Edited)))"

definition describe_response :: "ber \<Rightarrow> edit" where
  "describe_response B =
     edits [describe ''LDAP Response'', at_child 0 (describe ''Message ID''),
       (\<lambda>p. let application = Tag (Children p ! 1) mod 256 in
         edits [at_child 1 (describe (ApplicationMap application)), describe_message B application] p)]"

text \<open>The packet after the call, and the error; \<^verbatim>\<open>panic\<close> is the runtime's text.\<close>

definition addLDAPDescriptions :: "ber \<Rightarrow> string \<Rightarrow> packet \<Rightarrow> packet \<times> go_error option" where
  "addLDAPDescriptions B panic p =
     (case describe_response B p of
        (p', Edited) \<Rightarrow> (p', None)
      | (p', Refused e) \<Rightarrow> (p', Some e)
      | (p', Panicked) \<Rightarrow>
          (p', Some (NewError ErrorDebugging (ErrText (''ldap: cannot process packet to add descriptions: '' @ panic)))))"

end
