(* ===== verification/LDAP_Conn.thy ===== *)
theory LDAP_Conn
  imports LDAP_Describe
begin

text \<open>
  The connection, \<^verbatim>\<open>src/v3/conn.go\<close>: its state and the operations on it, cut where another
  goroutine can run in between, that is at the ends of the critical sections and at the channel
  operations.  \<^verbatim>\<open>Conn_Steps\<close> runs them interleaved.

  Message contexts live in a store, because the code shares them by pointer between the client, the
  processing loop and the timers.  A panic (closing a closed channel, sending on one, a nil
  pointer) is \<^const>\<open>None\<close>.
\<close>

section \<open>Data\<close>

type_synonym int64 = "64 word"

record PacketResponse =
  pr_Packet :: packet
  pr_Error :: "go_error option"

definition ReadPacket :: "PacketResponse option \<Rightarrow> packet \<times> go_error option" where
  "ReadPacket pr =
     (case pr of
        None \<Rightarrow> (NilPacket, Some (NewError ErrorNetwork (ErrText ''ldap: could not retrieve response'')))
      | Some r \<Rightarrow>
          if pr_Packet r = NilPacket \<and> pr_Error r = None then
            (NilPacket, Some (NewError ErrorNetwork (ErrText ''ldap: could not retrieve response'')))
          else (pr_Packet r, pr_Error r))"

text \<open>A context: its id, whether \<^verbatim>\<open>done\<close> and \<^verbatim>\<open>responses\<close> are closed, and the responses handed over.\<close>

record messageContext =
  cx_id :: int64
  cx_done :: bool
  cx_closed :: bool
  cx_received :: "PacketResponse list"

datatype messagePacket =
    MessageQuit
  | MessageRequest int64 packet nat
  | MessageResponse int64 packet
  | MessageFinish int64
  | MessageTimeout int64

datatype sendMessageFlags = noFlags | startTLS

text \<open>
  The fields of \<^verbatim>\<open>Conn\<close> that the operations read and write.  The buffered channel \<^verbatim>\<open>chanMessage\<close> is
  the list of its messages, oldest first.  \<^verbatim>\<open>c_messageID\<close> is the variable of the processing loop, which
  hands ids out over \<^verbatim>\<open>chanMessageID\<close> as long as it runs.  \<^verbatim>\<open>c_store\<close> is the store of contexts and
  \<^verbatim>\<open>c_fresh\<close> its next free address; \<^verbatim>\<open>c_written\<close> is what went out on the network.
\<close>

record conn =
  c_requestTimeout :: int
  c_isTLS :: bool
  c_closing :: bool
  c_closeErr :: "go_error option"
  c_isStartingTLS :: bool
  c_messageContexts :: "int64 \<rightharpoonup> nat"
  c_chanMessage :: "messagePacket list"
  c_chanClosed :: bool
  c_confirmed :: bool
  c_running :: bool
  c_messageID :: int64
  c_outstandingRequests :: "64 word"
  c_err :: "go_error option"
  c_store :: "nat \<Rightarrow> messageContext"
  c_fresh :: nat
  c_written :: "bytes list"

definition NewConn :: "bool \<Rightarrow> conn" where
  "NewConn isTLS =
     \<lparr>c_requestTimeout = 0, c_isTLS = isTLS, c_closing = False, c_closeErr = None, c_isStartingTLS = False,
      c_messageContexts = Map.empty, c_chanMessage = [], c_chanClosed = False, c_confirmed = False,
      c_running = False, c_messageID = 1, c_outstandingRequests = 0, c_err = None,
      c_store = (\<lambda>_. \<lparr>cx_id = 0, cx_done = False, cx_closed = False, cx_received = []\<rparr>),
      c_fresh = 0, c_written = []\<rparr>"

text \<open>\<^verbatim>\<open>Start\<close> starts the processing loop, whose first statement sets its id variable, and the reader.\<close>

definition Start :: "conn \<Rightarrow> conn" where
  "Start l = l\<lparr>c_running := True, c_messageID := 1\<rparr>"

definition IsClosing :: "conn \<Rightarrow> bool" where
  "IsClosing l = c_closing l"

definition setClosing :: "conn \<Rightarrow> bool \<times> conn" where
  "setClosing l = (\<not> c_closing l, l\<lparr>c_closing := True\<rparr>)"

definition SetTimeout :: "int \<Rightarrow> conn \<Rightarrow> conn" where
  "SetTimeout t l = l\<lparr>c_requestTimeout := t\<rparr>"

definition getTimeout :: "conn \<Rightarrow> int" where
  "getTimeout l = c_requestTimeout l"

definition setError :: "go_error \<Rightarrow> conn \<Rightarrow> conn" where
  "setError e l = l\<lparr>c_err := Some e\<rparr>"

definition GetLastError :: "conn \<Rightarrow> go_error option" where
  "GetLastError l = c_err l"

text \<open>The loop sends its current id and increments it; once it has ended the channel is closed and
  gives no id, so the call returns 0.\<close>

definition nextMessageID :: "conn \<Rightarrow> int64 \<times> conn" where
  "nextMessageID l =
     (if c_running l then (c_messageID l, l\<lparr>c_messageID := c_messageID l + 1\<rparr>) else (0, l))"

section \<open>Channels\<close>

definition update_ctx :: "nat \<Rightarrow> (messageContext \<Rightarrow> messageContext) \<Rightarrow> conn \<Rightarrow> conn" where
  "update_ctx p f l = l\<lparr>c_store := (c_store l)(p := f (c_store l p))\<rparr>"

definition close_responses :: "nat \<Rightarrow> conn \<Rightarrow> conn option" where
  "close_responses p l =
     (if cx_closed (c_store l p) then None else Some (update_ctx p (\<lambda>c. c\<lparr>cx_closed := True\<rparr>) l))"

definition close_done :: "nat \<Rightarrow> conn \<Rightarrow> conn option" where
  "close_done p l =
     (if cx_done (c_store l p) then None else Some (update_ctx p (\<lambda>c. c\<lparr>cx_done := True\<rparr>) l))"

text \<open>
  \<^verbatim>\<open>sendResponse\<close> waits for the client to receive, for \<^verbatim>\<open>done\<close> to be closed, or for the timeout;
  \<^verbatim>\<open>delivered\<close> tells which: true when the client received.
\<close>

definition sendResponse :: "nat \<Rightarrow> PacketResponse \<Rightarrow> bool \<Rightarrow> conn \<Rightarrow> conn option" where
  "sendResponse p r delivered l =
     (if cx_closed (c_store l p) then None
      else if delivered then Some (update_ctx p (\<lambda>c. c\<lparr>cx_received := cx_received c @ [r]\<rparr>) l)
      else Some l)"

text \<open>Sending on \<^verbatim>\<open>chanMessage\<close> under the mutex; a full channel blocks, which is the guard \<^verbatim>\<open>can_send\<close>
  of the steps.\<close>

definition can_send :: "conn \<Rightarrow> bool" where
  "can_send l \<longleftrightarrow> length (c_chanMessage l) < 10"

definition push :: "messagePacket \<Rightarrow> conn \<Rightarrow> conn option" where
  "push m l = (if c_chanClosed l then None else Some (l\<lparr>c_chanMessage := c_chanMessage l @ [m]\<rparr>))"

definition sendProcessMessage :: "messagePacket \<Rightarrow> conn \<Rightarrow> (bool \<times> conn) option" where
  "sendProcessMessage m l =
     (if IsClosing l then Some (False, l) else do { l' \<leftarrow> push m l; Some (True, l') })"

section \<open>Sending a request\<close>

text \<open>The check at the head of \<^verbatim>\<open>sendMessageWithFlags\<close>, its critical section, and its second half with
  the new context, which nothing refers to when the message was not sent.\<close>

definition connection_closed :: go_error where
  "connection_closed = NewError ErrorNetwork (ErrText ''ldap: connection closed'')"

definition sendMessage_check :: "conn \<Rightarrow> go_error option" where
  "sendMessage_check l = (if IsClosing l then Some connection_closed else None)"

definition sendMessage_admit :: "sendMessageFlags \<Rightarrow> conn \<Rightarrow> go_error + conn" where
  "sendMessage_admit flags l =
     (if c_isStartingTLS l then
        Inl (NewError ErrorNetwork (ErrText ''ldap: connection is in startls phase''))
      else if flags = startTLS \<and> c_outstandingRequests l \<noteq> 0 then
        Inl (NewError ErrorNetwork (ErrText ''ldap: cannot StartTLS with outstanding requests''))
      else
        Inr (l\<lparr>c_isStartingTLS := (flags = startTLS),
               c_outstandingRequests := c_outstandingRequests l + 1\<rparr>))"

definition message_id :: "packet \<Rightarrow> int64 option" where
  "message_id p =
     do { k \<leftarrow> nth_child p 0; k \<leftarrow> deref k; i \<leftarrow> as_int64 (Value k); Some (word_of_int i) }"

definition new_context :: "int64 \<Rightarrow> messageContext" where
  "new_context i = \<lparr>cx_id = i, cx_done = False, cx_closed = False, cx_received = []\<rparr>"

definition sendMessage_enqueue :: "packet \<Rightarrow> conn \<Rightarrow> ((go_error + nat) \<times> conn) option" where
  "sendMessage_enqueue p l =
     do { i \<leftarrow> message_id p;
          let c = c_fresh l;
          (ok, l') \<leftarrow> sendProcessMessage (MessageRequest i p c)
                        (l\<lparr>c_store := (c_store l)(c := new_context i), c_fresh := c + 1\<rparr>);
          if ok then Some (Inr c, l')
          else if IsClosing l then Some (Inl connection_closed, l)
          else Some (Inl (NewError ErrorNetwork
                 (ErrText ''ldap: could not send message for unknown reason'')), l) }"

text \<open>The whole function, when no other goroutine runs in between.\<close>

definition sendMessageWithFlags :: "packet \<Rightarrow> sendMessageFlags \<Rightarrow> conn \<Rightarrow> ((go_error + nat) \<times> conn) option" where
  "sendMessageWithFlags p flags l =
     (case sendMessage_check l of
        Some e \<Rightarrow> Some (Inl e, l)
      | None \<Rightarrow>
          (case sendMessage_admit flags l of
             Inl e \<Rightarrow> Some (Inl e, l)
           | Inr l' \<Rightarrow> sendMessage_enqueue p l'))"

definition sendMessage :: "packet \<Rightarrow> conn \<Rightarrow> ((go_error + nat) \<times> conn) option" where
  "sendMessage p l = sendMessageWithFlags p noFlags l"

section \<open>Finishing a request\<close>

definition finishMessage_count :: "conn \<Rightarrow> conn" where
  "finishMessage_count l =
     l\<lparr>c_outstandingRequests := c_outstandingRequests l - 1,
       c_isStartingTLS := (if c_isStartingTLS l then False else c_isStartingTLS l)\<rparr>"

definition finishMessage :: "nat \<Rightarrow> conn \<Rightarrow> conn option" where
  "finishMessage c l =
     do { l1 \<leftarrow> close_done c l;
          if IsClosing l1 then Some l1
          else do { (_, l2) \<leftarrow> sendProcessMessage (MessageFinish (cx_id (c_store l1 c))) (finishMessage_count l1);
                    Some l2 } }"

section \<open>Closing\<close>

definition Close_begin :: "conn \<Rightarrow> (bool \<times> conn) option" where
  "Close_begin l =
     (case setClosing l of
        (True, l') \<Rightarrow> do { l'' \<leftarrow> push MessageQuit l'; Some (True, l'') }
      | (False, l') \<Rightarrow> Some (False, l'))"

text \<open>After the confirmation or the timeout.\<close>

definition Close_end :: "conn \<Rightarrow> conn option" where
  "Close_end l = (if c_chanClosed l then None else Some (l\<lparr>c_chanClosed := True\<rparr>))"

section \<open>The processing loop\<close>

text \<open>What the environment decides while one message is handled: whether the write fails, and
  whether a response that is sent is received.\<close>

record env =
  ev_write_error :: "string option"
  ev_delivered :: bool

text \<open>The deferred function; the range over the map visits its keys in any order.\<close>

definition cleanup_context :: "bool \<Rightarrow> int64 \<Rightarrow> conn \<Rightarrow> conn option" where
  "cleanup_context delivered i l =
     (case c_messageContexts l i of
        None \<Rightarrow> Some l
      | Some p \<Rightarrow>
          do { l1 \<leftarrow> (case (IsClosing l, c_closeErr l) of
                       (True, Some e) \<Rightarrow> sendResponse p \<lparr>pr_Packet = NilPacket, pr_Error = Some e\<rparr> delivered l
                     | _ \<Rightarrow> Some l);
               l2 \<leftarrow> close_responses p l1;
               Some (l2\<lparr>c_messageContexts := (c_messageContexts l2)(i := None)\<rparr>) })"

fun cleanup_contexts :: "bool \<Rightarrow> int64 list \<Rightarrow> conn \<Rightarrow> conn option" where
  "cleanup_contexts delivered [] l = Some l"
| "cleanup_contexts delivered (i # is) l =
     do { l' \<leftarrow> cleanup_context delivered i l; cleanup_contexts delivered is l' }"

definition cleanup :: "bool \<Rightarrow> int64 list \<Rightarrow> conn \<Rightarrow> conn option" where
  "cleanup delivered order l =
     do { l' \<leftarrow> cleanup_contexts delivered order l;
          Some (l'\<lparr>c_running := False, c_confirmed := True\<rparr>) }"

definition handle_request :: "ber \<Rightarrow> env \<Rightarrow> int64 \<Rightarrow> packet \<Rightarrow> nat \<Rightarrow> conn \<Rightarrow> conn option" where
  "handle_request B ev i p c l =
     (case ev_write_error ev of
        Some t \<Rightarrow>
          do { l1 \<leftarrow> sendResponse c \<lparr>pr_Packet = NilPacket,
                 pr_Error = Some (ErrText (''unable to send request: '' @ t))\<rparr> (ev_delivered ev) l;
               close_responses c l1 }
      | None \<Rightarrow>
          Some (l\<lparr>c_written := c_written l @ [ber_Bytes B p],
                  c_messageContexts := (c_messageContexts l)(i \<mapsto> c)\<rparr>))"

definition handle_response :: "env \<Rightarrow> int64 \<Rightarrow> packet \<Rightarrow> conn \<Rightarrow> conn option" where
  "handle_response ev i p l =
     (case c_messageContexts l i of
        Some c \<Rightarrow> sendResponse c \<lparr>pr_Packet = p, pr_Error = None\<rparr> (ev_delivered ev) l
      | None \<Rightarrow>
          Some (setError (ErrText (''ldap: received unexpected message '' @ show_int (sint i)
                  @ '', '' @ (if IsClosing l then ''true'' else ''false''))) l))"

definition drop_context :: "int64 \<Rightarrow> nat \<Rightarrow> conn \<Rightarrow> conn option" where
  "drop_context i c l =
     close_responses c (l\<lparr>c_messageContexts := (c_messageContexts l)(i := None)\<rparr>)"

definition handle_timeout :: "env \<Rightarrow> int64 \<Rightarrow> conn \<Rightarrow> conn option" where
  "handle_timeout ev i l =
     (case c_messageContexts l i of
        Some c \<Rightarrow>
          do { l1 \<leftarrow> sendResponse c \<lparr>pr_Packet = NilPacket,
                 pr_Error = Some (NewError ErrorNetwork (ErrText ''ldap: connection timed out''))\<rparr>
                 (ev_delivered ev) l;
               drop_context i c l1 }
      | None \<Rightarrow> Some l)"

definition handle_finish :: "int64 \<Rightarrow> conn \<Rightarrow> conn option" where
  "handle_finish i l =
     (case c_messageContexts l i of
        Some c \<Rightarrow> drop_context i c l
      | None \<Rightarrow> Some l)"

text \<open>One turn of the loop that takes a message; \<^verbatim>\<open>order\<close> is the order of the clean-up on quitting.  A
  closed and empty channel gives a nil message, whose \<^verbatim>\<open>Op\<close> panics.\<close>

definition processMessage :: "ber \<Rightarrow> env \<Rightarrow> int64 list \<Rightarrow> conn \<Rightarrow> conn option" where
  "processMessage B ev order l =
     (case c_chanMessage l of
        [] \<Rightarrow> None
      | m # ms \<Rightarrow>
          (let l = l\<lparr>c_chanMessage := ms\<rparr> in
           case m of
             MessageQuit \<Rightarrow> cleanup (ev_delivered ev) order l
           | MessageRequest i p c \<Rightarrow> handle_request B ev i p c l
           | MessageResponse i p \<Rightarrow> handle_response ev i p l
           | MessageTimeout i \<Rightarrow> handle_timeout ev i l
           | MessageFinish i \<Rightarrow> handle_finish i l))"

section \<open>The reader\<close>

text \<open>One packet read from the network, with its descriptions added: \<^verbatim>\<open>RContinue\<close> goes on, \<^verbatim>\<open>RStop\<close> ends the
  reader, which closes the connection unless the stop is clean.  \<^verbatim>\<open>panic\<close> is the runtime's text of a panic, in
  the descriptions or when the first child holds no int64.\<close>

datatype reader_result = RContinue conn | RStop bool conn

definition reader_packet :: "ber \<Rightarrow> string \<Rightarrow> packet \<Rightarrow> conn \<Rightarrow> reader_result option" where
  "reader_packet B panic packet l =
     (let p = fst (addLDAPDescriptions B panic packet) in
      if length (Children p) = 0 then Some (RContinue l)
      else
        (let cleanstop = c_isStartingTLS l in
         case message_id p of
           None \<Rightarrow> Some (RStop cleanstop (setError (ErrText (''ldap: recovered panic in reader: '' @ panic)) l))
         | Some i \<Rightarrow>
             do { (ok, l') \<leftarrow> sendProcessMessage (MessageResponse i p) l;
                  Some (if \<not> ok \<or> cleanstop then RStop cleanstop l' else RContinue l') }))"

definition reader_error :: "string \<Rightarrow> conn \<Rightarrow> conn" where
  "reader_error t l =
     (if IsClosing l then l
      else l\<lparr>c_closeErr := Some (ErrText (''unable to read LDAP response packet: '' @ t))\<rparr>)"

end
