(* ===== verification/Conn_Steps.thy ===== *)
theory Conn_Steps
  imports LDAP_Conn Ber_Reference
begin

text \<open>
  The connection of \<^verbatim>\<open>src/v3/conn.go\<close> with its goroutines: clients, the processing loop, the reader,
  timers and closers, interleaved at the points where another goroutine can run.
\<close>

section \<open>The system\<close>

text \<open>
  Besides the connection: the ids clients have taken and not used, the ids of requests that passed
  the critical section of \<^verbatim>\<open>sendMessageWithFlags\<close>, the contexts that were returned to clients which have not
  finished them, the contexts whose \<^verbatim>\<open>done\<close> was closed by \<^verbatim>\<open>finishMessage\<close> before it counted them, the ids it then has to report, whether a \<^verbatim>\<open>Close\<close> waits
  for the confirmation, how many ids have been handed out, and the packets the reader has received so far,
  as it leaves them.
\<close>

record system =
  s_conn :: conn
  s_ids :: "int64 multiset"
  s_admitted :: "int64 multiset"
  s_held :: "nat multiset"
  s_finishing :: "nat multiset"
  s_reports :: "int64 multiset"
  s_closing :: bool
  s_issued :: nat
  s_arrived :: "packet list"

definition system_start :: "bool \<Rightarrow> system" where
  "system_start isTLS =
     \<lparr>s_conn = Start (NewConn isTLS), s_ids = {#}, s_admitted = {#}, s_held = {#}, s_finishing = {#},
      s_reports = {#}, s_closing = False, s_issued = 0, s_arrived = []\<rparr>"

text \<open>A send on the message channel goes through when there is room or the connection is closing.\<close>

definition unblocked :: "conn \<Rightarrow> bool" where
  "unblocked l \<longleftrightarrow> IsClosing l \<or> can_send l"

inductive step :: "ber \<Rightarrow> system \<Rightarrow> system \<Rightarrow> bool" for B where
  take_id: "c_running (s_conn s) \<Longrightarrow> nextMessageID (s_conn s) = (i, l) \<Longrightarrow>
    step B s (s\<lparr>s_conn := l, s_ids := add_mset i (s_ids s), s_issued := s_issued s + 1\<rparr>)"
| take_no_id: "\<not> c_running (s_conn s) \<Longrightarrow> nextMessageID (s_conn s) = (i, l) \<Longrightarrow>
    step B s (s\<lparr>s_conn := l, s_ids := add_mset i (s_ids s)\<rparr>)"
| drop_id: "s_ids s = add_mset i ids \<Longrightarrow> step B s (s\<lparr>s_ids := ids\<rparr>)"
| admit: "s_ids s = add_mset i ids \<Longrightarrow> sendMessage_admit fl (s_conn s) = Inr l \<Longrightarrow>
    step B s (s\<lparr>s_conn := l, s_ids := ids, s_admitted := add_mset i (s_admitted s)\<rparr>)"
| enqueue: "s_admitted s = add_mset i ids \<Longrightarrow> message_id p = Some i \<Longrightarrow> unblocked (s_conn s) \<Longrightarrow>
    sendMessage_enqueue p (s_conn s) = Some (r, l) \<Longrightarrow>
    step B s (s\<lparr>s_conn := l, s_admitted := ids,
               s_held := (case r of Inr c \<Rightarrow> add_mset c (s_held s) | Inl _ \<Rightarrow> s_held s)\<rparr>)"
| finish_done: "s_held s = add_mset c cs \<Longrightarrow> close_done c (s_conn s) = Some l \<Longrightarrow>
    step B s (s\<lparr>s_conn := l, s_held := cs, s_finishing := add_mset c (s_finishing s)\<rparr>)"
| finish_closing: "s_finishing s = add_mset c cs \<Longrightarrow> IsClosing (s_conn s) \<Longrightarrow>
    step B s (s\<lparr>s_finishing := cs\<rparr>)"
| finish_count: "s_finishing s = add_mset c cs \<Longrightarrow>
    step B s (s\<lparr>s_conn := finishMessage_count (s_conn s), s_finishing := cs,
               s_reports := add_mset (cx_id (c_store (s_conn s) c)) (s_reports s)\<rparr>)"
| finish_report: "s_reports s = add_mset i is \<Longrightarrow> unblocked (s_conn s) \<Longrightarrow>
    sendProcessMessage (MessageFinish i) (s_conn s) = Some (ok, l) \<Longrightarrow>
    step B s (s\<lparr>s_conn := l, s_reports := is\<rparr>)"
| timer: "unblocked (s_conn s) \<Longrightarrow> sendProcessMessage (MessageTimeout i) (s_conn s) = Some (ok, l) \<Longrightarrow>
    step B s (s\<lparr>s_conn := l\<rparr>)"
| read: "unblocked (s_conn s) \<Longrightarrow> reader_packet B panic p (s_conn s) = Some r \<Longrightarrow>
    r = RContinue l \<or> r = RStop clean l \<Longrightarrow>
    step B s (s\<lparr>s_conn := l, s_arrived := s_arrived s @ [fst (addLDAPDescriptions B panic p)]\<rparr>)"
| read_error: "step B s (s\<lparr>s_conn := reader_error t (s_conn s)\<rparr>)"
| set_timeout: "step B s (s\<lparr>s_conn := SetTimeout t (s_conn s)\<rparr>)"
| close_begin: "unblocked (s_conn s) \<Longrightarrow> Close_begin (s_conn s) = Some (first, l) \<Longrightarrow>
    step B s (s\<lparr>s_conn := l, s_closing := (s_closing s \<or> first)\<rparr>)"
| close_end: "s_closing s \<Longrightarrow> Close_end (s_conn s) = Some l \<Longrightarrow>
    step B s (s\<lparr>s_conn := l, s_closing := False\<rparr>)"
| process: "c_running (s_conn s) \<Longrightarrow> c_chanMessage (s_conn s) \<noteq> [] \<or> c_chanClosed (s_conn s) \<Longrightarrow>
    distinct order \<Longrightarrow> set order = dom (c_messageContexts (s_conn s)) \<Longrightarrow>
    processMessage B ev order (s_conn s) = Some l \<Longrightarrow> step B s (s\<lparr>s_conn := l\<rparr>)"

inductive reachable :: "ber \<Rightarrow> bool \<Rightarrow> system \<Rightarrow> bool" for B isTLS where
  start: "reachable B isTLS (system_start isTLS)"
| next_step: "reachable B isTLS s \<Longrightarrow> step B s s' \<Longrightarrow> reachable B isTLS s'"

section \<open>The invariant\<close>

text \<open>The contexts of the requests that wait in the channel.\<close>

fun request_ctx :: "messagePacket \<Rightarrow> nat option" where
  "request_ctx (MessageRequest i p c) = Some c"
| "request_ctx _ = None"

definition waiting :: "conn \<Rightarrow> nat list" where
  "waiting l = List.map_filter request_ctx (c_chanMessage l)"

definition ctx_id :: "conn \<Rightarrow> nat \<Rightarrow> int64" where
  "ctx_id l c = cx_id (c_store l c)"

definition ctx_closed :: "conn \<Rightarrow> nat \<Rightarrow> bool" where
  "ctx_closed l c = cx_closed (c_store l c)"

text \<open>Every context handed to a client waits in the channel, is registered, or has its response
  channel closed, and only one of the three; ids tell contexts apart.\<close>

definition ctx_ok :: "nat list \<Rightarrow> (int64 \<rightharpoonup> nat) \<Rightarrow> nat \<Rightarrow> (nat \<Rightarrow> bool) \<Rightarrow> (nat \<Rightarrow> int64) \<Rightarrow> bool" where
  "ctx_ok W M n closed ident \<longleftrightarrow>
     distinct W \<and> set W \<subseteq> {..<n} \<and> ran M \<subseteq> {..<n} \<and> set W \<inter> ran M = {}
     \<and> (\<forall>c < n. closed c \<longleftrightarrow> c \<notin> set W \<union> ran M)
     \<and> inj_on ident {..<n} \<and> (\<forall>i c. M i = Some c \<longrightarrow> ident c = i)"

definition contexts_inv :: "conn \<Rightarrow> bool" where
  "contexts_inv l \<longleftrightarrow>
     ctx_ok (waiting l) (c_messageContexts l) (c_fresh l) (ctx_closed l) (ctx_id l)
     \<and> (\<forall>i p c. MessageRequest i p c \<in> set (c_chanMessage l) \<longrightarrow> ctx_id l c = i)"

text \<open>Closing: the quit message is the last one, the loop ends with an empty channel, and the
  channel is closed only while closing.\<close>

definition closing_inv :: "system \<Rightarrow> bool" where
  "closing_inv s \<longleftrightarrow>
     (let l = s_conn s in
      (c_closing l \<longleftrightarrow> MessageQuit \<in> set (c_chanMessage l) \<or> \<not> c_running l)
      \<and> MessageQuit \<notin> set (butlast (c_chanMessage l))
      \<and> (\<not> c_running l \<longrightarrow> c_chanMessage l = [] \<and> c_messageContexts l = Map.empty)
      \<and> (c_confirmed l \<longleftrightarrow> \<not> c_running l)
      \<and> (c_chanClosed l \<longrightarrow> c_closing l \<and> \<not> s_closing s)
      \<and> (s_closing s \<longrightarrow> c_closing l))"

text \<open>Ids: the ones in use are among those handed out, each in one place.\<close>

definition issued_id :: "nat \<Rightarrow> int64 \<Rightarrow> bool" where
  "issued_id n i \<longleftrightarrow> (\<exists>k. 1 \<le> k \<and> k \<le> n \<and> i = of_nat k)"

definition ids_inv :: "system \<Rightarrow> bool" where
  "ids_inv s \<longleftrightarrow>
     (\<not> c_closing (s_conn s) \<longrightarrow>
        c_messageID (s_conn s) = of_nat (s_issued s + 1)
        \<and> (\<forall>i. count (s_ids s + s_admitted s) i \<le> 1)
        \<and> (\<forall>i \<in># s_ids s + s_admitted s. issued_id (s_issued s) i \<and> (\<forall>c < c_fresh (s_conn s). ctx_id (s_conn s) c \<noteq> i))
        \<and> (\<forall>c < c_fresh (s_conn s). issued_id (s_issued s) (ctx_id (s_conn s) c)))"

text \<open>The count of outstanding requests, and the exclusive StartTLS phase.\<close>

definition undone :: "conn \<Rightarrow> nat" where
  "undone l = card {c. c < c_fresh l \<and> \<not> cx_done (c_store l c)}"

definition outstanding :: "system \<Rightarrow> nat" where
  "outstanding s = size (s_admitted s) + undone (s_conn s) + size (s_finishing s)"

definition counts_inv :: "system \<Rightarrow> bool" where
  "counts_inv s \<longleftrightarrow>
     (\<not> c_closing (s_conn s) \<longrightarrow>
        c_outstandingRequests (s_conn s) = of_nat (outstanding s)
        \<and> size (s_ids s) + size (s_admitted s) + c_fresh (s_conn s) \<le> s_issued s
        \<and> undone (s_conn s) + size (s_finishing s) \<le> c_fresh (s_conn s)
        \<and> (c_isStartingTLS (s_conn s) \<longrightarrow> outstanding s = 1))"

text \<open>A context belongs to one client, which has not finished it.\<close>

definition held_inv :: "system \<Rightarrow> bool" where
  "held_inv s \<longleftrightarrow> (\<forall>c. count (s_held s) c \<le> 1)
     \<and> (\<forall>c \<in># s_held s. c < c_fresh (s_conn s) \<and> \<not> cx_done (c_store (s_conn s) c))"

definition conn_inv :: "system \<Rightarrow> bool" where
  "conn_inv s \<longleftrightarrow> contexts_inv (s_conn s) \<and> closing_inv s \<and> ids_inv s \<and> counts_inv s \<and> held_inv s"

end
