(* ===== verification/Conn_Invariant.thy ===== *)
theory Conn_Invariant
  imports Conn_Steps
begin

text \<open>
  The invariant of \<^verbatim>\<open>Conn_Steps\<close> holds in every reachable state of the connection, and what follows:
  no goroutine panics on a channel, no waiting client is forgotten, and StartTLS runs alone.
\<close>

section \<open>Contexts\<close>

lemma ctx_okD:
  assumes "ctx_ok W M n closed ident"
  shows "distinct W" "c \<in> set W \<Longrightarrow> c < n" "M i = Some c \<Longrightarrow> c < n" "c \<in> set W \<Longrightarrow> M i \<noteq> Some c"
    "c < n \<Longrightarrow> closed c \<longleftrightarrow> c \<notin> set W \<and> c \<notin> ran M" "inj_on ident {..<n}" "M i = Some c \<Longrightarrow> ident c = i"
  using assms unfolding ctx_ok_def by (auto simp: ran_def subset_iff)

lemma ctx_okI:
  assumes "distinct W" "\<And>c. c \<in> set W \<Longrightarrow> c < n" "\<And>c. c \<in> ran M \<Longrightarrow> c < n" "\<And>c. c \<in> set W \<Longrightarrow> c \<notin> ran M"
    "\<And>c. c < n \<Longrightarrow> closed c \<longleftrightarrow> c \<notin> set W \<and> c \<notin> ran M" "inj_on ident {..<n}" "\<And>i c. M i = Some c \<Longrightarrow> ident c = i"
  shows "ctx_ok W M n closed ident"
  using assms unfolding ctx_ok_def by auto

lemma ctx_ok_new:
  assumes ok: "ctx_ok W M n closed ident" and new: "\<forall>c < n. ident c \<noteq> i"
  shows "ctx_ok (W @ [n]) M (Suc n) (closed(n := False)) (ident(n := i))"
proof (rule ctx_okI)
  have "n \<notin> ran M" using ctx_okD(3) [OF ok] by (auto simp: ran_def)
  moreover have "n \<notin> set W" using ctx_okD(2) [OF ok] by auto
  ultimately show "distinct (W @ [n])" "\<And>c. c \<in> set (W @ [n]) \<Longrightarrow> c \<notin> ran M"
    "\<And>c. c < Suc n \<Longrightarrow> (closed(n := False)) c \<longleftrightarrow> c \<notin> set (W @ [n]) \<and> c \<notin> ran M"
    using ctx_okD(1,4,5) [OF ok] by (auto simp: ran_def less_Suc_eq)
  show "inj_on (ident(n := i)) {..<Suc n}"
    using ctx_okD(6) [OF ok] new by (auto simp: lessThan_Suc inj_on_def)
  show "\<And>c. c \<in> set (W @ [n]) \<Longrightarrow> c < Suc n" "\<And>c. c \<in> ran M \<Longrightarrow> c < Suc n"
    using ctx_okD(2,3) [OF ok] by (auto simp: ran_def intro: less_SucI)
  show "\<And>j c. M j = Some c \<Longrightarrow> (ident(n := i)) c = j"
    using ctx_okD(3,7) [OF ok] by fastforce
qed

lemma ctx_ok_register:
  assumes ok: "ctx_ok (c # W) M n closed ident" and i: "ident c = i"
  shows "ctx_ok W (M(i \<mapsto> c)) n closed ident"
proof -
  have c: "c < n" "\<And>j. M j \<noteq> Some c" using ctx_okD(2,4) [OF ok, of c] by auto
  have "M i = None"
  proof (rule ccontr)
    assume "M i \<noteq> None"
    then obtain d where d: "M i = Some d" by auto
    with ctx_okD(3,7) [OF ok d] i c have "d = c" by (intro inj_onD [OF ctx_okD(6) [OF ok]]) auto
    with d c show False by simp
  qed
  then have ran: "ran (M(i \<mapsto> c)) = insert c (ran M)" by simp
  show ?thesis
    by (rule ctx_okI)
      (use ctx_okD [OF ok] c i in \<open>auto simp: ran ran_def [of M] split: if_splits\<close>)
qed

lemma ctx_ok_reject:
  assumes ok: "ctx_ok (c # W) M n closed ident"
  shows "ctx_ok W M n (closed(c := True)) ident"
  by (rule ctx_okI) (use ctx_okD [OF ok] in \<open>auto simp: ran_def\<close>)

lemma ctx_ok_unregister:
  assumes ok: "ctx_ok W M n closed ident" and i: "M i = Some c"
  shows "ctx_ok W (M(i := None)) n (closed(c := True)) ident"
proof -
  have uniq: "M j = Some c \<Longrightarrow> j = i" for j using ctx_okD(7) [OF ok] i by metis
  have ran: "ran (M(i := None)) = ran M - {c}"
    using i by (auto simp: ran_def dest: uniq split: if_splits) (metis option.inject)
  have c: "c \<notin> set W" using ctx_okD(4) [OF ok] i by auto
  show ?thesis
  proof (rule ctx_okI)
    show "\<And>d. d < n \<Longrightarrow> (closed(c := True)) d \<longleftrightarrow> d \<notin> set W \<and> d \<notin> ran (M(i := None))"
      using ctx_okD(5) [OF ok] c by (simp add: ran)
    show "\<And>d. d \<in> ran (M(i := None)) \<Longrightarrow> d < n" "\<And>d. d \<in> set W \<Longrightarrow> d \<notin> ran (M(i := None))"
      using ctx_okD(3,4) [OF ok] unfolding ran by (auto simp: ran_def)
    show "\<And>j d. (M(i := None)) j = Some d \<Longrightarrow> ident d = j"
      using ctx_okD(7) [OF ok] by (simp split: if_splits)
  qed (use ctx_okD(1,2,6) [OF ok] in auto)
qed

lemma waiting_append: "c_chanMessage l' = c_chanMessage l @ [m] \<Longrightarrow>
    waiting l' = waiting l @ (case request_ctx m of None \<Rightarrow> [] | Some c \<Rightarrow> [c])"
  by (simp add: waiting_def List.map_filter_def split: option.splits)

lemma waiting_Cons: "c_chanMessage l = m # ms \<Longrightarrow> c_chanMessage l' = ms \<Longrightarrow>
    waiting l = (case request_ctx m of None \<Rightarrow> [] | Some c \<Rightarrow> [c]) @ waiting l'"
  by (simp add: waiting_def List.map_filter_def split: option.splits)

lemma waiting_same: "c_chanMessage l' = c_chanMessage l \<Longrightarrow> waiting l' = waiting l"
  by (simp add: waiting_def)

text \<open>What the contexts' part of the invariant looks at.\<close>

definition same_contexts :: "conn \<Rightarrow> conn \<Rightarrow> bool" where
  "same_contexts l l' \<longleftrightarrow> c_messageContexts l' = c_messageContexts l \<and> c_fresh l' = c_fresh l
     \<and> ctx_closed l' = ctx_closed l \<and> ctx_id l' = ctx_id l"

lemma contexts_inv_same:
  "contexts_inv l \<Longrightarrow> same_contexts l l' \<Longrightarrow> c_chanMessage l' = c_chanMessage l \<Longrightarrow> contexts_inv l'"
  unfolding contexts_inv_def same_contexts_def using waiting_same [of l' l] by metis

lemma contexts_inv_push:
  "contexts_inv l \<Longrightarrow> same_contexts l l' \<Longrightarrow> c_chanMessage l' = c_chanMessage l @ [m] \<Longrightarrow> request_ctx m = None
   \<Longrightarrow> contexts_inv l'"
  by (auto simp: contexts_inv_def same_contexts_def waiting_append)

lemma contexts_inv_pop:
  "contexts_inv l \<Longrightarrow> same_contexts l l' \<Longrightarrow> c_chanMessage l = m # c_chanMessage l' \<Longrightarrow> request_ctx m = None
   \<Longrightarrow> contexts_inv l'"
  by (auto simp: contexts_inv_def same_contexts_def waiting_Cons)

lemma contexts_inv_enqueue:
  assumes "contexts_inv l" "\<forall>c < c_fresh l. ctx_id l c \<noteq> i"
  shows "contexts_inv (l\<lparr>c_store := (c_store l)(c_fresh l := new_context i), c_fresh := c_fresh l + 1,
           c_chanMessage := c_chanMessage l @ [MessageRequest i p (c_fresh l)]\<rparr>)" (is "contexts_inv ?l")
proof -
  have "ctx_id ?l = (ctx_id l)(c_fresh l := i)"
    "ctx_closed ?l = (ctx_closed l)(c_fresh l := False)"
    by (simp_all add: fun_eq_iff ctx_id_def ctx_closed_def new_context_def)
  moreover have "waiting ?l = waiting l @ [c_fresh l]"
    using waiting_append [of ?l l "MessageRequest i p (c_fresh l)"] by simp
  ultimately have "ctx_ok (waiting ?l) (c_messageContexts ?l) (c_fresh ?l) (ctx_closed ?l) (ctx_id ?l)"
    using ctx_ok_new [of "waiting l" "c_messageContexts l" "c_fresh l" "ctx_closed l" "ctx_id l" i] assms
    by (simp add: contexts_inv_def)
  moreover have "ctx_id ?l c = j" if "MessageRequest j q c \<in> set (c_chanMessage ?l)" for j q c
  proof (cases "MessageRequest j q c \<in> set (c_chanMessage l)")
    case True
    then have "c \<in> set (waiting l)" by (force simp: waiting_def List.map_filter_def)
    then have "c \<noteq> c_fresh l" using assms(1) ctx_okD(2) unfolding contexts_inv_def by blast
    with True assms(1) show ?thesis by (simp add: contexts_inv_def ctx_id_def)
  next
    case False
    with that show ?thesis by (simp add: ctx_id_def new_context_def)
  qed
  ultimately show ?thesis unfolding contexts_inv_def by blast
qed

lemma update_ctx_sel [simp]:
  "c_messageContexts (update_ctx c f l) = c_messageContexts l" "c_chanMessage (update_ctx c f l) = c_chanMessage l"
  "c_fresh (update_ctx c f l) = c_fresh l" "c_closing (update_ctx c f l) = c_closing l"
  "c_running (update_ctx c f l) = c_running l" "c_chanClosed (update_ctx c f l) = c_chanClosed l"
  "c_confirmed (update_ctx c f l) = c_confirmed l" "c_messageID (update_ctx c f l) = c_messageID l"
  "c_closeErr (update_ctx c f l) = c_closeErr l" "c_isStartingTLS (update_ctx c f l) = c_isStartingTLS l"
  "c_outstandingRequests (update_ctx c f l) = c_outstandingRequests l"
  "c_store (update_ctx c f l) d = (if d = c then f (c_store l c) else c_store l d)"
  by (simp_all add: update_ctx_def)

lemma close_ctx_sel:
  "ctx_id (update_ctx c (\<lambda>x. x\<lparr>cx_closed := True\<rparr>) l) = ctx_id l"
  "ctx_closed (update_ctx c (\<lambda>x. x\<lparr>cx_closed := True\<rparr>) l) = (ctx_closed l)(c := True)"
  by (auto simp: fun_eq_iff ctx_id_def ctx_closed_def)

lemma same_contexts_update:
  "(\<And>x. cx_id (f x) = cx_id x) \<Longrightarrow> (\<And>x. cx_closed (f x) = cx_closed x) \<Longrightarrow> same_contexts l (update_ctx c f l)"
  by (auto simp: same_contexts_def fun_eq_iff ctx_id_def ctx_closed_def)

text \<open>The contexts' invariant through one message of the processing loop.\<close>

lemma contexts_inv_head:
  assumes "contexts_inv l" "c_chanMessage l = MessageRequest i p c # ms"
  shows "ctx_ok (c # waiting (l\<lparr>c_chanMessage := ms\<rparr>)) (c_messageContexts l) (c_fresh l) (ctx_closed l) (ctx_id l)"
    and "ctx_id l c = i" and "\<not> ctx_closed l c"
    and "\<And>j q d. MessageRequest j q d \<in> set ms \<Longrightarrow> ctx_id l d = j"
proof -
  have "waiting l = c # waiting (l\<lparr>c_chanMessage := ms\<rparr>)"
    using waiting_Cons [OF assms(2), of "l\<lparr>c_chanMessage := ms\<rparr>"] by simp
  with assms(1) show ok: "ctx_ok (c # waiting (l\<lparr>c_chanMessage := ms\<rparr>)) (c_messageContexts l) (c_fresh l) (ctx_closed l) (ctx_id l)"
    by (simp add: contexts_inv_def)
  show "ctx_id l c = i" "\<And>j q d. MessageRequest j q d \<in> set ms \<Longrightarrow> ctx_id l d = j"
    using assms by (auto simp: contexts_inv_def)
  show "\<not> ctx_closed l c" using ctx_okD(2,5) [OF ok, of c] by simp
qed

lemma handle_request_contexts:
  assumes inv: "contexts_inv l" and chan: "c_chanMessage l = MessageRequest i p c # ms"
  obtains l' where "handle_request B ev i p c (l\<lparr>c_chanMessage := ms\<rparr>) = Some l'" "contexts_inv l'"
proof (cases "ev_write_error ev")
  case None
  let ?l = "l\<lparr>c_chanMessage := ms, c_written := c_written l @ [ber_Bytes B p],
             c_messageContexts := (c_messageContexts l)(i \<mapsto> c)\<rparr>"
  have "waiting ?l = waiting (l\<lparr>c_chanMessage := ms\<rparr>)" "ctx_closed ?l = ctx_closed l" "ctx_id ?l = ctx_id l"
    by (simp_all add: waiting_def fun_eq_iff ctx_closed_def ctx_id_def)
  with contexts_inv_head [OF assms] have "contexts_inv ?l"
    using ctx_ok_register [OF contexts_inv_head(1,2) [OF assms]] by (auto simp: contexts_inv_def)
  with None that show thesis by (simp add: handle_request_def)
next
  case (Some t)
  let ?r = "\<lparr>pr_Packet = NilPacket, pr_Error = Some (ErrText (''unable to send request: '' @ t))\<rparr>"
  let ?l1 = "if ev_delivered ev then update_ctx c (\<lambda>x. x\<lparr>cx_received := cx_received x @ [?r]\<rparr>) (l\<lparr>c_chanMessage := ms\<rparr>)
             else l\<lparr>c_chanMessage := ms\<rparr>"
  let ?l2 = "update_ctx c (\<lambda>x. x\<lparr>cx_closed := True\<rparr>) ?l1"
  have open1: "\<not> cx_closed (c_store l c)" using contexts_inv_head(3) [OF assms] by (simp add: ctx_closed_def)
  then have "handle_request B ev i p c (l\<lparr>c_chanMessage := ms\<rparr>) = Some ?l2"
    by (simp add: handle_request_def Some sendResponse_def close_responses_def)
  moreover have "ctx_id ?l1 = ctx_id l" "ctx_closed ?l1 = ctx_closed l" "waiting ?l1 = waiting (l\<lparr>c_chanMessage := ms\<rparr>)"
    by (auto simp: fun_eq_iff ctx_id_def ctx_closed_def waiting_def)
  then have "contexts_inv ?l2"
    using ctx_ok_reject [OF contexts_inv_head(1) [OF assms]] contexts_inv_head(4) [OF assms]
    by (auto simp: contexts_inv_def close_ctx_sel waiting_same [of ?l2 ?l1])
  ultimately show thesis using that by blast
qed

lemma registered_open: "contexts_inv l \<Longrightarrow> c_messageContexts l i = Some c \<Longrightarrow> \<not> cx_closed (c_store l c)"
  unfolding contexts_inv_def ctx_closed_def [abs_def] by (metis ctx_okD(3,5) ranI)

lemma sendResponse_contexts:
  assumes "contexts_inv l" "c_messageContexts l i = Some c"
  obtains l' where "sendResponse c r d l = Some l'" "contexts_inv l'" "c_messageContexts l' = c_messageContexts l"
    "c_chanMessage l' = c_chanMessage l"
proof -
  let ?l = "if d then update_ctx c (\<lambda>x. x\<lparr>cx_received := cx_received x @ [r]\<rparr>) l else l"
  have "same_contexts l ?l" by (cases d) (simp_all add: same_contexts_update, simp add: same_contexts_def)
  from contexts_inv_same [OF assms(1) this] have "contexts_inv ?l" by simp
  moreover have "sendResponse c r d l = Some ?l"
    using registered_open [OF assms] by (simp add: sendResponse_def)
  ultimately show thesis using that by simp
qed

lemma unregister_contexts:
  assumes "contexts_inv l" "c_messageContexts l i = Some c"
  shows "contexts_inv (update_ctx c (\<lambda>x. x\<lparr>cx_closed := True\<rparr>)
    (l\<lparr>c_messageContexts := (c_messageContexts l)(i := None)\<rparr>))" (is "contexts_inv (update_ctx c ?f ?l)")
proof -
  have "ctx_id ?l = ctx_id l" "ctx_closed ?l = ctx_closed l" "waiting (update_ctx c ?f ?l) = waiting l"
    by (auto simp: fun_eq_iff ctx_id_def ctx_closed_def waiting_def)
  with assms ctx_ok_unregister [of "waiting l" "c_messageContexts l" "c_fresh l" "ctx_closed l" "ctx_id l" i c]
  show ?thesis by (simp add: contexts_inv_def close_ctx_sel)
qed

lemma drop_context_contexts:
  assumes "contexts_inv l" "c_messageContexts l i = Some c"
  obtains l' where "drop_context i c l = Some l'" "contexts_inv l'"
  using unregister_contexts [OF assms] registered_open [OF assms] that
  by (simp add: drop_context_def close_responses_def)

lemma cleanup_context_contexts:
  assumes "contexts_inv l" "i \<in> dom (c_messageContexts l)"
  obtains l' where "cleanup_context d i l = Some l'" "contexts_inv l'"
    "c_messageContexts l' = (c_messageContexts l)(i := None)"
proof -
  from assms(2) obtain c where c: "c_messageContexts l i = Some c" by auto
  have "\<exists>l1. (case (IsClosing l, c_closeErr l) of
        (True, Some e) \<Rightarrow> sendResponse c \<lparr>pr_Packet = NilPacket, pr_Error = Some e\<rparr> d l
      | _ \<Rightarrow> Some l) = Some l1 \<and> contexts_inv l1 \<and> c_messageContexts l1 = c_messageContexts l"
    using assms(1) sendResponse_contexts [OF assms(1) c]
    by (cases "IsClosing l"; cases "c_closeErr l") (auto, metis)
  then obtain l1 where l1: "(case (IsClosing l, c_closeErr l) of
        (True, Some e) \<Rightarrow> sendResponse c \<lparr>pr_Packet = NilPacket, pr_Error = Some e\<rparr> d l
      | _ \<Rightarrow> Some l) = Some l1" "contexts_inv l1" "c_messageContexts l1 = c_messageContexts l" by blast
  let ?l2 = "update_ctx c (\<lambda>x. x\<lparr>cx_closed := True\<rparr>) l1"
  have "close_responses c l1 = Some ?l2"
    using registered_open [OF l1(2), of i c] l1(3) c by (simp add: close_responses_def)
  then have "cleanup_context d i l = Some (?l2\<lparr>c_messageContexts := (c_messageContexts ?l2)(i := None)\<rparr>)"
    unfolding cleanup_context_def c option.case l1(1) by simp
  moreover have "?l2\<lparr>c_messageContexts := (c_messageContexts ?l2)(i := None)\<rparr>
      = update_ctx c (\<lambda>x. x\<lparr>cx_closed := True\<rparr>) (l1\<lparr>c_messageContexts := (c_messageContexts l1)(i := None)\<rparr>)"
    by (simp add: update_ctx_def)
  ultimately show thesis
    using that unregister_contexts [OF l1(2), of i c] l1(3) c by simp
qed

lemma cleanup_contexts_contexts:
  assumes "contexts_inv l" "distinct is" "set is \<subseteq> dom (c_messageContexts l)"
  shows "\<exists>l'. cleanup_contexts d is l = Some l' \<and> contexts_inv l'
    \<and> dom (c_messageContexts l') = dom (c_messageContexts l) - set is"
  using assms
proof (induction "is" arbitrary: l)
  case (Cons i "is")
  then obtain l1 where l1: "cleanup_context d i l = Some l1" "contexts_inv l1"
    "c_messageContexts l1 = (c_messageContexts l)(i := None)"
    using cleanup_context_contexts [of l i d] by auto
  with Cons.prems have "distinct is" "set is \<subseteq> dom (c_messageContexts l1)" by auto
  with Cons.IH [OF l1(2)] obtain l' where "cleanup_contexts d is l1 = Some l'" "contexts_inv l'"
    "dom (c_messageContexts l') = dom (c_messageContexts l1) - set is" by blast
  with l1 show ?case by auto
qed simp

lemma processMessage_contexts:
  assumes "contexts_inv l" "c_chanMessage l \<noteq> []" "distinct order" "set order = dom (c_messageContexts l)"
  shows "\<exists>l'. processMessage B ev order l = Some l' \<and> contexts_inv l'"
proof -
  obtain m ms where chan: "c_chanMessage l = m # ms" using assms(2) by (cases "c_chanMessage l") auto
  let ?l = "l\<lparr>c_chanMessage := ms\<rparr>"
  have same: "same_contexts l ?l" by (simp add: same_contexts_def ctx_id_def [abs_def] ctx_closed_def [abs_def])
  have pop: "contexts_inv ?l" if "request_ctx m = None"
    using contexts_inv_pop [OF assms(1) same] chan that by simp
  show ?thesis
  proof (cases m)
    case MessageQuit
    with pop cleanup_contexts_contexts [of ?l order "ev_delivered ev"] assms obtain l' where
      l': "cleanup_contexts (ev_delivered ev) order ?l = Some l'" "contexts_inv l'" by auto
    have "same_contexts l' (l'\<lparr>c_running := False, c_confirmed := True\<rparr>)"
      by (simp add: same_contexts_def ctx_id_def [abs_def] ctx_closed_def [abs_def])
    from contexts_inv_same [OF l'(2) this] have "contexts_inv (l'\<lparr>c_running := False, c_confirmed := True\<rparr>)"
      by simp
    with l' MessageQuit chan show ?thesis by (simp add: processMessage_def cleanup_def)
  next
    case (MessageRequest i p c)
    with chan obtain l' where "handle_request B ev i p c ?l = Some l'" "contexts_inv l'"
      using handle_request_contexts [OF assms(1)] by metis
    with MessageRequest chan show ?thesis by (simp add: processMessage_def)
  next
    case (MessageResponse i p)
    have "contexts_inv (setError e ?l)" for e
      by (rule contexts_inv_same [OF pop])
        (simp_all add: MessageResponse same_contexts_def setError_def ctx_id_def [abs_def] ctx_closed_def [abs_def])
    moreover have "processMessage B ev order l = handle_response ev i p ?l"
      by (simp add: processMessage_def chan MessageResponse)
    moreover have "\<exists>l'. sendResponse c r d ?l = Some l' \<and> contexts_inv l'" if "c_messageContexts ?l i = Some c" for c r d
    proof -
      have "contexts_inv ?l" by (rule pop) (simp add: MessageResponse)
      from sendResponse_contexts [OF this that] show ?thesis by blast
    qed
    ultimately show ?thesis by (simp add: handle_response_def split: option.split)
  next
    case (MessageFinish i)
    with chan pop show ?thesis
      by (cases "c_messageContexts l i")
        (auto simp: processMessage_def handle_finish_def elim: drop_context_contexts [of ?l i])
  next
    case (MessageTimeout i)
    have inv: "contexts_inv ?l" by (rule pop) (simp add: MessageTimeout)
    have run: "processMessage B ev order l = handle_timeout ev i ?l"
      by (simp add: processMessage_def chan MessageTimeout)
    show ?thesis
    proof (cases "c_messageContexts ?l i")
      case None
      with inv run show ?thesis by (simp add: handle_timeout_def)
    next
      case (Some c)
      let ?r = "\<lparr>pr_Packet = NilPacket, pr_Error = Some (NewError ErrorNetwork (ErrText ''ldap: connection timed out''))\<rparr>"
      obtain l1 where l1: "sendResponse c ?r (ev_delivered ev) ?l = Some l1" "contexts_inv l1"
        "c_messageContexts l1 = c_messageContexts ?l"
        using sendResponse_contexts [OF inv Some] by metis
      obtain l2 where "drop_context i c l1 = Some l2" "contexts_inv l2"
        using drop_context_contexts [OF l1(2)] l1(3) Some by metis
      with l1(1) Some show ?thesis unfolding run handle_timeout_def by simp
    qed
  qed
qed

section \<open>What the processing loop leaves alone\<close>

definition framed :: "conn \<Rightarrow> conn \<Rightarrow> bool" where
  "framed l l' \<longleftrightarrow> c_closing l' = c_closing l \<and> c_chanClosed l' = c_chanClosed l \<and> c_fresh l' = c_fresh l
     \<and> c_messageID l' = c_messageID l \<and> c_outstandingRequests l' = c_outstandingRequests l
     \<and> c_isStartingTLS l' = c_isStartingTLS l \<and> c_chanMessage l' = c_chanMessage l
     \<and> c_running l' = c_running l \<and> c_confirmed l' = c_confirmed l
     \<and> (\<forall>c. cx_done (c_store l' c) = cx_done (c_store l c)) \<and> (\<forall>c. ctx_id l' c = ctx_id l c)"

lemma framed_refl [simp]: "framed l l"
  by (simp add: framed_def)

lemma framed_trans: "framed l l' \<Longrightarrow> framed l' l'' \<Longrightarrow> framed l l''"
  by (simp add: framed_def)

lemma sendResponse_framed: "sendResponse c r d l = Some l' \<Longrightarrow> framed l l'"
  by (auto simp: sendResponse_def framed_def ctx_id_def split: if_splits)

lemma close_responses_framed: "close_responses c l = Some l' \<Longrightarrow> framed l l'"
  by (auto simp: close_responses_def framed_def ctx_id_def split: if_splits)

lemma framed_fields [simp]:
  "framed l (l'\<lparr>c_messageContexts := m\<rparr>) = framed l l'" "framed (l\<lparr>c_messageContexts := m\<rparr>) l' = framed l l'"
  "framed l (l'\<lparr>c_written := w\<rparr>) = framed l l'" "framed l (setError e l') = framed l l'"
  by (simp_all add: framed_def ctx_id_def setError_def)

lemma handlers_framed:
  "handle_request B ev i p c l = Some l' \<Longrightarrow> framed l l'"
  "handle_response ev i p l = Some l' \<Longrightarrow> framed l l'"
  "handle_timeout ev i l = Some l' \<Longrightarrow> framed l l'"
  "handle_finish i l = Some l' \<Longrightarrow> framed l l'"
  by (auto simp: handle_request_def handle_response_def handle_timeout_def handle_finish_def drop_context_def
      bind_eq_Some_conv split: option.splits
      dest!: sendResponse_framed close_responses_framed intro: framed_trans)

lemma cleanup_context_framed: "cleanup_context d i l = Some l' \<Longrightarrow> framed l l'"
  by (auto simp: cleanup_context_def bind_eq_Some_conv split: option.splits bool.splits prod.splits
      dest!: sendResponse_framed close_responses_framed intro: framed_trans)

lemma cleanup_contexts_framed: "cleanup_contexts d is l = Some l' \<Longrightarrow> framed l l'"
  by (induction "is" arbitrary: l) (auto simp: bind_eq_Some_conv dest!: cleanup_context_framed intro: framed_trans)

text \<open>One message of the loop: only quitting stops it, and then no context stays registered.\<close>

lemma processMessage_effect:
  assumes "processMessage B ev order l = Some l'" "c_chanMessage l = m # ms"
  shows "\<exists>l1. framed (l\<lparr>c_chanMessage := ms\<rparr>) l1 \<and>
    l' = (if m = MessageQuit then l1\<lparr>c_running := False, c_confirmed := True\<rparr> else l1)"
proof (cases "m = MessageQuit")
  case True
  with assms show ?thesis
    by (auto simp: processMessage_def cleanup_def bind_eq_Some_conv dest!: cleanup_contexts_framed)
next
  case False
  with assms have "framed (l\<lparr>c_chanMessage := ms\<rparr>) l'"
    by (cases m) (auto simp: processMessage_def dest: handlers_framed)
  with False show ?thesis by auto
qed

lemma processMessage_keeps:
  assumes "processMessage B ev order l = Some l'"
  shows "c_closing l' = c_closing l" "c_fresh l' = c_fresh l" "c_messageID l' = c_messageID l"
    "c_outstandingRequests l' = c_outstandingRequests l" "c_isStartingTLS l' = c_isStartingTLS l"
    "cx_done (c_store l' c) = cx_done (c_store l c)" "ctx_id l' c = ctx_id l c"
proof -
  obtain m ms where chan: "c_chanMessage l = m # ms"
    using assms by (cases "c_chanMessage l") (auto simp: processMessage_def)
  obtain l1 where l1: "framed (l\<lparr>c_chanMessage := ms\<rparr>) l1"
    "l' = (if m = MessageQuit then l1\<lparr>c_running := False, c_confirmed := True\<rparr> else l1)"
    using processMessage_effect [OF assms chan] by blast
  then show "c_closing l' = c_closing l" "c_fresh l' = c_fresh l" "c_messageID l' = c_messageID l"
    "c_outstandingRequests l' = c_outstandingRequests l" "c_isStartingTLS l' = c_isStartingTLS l"
    "cx_done (c_store l' c) = cx_done (c_store l c)"
    by (simp_all add: framed_def)
  have "ctx_id l' c = ctx_id l1 c" using l1(2) by (simp add: ctx_id_def)
  also have "\<dots> = ctx_id (l\<lparr>c_chanMessage := ms\<rparr>) c" using l1(1) by (simp add: framed_def)
  finally show "ctx_id l' c = ctx_id l c" by (simp add: ctx_id_def)
qed

lemma processMessage_quit:
  assumes "processMessage B ev order l = Some l'" "c_chanMessage l = MessageQuit # ms" "contexts_inv l"
    "distinct order" "set order = dom (c_messageContexts l)"
  shows "c_messageContexts l' = Map.empty"
proof -
  let ?l = "l\<lparr>c_chanMessage := ms\<rparr>"
  have "same_contexts l ?l" by (simp add: same_contexts_def ctx_id_def [abs_def] ctx_closed_def [abs_def])
  from contexts_inv_pop [OF assms(3) this] assms(2) have "contexts_inv ?l" by simp
  from cleanup_contexts_contexts [OF this assms(4), of "ev_delivered ev"] assms(5) obtain l1 where
    "cleanup_contexts (ev_delivered ev) order ?l = Some l1" "dom (c_messageContexts l1) = {}" by auto
  with assms(1,2) show ?thesis by (auto simp: processMessage_def cleanup_def)
qed

section \<open>Every step keeps the invariant\<close>

lemma sendProcessMessage_cases:
  assumes "sendProcessMessage m l = Some (ok, l')"
  obtains (refused) "c_closing l" "\<not> ok" "l' = l"
  | (sent) "\<not> c_closing l" "\<not> c_chanClosed l" "ok" "l' = l\<lparr>c_chanMessage := c_chanMessage l @ [m]\<rparr>"
  using assms by (auto simp: sendProcessMessage_def push_def IsClosing_def split: if_splits)

lemma sendMessage_enqueue_cases:
  assumes "sendMessage_enqueue p l = Some (r, l')" "message_id p = Some i"
  obtains (refused) e where "c_closing l" "l' = l" "r = Inl e"
  | (sent) "\<not> c_closing l" "\<not> c_chanClosed l" "r = Inr (c_fresh l)"
      "l' = l\<lparr>c_store := (c_store l)(c_fresh l := new_context i), c_fresh := c_fresh l + 1,
             c_chanMessage := c_chanMessage l @ [MessageRequest i p (c_fresh l)]\<rparr>"
proof -
  let ?l = "l\<lparr>c_store := (c_store l)(c_fresh l := new_context i), c_fresh := c_fresh l + 1\<rparr>"
  obtain ok l1 where sp: "sendProcessMessage (MessageRequest i p (c_fresh l)) ?l = Some (ok, l1)"
    using assms by (auto simp: sendMessage_enqueue_def Let_def bind_eq_Some_conv)
  with assms have res: "(if ok then (Inr (c_fresh l), l1)
      else if IsClosing l then (Inl connection_closed, l)
      else (Inl (NewError ErrorNetwork (ErrText ''ldap: could not send message for unknown reason'')), l)) = (r, l')"
    by (simp add: sendMessage_enqueue_def Let_def split: if_splits)
  from sp show thesis
  proof (cases rule: sendProcessMessage_cases)
    case refused
    with res show thesis using that(1) by (auto simp: IsClosing_def)
  next
    case sent
    with res show thesis using that(2) by simp
  qed
qed

lemma reader_packet_cases:
  assumes "reader_packet B panic p l = Some r" "r = RContinue l' \<or> r = RStop clean l'"
  obtains (same) "l' = l" | (error) e where "l' = setError e l"
  | (sent) i q where "\<not> c_closing l" "\<not> c_chanClosed l" "l' = l\<lparr>c_chanMessage := c_chanMessage l @ [MessageResponse i q]\<rparr>"
  using assms
  by (auto simp: reader_packet_def Let_def bind_eq_Some_conv elim!: sendProcessMessage_cases
      split: if_splits option.splits)

lemma Close_begin_cases:
  assumes "Close_begin l = Some (first, l')"
  obtains (again) "c_closing l" "\<not> first" "l' = l"
  | (first) "\<not> c_closing l" "first" "\<not> c_chanClosed l"
      "l' = l\<lparr>c_closing := True, c_chanMessage := c_chanMessage l @ [MessageQuit]\<rparr>"
  using assms by (cases l) (auto simp: Close_begin_def setClosing_def push_def split: if_splits bool.splits)

lemma same_contexts_fields [simp]:
  "same_contexts l (l\<lparr>c_messageID := a\<rparr>)" "same_contexts l (l\<lparr>c_chanClosed := b\<rparr>)"
  "same_contexts l (l\<lparr>c_closeErr := c\<rparr>)" "same_contexts l (l\<lparr>c_requestTimeout := d\<rparr>)"
  "same_contexts l (l\<lparr>c_outstandingRequests := e, c_isStartingTLS := f\<rparr>)"
  "same_contexts l (l\<lparr>c_isStartingTLS := f, c_outstandingRequests := e\<rparr>)"
  "same_contexts l (l\<lparr>c_chanMessage := g\<rparr>)" "same_contexts l (l\<lparr>c_closing := h, c_chanMessage := g\<rparr>)"
  "same_contexts l (l\<lparr>c_err := k\<rparr>)" "same_contexts l l"
  by (simp_all add: same_contexts_def ctx_id_def [abs_def] ctx_closed_def [abs_def])

lemma close_done_same: "close_done c l = Some l' \<Longrightarrow> same_contexts l l' \<and> c_chanMessage l' = c_chanMessage l"
  by (auto simp: close_done_def intro!: same_contexts_update split: if_splits)

lemma step_contexts:
  assumes "step B s s'" "conn_inv s"
  shows "contexts_inv (s_conn s')"
proof -
  have inv: "contexts_inv (s_conn s)" using assms(2) by (simp add: conn_inv_def)
  note same = contexts_inv_same [OF inv] and push = contexts_inv_push [OF inv]
  from assms(1) show ?thesis
  proof (cases rule: step.cases)
    case (enqueue i ids p r l)
    from enqueue(5,3) show ?thesis
    proof (cases rule: sendMessage_enqueue_cases)
      case sent
      with assms(2) enqueue(2) have "\<forall>c < c_fresh (s_conn s). ctx_id (s_conn s) c \<noteq> i"
        by (auto simp: conn_inv_def ids_inv_def)
      with sent enqueue(1) contexts_inv_enqueue [OF inv] show ?thesis by simp
    qed (use enqueue(1) inv in simp)
  next
    case (finish_report i "is" ok l)
    from finish_report(4) show ?thesis
      by (cases rule: sendProcessMessage_cases) (use finish_report(1) inv in \<open>auto intro: push\<close>)
  next
    case (timer i ok l)
    from timer(3) show ?thesis
      by (cases rule: sendProcessMessage_cases) (use timer(1) inv in \<open>auto intro: push\<close>)
  next
    case (read panic p r l clean)
    from read(3,4) show ?thesis
      by (cases rule: reader_packet_cases)
        (use read(1) inv in \<open>auto intro: push same simp: setError_def\<close>)
  next
    case (close_begin "first" l)
    from close_begin(3) show ?thesis
      by (cases rule: Close_begin_cases) (use close_begin(1) inv in \<open>auto intro: push\<close>)
  next
    case (process order ev l)
    have "c_chanMessage (s_conn s) \<noteq> []" using process(6) by (auto simp: processMessage_def)
    with processMessage_contexts [OF inv this process(4,5), of B ev] process show ?thesis by simp
  qed (auto intro!: same dest!: close_done_same simp: nextMessageID_def sendMessage_admit_def finishMessage_count_def
      reader_error_def SetTimeout_def Close_end_def IsClosing_def split: if_splits)
qed

text \<open>Closing looks only at these fields, and a push of another message than quit keeps it.\<close>

lemma closing_inv_same:
  assumes "closing_inv s" "c_closing (s_conn s') = c_closing (s_conn s)"
    "c_chanMessage (s_conn s') = c_chanMessage (s_conn s)" "c_running (s_conn s') = c_running (s_conn s)"
    "c_confirmed (s_conn s') = c_confirmed (s_conn s)" "c_chanClosed (s_conn s') = c_chanClosed (s_conn s)"
    "c_messageContexts (s_conn s') = c_messageContexts (s_conn s)" "s_closing s' = s_closing s"
  shows "closing_inv s'"
  using assms unfolding closing_inv_def Let_def by metis

lemma closing_inv_push:
  assumes "closing_inv s" "\<not> c_closing (s_conn s)" "m \<noteq> MessageQuit" "s_closing s' = s_closing s"
    "c_closing (s_conn s') = c_closing (s_conn s)" "c_chanMessage (s_conn s') = c_chanMessage (s_conn s) @ [m]"
    "c_running (s_conn s') = c_running (s_conn s)" "c_confirmed (s_conn s') = c_confirmed (s_conn s)"
    "c_chanClosed (s_conn s') = c_chanClosed (s_conn s)"
    "c_messageContexts (s_conn s') = c_messageContexts (s_conn s)"
  shows "closing_inv s'"
  using assms by (auto simp: closing_inv_def Let_def)

lemma step_closing:
  assumes "step B s s'" "conn_inv s"
  shows "closing_inv s'"
proof -
  have inv: "closing_inv s" "contexts_inv (s_conn s)" using assms(2) by (simp_all add: conn_inv_def)
  note same = closing_inv_same [OF inv(1)] and push = closing_inv_push [OF inv(1)]
  from assms(1) show ?thesis
  proof (cases rule: step.cases)
    case (enqueue i ids p r l)
    from enqueue(5,3) show ?thesis
      by (cases rule: sendMessage_enqueue_cases) (use enqueue(1) in \<open>auto intro: same push\<close>)
  next
    case (finish_report i "is" ok l)
    from finish_report(4) show ?thesis
      by (cases rule: sendProcessMessage_cases) (use finish_report(1) in \<open>auto intro: push same\<close>)
  next
    case (timer i ok l)
    from timer(3) show ?thesis
      by (cases rule: sendProcessMessage_cases) (use timer(1) in \<open>auto intro: push same\<close>)
  next
    case (read panic p r l clean)
    from read(3,4) show ?thesis
      by (cases rule: reader_packet_cases) (use read(1) in \<open>auto intro: push same simp: setError_def\<close>)
  next
    case (close_begin "first" l)
    from close_begin(3) show ?thesis
    proof (cases rule: Close_begin_cases)
      case again
      with close_begin(1) inv(1) show ?thesis by (auto simp: closing_inv_def Let_def)
    next
      case first
      with close_begin(1) inv(1) show ?thesis by (auto simp: closing_inv_def Let_def butlast_append)
    qed
  next
    case (close_end l)
    with inv(1) show ?thesis by (auto simp: closing_inv_def Let_def Close_end_def split: if_splits)
  next
    case (process order ev l)
    obtain m ms where chan: "c_chanMessage (s_conn s) = m # ms"
      using process(6) by (cases "c_chanMessage (s_conn s)") (auto simp: processMessage_def)
    obtain l1 where l1: "framed ((s_conn s)\<lparr>c_chanMessage := ms\<rparr>) l1"
      "l = (if m = MessageQuit then l1\<lparr>c_running := False, c_confirmed := True\<rparr> else l1)"
      using processMessage_effect [OF process(6) chan] by blast
    show ?thesis
    proof (cases "m = MessageQuit")
      case True
      with inv(1) chan have "ms = []" by (auto simp: closing_inv_def Let_def split: if_splits)
      moreover have "c_messageContexts l = Map.empty"
        using processMessage_quit [OF process(6) _ inv(2) process(4,5)] chan True by simp
      ultimately show ?thesis
        using inv(1) chan True l1 process(1) by (auto simp: closing_inv_def Let_def framed_def)
    next
      case False
      with inv(1) chan l1 process(1,2) show ?thesis
        by (auto simp: closing_inv_def Let_def framed_def split: if_splits)
    qed
  qed (auto intro!: same simp: nextMessageID_def sendMessage_admit_def finishMessage_count_def close_done_def
      reader_error_def SetTimeout_def IsClosing_def split: if_splits)
qed

text \<open>Ids: a fresh one differs from all handed out before, as long as the counter has not wrapped.\<close>

lemma issued_id_mono: "issued_id n i \<Longrightarrow> n \<le> m \<Longrightarrow> issued_id m i"
  unfolding issued_id_def by (fastforce intro: order_trans)

lemma fresh_id: "n + 1 < 2 ^ 64 \<Longrightarrow> \<not> issued_id n (of_nat (n + 1))"
proof
  assume bound: "n + 1 < 2 ^ 64" and "issued_id n (of_nat (n + 1))"
  then obtain k where k: "k \<le> n" "(of_nat (n + 1) :: int64) = of_nat k" by (auto simp: issued_id_def)
  then have "unat (of_nat (n + 1) :: int64) = unat (of_nat k :: int64)" by simp
  with bound k(1) show False by (simp add: unat_of_nat del: of_nat_Suc of_nat_add)
qed

lemma ids_inv_same:
  assumes "ids_inv s" "c_closing (s_conn s') = c_closing (s_conn s)" "c_messageID (s_conn s') = c_messageID (s_conn s)"
    "c_fresh (s_conn s') = c_fresh (s_conn s)" "\<And>c. ctx_id (s_conn s') c = ctx_id (s_conn s) c"
    "s_ids s' + s_admitted s' \<subseteq># s_ids s + s_admitted s" "s_issued s' = s_issued s"
  shows "ids_inv s'"
proof -
  have "count (s_ids s' + s_admitted s') i \<le> count (s_ids s + s_admitted s) i" for i
    using assms(6) by (rule mset_subset_eq_count)
  moreover have "i \<in># s_ids s' + s_admitted s' \<Longrightarrow> i \<in># s_ids s + s_admitted s" for i
    using assms(6) by (rule mset_subset_eqD)
  ultimately show ?thesis
    using assms(1) unfolding ids_inv_def assms(2-5,7) by (meson order_trans)
qed

lemma ids_inv_closing: "c_closing (s_conn s) \<Longrightarrow> ids_inv s"
  by (simp add: ids_inv_def)

lemma ids_inv_take:
  assumes inv: "ids_inv s" and bound: "s_issued s + 1 < 2 ^ 64"
    and l: "l = (s_conn s)\<lparr>c_messageID := c_messageID (s_conn s) + 1\<rparr>"
  shows "ids_inv (s\<lparr>s_conn := l, s_ids := add_mset (c_messageID (s_conn s)) (s_ids s), s_issued := s_issued s + 1\<rparr>)"
proof (cases "c_closing (s_conn s)")
  case True
  then show ?thesis by (intro ids_inv_closing) (simp add: l)
next
  case False
  let ?i = "c_messageID (s_conn s)" and ?n = "s_issued s"
  from inv False have id: "?i = of_nat (?n + 1)"
    and one: "\<And>i. count (s_ids s + s_admitted s) i \<le> 1"
    and old: "\<And>i. i \<in># s_ids s + s_admitted s \<Longrightarrow> issued_id ?n i \<and> (\<forall>c < c_fresh (s_conn s). ctx_id (s_conn s) c \<noteq> i)"
    and ctx: "\<And>c. c < c_fresh (s_conn s) \<Longrightarrow> issued_id ?n (ctx_id (s_conn s) c)"
    unfolding ids_inv_def by blast+
  have new: "\<not> issued_id ?n ?i" unfolding id using fresh_id [OF bound] .
  have "issued_id (?n + 1) ?i" unfolding issued_id_def id by (intro exI [of _ "?n + 1"]) simp
  moreover have "?i \<notin># s_ids s + s_admitted s" using old new by blast
  moreover have "ctx_id l = ctx_id (s_conn s)" by (simp add: l ctx_id_def [abs_def])
  moreover have "ctx_id (s_conn s) c \<noteq> ?i" if "c < c_fresh (s_conn s)" for c
    using ctx [OF that] new by metis
  ultimately show ?thesis
    using False one old ctx unfolding ids_inv_def
    by (auto simp: l id not_in_iff intro: issued_id_mono [of ?n])
qed

lemma ids_inv_enqueue:
  assumes inv: "ids_inv s" and ids: "s_admitted s = add_mset i ids"
    and l: "l = (s_conn s)\<lparr>c_store := (c_store (s_conn s))(c_fresh (s_conn s) := new_context i),
      c_fresh := c_fresh (s_conn s) + 1, c_chanMessage := q\<rparr>"
  shows "ids_inv (s\<lparr>s_conn := l, s_admitted := ids, s_held := h\<rparr>)"
proof (cases "c_closing (s_conn s)")
  case True
  then show ?thesis by (intro ids_inv_closing) (simp add: l)
next
  case False
  have id: "ctx_id l = (ctx_id (s_conn s))(c_fresh (s_conn s) := i)"
    by (simp add: l fun_eq_iff ctx_id_def new_context_def)
  have fr: "c_fresh l = Suc (c_fresh (s_conn s))" "c_messageID l = c_messageID (s_conn s)" by (simp_all add: l)
  from inv False have one: "\<And>j. count (s_ids s + s_admitted s) j \<le> 1"
    and old: "\<And>j. j \<in># s_ids s + s_admitted s \<Longrightarrow> issued_id (s_issued s) j \<and> (\<forall>c < c_fresh (s_conn s). ctx_id (s_conn s) c \<noteq> j)"
    and ctx: "\<And>c. c < c_fresh (s_conn s) \<Longrightarrow> issued_id (s_issued s) (ctx_id (s_conn s) c)"
    and next_id: "c_messageID (s_conn s) = of_nat (s_issued s + 1)"
    unfolding ids_inv_def by blast+
  have "count (s_ids s + ids) i = 0" using one [of i] ids by simp
  then have i: "i \<notin># s_ids s + ids" by (simp only: not_in_iff)
  have "count (s_ids s + ids) j \<le> 1" for j using one [of j] ids by (auto split: if_splits)
  moreover have "issued_id (s_issued s) j \<and> (\<forall>c < c_fresh l. ctx_id l c \<noteq> j)" if "j \<in># s_ids s + ids" for j
    using old [of j] that i ids by (auto simp: id fr less_Suc_eq)
  moreover have "issued_id (s_issued s) (ctx_id l c)" if "c < c_fresh l" for c
    using ctx [of c] old [of i] that ids by (auto simp: id fr less_Suc_eq)
  ultimately show ?thesis
    using next_id unfolding ids_inv_def by (simp add: fr)
qed

lemma step_ids:
  assumes "step B s s'" "conn_inv s" "s_issued s' < 2 ^ 64"
  shows "ids_inv s'"
proof -
  have inv: "ids_inv s" using assms(2) by (simp add: conn_inv_def)
  note same = ids_inv_same [OF inv]
  from assms(1) show ?thesis
  proof (cases rule: step.cases)
    case (take_id i l)
    then have "i = c_messageID (s_conn s)" "l = (s_conn s)\<lparr>c_messageID := c_messageID (s_conn s) + 1\<rparr>"
      by (auto simp: nextMessageID_def)
    moreover have "s_issued s + 1 < 2 ^ 64" using assms(3) take_id(1) by simp
    ultimately show ?thesis using ids_inv_take [OF inv] take_id(1) by simp
  next
    case (take_no_id i l)
    with assms(2) have "c_closing (s_conn s)" by (simp add: conn_inv_def closing_inv_def Let_def)
    with take_no_id show ?thesis by (intro ids_inv_closing) (auto simp: nextMessageID_def)
  next
    case (enqueue i ids p r l)
    from enqueue(5,3) show ?thesis
    proof (cases rule: sendMessage_enqueue_cases)
      case refused
      with enqueue(1) show ?thesis by (intro ids_inv_closing) simp
    next
      case sent
      with enqueue(1) ids_inv_enqueue [OF inv enqueue(2)] show ?thesis by simp
    qed
  next
    case (finish_report i "is" ok l)
    from finish_report(4) show ?thesis
      by (cases rule: sendProcessMessage_cases) (use finish_report(1) in \<open>auto intro!: same simp: ctx_id_def\<close>)
  next
    case (timer i ok l)
    from timer(3) show ?thesis
      by (cases rule: sendProcessMessage_cases) (use timer(1) in \<open>auto intro!: same simp: ctx_id_def\<close>)
  next
    case (read panic p r l clean)
    from read(3,4) show ?thesis
      by (cases rule: reader_packet_cases) (use read(1) in \<open>auto intro!: same simp: setError_def ctx_id_def\<close>)
  next
    case (close_begin "first" l)
    from close_begin(3) show ?thesis
      by (cases rule: Close_begin_cases) (use close_begin(1) in \<open>auto intro!: ids_inv_closing\<close>)
  next
    case (process order ev l)
    with processMessage_keeps [OF process(6)] show ?thesis by (intro same) simp_all
  qed (auto intro!: same simp: nextMessageID_def sendMessage_admit_def finishMessage_count_def close_done_def ctx_id_def
      reader_error_def SetTimeout_def IsClosing_def Close_end_def split: if_splits)
qed

text \<open>The count of outstanding requests.\<close>

lemma undone_same:
  "c_fresh l' = c_fresh l \<Longrightarrow> (\<And>c. cx_done (c_store l' c) = cx_done (c_store l c)) \<Longrightarrow> undone l' = undone l"
  by (simp add: undone_def)

lemma undone_enqueue:
  assumes "c_fresh l' = c_fresh l + 1" "c_store l' = (c_store l)(c_fresh l := new_context i)"
  shows "undone l' = undone l + 1"
proof -
  have "{c. c < c_fresh l' \<and> \<not> cx_done (c_store l' c)} = insert (c_fresh l) {c. c < c_fresh l \<and> \<not> cx_done (c_store l c)}"
    by (auto simp: assms new_context_def)
  then show ?thesis by (simp add: undone_def)
qed

lemma undone_done:
  assumes "close_done c l = Some l'" "c < c_fresh l"
  shows "undone l = undone l' + 1"
proof -
  have l': "\<not> cx_done (c_store l c)" "l' = update_ctx c (\<lambda>x. x\<lparr>cx_done := True\<rparr>) l"
    using assms(1) by (auto simp: close_done_def split: if_splits)
  then have "{d. d < c_fresh l \<and> \<not> cx_done (c_store l d)} = insert c {d. d < c_fresh l' \<and> \<not> cx_done (c_store l' d)}"
    using assms(2) by auto
  moreover have "c \<notin> {d. d < c_fresh l' \<and> \<not> cx_done (c_store l' d)}" using l' by simp
  ultimately show ?thesis by (simp add: undone_def)
qed

lemma counts_inv_closing: "c_closing (s_conn s) \<Longrightarrow> counts_inv s"
  by (simp add: counts_inv_def)

lemma counts_inv_same:
  assumes "counts_inv s" "c_closing (s_conn s') = c_closing (s_conn s)"
    "c_outstandingRequests (s_conn s') = c_outstandingRequests (s_conn s)"
    "c_isStartingTLS (s_conn s') = c_isStartingTLS (s_conn s)" "c_fresh (s_conn s') = c_fresh (s_conn s)"
    "\<And>c. cx_done (c_store (s_conn s') c) = cx_done (c_store (s_conn s) c)"
    "size (s_ids s') + s_issued s \<le> size (s_ids s) + s_issued s'" "s_admitted s' = s_admitted s" "s_finishing s' = s_finishing s"
  shows "counts_inv s'"
proof -
  have "undone (s_conn s') = undone (s_conn s)" using assms(5,6) by (rule undone_same)
  with assms show ?thesis unfolding counts_inv_def outstanding_def by auto
qed

lemma counts_inv_admit:
  assumes inv: "counts_inv s" and ids: "s_ids s = add_mset i ids"
    and adm: "sendMessage_admit fl (s_conn s) = Inr l" and bound: "s_issued s < 2 ^ 64"
  shows "counts_inv (s\<lparr>s_conn := l, s_ids := ids, s_admitted := add_mset i (s_admitted s)\<rparr>)"
proof (cases "c_closing (s_conn s)")
  case True
  with adm show ?thesis by (intro counts_inv_closing) (auto simp: sendMessage_admit_def split: if_splits)
next
  case False
  with inv have old: "c_outstandingRequests (s_conn s) = of_nat (outstanding s)"
    "size (s_ids s) + size (s_admitted s) + c_fresh (s_conn s) \<le> s_issued s"
    "undone (s_conn s) + size (s_finishing s) \<le> c_fresh (s_conn s)"
    by (simp_all add: counts_inv_def)
  have l: "l = (s_conn s)\<lparr>c_isStartingTLS := (fl = startTLS), c_outstandingRequests := c_outstandingRequests (s_conn s) + 1\<rparr>"
    and zero: "fl = startTLS \<Longrightarrow> c_outstandingRequests (s_conn s) = 0"
    using adm by (auto simp: sendMessage_admit_def split: if_splits)
  have "outstanding s < 2 ^ 64" using old(2,3) bound by (simp add: outstanding_def)
  then have "unat (of_nat (outstanding s) :: 64 word) = outstanding s" by (simp add: unat_of_nat)
  then have none: "outstanding s = 0" if "fl = startTLS"
    using zero [OF that] old(1) by simp
  have "undone l = undone (s_conn s)" by (rule undone_same) (simp_all add: l)
  then show ?thesis
    using False old none ids by (auto simp: counts_inv_def outstanding_def l)
qed

lemma step_counts:
  assumes "step B s s'" "conn_inv s" "s_issued s' < 2 ^ 64"
  shows "counts_inv s'"
proof -
  have inv: "counts_inv s" using assms(2) by (simp add: conn_inv_def)
  note same = counts_inv_same [OF inv]
  from assms(1) show ?thesis
  proof (cases rule: step.cases)
    case (take_no_id i l)
    with assms(2) have "c_closing (s_conn s)" by (simp add: conn_inv_def closing_inv_def Let_def)
    with take_no_id show ?thesis by (intro counts_inv_closing) (auto simp: nextMessageID_def)
  next
    case (admit i ids fl l)
    with counts_inv_admit [OF inv admit(2,3)] assms(3) show ?thesis by simp
  next
    case (enqueue i ids p r l)
    from enqueue(5,3) show ?thesis
    proof (cases rule: sendMessage_enqueue_cases)
      case refused
      with enqueue(1) show ?thesis by (intro counts_inv_closing) simp
    next
      case sent
      have "undone l = undone (s_conn s) + 1" by (rule undone_enqueue) (simp_all add: sent)
      with inv enqueue(1,2) sent show ?thesis by (auto simp: counts_inv_def outstanding_def)
    qed
  next
    case (finish_done c cs l)
    have "c < c_fresh (s_conn s)" using assms(2) finish_done(2) by (simp add: conn_inv_def held_inv_def)
    note undone = undone_done [OF finish_done(3) this]
    have "c_closing l = c_closing (s_conn s)" "c_outstandingRequests l = c_outstandingRequests (s_conn s)"
      "c_isStartingTLS l = c_isStartingTLS (s_conn s)" "c_fresh l = c_fresh (s_conn s)"
      using finish_done(3) by (auto simp: close_done_def split: if_splits)
    with inv finish_done(1) undone show ?thesis
      by (auto simp: counts_inv_def outstanding_def)
  next
    case (finish_closing c cs)
    then show ?thesis by (intro counts_inv_closing) (simp add: IsClosing_def)
  next
    case (finish_count c cs)
    have "undone (finishMessage_count (s_conn s)) = undone (s_conn s)"
      by (rule undone_same) (simp_all add: finishMessage_count_def)
    with inv finish_count show ?thesis
      by (auto simp: counts_inv_def outstanding_def finishMessage_count_def)
  next
    case (finish_report i "is" ok l)
    from finish_report(4) show ?thesis
      by (cases rule: sendProcessMessage_cases) (use finish_report(1) in \<open>auto intro!: same\<close>)
  next
    case (timer i ok l)
    from timer(3) show ?thesis
      by (cases rule: sendProcessMessage_cases) (use timer(1) in \<open>auto intro!: same\<close>)
  next
    case (read panic p r l clean)
    from read(3,4) show ?thesis
      by (cases rule: reader_packet_cases) (use read(1) in \<open>auto intro!: same simp: setError_def\<close>)
  next
    case (close_begin "first" l)
    from close_begin(3) show ?thesis
      by (cases rule: Close_begin_cases) (use close_begin(1) in \<open>auto intro!: counts_inv_closing\<close>)
  next
    case (process order ev l)
    with processMessage_keeps [OF process(6)] show ?thesis by (intro same) simp_all
  qed (auto intro!: same simp: nextMessageID_def reader_error_def SetTimeout_def IsClosing_def Close_end_def
      split: if_splits)
qed

text \<open>A context is finished by the client that holds it, once.\<close>

lemma held_inv_same:
  assumes "held_inv s" "s_held s' = s_held s" "c_fresh (s_conn s') = c_fresh (s_conn s)"
    "\<And>c. cx_done (c_store (s_conn s') c) = cx_done (c_store (s_conn s) c)"
  shows "held_inv s'"
  using assms by (simp add: held_inv_def)

lemma held_inv_new:
  assumes "held_inv s" "s_held s' = add_mset (c_fresh (s_conn s)) (s_held s)" "c_fresh (s_conn s') = c_fresh (s_conn s) + 1"
    "c_store (s_conn s') = (c_store (s_conn s))(c_fresh (s_conn s) := new_context i)"
  shows "held_inv s'"
proof -
  have "c_fresh (s_conn s) \<notin># s_held s" using assms(1) by (auto simp: held_inv_def)
  then have "count (s_held s') c \<le> 1" for c
    using assms(1,2) by (auto simp: held_inv_def not_in_iff)
  moreover have "c < c_fresh (s_conn s') \<and> \<not> cx_done (c_store (s_conn s') c)" if "c \<in># s_held s'" for c
    using assms that by (auto simp: held_inv_def new_context_def)
  ultimately show ?thesis by (simp add: held_inv_def)
qed

lemma held_inv_done:
  assumes "held_inv s" "s_held s = add_mset c cs" "close_done c (s_conn s) = Some l"
  shows "held_inv (s\<lparr>s_conn := l, s_held := cs, s_finishing := cs'\<rparr>)"
proof -
  have one: "count (add_mset c cs) d \<le> 1" for d using assms(1) unfolding held_inv_def assms(2) by blast
  from one [of c] have "c \<notin># cs" by (simp add: not_in_iff)
  moreover have "count cs d \<le> 1" for d using one [of d] by (cases "d = c") simp_all
  ultimately show ?thesis
    using assms by (auto simp: held_inv_def close_done_def split: if_splits)
qed

lemma step_held:
  assumes "step B s s'" "held_inv s"
  shows "held_inv s'"
proof -
  note same = held_inv_same [OF assms(2)]
  from assms(1) show ?thesis
  proof (cases rule: step.cases)
    case (enqueue i ids p r l)
    from enqueue(5,3) show ?thesis
    proof (cases rule: sendMessage_enqueue_cases)
      case (refused e)
      with enqueue show ?thesis by (intro same) simp_all
    next
      case sent
      with enqueue(1) show ?thesis by (intro held_inv_new [OF assms(2)]) simp_all
    qed
  next
    case (finish_done c cs l)
    with held_inv_done [OF assms(2)] show ?thesis by simp
  next
    case (finish_report i "is" ok l)
    from finish_report(4) show ?thesis
      by (cases rule: sendProcessMessage_cases) (use finish_report(1) in \<open>auto intro!: same\<close>)
  next
    case (timer i ok l)
    from timer(3) show ?thesis
      by (cases rule: sendProcessMessage_cases) (use timer(1) in \<open>auto intro!: same\<close>)
  next
    case (read panic p r l clean)
    from read(3,4) show ?thesis
      by (cases rule: reader_packet_cases) (use read(1) in \<open>auto intro!: same simp: setError_def\<close>)
  next
    case (close_begin "first" l)
    from close_begin(3) show ?thesis
      by (cases rule: Close_begin_cases) (use close_begin(1) in \<open>auto intro!: same\<close>)
  next
    case (process order ev l)
    with processMessage_keeps [OF process(6)] show ?thesis by (intro same) simp_all
  qed (auto intro!: same simp: nextMessageID_def sendMessage_admit_def finishMessage_count_def reader_error_def
      SetTimeout_def IsClosing_def Close_end_def split: if_splits)
qed

lemma step_issued: "step B s s' \<Longrightarrow> s_issued s \<le> s_issued s'"
  by (cases rule: step.cases) auto

lemma start_inv: "conn_inv (system_start isTLS)"
  by (auto simp: conn_inv_def system_start_def Start_def NewConn_def contexts_inv_def ctx_ok_def waiting_def
      List.map_filter_def closing_inv_def ids_inv_def counts_inv_def outstanding_def undone_def held_inv_def)

lemma reachable_inv: "reachable B isTLS s \<Longrightarrow> s_issued s < 2 ^ 64 \<Longrightarrow> conn_inv s"
proof (induction rule: reachable.induct)
  case start
  show ?case by (rule start_inv)
next
  case (next_step s s')
  then have "conn_inv s" using step_issued [OF next_step.hyps(2)] by simp
  with next_step show ?case
    using step_contexts step_closing step_ids step_counts step_held by (metis conn_inv_def)
qed

section \<open>Properties\<close>

text \<open>C1. No goroutine panics on a channel, however clients, timers, reader and closers interleave: a
  message never goes to a closed channel, \<^verbatim>\<open>Close\<close> never closes the message channel twice, and the
  processing loop handles every message without closing a response channel twice or sending on a
  closed one; it never receives from the closed and empty message channel; and a client that finishes the
  context it holds does not close its \<^verbatim>\<open>done\<close> channel a second time.  (Fewer than \<^verbatim>\<open>2^64\<close>
  message ids have been handed out.)\<close>

theorem connection_never_panics:
  assumes "reachable B isTLS s" "s_issued s < 2 ^ 64"
  shows "sendProcessMessage m (s_conn s) \<noteq> None \<and> Close_begin (s_conn s) \<noteq> None
    \<and> (s_closing s \<longrightarrow> Close_end (s_conn s) \<noteq> None)
    \<and> (\<forall>c \<in># s_held s. close_done c (s_conn s) \<noteq> None)
    \<and> (c_running (s_conn s) \<and> (c_chanMessage (s_conn s) \<noteq> [] \<or> c_chanClosed (s_conn s))
        \<and> distinct order \<and> set order = dom (c_messageContexts (s_conn s))
       \<longrightarrow> processMessage B ev order (s_conn s) \<noteq> None)"
proof -
  let ?l = "s_conn s"
  have inv: "contexts_inv ?l" "closing_inv s" "held_inv s" using reachable_inv [OF assms] by (simp_all add: conn_inv_def)
  have held: "\<forall>c \<in># s_held s. close_done c ?l \<noteq> None" using inv(3) by (simp add: held_inv_def close_done_def)
  have "c_chanMessage ?l \<noteq> []" if "c_running ?l" "c_chanMessage ?l \<noteq> [] \<or> c_chanClosed ?l"
    using that inv(2) by (auto simp: closing_inv_def Let_def)
  then have "processMessage B ev order ?l \<noteq> None"
    if "c_running ?l" "c_chanMessage ?l \<noteq> [] \<or> c_chanClosed ?l" "distinct order" "set order = dom (c_messageContexts ?l)"
    using processMessage_contexts [OF inv(1), of order B ev] that by auto
  moreover have "c_chanClosed ?l \<Longrightarrow> c_closing ?l \<and> \<not> s_closing s" using inv(2) unfolding closing_inv_def Let_def by blast
  ultimately show ?thesis using held
    by (auto simp: sendProcessMessage_def push_def IsClosing_def Close_begin_def setClosing_def Close_end_def
        split: bool.splits)
qed

text \<open>C2. No client is forgotten: every context given to a client has its request waiting in the message
  channel, or is registered under its id, or has its response channel closed, and never two of these;
  once the processing loop has ended, every response channel is closed, so nobody waits for ever.
  Two contexts never share a message id.\<close>

theorem no_client_forgotten:
  assumes "reachable B isTLS s" "s_issued s < 2 ^ 64"
  shows "\<forall>c < c_fresh (s_conn s).
      (c \<in> set (waiting (s_conn s)) \<or> c_messageContexts (s_conn s) (cx_id (c_store (s_conn s) c)) = Some c
        \<or> cx_closed (c_store (s_conn s) c))
      \<and> (cx_closed (c_store (s_conn s) c) \<longrightarrow>
           c \<notin> set (waiting (s_conn s)) \<and> c \<notin> ran (c_messageContexts (s_conn s)))
      \<and> \<not> (c \<in> set (waiting (s_conn s)) \<and> c \<in> ran (c_messageContexts (s_conn s)))
      \<and> (\<not> c_running (s_conn s) \<longrightarrow> cx_closed (c_store (s_conn s) c))
      \<and> (\<forall>d < c_fresh (s_conn s). cx_id (c_store (s_conn s) d) = cx_id (c_store (s_conn s) c) \<longrightarrow> d = c)"
proof (intro allI impI)
  fix c assume c: "c < c_fresh (s_conn s)"
  let ?l = "s_conn s"
  have ok: "ctx_ok (waiting ?l) (c_messageContexts ?l) (c_fresh ?l) (ctx_closed ?l) (ctx_id ?l)"
    and closing: "closing_inv s"
    using reachable_inv [OF assms] by (simp_all add: conn_inv_def contexts_inv_def)
  have stopped: "cx_closed (c_store ?l c)" if "\<not> c_running ?l"
  proof -
    have "waiting ?l = []" "ran (c_messageContexts ?l) = {}"
      using that closing by (simp_all add: closing_inv_def Let_def waiting_def List.map_filter_def)
    then show ?thesis using ctx_okD(5) [OF ok c] by (simp add: ctx_closed_def)
  qed
  have uniq: "\<forall>d < c_fresh ?l. cx_id (c_store ?l d) = cx_id (c_store ?l c) \<longrightarrow> d = c"
    using inj_onD [OF ctx_okD(6) [OF ok], of _ c] c by (simp add: ctx_id_def)
  have shut: "cx_closed (c_store ?l c) \<longleftrightarrow> c \<notin> set (waiting ?l) \<and> c \<notin> ran (c_messageContexts ?l)"
    using ctx_okD(5) [OF ok c] by (simp add: ctx_closed_def)
  have reg: "c_messageContexts ?l (cx_id (c_store ?l c)) = Some c" if "c \<in> ran (c_messageContexts ?l)"
    using that ctx_okD(7) [OF ok] by (fastforce simp: ran_def ctx_id_def)
  have apart: "\<not> (c \<in> set (waiting ?l) \<and> c \<in> ran (c_messageContexts ?l))"
    using ctx_okD(4) [OF ok] by (fastforce simp: ran_def)
  show "(c \<in> set (waiting ?l) \<or> c_messageContexts ?l (cx_id (c_store ?l c)) = Some c \<or> cx_closed (c_store ?l c))
      \<and> (cx_closed (c_store ?l c) \<longrightarrow> c \<notin> set (waiting ?l) \<and> c \<notin> ran (c_messageContexts ?l))
      \<and> \<not> (c \<in> set (waiting ?l) \<and> c \<in> ran (c_messageContexts ?l))
      \<and> (\<not> c_running ?l \<longrightarrow> cx_closed (c_store ?l c))
      \<and> (\<forall>d < c_fresh ?l. cx_id (c_store ?l d) = cx_id (c_store ?l c) \<longrightarrow> d = c)"
    using uniq shut reg apart stopped by blast
qed

text \<open>A run of the connection: an id is taken, a request with it admitted and put on the channel.\<close>

definition request_one :: packet where
  "request_one = Packet ClassUniversal TypeConstructed TagSequence VNil [] (Some [])
     [Packet ClassUniversal TypePrimitive TagInteger (VInt64 1) [] (Some []) [] []] []"

definition conn_one :: conn where
  "conn_one = snd (nextMessageID (Start (NewConn False)))"

definition taken_one :: system where
  "taken_one = (system_start False)\<lparr>s_conn := conn_one, s_ids := {#1#}, s_issued := 1\<rparr>"

definition admitted_one :: "sendMessageFlags \<Rightarrow> system" where
  "admitted_one fl = (system_start False)\<lparr>s_conn := conn_one\<lparr>c_isStartingTLS := (fl = startTLS), c_outstandingRequests := 1\<rparr>,
     s_admitted := {#1#}, s_issued := 1\<rparr>"

definition enqueued_one :: system where
  "enqueued_one = (let s = admitted_one noFlags; l = s_conn s in
     s\<lparr>s_conn := l\<lparr>c_store := (c_store l)(0 := new_context 1), c_fresh := 1, c_chanMessage := [MessageRequest 1 request_one 0]\<rparr>,
       s_admitted := {#}, s_held := {#0#}\<rparr>)"

lemmas conn_one_simps = admitted_one_def conn_one_def system_start_def nextMessageID_def Start_def NewConn_def

lemma step_taken: "step B (system_start False) taken_one"
  using take_id [of "system_start False" 1 conn_one B] by (simp add: conn_one_simps taken_one_def)

lemma step_admitted: "step B taken_one (admitted_one fl)"
  using admit [of taken_one 1 "{#}" fl "conn_one\<lparr>c_isStartingTLS := (fl = startTLS), c_outstandingRequests := 1\<rparr>" B]
  by (simp add: conn_one_simps taken_one_def sendMessage_admit_def)

lemma request_one_id: "message_id request_one = Some 1"
  by (simp add: message_id_def request_one_def nth_child_def deref_def)

lemma step_enqueued: "step B (admitted_one noFlags) enqueued_one"
proof -
  let ?l = "s_conn (admitted_one noFlags)"
  have "sendMessage_enqueue request_one ?l = Some (Inr 0, ?l\<lparr>c_store := (c_store ?l)(0 := new_context 1), c_fresh := 1,
      c_chanMessage := [MessageRequest 1 request_one 0]\<rparr>)"
    by (simp add: sendMessage_enqueue_def request_one_id sendProcessMessage_def push_def IsClosing_def conn_one_simps)
  from enqueue [OF _ request_one_id _ this, of "{#}" B] show ?thesis
    by (simp add: enqueued_one_def Let_def unblocked_def can_send_def) (simp add: conn_one_simps)
qed

lemma reach_admitted: "reachable B False (admitted_one fl)"
  by (rule next_step [OF next_step [OF start step_taken] step_admitted])

lemma reach_enqueued: "reachable B False enqueued_one"
  by (rule next_step [OF reach_admitted step_enqueued])

theorem connection_never_panics_witness:
  "close_done 0 (s_conn enqueued_one) \<noteq> None \<and> sendProcessMessage (MessageTimeout 7) (s_conn enqueued_one) \<noteq> None
   \<and> processMessage ref_ber \<lparr>ev_write_error = Some ''broken pipe'', ev_delivered = True\<rparr> [] (s_conn enqueued_one) \<noteq> None"
proof -
  have "c_running (s_conn enqueued_one)" "c_chanMessage (s_conn enqueued_one) \<noteq> []" "s_held enqueued_one = {#0#}"
    "c_messageContexts (s_conn enqueued_one) = Map.empty" "s_issued enqueued_one < 2 ^ 64"
    by (simp_all add: enqueued_one_def Let_def conn_one_simps)
  with connection_never_panics [OF reach_enqueued [of ref_ber], of "MessageTimeout 7" "[]"
      "\<lparr>ev_write_error = Some ''broken pipe'', ev_delivered = True\<rparr>"]
  show ?thesis by simp
qed

theorem no_client_forgotten_witness:
  "\<exists>s. reachable ref_ber False s \<and> c_fresh (s_conn s) = 1 \<and> 0 \<in> set (waiting (s_conn s))
     \<and> \<not> cx_closed (c_store (s_conn s) 0)"
proof -
  note r = reach_enqueued [of ref_ber]
  have "s_issued enqueued_one < 2 ^ 64" "0 < c_fresh (s_conn enqueued_one)" "c_fresh (s_conn enqueued_one) = 1"
    "waiting (s_conn enqueued_one) = [0]"
    by (simp_all add: enqueued_one_def Let_def admitted_one_def waiting_def List.map_filter_def)
  with no_client_forgotten [OF r] r show ?thesis by (intro exI [of _ enqueued_one]) auto
qed

text \<open>C3. StartTLS runs alone: while it is in progress on a connection that is not closing, exactly one
  request is outstanding, its own, and every other request is refused; at any time the counter of
  outstanding requests is the number of requests admitted and not yet finished.\<close>

theorem StartTLS_exclusive:
  assumes "reachable B isTLS s" "s_issued s < 2 ^ 64" "\<not> c_closing (s_conn s)"
  shows "unat (c_outstandingRequests (s_conn s)) = outstanding s
    \<and> (c_isStartingTLS (s_conn s) \<longrightarrow>
        outstanding s = 1 \<and> (\<forall>flags. \<exists>e. sendMessage_admit flags (s_conn s) = Inl e))"
proof -
  have c: "c_outstandingRequests (s_conn s) = of_nat (outstanding s)" "outstanding s \<le> s_issued s"
    "c_isStartingTLS (s_conn s) \<longrightarrow> outstanding s = 1"
    using reachable_inv [OF assms(1,2)] assms(3) by (auto simp: conn_inv_def counts_inv_def outstanding_def)
  then have "outstanding s < 2 ^ 64" using assms(2) by simp
  then have "unat (c_outstandingRequests (s_conn s)) = outstanding s" by (simp add: c(1) unat_of_nat)
  with c(3) show ?thesis by (auto simp: sendMessage_admit_def)
qed

theorem StartTLS_exclusive_witness:
  "c_isStartingTLS (s_conn (admitted_one startTLS)) \<and> outstanding (admitted_one startTLS) = 1"
  using StartTLS_exclusive [OF reach_admitted [of ref_ber startTLS]]
  by (simp add: admitted_one_def conn_one_def nextMessageID_def Start_def NewConn_def)

end
