(* ===== verification/LDAP_Entry.thy ===== *)
theory LDAP_Entry
  imports LDAP_DN Go_Strconv
begin

text \<open>
  Search result entries, the first part of \<^verbatim>\<open>src/v3/search.go\<close>: their construction, the lookup of
  attribute values, exact and under case folding, the reading of attributes from packets, and
  \<^verbatim>\<open>Unmarshal\<close> into the fields of a structure.
\<close>

section \<open>Entries\<close>

record EntryAttribute =
  ea_Name :: string
  ea_Values :: "string list"
  ea_ByteValues :: "bytes list"

record Entry =
  en_DN :: string
  en_Attributes :: "EntryAttribute list"

definition NewEntryAttribute :: "string \<Rightarrow> string list \<Rightarrow> EntryAttribute" where
  "NewEntryAttribute name values = \<lparr>ea_Name = name, ea_Values = values, ea_ByteValues = map id values\<rparr>"

text \<open>
  The map of attributes is the list of its pairs in the order in which \<^verbatim>\<open>range\<close> visits them, which Go
  leaves open; \<^verbatim>\<open>attributes[attributeName]\<close> is \<^const>\<open>map_of\<close>.
\<close>

definition NewEntry :: "string \<Rightarrow> (string \<times> string list) list \<Rightarrow> Entry" where
  "NewEntry dn attributes =
     (let attributeNames = sort_strings (map fst attributes)
      in \<lparr>en_DN = dn,
          en_Attributes = map (\<lambda>attributeName. NewEntryAttribute attributeName
            (case map_of attributes attributeName of Some vs \<Rightarrow> vs | None \<Rightarrow> [])) attributeNames\<rparr>)"

section \<open>Lookup\<close>

fun attribute_field :: "(string \<Rightarrow> bool) \<Rightarrow> (EntryAttribute \<Rightarrow> 'v list) \<Rightarrow> EntryAttribute list \<Rightarrow> 'v list" where
  "attribute_field matches field [] = []"
| "attribute_field matches field (attr # attrs) =
     (if matches (ea_Name attr) then field attr else attribute_field matches field attrs)"

definition GetAttributeValues :: "Entry \<Rightarrow> string \<Rightarrow> string list" where
  "GetAttributeValues e attribute = attribute_field (\<lambda>name. name = attribute) ea_Values (en_Attributes e)"

definition GetEqualFoldAttributeValues :: "simple_fold \<Rightarrow> Entry \<Rightarrow> string \<Rightarrow> string list" where
  "GetEqualFoldAttributeValues sf e attribute =
     attribute_field (\<lambda>name. EqualFold sf attribute name) ea_Values (en_Attributes e)"

definition GetRawAttributeValues :: "Entry \<Rightarrow> string \<Rightarrow> bytes list" where
  "GetRawAttributeValues e attribute = attribute_field (\<lambda>name. name = attribute) ea_ByteValues (en_Attributes e)"

definition GetEqualFoldRawAttributeValues :: "simple_fold \<Rightarrow> Entry \<Rightarrow> string \<Rightarrow> bytes list" where
  "GetEqualFoldRawAttributeValues sf e attribute =
     attribute_field (\<lambda>name. EqualFold sf name attribute) ea_ByteValues (en_Attributes e)"

definition first_value :: "string list \<Rightarrow> string" where
  "first_value values = (if length values = 0 then [] else values ! 0)"

definition GetAttributeValue :: "Entry \<Rightarrow> string \<Rightarrow> string" where
  "GetAttributeValue e attribute = first_value (GetAttributeValues e attribute)"

definition GetEqualFoldAttributeValue :: "simple_fold \<Rightarrow> Entry \<Rightarrow> string \<Rightarrow> string" where
  "GetEqualFoldAttributeValue sf e attribute = first_value (GetEqualFoldAttributeValues sf e attribute)"

definition GetRawAttributeValue :: "Entry \<Rightarrow> string \<Rightarrow> bytes" where
  "GetRawAttributeValue e attribute = first_value (GetRawAttributeValues e attribute)"

definition GetEqualFoldRawAttributeValue :: "simple_fold \<Rightarrow> Entry \<Rightarrow> string \<Rightarrow> bytes" where
  "GetEqualFoldRawAttributeValue sf e attribute = first_value (GetEqualFoldRawAttributeValues sf e attribute)"

section \<open>Reading attributes\<close>

text \<open>\<^verbatim>\<open>unpackAttributes\<close>; the byte value and the string value of an element are separate fields of its
  packet.\<close>

fun unpack_values ::
  "(rune \<Rightarrow> bool) \<Rightarrow> string \<Rightarrow> packet list \<Rightarrow> (go_error + (string \<times> bytes) list) option" where
  "unpack_values ip name [] = Some (Inr [])"
| "unpack_values ip name (value # vs) =
     do { value \<leftarrow> deref value;
          case Value value of
            VString v \<Rightarrow>
              do { rest \<leftarrow> unpack_values ip name vs; Some (map_sum id ((#) (v, ByteValue value)) rest) }
          | x \<Rightarrow> Some (Inl (ErrText (''ldap: malformed attribute '' @ Quote ip name
                                    @ '': value is not a string: '' @ format_T x))) }"

definition unpack_attribute :: "(rune \<Rightarrow> bool) \<Rightarrow> packet \<Rightarrow> (go_error + EntryAttribute) option" where
  "unpack_attribute ip child =
     do { child \<leftarrow> deref child;
          if length (Children child) < 2 then
            Some (Inl (ErrText (''ldap: malformed attribute: expected 2 children (type and vals), got ''
                                @ decimal (length (Children child)))))
          else
            do { ty \<leftarrow> deref (Children child ! 0);
                 case Value ty of
                   VString name \<Rightarrow>
                     do { vals \<leftarrow> deref (Children child ! 1);
                          r \<leftarrow> unpack_values ip name (Children vals);
                          Some (map_sum id (\<lambda>vs. \<lparr>ea_Name = name, ea_Values = map fst vs,
                                                  ea_ByteValues = map snd vs\<rparr>) r) }
                 | x \<Rightarrow> Some (Inl (ErrText (''ldap: malformed attribute: type is not a string: '' @ format_T x))) } }"

fun unpackAttributes :: "(rune \<Rightarrow> bool) \<Rightarrow> packet list \<Rightarrow> (go_error + EntryAttribute list) option" where
  "unpackAttributes ip [] = Some (Inr [])"
| "unpackAttributes ip (child # cs) =
     do { r \<leftarrow> unpack_attribute ip child;
          case r of
            Inl e \<Rightarrow> Some (Inl e)
          | Inr a \<Rightarrow> do { rest \<leftarrow> unpackAttributes ip cs; Some (map_sum id ((#) a) rest) } }"

section \<open>Unmarshal\<close>

text \<open>
  The structure a caller passes: its fields in order, each with its name, the value of its tag
  \<^verbatim>\<open>ldap\<close> if it has one, whether it is exported, and its current content by type.  \<^verbatim>\<open>FOther\<close> is a
  field of any other type, with the text of the type and whether it is of kind string.  A pointer
  to a string is the string it points to.  The library's parser of times is the argument \<^verbatim>\<open>pt\<close>.
\<close>

type_synonym time = string

datatype field_value =
    FString string
  | FStringPtr "string option"
  | FStrings "string list"
  | FBytes bytes
  | FInt int
  | FInt64 int
  | FTime time
  | FDN "DN option"
  | FDNs "DN option list"
  | FOther string (string_kind: "string option")

record StructField =
  sf_Name :: string
  sf_Tag :: "string option"
  sf_Exported :: bool
  sf_Value :: field_value

definition readTag :: "StructField \<Rightarrow> string \<times> bool" where
  "readTag f =
     (case sf_Tag f of
        None \<Rightarrow> (sf_Name f, False)
      | Some val \<Rightarrow>
          (let opts = split_at (CHR '','') val
           in (opts ! 0, if length opts = 2 then opts ! 1 = ''omitempty'' else False)))"

text \<open>\<^verbatim>\<open>SetString\<close> panics on a field that is not of kind string.\<close>

fun SetString :: "string \<Rightarrow> field_value \<Rightarrow> field_value option" where
  "SetString s (FString _) = Some (FString s)"
| "SetString s (FOther ty (Some _)) = Some (FOther ty (Some s))"
| "SetString s _ = None"

definition parse_failed :: "string \<Rightarrow> string \<Rightarrow> go_error" where
  "parse_failed value ty =
     ErrText (''ldap: could not parse value '' @ [CHR 0x27] @ value @ [CHR 0x27] @ '' into '' @ ty @ '' field'')"

text \<open>The DNs parsed before an error have been appended already.\<close>

fun append_DNs :: "ber \<Rightarrow> string list \<Rightarrow> DN option list \<Rightarrow> go_error option \<times> DN option list" where
  "append_DNs B [] ds = (None, ds)"
| "append_DNs B (item # items) ds =
     (case ParseDN B item of
        (_, Some _) \<Rightarrow> (Some (parse_failed item ''*ldap.DN''), ds)
      | (dn, None) \<Rightarrow> append_DNs B items (ds @ [dn]))"

definition set_field ::
  "ber \<Rightarrow> (bytes \<Rightarrow> go_error + time) \<Rightarrow> string list \<Rightarrow> field_value \<Rightarrow> go_error option \<times> field_value" where
  "set_field B pt values fv =
     (let v = values ! 0 in
      case fv of
        FStrings ss \<Rightarrow> (None, FStrings (ss @ values))
      | FString _ \<Rightarrow> (None, FString v)
      | FStringPtr _ \<Rightarrow> (None, FStringPtr (Some v))
      | FBytes _ \<Rightarrow> (None, FBytes v)
      | FInt _ \<Rightarrow> (case ParseInt v of Inl _ \<Rightarrow> (Some (parse_failed v ''int''), fv) | Inr i \<Rightarrow> (None, FInt i))
      | FInt64 _ \<Rightarrow> (case ParseInt v of Inl _ \<Rightarrow> (Some (parse_failed v ''int''), fv) | Inr i \<Rightarrow> (None, FInt64 i))
      | FTime _ \<Rightarrow> (case pt v of Inl _ \<Rightarrow> (Some (parse_failed v ''time.Time''), fv) | Inr t \<Rightarrow> (None, FTime t))
      | FDN _ \<Rightarrow> (case ParseDN B v of (_, Some _) \<Rightarrow> (Some (parse_failed v ''*ldap.DN''), fv) | (dn, None) \<Rightarrow> (None, FDN dn))
      | FDNs ds \<Rightarrow> (let (err, ds') = append_DNs B values ds in (err, FDNs ds'))
      | FOther ty _ \<Rightarrow>
          (Some (ErrText (''ldap: expected field to be of type string, *string, []string, int, int64, []byte, *DN, []*DN or time.Time, got '' @ ty)), fv))"

text \<open>The function \<^verbatim>\<open>Unmarshal\<close> passes to \<^verbatim>\<open>UnmarshalFunc\<close>: the error and the field after the call.\<close>

definition unmarshal_field ::
  "ber \<Rightarrow> (bytes \<Rightarrow> go_error + time) \<Rightarrow> Entry \<Rightarrow> StructField \<Rightarrow> (go_error option \<times> field_value) option" where
  "unmarshal_field B pt e ft =
     (let fieldTag = fst (readTag ft) in
      if fieldTag = ''dn'' then do { fv \<leftarrow> SetString (en_DN e) (sf_Value ft); Some (None, fv) }
      else
        (let values = GetAttributeValues e fieldTag in
         if length values = 0 then Some (None, sf_Value ft)
         else Some (set_field B pt values (sf_Value ft))))"

fun unmarshal_fields ::
  "(StructField \<Rightarrow> (go_error option \<times> field_value) option) \<Rightarrow> StructField list
   \<Rightarrow> (go_error option \<times> StructField list) option" where
  "unmarshal_fields fn [] = Some (None, [])"
| "unmarshal_fields fn (ft # fts) =
     (if \<not> sf_Exported ft then
        do { (err, rest) \<leftarrow> unmarshal_fields fn fts; Some (err, ft # rest) }
      else
        do { (err, fv) \<leftarrow> fn ft;
             case err of
               Some e \<Rightarrow> Some (Some e, ft\<lparr>sf_Value := fv\<rparr> # fts)
             | None \<Rightarrow>
                 do { (err, rest) \<leftarrow> unmarshal_fields fn fts; Some (err, ft\<lparr>sf_Value := fv\<rparr> # rest) } })"

text \<open>What the caller passes for \<^verbatim>\<open>i\<close>, with the text of its kind where it is not a pointer to a structure.\<close>

datatype unmarshal_target = NoPointer string | PointerToOther string | PointerToStruct "StructField list"

fun UnmarshalFunc ::
  "unmarshal_target \<Rightarrow> (StructField \<Rightarrow> (go_error option \<times> field_value) option)
   \<Rightarrow> (go_error option \<times> unmarshal_target) option" where
  "UnmarshalFunc (NoPointer kind) fn =
     Some (Some (ErrText (''ldap: cannot use '' @ kind @ '', expected pointer to a struct'')), NoPointer kind)"
| "UnmarshalFunc (PointerToOther kind) fn =
     Some (Some (ErrText (''ldap: expected pointer to a struct, got '' @ kind)), PointerToOther kind)"
| "UnmarshalFunc (PointerToStruct fts) fn =
     do { (err, fts') \<leftarrow> unmarshal_fields fn fts; Some (err, PointerToStruct fts') }"

definition Unmarshal ::
  "ber \<Rightarrow> (bytes \<Rightarrow> go_error + time) \<Rightarrow> Entry \<Rightarrow> unmarshal_target \<Rightarrow> (go_error option \<times> unmarshal_target) option" where
  "Unmarshal B pt e i = UnmarshalFunc i (unmarshal_field B pt e)"

end
