(* ===== verification/Entry_Properties.thy ===== *)
theory Entry_Properties
  imports LDAP_Entry Ber_Reference
begin

text \<open>
  Lookup in the entries of \<^verbatim>\<open>LDAP_Entry\<close>, and what \<^verbatim>\<open>Unmarshal\<close> does to the fields of a structure.
\<close>

section \<open>Lookup\<close>

lemma attribute_field_map:
  "attribute_field (\<lambda>x. x = a) f (map g names) = (if a \<in> set names then f (g a) else [])"
  if "\<And>x. ea_Name (g x) = x"
  by (induction names) (auto simp: that)

lemma attribute_field_cong:
  "(\<And>x. x \<in> set as \<Longrightarrow> matches (ea_Name x) = matches' (ea_Name x) \<and> f x = f' x) \<Longrightarrow>
   attribute_field matches f as = attribute_field matches' f' as"
  by (induction as) auto

lemma map_of_mset_eq:
  assumes "distinct (map fst xs)" "mset ys = mset xs"
  shows "map_of ys = map_of xs"
proof -
  have "mset (map fst ys) = mset (map fst xs)" using assms(2) by simp
  then have "distinct (map fst ys)" using assms(1) by (metis distinct_count_atmost_1 set_mset_mset)
  moreover have "set ys = set xs" using assms(2) by (rule mset_eq_setD)
  ultimately show ?thesis using assms(1) by (simp add: map_of_inject_set)
qed

text \<open>C31. An entry made by \<^verbatim>\<open>NewEntry\<close> has its attributes in ascending order of their names, whatever the order
  in which the map is walked through; every lookup by name gives the values the map has for it, as strings and as
  bytes, and nothing for a name it does not have.\<close>

theorem NewEntry_lookup:
  assumes "distinct (map fst attributes)"
  shows "GetAttributeValues (NewEntry dn attributes) a = (case map_of attributes a of Some vs \<Rightarrow> vs | None \<Rightarrow> [])
    \<and> GetRawAttributeValues (NewEntry dn attributes) a = GetAttributeValues (NewEntry dn attributes) a
    \<and> sorted (map ea_Name (en_Attributes (NewEntry dn attributes)))
    \<and> (\<forall>attributes'. mset attributes' = mset attributes \<longrightarrow> NewEntry dn attributes' = NewEntry dn attributes)"
proof (intro conjI allI impI)
  have mem: "a \<in> set (sort_strings (map fst attributes)) \<longleftrightarrow> map_of attributes a \<noteq> None"
    by (simp add: sort_strings_def map_of_eq_None_iff)
  show v: "GetAttributeValues (NewEntry dn attributes) a = (case map_of attributes a of Some vs \<Rightarrow> vs | None \<Rightarrow> [])"
    using mem by (auto simp: GetAttributeValues_def NewEntry_def Let_def attribute_field_map NewEntryAttribute_def
        split: option.splits)
  show "GetRawAttributeValues (NewEntry dn attributes) a = GetAttributeValues (NewEntry dn attributes) a"
    by (simp add: GetRawAttributeValues_def GetAttributeValues_def NewEntry_def Let_def attribute_field_map
        NewEntryAttribute_def)
  show "sorted (map ea_Name (en_Attributes (NewEntry dn attributes)))"
    by (simp add: NewEntry_def Let_def NewEntryAttribute_def sort_strings_def comp_def)
  fix attributes' :: "(string \<times> string list) list"
  assume m: "mset attributes' = mset attributes"
  then have "sort_strings (map fst attributes') = sort_strings (map fst attributes)"
    unfolding sort_strings_def by (intro properties_for_sort) (simp_all add: m)
  with map_of_mset_eq [OF assms m] show "NewEntry dn attributes' = NewEntry dn attributes"
    by (simp add: NewEntry_def Let_def)
qed

theorem NewEntry_lookup_witness:
  "GetAttributeValues (NewEntry ''dc=x'' [(''sn'', [''u'']), (''cn'', [''a'', ''b''])]) ''cn'' = [''a'', ''b'']
   \<and> NewEntry ''dc=x'' [(''cn'', [''a'', ''b'']), (''sn'', [''u''])] = NewEntry ''dc=x'' [(''sn'', [''u'']), (''cn'', [''a'', ''b''])]"
proof -
  have d: "distinct (map fst [(''sn'', [''u'']), (''cn'', [''a'', ''b''])])" by simp
  have m: "mset [(''cn'', [''a'', ''b'']), (''sn'', [''u''])] = mset [(''sn'', [''u'']), (''cn'', [''a'', ''b''])]"
    by (simp add: add_mset_commute)
  note entry = NewEntry_lookup [OF d, of "''dc=x''" "''cn''"]
  from entry [THEN conjunct1] have "GetAttributeValues (NewEntry ''dc=x'' [(''sn'', [''u'']), (''cn'', [''a'', ''b''])]) ''cn''
      = [''a'', ''b'']" by (rule trans) simp
  then show ?thesis by (intro conjI entry [THEN conjunct2, THEN conjunct2, THEN conjunct2, rule_format, OF m])
qed

text \<open>
  The case-insensitive lookups of strings and of bytes pass their arguments to \<^verbatim>\<open>strings.EqualFold\<close> in
  opposite orders.  They find the same attribute all the same, and a name finds the same values in every
  spelling.
\<close>

theorem EqualFold_lookup:
  assumes "simple_folding sf same" "EqualFold sf a b"
  shows "GetEqualFoldAttributeValues sf e a = GetEqualFoldAttributeValues sf e b
    \<and> (list_all (\<lambda>x. ea_ByteValues x = ea_Values x) (en_Attributes e)
       \<longrightarrow> GetEqualFoldRawAttributeValues sf e a = GetEqualFoldAttributeValues sf e a)"
proof -
  note iff = simple_folding.EqualFold_iff [OF assms(1)]
  have "EqualFold sf a x = EqualFold sf b x" "EqualFold sf x a = EqualFold sf a x" for x
    using assms(2) by (auto simp: iff)
  then show ?thesis
    by (auto simp: GetEqualFoldAttributeValues_def GetEqualFoldRawAttributeValues_def list_all_iff
        intro!: attribute_field_cong)
qed

section \<open>Unmarshal\<close>

text \<open>The attribute a field is filled from, and its values in the entry.\<close>

definition attribute_name :: "StructField \<Rightarrow> string" where
  "attribute_name ft = (case sf_Tag ft of None \<Rightarrow> sf_Name ft | Some val \<Rightarrow> takeWhile (\<lambda>c. c \<noteq> CHR '','') val)"

definition values_named :: "Entry \<Rightarrow> string \<Rightarrow> string list" where
  "values_named e name =
     (case find (\<lambda>x. ea_Name x = name) (en_Attributes e) of None \<Rightarrow> [] | Some x \<Rightarrow> ea_Values x)"

text \<open>What a field of each type holds after the values of its attribute have been stored: a field with one value
  takes the first, a list takes all of them behind what it held.\<close>

inductive holds ::
  "ber \<Rightarrow> (bytes \<Rightarrow> go_error + time) \<Rightarrow> string list \<Rightarrow> field_value \<Rightarrow> field_value \<Rightarrow> bool" for B pt where
  no_values: "holds B pt [] fv fv"
| string_value: "holds B pt (v # vs) (FString s) (FString v)"
| pointer_value: "holds B pt (v # vs) (FStringPtr s) (FStringPtr (Some v))"
| strings: "holds B pt (v # vs) (FStrings ss) (FStrings (ss @ v # vs))"
| bytes_value: "holds B pt (v # vs) (FBytes s) (FBytes v)"
| int_value: "ParseInt v = Inr i \<Longrightarrow> holds B pt (v # vs) (FInt j) (FInt i)"
| int64_value: "ParseInt v = Inr i \<Longrightarrow> holds B pt (v # vs) (FInt64 j) (FInt64 i)"
| time_value: "pt v = Inr t \<Longrightarrow> holds B pt (v # vs) (FTime u) (FTime t)"
| dn_value: "ParseDN B v = (dn, None) \<Longrightarrow> holds B pt (v # vs) (FDN d) (FDN dn)"
| dn_values: "list_all2 (\<lambda>x dn. ParseDN B x = (dn, None)) (v # vs) dns \<Longrightarrow>
    holds B pt (v # vs) (FDNs ds) (FDNs (ds @ dns))"

text \<open>The values a field cannot hold, the error, and what the field holds then: a list of DNs keeps those before
  the one that does not parse.\<close>

definition unsupported_type :: "string \<Rightarrow> go_error" where
  "unsupported_type ty = ErrText (''ldap: expected field to be of type string, *string, []string, int, int64, []byte, *DN, []*DN or time.Time, got '' @ ty)"

inductive refused ::
  "ber \<Rightarrow> (bytes \<Rightarrow> go_error + time) \<Rightarrow> string list \<Rightarrow> field_value \<Rightarrow> go_error \<Rightarrow> field_value \<Rightarrow> bool" for B pt where
  no_int: "ParseInt v = Inl x \<Longrightarrow> refused B pt (v # vs) (FInt j) (parse_failed v ''int'') (FInt j)"
| no_int64: "ParseInt v = Inl x \<Longrightarrow> refused B pt (v # vs) (FInt64 j) (parse_failed v ''int'') (FInt64 j)"
| no_time: "pt v = Inl x \<Longrightarrow> refused B pt (v # vs) (FTime t) (parse_failed v ''time.Time'') (FTime t)"
| no_dn: "ParseDN B v = (dn, Some x) \<Longrightarrow> refused B pt (v # vs) (FDN d) (parse_failed v ''*ldap.DN'') (FDN d)"
| no_dns: "list_all2 (\<lambda>x dn. ParseDN B x = (dn, None)) as dns \<Longrightarrow> ParseDN B v = (dn, Some x) \<Longrightarrow>
    refused B pt (as @ v # bs) (FDNs ds) (parse_failed v ''*ldap.DN'') (FDNs (ds @ dns))"
| no_type: "refused B pt (v # vs) (FOther ty k) (unsupported_type ty) (FOther ty k)"

inductive_simps holds_simps:
  "holds B pt [] fv fv'" "holds B pt (v # vs) (FString s) fv" "holds B pt (v # vs) (FStringPtr p) fv"
  "holds B pt (v # vs) (FStrings ss) fv" "holds B pt (v # vs) (FBytes b) fv" "holds B pt (v # vs) (FInt i) fv"
  "holds B pt (v # vs) (FInt64 i) fv" "holds B pt (v # vs) (FTime t) fv" "holds B pt (v # vs) (FDN d) fv"
  "holds B pt (v # vs) (FDNs ds) fv" "holds B pt (v # vs) (FOther ty k) fv"

inductive_simps refused_simps:
  "refused B pt [] fv err fv'" "refused B pt (v # vs) (FString s) err fv" "refused B pt (v # vs) (FStringPtr p) err fv"
  "refused B pt (v # vs) (FStrings ss) err fv" "refused B pt (v # vs) (FBytes b) err fv"
  "refused B pt (v # vs) (FInt i) err fv" "refused B pt (v # vs) (FInt64 i) err fv"
  "refused B pt (v # vs) (FTime t) err fv" "refused B pt (v # vs) (FDN d) err fv"
  "refused B pt vs (FDNs ds) err fv" "refused B pt (v # vs) (FOther ty k) err fv"

text \<open>A field tagged \<^verbatim>\<open>dn\<close> takes the DN of the entry, if it is of a string type.\<close>

fun string_field :: "string \<Rightarrow> field_value \<Rightarrow> field_value \<Rightarrow> bool" where
  "string_field s (FString _) fv \<longleftrightarrow> fv = FString s"
| "string_field s (FOther ty (Some _)) fv \<longleftrightarrow> fv = FOther ty (Some s)"
| "string_field s _ fv \<longleftrightarrow> False"

definition takes :: "ber \<Rightarrow> (bytes \<Rightarrow> go_error + time) \<Rightarrow> Entry \<Rightarrow> StructField \<Rightarrow> StructField \<Rightarrow> bool" where
  "takes B pt e ft ft' \<longleftrightarrow>
     (if \<not> sf_Exported ft then ft' = ft
      else (\<exists>fv. ft' = ft\<lparr>sf_Value := fv\<rparr>
        \<and> (if attribute_name ft = ''dn'' then string_field (en_DN e) (sf_Value ft) fv
           else holds B pt (values_named e (attribute_name ft)) (sf_Value ft) fv)))"

definition refuses ::
  "ber \<Rightarrow> (bytes \<Rightarrow> go_error + time) \<Rightarrow> Entry \<Rightarrow> StructField \<Rightarrow> go_error \<Rightarrow> StructField \<Rightarrow> bool" where
  "refuses B pt e ft err ft' \<longleftrightarrow> sf_Exported ft \<and> attribute_name ft \<noteq> ''dn''
     \<and> (\<exists>fv. ft' = ft\<lparr>sf_Value := fv\<rparr> \<and> refused B pt (values_named e (attribute_name ft)) (sf_Value ft) err fv)"

definition misfit :: "StructField \<Rightarrow> bool" where
  "misfit ft \<longleftrightarrow> sf_Exported ft \<and> attribute_name ft = ''dn'' \<and> (\<forall>fv. \<not> string_field [] (sf_Value ft) fv)"

text \<open>The code of one field does exactly this.\<close>

lemma hd_split_at: "split_at c s ! 0 = takeWhile (\<lambda>x. x \<noteq> c) s"
proof (induction s)
  case (Cons x s)
  show ?case
  proof (cases "split_at c s")
    case (Cons y ys)
    with Cons.IH show ?thesis by auto
  qed simp
qed simp

lemma attribute_name_readTag: "fst (readTag ft) = attribute_name ft"
  by (simp add: readTag_def attribute_name_def Let_def hd_split_at split: option.splits)

lemma values_named_Get: "GetAttributeValues e a = values_named e a"
proof -
  have "attribute_field (\<lambda>name. name = a) ea_Values as
      = (case find (\<lambda>x. ea_Name x = a) as of None \<Rightarrow> [] | Some x \<Rightarrow> ea_Values x)" for as
    by (induction as) auto
  then show ?thesis by (simp add: GetAttributeValues_def values_named_def)
qed

lemma append_DNs_all:
  "append_DNs B vs ds = (None, r) \<longleftrightarrow> (\<exists>dns. r = ds @ dns \<and> list_all2 (\<lambda>x dn. ParseDN B x = (dn, None)) vs dns)"
proof (induction vs arbitrary: ds)
  case (Cons v vs)
  obtain dn x where p: "ParseDN B v = (dn, x)" by (cases "ParseDN B v")
  from Cons p show ?case by (cases x) (auto simp: list_all2_Cons1)
qed auto

lemma append_DNs_stops:
  "append_DNs B vs ds = (Some err, r) \<longleftrightarrow>
   (\<exists>as v bs dns dn x. vs = as @ v # bs \<and> list_all2 (\<lambda>x dn. ParseDN B x = (dn, None)) as dns
      \<and> ParseDN B v = (dn, Some x) \<and> err = parse_failed v ''*ldap.DN'' \<and> r = ds @ dns)"
  (is "_ \<longleftrightarrow> ?stops vs ds")
proof (induction vs arbitrary: ds)
  case (Cons v vs)
  obtain dn x where p: "ParseDN B v = (dn, x)" by (cases "ParseDN B v")
  have split: "?stops (v # vs) ds \<longleftrightarrow> (\<exists>y. x = Some y) \<and> err = parse_failed v ''*ldap.DN'' \<and> r = ds
      \<or> x = None \<and> ?stops vs (ds @ [dn])"
    (is "_ \<longleftrightarrow> ?now \<or> ?later")
  proof
    assume "?stops (v # vs) ds"
    then obtain as w bs dns dn' y where w: "v # vs = as @ w # bs"
      "list_all2 (\<lambda>x dn. ParseDN B x = (dn, None)) as dns" "ParseDN B w = (dn', Some y)"
      "err = parse_failed w ''*ldap.DN''" "r = ds @ dns" by blast
    show "?now \<or> ?later"
    proof (cases as)
      case Nil
      with w p show ?thesis by auto
    next
      case (Cons a as')
      with w p obtain dns' where "x = None" "dns = dn # dns'" "vs = as' @ w # bs"
        "list_all2 (\<lambda>x dn. ParseDN B x = (dn, None)) as' dns'" by (auto simp: list_all2_Cons1)
      with w(3-5) show ?thesis by auto
    qed
  next
    assume "?now \<or> ?later"
    then show "?stops (v # vs) ds"
    proof
      assume ?now
      then have "v # vs = [] @ v # vs \<and> list_all2 (\<lambda>x dn. ParseDN B x = (dn, None)) [] ([] :: DN option list)
          \<and> r = ds @ []" by simp
      with p \<open>?now\<close> show ?thesis by blast
    next
      assume ?later
      then obtain as w bs dns dn' y where w: "x = None" "vs = as @ w # bs"
        "list_all2 (\<lambda>x dn. ParseDN B x = (dn, None)) as dns" "ParseDN B w = (dn', Some y)"
        "err = parse_failed w ''*ldap.DN''" "r = (ds @ [dn]) @ dns" by blast
      with p show ?thesis by (intro exI [of _ "v # as"] exI [of _ w] exI [of _ bs] exI [of _ "dn # dns"]) auto
    qed
  qed
  show ?case
  proof (cases x)
    case None
    with Cons.IH [of "ds @ [dn]"] split p show ?thesis by simp
  next
    case (Some y)
    with split p show ?thesis by auto
  qed
qed auto

lemma set_field_DNs:
  "set_field B pt vs (FDNs ds) = (x, fv) \<longleftrightarrow> (\<exists>r. append_DNs B vs ds = (x, r) \<and> fv = FDNs r)"
  by (auto simp: set_field_def simp del: append_DNs.simps split: prod.splits)

lemma set_field_holds:
  assumes "vs \<noteq> []"
  shows "set_field B pt vs fv = (None, fv') \<longleftrightarrow> holds B pt vs fv fv'"
    and "set_field B pt vs fv = (Some err, fv') \<longleftrightarrow> refused B pt vs fv err fv'"
proof -
  obtain v vs' where vs: "vs = v # vs'" using assms by (cases vs) auto
  show "set_field B pt vs fv = (None, fv') \<longleftrightarrow> holds B pt vs fv fv'"
  proof (cases fv)
    case (FDNs ds)
    show ?thesis unfolding FDNs vs set_field_DNs append_DNs_all holds_simps by blast
  qed (auto simp: vs set_field_def holds_simps split: sum.splits prod.splits option.splits)
  show "set_field B pt vs fv = (Some err, fv') \<longleftrightarrow> refused B pt vs fv err fv'"
  proof (cases fv)
    case (FDNs ds)
    show ?thesis unfolding FDNs set_field_DNs append_DNs_stops refused_simps by blast
  qed (auto simp: vs set_field_def refused_simps unsupported_type_def split: sum.splits prod.splits option.splits)
qed

lemma SetString_string_field: "SetString s fv = Some fv' \<longleftrightarrow> string_field s fv fv'"
  by (cases "(s, fv, fv')" rule: string_field.cases) auto

lemma SetString_None: "SetString s fv = None \<longleftrightarrow> (\<forall>fv'. \<not> string_field [] fv fv')"
  by (cases "(s, fv)" rule: SetString.cases) auto

lemma unmarshal_field_spec:
  assumes "sf_Exported ft"
  shows "unmarshal_field B pt e ft = Some (None, fv) \<longleftrightarrow> takes B pt e ft (ft\<lparr>sf_Value := fv\<rparr>)"
    and "unmarshal_field B pt e ft = Some (Some err, fv) \<longleftrightarrow> refuses B pt e ft err (ft\<lparr>sf_Value := fv\<rparr>)"
    and "unmarshal_field B pt e ft = None \<longleftrightarrow> misfit ft"
proof -
  let ?vs = "values_named e (attribute_name ft)"
  have u: "unmarshal_field B pt e ft =
      (if attribute_name ft = ''dn'' then map_option (Pair None) (SetString (en_DN e) (sf_Value ft))
       else if ?vs = [] then Some (None, sf_Value ft) else Some (set_field B pt ?vs (sf_Value ft)))"
    by (simp add: unmarshal_field_def attribute_name_readTag values_named_Get Let_def map_option_case
        split: option.splits)
  have inj: "ft\<lparr>sf_Value := a\<rparr> = ft\<lparr>sf_Value := b\<rparr> \<longleftrightarrow> a = b" for a b by (cases ft) simp
  show "unmarshal_field B pt e ft = Some (None, fv) \<longleftrightarrow> takes B pt e ft (ft\<lparr>sf_Value := fv\<rparr>)"
    unfolding u using assms set_field_holds(1) [of ?vs B pt "sf_Value ft" fv]
    by (auto simp: takes_def inj SetString_string_field holds_simps)
  show "unmarshal_field B pt e ft = Some (Some err, fv) \<longleftrightarrow> refuses B pt e ft err (ft\<lparr>sf_Value := fv\<rparr>)"
    unfolding u using assms set_field_holds(2) [of ?vs B pt "sf_Value ft" err fv]
    by (cases "?vs = []") (auto simp: refuses_def inj refused.simps)
  show "unmarshal_field B pt e ft = None \<longleftrightarrow> misfit ft"
    unfolding u using assms by (auto simp: misfit_def SetString_None)
qed

text \<open>Every field is taken, refused or a misfit, and only one of these.\<close>

lemma field_outcomes:
  "takes B pt e ft ft1 \<Longrightarrow> takes B pt e ft ft2 \<Longrightarrow> ft1 = ft2"
  "takes B pt e ft ft1 \<Longrightarrow> \<not> refuses B pt e ft err ft2"
  "takes B pt e ft ft1 \<Longrightarrow> \<not> misfit ft"
  "refuses B pt e ft err ft1 \<Longrightarrow> \<not> misfit ft"
proof -
  have takesE: "\<exists>fv. ft1 = ft\<lparr>sf_Value := fv\<rparr> \<and> unmarshal_field B pt e ft = Some (None, fv)"
    if "takes B pt e ft ft1" "sf_Exported ft" for ft1
    using that unmarshal_field_spec(1) [OF that(2)] by (metis (full_types) takes_def)
  have refusesE: "\<exists>fv. unmarshal_field B pt e ft = Some (Some err, fv)" if "refuses B pt e ft err ft1" for ft1
    using that unmarshal_field_spec(2) [of ft B pt e err] by (auto simp: refuses_def)
  show "takes B pt e ft ft1 \<Longrightarrow> takes B pt e ft ft2 \<Longrightarrow> ft1 = ft2"
    using takesE [of ft1] takesE [of ft2] by (cases "sf_Exported ft") (auto simp: takes_def)
  show "\<not> refuses B pt e ft err ft2" if "takes B pt e ft ft1"
  proof
    assume r: "refuses B pt e ft err ft2"
    then have "sf_Exported ft" by (simp add: refuses_def)
    from takesE [OF that this] refusesE [OF r] show False by auto
  qed
  show "takes B pt e ft ft1 \<Longrightarrow> \<not> misfit ft"
    using takesE [of ft1] unmarshal_field_spec(3) [of ft B pt e] by (auto simp: misfit_def)
  show "refuses B pt e ft err ft1 \<Longrightarrow> \<not> misfit ft" by (auto simp: refuses_def misfit_def)
qed






end
