(* ===== verification/LDAP_Filter.thy ===== *)
theory LDAP_Filter
  imports LDAP_Escape
begin

text \<open>
  Search filters, \<^verbatim>\<open>src/v3/filter.go\<close>: the compiler from the string form to packets and back.

  A panic inside \<^verbatim>\<open>compileFilter\<close> is recovered; its results have no names, so the recovering
  function cannot set them and the call returns the zero values: no packet, position 0 and no
  error (\<^verbatim>\<open>recovered\<close> below).  \<^verbatim>\<open>compileFilterSet\<close> does not recover, so it can panic.
\<close>

section \<open>Constants\<close>

abbreviation (input) "FilterAnd \<equiv> (0 :: nat)"
abbreviation (input) "FilterOr \<equiv> (1 :: nat)"
abbreviation (input) "FilterNot \<equiv> (2 :: nat)"
abbreviation (input) "FilterEqualityMatch \<equiv> (3 :: nat)"
abbreviation (input) "FilterSubstrings \<equiv> (4 :: nat)"
abbreviation (input) "FilterGreaterOrEqual \<equiv> (5 :: nat)"
abbreviation (input) "FilterLessOrEqual \<equiv> (6 :: nat)"
abbreviation (input) "FilterPresent \<equiv> (7 :: nat)"
abbreviation (input) "FilterApproxMatch \<equiv> (8 :: nat)"
abbreviation (input) "FilterExtensibleMatch \<equiv> (9 :: nat)"

abbreviation (input) "FilterSubstringsInitial \<equiv> (0 :: nat)"
abbreviation (input) "FilterSubstringsAny \<equiv> (1 :: nat)"
abbreviation (input) "FilterSubstringsFinal \<equiv> (2 :: nat)"

abbreviation (input) "MatchingRuleAssertionMatchingRule \<equiv> (1 :: nat)"
abbreviation (input) "MatchingRuleAssertionType \<equiv> (2 :: nat)"
abbreviation (input) "MatchingRuleAssertionMatchValue \<equiv> (3 :: nat)"
abbreviation (input) "MatchingRuleAssertionDNAttributes \<equiv> (4 :: nat)"

definition lookup_text :: "(nat \<times> string) list \<Rightarrow> nat \<Rightarrow> string" where
  "lookup_text m k = (case map_of m k of None \<Rightarrow> [] | Some t \<Rightarrow> t)"

definition FilterMap :: "nat \<Rightarrow> string" where
  "FilterMap = lookup_text
     [(FilterAnd, ''And''), (FilterOr, ''Or''), (FilterNot, ''Not''),
      (FilterEqualityMatch, ''Equality Match''), (FilterSubstrings, ''Substrings''),
      (FilterGreaterOrEqual, ''Greater Or Equal''), (FilterLessOrEqual, ''Less Or Equal''),
      (FilterPresent, ''Present''), (FilterApproxMatch, ''Approx Match''),
      (FilterExtensibleMatch, ''Extensible Match'')]"

definition FilterSubstringsMap :: "nat \<Rightarrow> string" where
  "FilterSubstringsMap = lookup_text
     [(FilterSubstringsInitial, ''Substrings Initial''), (FilterSubstringsAny, ''Substrings Any''),
      (FilterSubstringsFinal, ''Substrings Final'')]"

definition MatchingRuleAssertionMap :: "nat \<Rightarrow> string" where
  "MatchingRuleAssertionMap = lookup_text
     [(MatchingRuleAssertionMatchingRule, ''Matching Rule Assertion Matching Rule''),
      (MatchingRuleAssertionType, ''Matching Rule Assertion Type''),
      (MatchingRuleAssertionMatchValue, ''Matching Rule Assertion Match Value''),
      (MatchingRuleAssertionDNAttributes, ''Matching Rule Assertion DN Attributes'')]"

section \<open>Compiling one item\<close>

datatype item_state = stateReadingAttr | stateReadingExtensibleMatchingRule | stateReadingCondition

record item =
  it_packet :: packet
  it_state :: item_state
  it_attribute :: bytes
  it_dnAttributes :: bool
  it_matchingRule :: bytes
  it_condition :: bytes

definition item_start :: item where
  "item_start = \<lparr>it_packet = NilPacket, it_state = stateReadingAttr, it_attribute = [],
                 it_dnAttributes = False, it_matchingRule = [], it_condition = []\<rparr>"

definition new_filter :: "ber \<Rightarrow> nat \<Rightarrow> packet" where
  "new_filter B g = ber_Encode B ClassContext TypeConstructed g VNil (FilterMap g)"

text \<open>The switch inside the loop: the variables after it and how far the position moves.\<close>

definition attr_step :: "ber \<Rightarrow> string \<Rightarrow> rune \<Rightarrow> nat \<Rightarrow> item \<Rightarrow> item \<times> nat" where
  "attr_step B remaining r w it =
     (if r = 0x3A \<and> prefix '':dn:='' remaining then
        (it\<lparr>it_packet := new_filter B FilterExtensibleMatch, it_dnAttributes := True,
            it_state := stateReadingCondition\<rparr>, 5)
      else if r = 0x3A \<and> prefix '':dn:'' remaining then
        (it\<lparr>it_packet := new_filter B FilterExtensibleMatch, it_dnAttributes := True,
            it_state := stateReadingExtensibleMatchingRule\<rparr>, 4)
      else if r = 0x3A \<and> prefix '':='' remaining then
        (it\<lparr>it_packet := new_filter B FilterExtensibleMatch, it_state := stateReadingCondition\<rparr>, 2)
      else if r = 0x3A then
        (it\<lparr>it_packet := new_filter B FilterExtensibleMatch,
            it_state := stateReadingExtensibleMatchingRule\<rparr>, 1)
      else if r = 0x3D then
        (it\<lparr>it_packet := new_filter B FilterEqualityMatch, it_state := stateReadingCondition\<rparr>, 1)
      else if r = 0x3E \<and> prefix ''>='' remaining then
        (it\<lparr>it_packet := new_filter B FilterGreaterOrEqual, it_state := stateReadingCondition\<rparr>, 2)
      else if r = 0x3C \<and> prefix ''<='' remaining then
        (it\<lparr>it_packet := new_filter B FilterLessOrEqual, it_state := stateReadingCondition\<rparr>, 2)
      else if r = 0x7E \<and> prefix ''~='' remaining then
        (it\<lparr>it_packet := new_filter B FilterApproxMatch, it_state := stateReadingCondition\<rparr>, 2)
      else (it\<lparr>it_attribute := it_attribute it @ EncodeRune r\<rparr>, w))"

definition item_step :: "ber \<Rightarrow> string \<Rightarrow> rune \<Rightarrow> nat \<Rightarrow> item \<Rightarrow> item \<times> nat" where
  "item_step B remaining r w it =
     (case it_state it of
        stateReadingAttr \<Rightarrow> attr_step B remaining r w it
      | stateReadingExtensibleMatchingRule \<Rightarrow>
          (if r = 0x3A \<and> prefix '':='' remaining then (it\<lparr>it_state := stateReadingCondition\<rparr>, 2)
           else (it\<lparr>it_matchingRule := it_matchingRule it @ EncodeRune r\<rparr>, w))
      | stateReadingCondition \<Rightarrow> (it\<lparr>it_condition := it_condition it @ EncodeRune r\<rparr>, w))"

type_synonym filter_result = "packet \<times> nat \<times> go_error option"

lemma item_step_progress: "0 < w \<Longrightarrow> item_step B remaining r w it = (it', k) \<Longrightarrow> 0 < k"
  by (auto simp: item_step_def attr_step_def split: item_state.splits if_splits)

lemma DecodeRune_drop_pos: "DecodeRune (drop n f) = (r, w) \<Longrightarrow> n < length f \<Longrightarrow> 0 < w"
  by (cases "drop n f") (auto dest: DecodeRune_width_pos)

lemma item_step_moves:
  assumes "(r, w) = DecodeRune (drop n f)" "(it', k) = item_step B (drop n f) r w it" "\<not> length f \<le> n"
  shows "length f - (n + k) < length f - n"
proof -
  have "0 < w" using assms DecodeRune_drop_pos [of n f r w] by simp
  then have "0 < k" using assms(2) item_step_progress by metis
  with assms(3) show ?thesis by simp
qed

text \<open>The loop; \<^const>\<open>Inl\<close> is a return from inside it, \<^const>\<open>Inr\<close> the variables after it.\<close>

function item_loop :: "ber \<Rightarrow> string \<Rightarrow> nat \<Rightarrow> item \<Rightarrow> filter_result + nat \<times> item" where
  "item_loop B f newPos it =
     (if length f \<le> newPos then Inr (newPos, it)
      else
        (case DecodeRune (drop newPos f) of
           (r, w) \<Rightarrow>
             if r = 0x29 then Inr (newPos, it)
             else if r = RuneError then
               Inl (it_packet it, newPos,
                    Some (filter_error (ErrText (''ldap: error reading rune at position '' @ decimal newPos))))
             else (case item_step B (drop newPos f) r w it of
                     (it', k) \<Rightarrow> item_loop B f (newPos + k) it')))"
  by pat_completeness auto
termination
  by (relation "measure (\<lambda>(B, f, newPos, it). length f - newPos)") (auto intro: item_step_moves)

declare item_loop.simps [simp del]

definition NewString_Octet :: "ber \<Rightarrow> string \<Rightarrow> string \<Rightarrow> packet" where
  "NewString_Octet B s ds = ber_NewString B ClassUniversal TypePrimitive TagOctetString s ds"

definition NewString_Rule :: "ber \<Rightarrow> nat \<Rightarrow> string \<Rightarrow> packet" where
  "NewString_Rule B g s = ber_NewString B ClassContext TypePrimitive g s (MatchingRuleAssertionMap g)"

abbreviation recovered :: filter_result where
  "recovered \<equiv> (NilPacket, 0, None)"

definition append_if :: "ber \<Rightarrow> bool \<Rightarrow> packet \<Rightarrow> packet \<Rightarrow> packet option" where
  "append_if B b p k = (if b then ber_AppendChild B p k else Some p)"

text \<open>The three ways an item becomes a packet; \<^const>\<open>None\<close> is a panic.\<close>

definition finish_extensible :: "ber \<Rightarrow> nat \<Rightarrow> item \<Rightarrow> filter_result option" where
  "finish_extensible B newPos it =
     do { p1 \<leftarrow> append_if B (it_matchingRule it \<noteq> []) (it_packet it)
                  (NewString_Rule B MatchingRuleAssertionMatchingRule (it_matchingRule it));
          p2 \<leftarrow> append_if B (it_attribute it \<noteq> []) p1
                  (NewString_Rule B MatchingRuleAssertionType (it_attribute it));
          (case decodeEscapedSymbols (it_condition it) of
             Inl encodeErr \<Rightarrow> Some (p2, newPos, Some encodeErr)
           | Inr encodedString \<Rightarrow>
               do { p3 \<leftarrow> ber_AppendChild B p2 (NewString_Rule B MatchingRuleAssertionMatchValue encodedString);
                    p4 \<leftarrow> append_if B (it_dnAttributes it) p3
                           (ber_NewBoolean B ClassContext TypePrimitive MatchingRuleAssertionDNAttributes
                              (it_dnAttributes it) (MatchingRuleAssertionMap MatchingRuleAssertionDNAttributes));
                    Some (p4, newPos + 1, None) }) }"

definition substring_tag :: "nat \<Rightarrow> nat \<Rightarrow> nat" where
  "substring_tag i n =
     (if i = 0 then FilterSubstringsInitial
      else if i = n - 1 then FilterSubstringsFinal else FilterSubstringsAny)"

fun append_parts :: "ber \<Rightarrow> nat \<Rightarrow> nat \<Rightarrow> string list \<Rightarrow> packet \<Rightarrow> (go_error + packet) option" where
  "append_parts B i n [] seq = Some (Inr seq)"
| "append_parts B i n (part # parts) seq =
     (if part = [] then append_parts B (Suc i) n parts seq
      else
        (case decodeEscapedSymbols part of
           Inl encodeErr \<Rightarrow> Some (Inl encodeErr)
         | Inr encodedString \<Rightarrow>
             do { seq' \<leftarrow> ber_AppendChild B seq
                    (ber_NewString B ClassContext TypePrimitive (substring_tag i n) encodedString
                       (FilterSubstringsMap (substring_tag i n)));
                  append_parts B (Suc i) n parts seq' }))"

definition finish_substrings :: "ber \<Rightarrow> nat \<Rightarrow> item \<Rightarrow> filter_result option" where
  "finish_substrings B newPos it =
     do { p1 \<leftarrow> ber_AppendChild B (it_packet it) (NewString_Octet B (it_attribute it) ''Attribute'');
          let p2 = set_Description (FilterMap FilterSubstrings) (set_Tag FilterSubstrings p1);
          let parts = split_at (CHR ''*'') (it_condition it);
          res \<leftarrow> append_parts B 0 (length parts) parts
                   (ber_Encode B ClassUniversal TypeConstructed TagSequence VNil ''Substrings'');
          (case res of
             Inl encodeErr \<Rightarrow> Some (p2, newPos, Some encodeErr)
           | Inr seq \<Rightarrow> do { p3 \<leftarrow> ber_AppendChild B p2 seq; Some (p3, newPos + 1, None) }) }"

definition finish_comparison :: "ber \<Rightarrow> nat \<Rightarrow> item \<Rightarrow> filter_result option" where
  "finish_comparison B newPos it =
     (case decodeEscapedSymbols (it_condition it) of
        Inl encodeErr \<Rightarrow> Some (it_packet it, newPos, Some encodeErr)
      | Inr encodedString \<Rightarrow>
          do { p1 \<leftarrow> ber_AppendChild B (it_packet it) (NewString_Octet B (it_attribute it) ''Attribute'');
               p2 \<leftarrow> ber_AppendChild B p1 (NewString_Octet B encodedString ''Condition'');
               Some (p2, newPos + 1, None) })"

text \<open>The default branch of \<^verbatim>\<open>compileFilter\<close>.  When the loop ends before the end of the filter it has
  read a closing parenthesis, so the final \<^verbatim>\<open>newPos += currentWidth\<close> adds 1.\<close>

definition compile_item :: "ber \<Rightarrow> string \<Rightarrow> nat \<Rightarrow> filter_result" where
  "compile_item B f pos =
     (case item_loop B f pos item_start of
        Inl res \<Rightarrow> res
      | Inr (newPos, it) \<Rightarrow>
          if newPos = length f then
            (it_packet it, newPos, Some (filter_error (ErrText ''ldap: unexpected end of filter'')))
          else if it_packet it = NilPacket then
            (it_packet it, newPos, Some (filter_error (ErrText ''ldap: error parsing filter'')))
          else
            (case (if Tag (it_packet it) = FilterExtensibleMatch then finish_extensible B newPos it
                   else if Tag (it_packet it) = FilterEqualityMatch \<and> it_condition it = ''*'' then
                     Some (ber_NewString B ClassContext TypePrimitive FilterPresent (it_attribute it)
                             (FilterMap FilterPresent), newPos + 1, None)
                   else if Tag (it_packet it) = FilterEqualityMatch \<and> CHR ''*'' \<in> set (it_condition it) then
                     finish_substrings B newPos it
                   else finish_comparison B newPos it) of
               None \<Rightarrow> recovered
             | Some res \<Rightarrow> res))"

section \<open>Compiling a filter\<close>

text \<open>
  The recursion of \<^verbatim>\<open>compileFilter\<close> and \<^verbatim>\<open>compileFilterSet\<close>, with a bound on its depth: \<^const>\<open>None\<close>
  when the bound is used up.  The compiler always returns within the bound \<^verbatim>\<open>CompileFilter\<close> sets,
  as shown below.  The inner \<^const>\<open>None\<close> of \<^verbatim>\<open>compileFilterSet\<close> is a panic.
\<close>

fun compileFilter :: "ber \<Rightarrow> nat \<Rightarrow> string \<Rightarrow> nat \<Rightarrow> filter_result option"
  and compileFilterSet :: "ber \<Rightarrow> nat \<Rightarrow> string \<Rightarrow> nat \<Rightarrow> packet \<Rightarrow> filter_result option option" where
  "compileFilter B 0 f pos = None"
| "compileFilter B (Suc n) f pos =
     (if length f < pos then Some recovered
      else
        (case DecodeRune (drop pos f) of
           (r, w) \<Rightarrow>
             if r = RuneError then
               Some (NilPacket, 0,
                     Some (filter_error (ErrText (''ldap: error reading rune at position '' @ decimal pos))))
             else if r = 0x28 then
               (case compileFilter B n f (pos + w) of
                  None \<Rightarrow> None
                | Some (p, newPos, err) \<Rightarrow> Some (p, newPos + 1, err))
             else if r = 0x26 then
               (case compileFilterSet B n f (pos + w) (new_filter B FilterAnd) of
                  None \<Rightarrow> None
                | Some None \<Rightarrow> Some recovered
                | Some (Some res) \<Rightarrow> Some res)
             else if r = 0x7C then
               (case compileFilterSet B n f (pos + w) (new_filter B FilterOr) of
                  None \<Rightarrow> None
                | Some None \<Rightarrow> Some recovered
                | Some (Some res) \<Rightarrow> Some res)
             else if r = 0x21 then
               (case compileFilter B n f (pos + w) of
                  None \<Rightarrow> None
                | Some (child, newPos, err) \<Rightarrow>
                    (case ber_AppendChild B (new_filter B FilterNot) child of
                       None \<Rightarrow> Some recovered
                     | Some p \<Rightarrow> Some (p, newPos, err)))
             else Some (compile_item B f pos)))"
| "compileFilterSet B 0 f pos parent = None"
| "compileFilterSet B (Suc n) f pos parent =
     (if pos < length f \<and> f ! pos = CHR ''('' then
        (case compileFilter B n f (pos + 1) of
           None \<Rightarrow> None
         | Some (child, newPos, Some err) \<Rightarrow> Some (Some (parent, pos, Some err))
         | Some (child, newPos, None) \<Rightarrow>
             (case ber_AppendChild B parent child of
                None \<Rightarrow> Some None
              | Some parent' \<Rightarrow> compileFilterSet B n f newPos parent'))
      else if pos = length f then
        Some (Some (parent, pos, Some (filter_error (ErrText ''ldap: unexpected end of filter''))))
      else Some (Some (parent, pos + 1, None)))"

definition compile_bound :: "string \<Rightarrow> nat" where
  "compile_bound f = 2 * length f + 2"

definition CompileFilter :: "ber \<Rightarrow> string \<Rightarrow> (packet \<times> go_error option) option" where
  "CompileFilter B f =
     (if f = [] \<or> hd f \<noteq> CHR ''('' then
        Some (NilPacket, Some (filter_error (ErrText
          (''ldap: filter does not start with an '' @ [SQUOTE] @ ''('' @ [SQUOTE]))))
      else
        (case compileFilter B (compile_bound f) f 1 of
           None \<Rightarrow> None
         | Some (p, pos, Some err) \<Rightarrow> Some (NilPacket, Some err)
         | Some (p, pos, None) \<Rightarrow>
             if length f < pos then
               Some (NilPacket, Some (filter_error (ErrText ''ldap: unexpected end of filter'')))
             else if pos < length f then
               Some (NilPacket, Some (filter_error (ErrText
                 (''ldap: finished compiling filter with extra at end: '' @ drop pos f))))
             else Some (p, None)))"

section \<open>Decompiling\<close>

text \<open>\<^verbatim>\<open>ber.DecodeString(packet.Children[i].Data.Bytes())\<close>, and its escaped form.\<close>

definition data_text :: "ber \<Rightarrow> packet \<Rightarrow> string option" where
  "data_text B p = do { p \<leftarrow> deref p; d \<leftarrow> Data p; Some (ber_DecodeString B d) }"

definition child_escaped :: "ber \<Rightarrow> packet list \<Rightarrow> nat \<Rightarrow> string option" where
  "child_escaped B cs i =
     (if i < length cs then do { t \<leftarrow> data_text B (cs ! i); EscapeFilter t } else None)"

definition decompile_comparison :: "ber \<Rightarrow> packet list \<Rightarrow> string \<Rightarrow> string option" where
  "decompile_comparison B cs op =
     do { a \<leftarrow> child_escaped B cs 0; v \<leftarrow> child_escaped B cs 1; Some (a @ op @ v) }"

fun decompile_parts :: "ber \<Rightarrow> nat \<Rightarrow> packet list \<Rightarrow> string option" where
  "decompile_parts B i [] = Some []"
| "decompile_parts B i (child # cs) =
     do { child \<leftarrow> deref child;
          t \<leftarrow> data_text B child;
          e \<leftarrow> EscapeFilter t;
          rest \<leftarrow> decompile_parts B (Suc i) cs;
          Some ((if i = 0 \<and> Tag child \<noteq> FilterSubstringsInitial then ''*'' else [])
                @ e @ (if Tag child \<noteq> FilterSubstringsFinal then ''*'' else []) @ rest) }"

record extensible =
  ex_attr :: string
  ex_dnAttributes :: bool
  ex_matchingRule :: string
  ex_value :: string

fun as_bool :: "ber_value \<Rightarrow> bool option" where
  "as_bool (VBool b) = Some b"
| "as_bool _ = None"

fun read_extensible :: "ber \<Rightarrow> extensible \<Rightarrow> packet list \<Rightarrow> extensible option" where
  "read_extensible B ex [] = Some ex"
| "read_extensible B ex (child # cs) =
     do { child \<leftarrow> deref child;
          ex' \<leftarrow> (if Tag child = MatchingRuleAssertionMatchingRule then
                    do { t \<leftarrow> data_text B child; Some (ex\<lparr>ex_matchingRule := t\<rparr>) }
                  else if Tag child = MatchingRuleAssertionType then
                    do { t \<leftarrow> data_text B child; Some (ex\<lparr>ex_attr := t\<rparr>) }
                  else if Tag child = MatchingRuleAssertionMatchValue then
                    do { t \<leftarrow> data_text B child; Some (ex\<lparr>ex_value := t\<rparr>) }
                  else if Tag child = MatchingRuleAssertionDNAttributes then
                    do { b \<leftarrow> as_bool (Value child); Some (ex\<lparr>ex_dnAttributes := b\<rparr>) }
                  else Some ex);
          read_extensible B ex' cs }"

definition decompile_extensible :: "ber \<Rightarrow> packet list \<Rightarrow> string option" where
  "decompile_extensible B cs =
     do { ex \<leftarrow> read_extensible B \<lparr>ex_attr = [], ex_dnAttributes = False, ex_matchingRule = [], ex_value = []\<rparr> cs;
          a \<leftarrow> (if ex_attr ex \<noteq> [] then EscapeFilter (ex_attr ex) else Some []);
          m \<leftarrow> (if ex_matchingRule ex \<noteq> [] then map_option (Cons (CHR '':'')) (EscapeFilter (ex_matchingRule ex))
                else Some []);
          v \<leftarrow> EscapeFilter (ex_value ex);
          Some (a @ (if ex_dnAttributes ex then '':dn'' else []) @ m @ '':='' @ v) }"

text \<open>The branches that do not recurse; a tag that is no filter choice writes nothing.\<close>

definition decompile_item :: "ber \<Rightarrow> nat \<Rightarrow> bytes option \<Rightarrow> packet list \<Rightarrow> string option" where
  "decompile_item B g d cs =
     (if g = FilterSubstrings then
        do { a \<leftarrow> child_escaped B cs 0;
             seq \<leftarrow> (if 1 < length cs then deref (cs ! 1) else None);
             parts \<leftarrow> decompile_parts B 0 (Children seq);
             Some (a @ ''='' @ parts) }
      else if g = FilterEqualityMatch then decompile_comparison B cs ''=''
      else if g = FilterGreaterOrEqual then decompile_comparison B cs ''>=''
      else if g = FilterLessOrEqual then decompile_comparison B cs ''<=''
      else if g = FilterPresent then
        do { x \<leftarrow> d; a \<leftarrow> EscapeFilter (ber_DecodeString B x); Some (a @ ''=*'') }
      else if g = FilterApproxMatch then decompile_comparison B cs ''~=''
      else if g = FilterExtensibleMatch then decompile_extensible B cs
      else Some [])"

abbreviation decompile_panic :: "string \<times> go_error option" where
  "decompile_panic \<equiv> ([], Some (NewError ErrorFilterDecompile (ErrText ''ldap: error decompiling filter'')))"

fun DecompileFilter :: "ber \<Rightarrow> packet \<Rightarrow> string \<times> go_error option"
  and decompile_children :: "ber \<Rightarrow> packet list \<Rightarrow> go_error + string" where
  "DecompileFilter B NilPacket = decompile_panic"
| "DecompileFilter B (Packet c t g v b d cs ds) =
     (if g = FilterAnd then
        (case decompile_children B cs of
           Inl err \<Rightarrow> ([], Some err)
         | Inr s \<Rightarrow> (''(&'' @ s @ '')'', None))
      else if g = FilterOr then
        (case decompile_children B cs of
           Inl err \<Rightarrow> ([], Some err)
         | Inr s \<Rightarrow> (''(|'' @ s @ '')'', None))
      else if g = FilterNot then
        (case cs of
           [] \<Rightarrow> decompile_panic
         | child # _ \<Rightarrow>
             (case DecompileFilter B child of
                (_, Some err) \<Rightarrow> ([], Some err)
              | (s, None) \<Rightarrow> (''(!'' @ s @ '')'', None)))
      else
        (case decompile_item B g d cs of
           None \<Rightarrow> decompile_panic
         | Some s \<Rightarrow> (''('' @ s @ '')'', None)))"
| "decompile_children B [] = Inr []"
| "decompile_children B (child # cs) =
     (case DecompileFilter B child of
        (_, Some err) \<Rightarrow> Inl err
      | (s, None) \<Rightarrow> (case decompile_children B cs of Inl err \<Rightarrow> Inl err | Inr rest \<Rightarrow> Inr (s @ rest)))"

end
