(* ===== verification/LDAP_Request.thy ===== *)
theory LDAP_Request
  imports LDAP_Control LDAP_Conn
begin

text \<open>
  The requests of \<^verbatim>\<open>src/v3\<close> and the operations of a connection that send one and read its response:
  \<^verbatim>\<open>request.go\<close>, \<^verbatim>\<open>add.go\<close>, \<^verbatim>\<open>del.go\<close>, \<^verbatim>\<open>modify.go\<close>, \<^verbatim>\<open>moddn.go\<close>, \<^verbatim>\<open>compare.go\<close>,
  \<^verbatim>\<open>extended.go\<close>, \<^verbatim>\<open>passwdmodify.go\<close>, \<^verbatim>\<open>whoami.go\<close> and \<^verbatim>\<open>unbind.go\<close>.

  An operation meets the rest of the connection through a few calls.  What they return to this client
  is the argument \<^verbatim>\<open>s\<close> of type \<^verbatim>\<open>session\<close>, and the calls the operation makes are its first
  result, in order.  \<^const>\<open>None\<close> is a panic; the debug output is off.
\<close>

section \<open>The connection as an operation sees it\<close>

text \<open>
  \<^verbatim>\<open>se_nil\<close>: the connection is nil or has no network connection; \<^verbatim>\<open>se_closing\<close>: \<^verbatim>\<open>IsClosing\<close>;
  \<^verbatim>\<open>se_id\<close>: what \<^verbatim>\<open>nextMessageID\<close> returns; \<^verbatim>\<open>se_send\<close>: the error of \<^verbatim>\<open>sendMessage\<close>, if any;
  \<^verbatim>\<open>se_responses\<close>: what arrives on the response channel before it is closed.
\<close>

record session =
  se_nil :: bool
  se_closing :: bool
  se_id :: int64
  se_send :: "packet \<Rightarrow> go_error option"
  se_responses :: "PacketResponse option list"

datatype call = SendMessage packet | ReceiveResponse | FinishMessage | CloseConn

text \<open>The method \<^verbatim>\<open>appendTo\<close> of a request: the error it returns and the envelope after the call.\<close>

type_synonym request = "packet \<Rightarrow> (go_error option \<times> packet) option"

type_synonym 'a outcome = "(call list \<times> 'a) option"

definition ErrNilConnection :: go_error where
  "ErrNilConnection = ErrText ''ldap: conn is nil, expected net.Conn''"

text \<open>\<^verbatim>\<open>doRequest\<close>; the result is nothing more than that there is a message context.\<close>

definition doRequest :: "ber \<Rightarrow> session \<Rightarrow> request \<Rightarrow> (go_error option) outcome" where
  "doRequest B s appendTo =
     (if se_nil s then Some ([], Some ErrNilConnection)
      else
        do { packet \<leftarrow> ber_AppendChild B
               (ber_Encode B ClassUniversal TypeConstructed TagSequence VNil ''LDAP Request'')
               (ber_NewInteger B ClassUniversal TypePrimitive TagInteger (VInt64 (sint (se_id s))) ''MessageID'');
             (err, packet) \<leftarrow> appendTo packet;
             case err of
               Some e \<Rightarrow> Some ([], Some e)
             | None \<Rightarrow> Some ([SendMessage packet], se_send s packet) })"

text \<open>\<^verbatim>\<open>readPacket\<close>; an empty list is the closed channel.\<close>

definition response_channel_closed :: go_error where
  "response_channel_closed = NewError ErrorNetwork (ErrText ''ldap: response channel closed'')"

definition readPacket :: "PacketResponse option list \<Rightarrow> go_error + packet" where
  "readPacket responses =
     (case responses of
        [] \<Rightarrow> Inl response_channel_closed
      | packetResponse # _ \<Rightarrow>
          (case ReadPacket packetResponse of
             (packet, Some err) \<Rightarrow> Inl err
           | (packet, None) \<Rightarrow>
               if packet = NilPacket then
                 Inl (NewError ErrorNetwork (ErrText ''ldap: could not retrieve message''))
               else Inr packet))"

text \<open>
  Most operations send a request, read one response and finish the message, whatever the response
  is; \<^verbatim>\<open>defer l.finishMessage(msgCtx)\<close> runs last.
\<close>

definition exchange :: "ber \<Rightarrow> session \<Rightarrow> request \<Rightarrow> (go_error + packet) outcome" where
  "exchange B s appendTo =
     do { (calls, err) \<leftarrow> doRequest B s appendTo;
          case err of
            Some e \<Rightarrow> Some (calls, Inl e)
          | None \<Rightarrow> Some (calls @ [ReceiveResponse, FinishMessage], readPacket (se_responses s)) }"

text \<open>The check of the response the simple operations share.\<close>

definition malformed_response :: "packet \<Rightarrow> go_error" where
  "malformed_response p =
     ErrText (''ldap: malformed response: expected at least 2 children, got '' @ decimal (length (Children p)))"

definition check_response :: "nat \<Rightarrow> packet \<Rightarrow> go_error option option" where
  "check_response application packet =
     (if length (Children packet) < 2 then Some (Some (malformed_response packet))
      else
        do { response \<leftarrow> deref (Children packet ! 1);
             if Tag response = application then GetLDAPError packet
             else Some (Some (ErrText (''ldap: unexpected response: '' @ decimal (Tag response)))) })"

definition simple_operation :: "ber \<Rightarrow> session \<Rightarrow> nat \<Rightarrow> request \<Rightarrow> (go_error option) outcome" where
  "simple_operation B s application appendTo =
     do { (calls, r) \<leftarrow> exchange B s appendTo;
          case r of
            Inl e \<Rightarrow> Some (calls, Some e)
          | Inr packet \<Rightarrow> do { e \<leftarrow> check_response application packet; Some (calls, e) } }"

text \<open>\<^verbatim>\<open>getReferral\<close>: the first child of the first fitting element that holds a string.\<close>

fun referral_in :: "packet list \<Rightarrow> string option" where
  "referral_in [] = Some []"
| "referral_in (child # cs) =
     do { child \<leftarrow> deref child;
          if (Tag child \<noteq> TagBitString \<and> Tag child \<noteq> TagPrintableString)
             \<or> TagType child \<noteq> TypeConstructed \<or> ClassType child \<noteq> ClassContext then referral_in cs
          else if Children child = [] then referral_in cs
          else
            do { uri \<leftarrow> deref (Children child ! 0);
                 case Value uri of VString referral \<Rightarrow> Some referral | _ \<Rightarrow> referral_in cs } }"

definition getReferral :: "go_error option \<Rightarrow> packet \<Rightarrow> string option" where
  "getReferral err packet =
     (if \<not> IsErrorWithCode err LDAPResultReferral then Some []
      else
        do { packet \<leftarrow> deref packet;
             if length (Children packet) < 2 then Some []
             else
               do { response \<leftarrow> deref (Children packet ! 1);
                    if Children response = [] \<or> TagType response \<noteq> TypeConstructed
                       \<or> ClassType response \<noteq> ClassApplication then Some []
                    else referral_in (Children response) } })"

section \<open>Building requests\<close>

text \<open>The element of a request that an operation's own structure fills, then the controls.\<close>

definition application :: "ber \<Rightarrow> nat \<Rightarrow> string \<Rightarrow> packet" where
  "application B code ds = ber_Encode B ClassApplication TypeConstructed code VNil ds"

definition octets :: "ber \<Rightarrow> string \<Rightarrow> string \<Rightarrow> packet" where
  "octets B s ds = ber_NewString B ClassUniversal TypePrimitive TagOctetString s ds"

definition append_request :: "ber \<Rightarrow> packet option \<Rightarrow> control list \<Rightarrow> request" where
  "append_request B pkt controls envelope =
     do { pkt \<leftarrow> pkt;
          envelope \<leftarrow> ber_AppendChild B envelope pkt;
          if controls \<noteq> [] then
            do { cs \<leftarrow> encodeControls B controls;
                 envelope \<leftarrow> ber_AppendChild B envelope cs;
                 Some (None, envelope) }
          else Some (None, envelope) }"

text \<open>Elements appended one after the other, each of which may panic when it is built.\<close>

fun sequence_packets :: "packet option list \<Rightarrow> packet list option" where
  "sequence_packets [] = Some []"
| "sequence_packets (p # ps) = do { k \<leftarrow> p; ks \<leftarrow> sequence_packets ps; Some (k # ks) }"

text \<open>\<^verbatim>\<open>Attribute.encode\<close> and \<^verbatim>\<open>PartialAttribute.encode\<close> differ in the description only.\<close>

record Attribute =
  at_Type :: string
  at_Vals :: "string list"

definition attribute_encode :: "ber \<Rightarrow> string \<Rightarrow> Attribute \<Rightarrow> packet option" where
  "attribute_encode B ds a =
     do { vals \<leftarrow> appendChildren B (ber_Encode B ClassUniversal TypeConstructed TagSet VNil ''AttributeValue'')
            (map (\<lambda>value. octets B value ''Vals'') (at_Vals a));
          appendChildren B (new_sequence B ds) [octets B (at_Type a) ''Type'', vals] }"

definition Attribute_encode :: "ber \<Rightarrow> Attribute \<Rightarrow> packet option" where
  "Attribute_encode B a = attribute_encode B ''Attribute'' a"

definition PartialAttribute_encode :: "ber \<Rightarrow> Attribute \<Rightarrow> packet option" where
  "PartialAttribute_encode B p = attribute_encode B ''PartialAttribute'' p"

record AddRequest =
  add_DN :: string
  add_Attributes :: "Attribute list"
  add_Controls :: "control list"

definition NewAddRequest :: "string \<Rightarrow> control list \<Rightarrow> AddRequest" where
  "NewAddRequest dn controls = \<lparr>add_DN = dn, add_Attributes = [], add_Controls = controls\<rparr>"

definition AddRequest_Attribute :: "string \<Rightarrow> string list \<Rightarrow> AddRequest \<Rightarrow> AddRequest" where
  "AddRequest_Attribute attrType attrVals req =
     req\<lparr>add_Attributes := add_Attributes req @ [\<lparr>at_Type = attrType, at_Vals = attrVals\<rparr>]\<rparr>"

definition AddRequest_appendTo :: "ber \<Rightarrow> AddRequest \<Rightarrow> request" where
  "AddRequest_appendTo B req =
     append_request B
       (do { ks \<leftarrow> sequence_packets (map (Attribute_encode B) (add_Attributes req));
             attributes \<leftarrow> appendChildren B (new_sequence B ''Attributes'') ks;
             appendChildren B (application B ApplicationAddRequest ''Add Request'')
               [octets B (add_DN req) ''DN'', attributes] })
       (add_Controls req)"

record DelRequest =
  del_DN :: string
  del_Controls :: "control list"

definition NewDelRequest :: "string \<Rightarrow> control list \<Rightarrow> DelRequest" where
  "NewDelRequest dn controls = \<lparr>del_DN = dn, del_Controls = controls\<rparr>"

definition DelRequest_appendTo :: "ber \<Rightarrow> DelRequest \<Rightarrow> request" where
  "DelRequest_appendTo B req =
     append_request B
       (Data_Write (del_DN req)
         (ber_Encode B ClassApplication TypePrimitive ApplicationDelRequest (VString (del_DN req)) ''Del Request''))
       (del_Controls req)"

text \<open>Changes; \<^verbatim>\<open>Operation\<close> is a 64-bit \<^verbatim>\<open>uint\<close>.\<close>

record Change =
  ch_Operation :: "64 word"
  ch_Modification :: Attribute

definition Change_encode :: "ber \<Rightarrow> Change \<Rightarrow> packet option" where
  "Change_encode B c =
     do { m \<leftarrow> PartialAttribute_encode B (ch_Modification c);
          appendChildren B (new_sequence B ''Change'')
            [ber_NewInteger B ClassUniversal TypePrimitive TagEnumerated (VUint64 (ch_Operation c)) ''Operation'', m] }"

record ModifyRequest =
  mod_DN :: string
  mod_Changes :: "Change list"
  mod_Controls :: "control list"

abbreviation (input) "AddAttribute \<equiv> (0 :: 64 word)"
abbreviation (input) "DeleteAttribute \<equiv> (1 :: 64 word)"
abbreviation (input) "ReplaceAttribute \<equiv> (2 :: 64 word)"
abbreviation (input) "IncrementAttribute \<equiv> (3 :: 64 word)"

definition NewModifyRequest :: "string \<Rightarrow> control list \<Rightarrow> ModifyRequest" where
  "NewModifyRequest dn controls = \<lparr>mod_DN = dn, mod_Changes = [], mod_Controls = controls\<rparr>"

definition appendChange :: "64 word \<Rightarrow> string \<Rightarrow> string list \<Rightarrow> ModifyRequest \<Rightarrow> ModifyRequest" where
  "appendChange operation attrType attrVals req =
     req\<lparr>mod_Changes := mod_Changes req
       @ [\<lparr>ch_Operation = operation, ch_Modification = \<lparr>at_Type = attrType, at_Vals = attrVals\<rparr>\<rparr>]\<rparr>"

definition ModifyRequest_Add :: "string \<Rightarrow> string list \<Rightarrow> ModifyRequest \<Rightarrow> ModifyRequest" where
  "ModifyRequest_Add attrType attrVals req = appendChange AddAttribute attrType attrVals req"

definition ModifyRequest_Delete :: "string \<Rightarrow> string list \<Rightarrow> ModifyRequest \<Rightarrow> ModifyRequest" where
  "ModifyRequest_Delete attrType attrVals req = appendChange DeleteAttribute attrType attrVals req"

definition ModifyRequest_Replace :: "string \<Rightarrow> string list \<Rightarrow> ModifyRequest \<Rightarrow> ModifyRequest" where
  "ModifyRequest_Replace attrType attrVals req = appendChange ReplaceAttribute attrType attrVals req"

definition ModifyRequest_Increment :: "string \<Rightarrow> string \<Rightarrow> ModifyRequest \<Rightarrow> ModifyRequest" where
  "ModifyRequest_Increment attrType attrVal req = appendChange IncrementAttribute attrType [attrVal] req"

definition ModifyRequest_appendTo :: "ber \<Rightarrow> ModifyRequest \<Rightarrow> request" where
  "ModifyRequest_appendTo B req =
     append_request B
       (do { ks \<leftarrow> sequence_packets (map (Change_encode B) (mod_Changes req));
             changes \<leftarrow> appendChildren B (new_sequence B ''Changes'') ks;
             appendChildren B (application B ApplicationModifyRequest ''Modify Request'')
               [octets B (mod_DN req) ''DN'', changes] })
       (mod_Controls req)"

record ModifyDNRequest =
  mdn_DN :: string
  mdn_NewRDN :: string
  mdn_DeleteOldRDN :: bool
  mdn_NewSuperior :: string
  mdn_Controls :: "control list"

definition NewModifyDNWithControlsRequest ::
  "string \<Rightarrow> string \<Rightarrow> bool \<Rightarrow> string \<Rightarrow> control list \<Rightarrow> ModifyDNRequest" where
  "NewModifyDNWithControlsRequest dn rdn delOld newSup controls =
     \<lparr>mdn_DN = dn, mdn_NewRDN = rdn, mdn_DeleteOldRDN = delOld, mdn_NewSuperior = newSup,
      mdn_Controls = controls\<rparr>"

definition NewModifyDNRequest :: "string \<Rightarrow> string \<Rightarrow> bool \<Rightarrow> string \<Rightarrow> ModifyDNRequest" where
  "NewModifyDNRequest dn rdn delOld newSup =
     \<lparr>mdn_DN = dn, mdn_NewRDN = rdn, mdn_DeleteOldRDN = delOld, mdn_NewSuperior = newSup, mdn_Controls = []\<rparr>"

definition ModifyDNRequest_appendTo :: "ber \<Rightarrow> ModifyDNRequest \<Rightarrow> request" where
  "ModifyDNRequest_appendTo B req =
     append_request B
       (appendChildren B (application B ApplicationModifyDNRequest ''Modify DN Request'')
         ([octets B (mdn_DN req) ''DN'', octets B (mdn_NewRDN req) ''New RDN'',
           (if mdn_DeleteOldRDN req then
              ber_NewString B ClassUniversal TypePrimitive TagBoolean [CHR 0xFF] ''Delete old RDN''
            else ber_NewBoolean B ClassUniversal TypePrimitive TagBoolean (mdn_DeleteOldRDN req) ''Delete old RDN'')]
          @ (if mdn_NewSuperior req \<noteq> [] then
               [ber_NewString B ClassContext TypePrimitive 0 (mdn_NewSuperior req) ''New Superior''] else [])))
       (mdn_Controls req)"

record CompareRequest =
  cmp_DN :: string
  cmp_Attribute :: string
  cmp_Value :: string

definition CompareRequest_appendTo :: "ber \<Rightarrow> CompareRequest \<Rightarrow> request" where
  "CompareRequest_appendTo B req =
     append_request B
       (do { ava \<leftarrow> appendChildren B (new_sequence B ''AttributeValueAssertion'')
               [octets B (cmp_Attribute req) ''AttributeDesc'',
                ber_Encode B ClassUniversal TypePrimitive TagOctetString (VString (cmp_Value req)) ''AssertionValue''];
             appendChildren B (application B ApplicationCompareRequest ''Compare Request'')
               [octets B (cmp_DN req) ''DN'', ava] })
       []"

record ExtendedRequest =
  ext_Name :: string
  ext_Value :: packet
  ext_Controls :: "control list"

definition NewExtendedRequest :: "string \<Rightarrow> packet \<Rightarrow> ExtendedRequest" where
  "NewExtendedRequest name value = \<lparr>ext_Name = name, ext_Value = value, ext_Controls = []\<rparr>"

definition ExtendedRequest_appendTo :: "ber \<Rightarrow> ExtendedRequest \<Rightarrow> request" where
  "ExtendedRequest_appendTo B er =
     append_request B
       (appendChildren B (application B ApplicationExtendedRequest ''Extended Request'')
         (ber_NewString B ClassContext TypePrimitive TagEOC (ext_Name er) ''Extended Request Name''
          # (if ext_Value er \<noteq> NilPacket then [ext_Value er] else [])))
       (ext_Controls er)"

record PasswordModifyRequest =
  pm_UserIdentity :: string
  pm_OldPassword :: string
  pm_NewPassword :: string

definition NewPasswordModifyRequest :: "string \<Rightarrow> string \<Rightarrow> string \<Rightarrow> PasswordModifyRequest" where
  "NewPasswordModifyRequest userIdentity oldPassword newPassword =
     \<lparr>pm_UserIdentity = userIdentity, pm_OldPassword = oldPassword, pm_NewPassword = newPassword\<rparr>"

definition optional_string :: "ber \<Rightarrow> nat \<Rightarrow> string \<Rightarrow> string \<Rightarrow> packet list" where
  "optional_string B tag s ds = (if s \<noteq> [] then [ber_NewString B ClassContext TypePrimitive tag s ds] else [])"

definition PasswordModifyRequest_appendTo :: "ber \<Rightarrow> PasswordModifyRequest \<Rightarrow> request" where
  "PasswordModifyRequest_appendTo B req =
     append_request B
       (do { value \<leftarrow> appendChildren B (new_sequence B ''Password Modify Request'')
               (optional_string B 0 (pm_UserIdentity req) ''User Identity''
                @ optional_string B 1 (pm_OldPassword req) ''Old Password''
                @ optional_string B 2 (pm_NewPassword req) ''New Password'');
             v \<leftarrow> ber_AppendChild B
               (ber_Encode B ClassContext TypePrimitive 1 VNil ''Extended Request Value: Password Modify Request'') value;
             appendChildren B (application B ApplicationExtendedRequest ''Password Modify Extended Operation'')
               [ber_NewString B ClassContext TypePrimitive 0 ''1.3.6.1.4.1.4203.1.11.1''
                  ''Extended Request Name: Password Modify OID'', v] })
       []"

definition unbindRequest_appendTo :: "ber \<Rightarrow> request" where
  "unbindRequest_appendTo B =
     append_request B
       (Some (ber_Encode B ClassApplication TypePrimitive ApplicationUnbindRequest VNil ''Unbind Request'')) []"

section \<open>Operations with one response\<close>

text \<open>\<^verbatim>\<open>Add\<close>, \<^verbatim>\<open>Del\<close> and \<^verbatim>\<open>Extended\<close> test for a nil request; the others dereference it and are modelled
  for requests that are not nil.\<close>

definition Conn_Add :: "ber \<Rightarrow> session \<Rightarrow> AddRequest option \<Rightarrow> (go_error option) outcome" where
  "Conn_Add B s addRequest =
     (case addRequest of
        None \<Rightarrow> Some ([], Some (NewError ErrorNetwork (ErrText ''AddRequest cannot be nil'')))
      | Some req \<Rightarrow> simple_operation B s ApplicationAddResponse (AddRequest_appendTo B req))"

definition Conn_Del :: "ber \<Rightarrow> session \<Rightarrow> DelRequest option \<Rightarrow> (go_error option) outcome" where
  "Conn_Del B s delRequest =
     (case delRequest of
        None \<Rightarrow> Some ([], Some (NewError ErrorNetwork (ErrText ''DelRequest cannot be nil'')))
      | Some req \<Rightarrow> simple_operation B s ApplicationDelResponse (DelRequest_appendTo B req))"

definition Conn_Modify :: "ber \<Rightarrow> session \<Rightarrow> ModifyRequest \<Rightarrow> (go_error option) outcome" where
  "Conn_Modify B s req = simple_operation B s ApplicationModifyResponse (ModifyRequest_appendTo B req)"

definition Conn_ModifyDN :: "ber \<Rightarrow> session \<Rightarrow> ModifyDNRequest \<Rightarrow> (go_error option) outcome" where
  "Conn_ModifyDN B s m = simple_operation B s ApplicationModifyDNResponse (ModifyDNRequest_appendTo B m)"

text \<open>\<^verbatim>\<open>Compare\<close>: the two results of a comparison are result codes.\<close>

definition compare_response :: "packet \<Rightarrow> (bool \<times> go_error option) option" where
  "compare_response packet =
     (if length (Children packet) < 2 then Some (False, Some (malformed_response packet))
      else
        do { response \<leftarrow> deref (Children packet ! 1);
             if Tag response = ApplicationCompareResponse then
               do { err \<leftarrow> GetLDAPError packet;
                    if IsErrorWithCode err LDAPResultCompareTrue then Some (True, None)
                    else if IsErrorWithCode err LDAPResultCompareFalse then Some (False, None)
                    else Some (False, err) }
             else Some (False, Some (ErrText (''unexpected Response: '' @ decimal (Tag response)))) })"

definition Conn_Compare :: "ber \<Rightarrow> session \<Rightarrow> string \<Rightarrow> string \<Rightarrow> string \<Rightarrow> (bool \<times> go_error option) outcome" where
  "Conn_Compare B s dn attribute value =
     do { (calls, r) \<leftarrow> exchange B s
            (CompareRequest_appendTo B \<lparr>cmp_DN = dn, cmp_Attribute = attribute, cmp_Value = value\<rparr>);
          case r of
            Inl e \<Rightarrow> Some (calls, False, Some e)
          | Inr packet \<Rightarrow> do { x \<leftarrow> compare_response packet; Some (calls, x) } }"

section \<open>Responses with controls\<close>

text \<open>
  \<^verbatim>\<open>DecodeControl\<close> over the children of the third element, when there are exactly three.  The packages the
  decoder uses are the arguments \<^verbatim>\<open>fb\<close> and \<^verbatim>\<open>ip\<close>; the packets it rewrites are not read again.
\<close>

fun decode_controls ::
  "ber \<Rightarrow> uuid_FromBytes \<Rightarrow> (rune \<Rightarrow> bool) \<Rightarrow> packet list \<Rightarrow> (go_error + control list) option" where
  "decode_controls B fb ip [] = Some (Inr [])"
| "decode_controls B fb ip (child # cs) =
     do { (_, r) \<leftarrow> DecodeControl B fb ip child;
          case r of
            Inl e \<Rightarrow> Some (Inl e)
          | Inr c \<Rightarrow> do { rest \<leftarrow> decode_controls B fb ip cs; Some (map_sum id ((#) c) rest) } }"

definition response_controls ::
  "ber \<Rightarrow> uuid_FromBytes \<Rightarrow> (rune \<Rightarrow> bool) \<Rightarrow> packet \<Rightarrow> (go_error + control list) option" where
  "response_controls B fb ip packet =
     (if length (Children packet) = 3 then
        do { k \<leftarrow> deref (Children packet ! 2); decode_controls B fb ip (Children k) }
      else Some (Inr []))"

record ModifyResult =
  mr_Controls :: "control list"
  mr_Referral :: string

definition modify_response ::
  "ber \<Rightarrow> uuid_FromBytes \<Rightarrow> (rune \<Rightarrow> bool) \<Rightarrow> packet \<Rightarrow> (ModifyResult option \<times> go_error option) option" where
  "modify_response B fb ip packet =
     (if length (Children packet) < 2 then Some (None, Some (malformed_response packet))
      else
        do { response \<leftarrow> deref (Children packet ! 1);
             if Tag response = ApplicationModifyResponse then
               do { err \<leftarrow> GetLDAPError packet;
                    if err \<noteq> None then
                      do { referral \<leftarrow> getReferral err packet;
                           Some (Some \<lparr>mr_Controls = [], mr_Referral = referral\<rparr>, err) }
                    else
                      do { r \<leftarrow> response_controls B fb ip packet;
                           case r of
                             Inl e \<Rightarrow> Some (None, Some (ErrTextOf ''failed to decode child control: '' e))
                           | Inr cs \<Rightarrow> Some (Some \<lparr>mr_Controls = cs, mr_Referral = []\<rparr>, None) } }
             else Some (Some \<lparr>mr_Controls = [], mr_Referral = []\<rparr>, None) })"

definition Conn_ModifyWithResult ::
  "ber \<Rightarrow> uuid_FromBytes \<Rightarrow> (rune \<Rightarrow> bool) \<Rightarrow> session \<Rightarrow> ModifyRequest
   \<Rightarrow> (ModifyResult option \<times> go_error option) outcome" where
  "Conn_ModifyWithResult B fb ip s req =
     do { (calls, r) \<leftarrow> exchange B s (ModifyRequest_appendTo B req);
          case r of
            Inl e \<Rightarrow> Some (calls, None, Some e)
          | Inr packet \<Rightarrow> do { x \<leftarrow> modify_response B fb ip packet; Some (calls, x) } }"

record ExtendedResponse =
  er_Name :: string
  er_Value :: packet
  er_Controls :: "control list"

fun extended_members :: "packet list \<Rightarrow> string \<times> packet \<Rightarrow> (string \<times> packet) option" where
  "extended_members [] acc = Some acc"
| "extended_members (child # cs) (name, value) =
     do { child \<leftarrow> deref child;
          extended_members cs
            (if ClassType child \<noteq> ClassContext then (name, value)
             else if Tag child = TagEnumerated then (Data_String child, value)
             else if Tag child = TagEmbeddedPDV then (name, child)
             else (name, value)) }"

definition extended_response ::
  "ber \<Rightarrow> uuid_FromBytes \<Rightarrow> (rune \<Rightarrow> bool) \<Rightarrow> packet \<Rightarrow> (go_error + ExtendedResponse) option" where
  "extended_response B fb ip packet =
     do { err \<leftarrow> GetLDAPError packet;
          case err of
            Some e \<Rightarrow> Some (Inl e)
          | None \<Rightarrow>
              do { extResp \<leftarrow> nth_child packet 1;
                   extResp \<leftarrow> deref extResp;
                   if length (Children extResp) < 3 then
                     Some (Inl (ErrText (''ldap: malformed extended response: expected at least 3 children, got ''
                                         @ decimal (length (Children packet)))))
                   else
                     do { (name, value) \<leftarrow> extended_members (Children extResp) ([], NilPacket);
                          r \<leftarrow> response_controls B fb ip packet;
                          case r of
                            Inl e \<Rightarrow> Some (Inl (ErrTextOf ''failed to decode child control: '' e))
                          | Inr cs \<Rightarrow> Some (Inr \<lparr>er_Name = name, er_Value = value, er_Controls = cs\<rparr>) } } }"

definition Conn_Extended ::
  "ber \<Rightarrow> uuid_FromBytes \<Rightarrow> (rune \<Rightarrow> bool) \<Rightarrow> session \<Rightarrow> ExtendedRequest option
   \<Rightarrow> (go_error + ExtendedResponse) outcome" where
  "Conn_Extended B fb ip s er =
     (case er of
        None \<Rightarrow> Some ([], Inl (NewError ErrorNetwork (ErrText ''ExtendedRequest cannot be nil'')))
      | Some req \<Rightarrow>
          do { (calls, r) \<leftarrow> exchange B s (ExtendedRequest_appendTo B req);
               case r of
                 Inl e \<Rightarrow> Some (calls, Inl e)
               | Inr packet \<Rightarrow> do { x \<leftarrow> extended_response B fb ip packet; Some (calls, x) } })"

text \<open>\<^verbatim>\<open>WhoAmI\<close> is an extended operation whose value is optional.\<close>

definition Conn_WhoAmI ::
  "ber \<Rightarrow> uuid_FromBytes \<Rightarrow> (rune \<Rightarrow> bool) \<Rightarrow> session \<Rightarrow> control list \<Rightarrow> (go_error + string) outcome" where
  "Conn_WhoAmI B fb ip s controls =
     do { (calls, r) \<leftarrow> Conn_Extended B fb ip s
            (Some ((NewExtendedRequest ControlTypeWhoAmI NilPacket)\<lparr>ext_Controls := controls\<rparr>));
          case r of
            Inl e \<Rightarrow> Some (calls, Inl e)
          | Inr resp \<Rightarrow> Some (calls, Inr (if er_Value resp \<noteq> NilPacket then Data_String (er_Value resp) else [])) }"

record PasswordModifyResult =
  pw_GeneratedPassword :: string
  pw_Referral :: string

fun generated_password :: "ber \<Rightarrow> packet list \<Rightarrow> string \<Rightarrow> (go_error + string) option" where
  "generated_password B [] pw = Some (Inr pw)"
| "generated_password B (child # cs) pw =
     do { child \<leftarrow> deref child;
          if Tag child = TagEmbeddedPDV then
            do { d \<leftarrow> Data child;
                 case ber_DecodePacketErr B d of
                   Inl e \<Rightarrow> Some (Inl (ErrTextOf ''ldap: failed to decode PasswordModifyResponseValue: '' e))
                 | Inr v \<Rightarrow>
                     do { v \<leftarrow> deref v;
                          if length (Children v) = 1 then
                            do { k \<leftarrow> deref (Children v ! 0);
                                 if Tag k = TagEOC then
                                   do { x \<leftarrow> Data k; generated_password B cs (ber_DecodeString B x) }
                                 else generated_password B cs pw }
                          else generated_password B cs pw } }
          else generated_password B cs pw }"

definition password_response :: "ber \<Rightarrow> packet \<Rightarrow> (PasswordModifyResult option \<times> go_error option) option" where
  "password_response B packet =
     (if length (Children packet) < 2 then Some (None, Some (malformed_response packet))
      else
        do { response \<leftarrow> deref (Children packet ! 1);
             if Tag response = ApplicationExtendedResponse then
               do { err \<leftarrow> GetLDAPError packet;
                    if err \<noteq> None then
                      do { referral \<leftarrow> getReferral err packet;
                           Some (Some \<lparr>pw_GeneratedPassword = [], pw_Referral = referral\<rparr>, err) }
                    else
                      do { r \<leftarrow> generated_password B (Children response) [];
                           case r of
                             Inl e \<Rightarrow> Some (None, Some e)
                           | Inr pw \<Rightarrow> Some (Some \<lparr>pw_GeneratedPassword = pw, pw_Referral = []\<rparr>, None) } }
             else
               Some (None, Some (NewError ErrorUnexpectedResponse
                       (ErrText (''unexpected Response: '' @ decimal (Tag response))))) })"

definition Conn_PasswordModify ::
  "ber \<Rightarrow> session \<Rightarrow> PasswordModifyRequest \<Rightarrow> (PasswordModifyResult option \<times> go_error option) outcome" where
  "Conn_PasswordModify B s req =
     do { (calls, r) \<leftarrow> exchange B s (PasswordModifyRequest_appendTo B req);
          case r of
            Inl e \<Rightarrow> Some (calls, None, Some e)
          | Inr packet \<Rightarrow> do { x \<leftarrow> password_response B packet; Some (calls, x) } }"

section \<open>Unbind\<close>

definition ErrConnUnbound :: go_error where
  "ErrConnUnbound = NewError ErrorNetwork (ErrText ''ldap: connection is closed'')"

definition Conn_Unbind :: "ber \<Rightarrow> session \<Rightarrow> (go_error option) outcome" where
  "Conn_Unbind B s =
     (if se_closing s then Some ([], Some ErrConnUnbound)
      else
        do { (calls, err) \<leftarrow> doRequest B s (unbindRequest_appendTo B);
             case err of
               Some e \<Rightarrow> Some (calls, Some e)
             | None \<Rightarrow> Some (calls @ [FinishMessage, CloseConn], None) })"

end
