(* ===== verification/LDAP_Search.thy ===== *)
theory LDAP_Search
  imports LDAP_Entry LDAP_Filter LDAP_Request
begin

text \<open>
  Searching, the second part of \<^verbatim>\<open>src/v3/search.go\<close>: the request, \<^verbatim>\<open>Search\<close>, which reads responses until
  the search is done, \<^verbatim>\<open>SearchWithPaging\<close>, \<^verbatim>\<open>DirSync\<close> and the preparation of asynchronous searches.
  An operation meets the connection as in \<^verbatim>\<open>LDAP_Request\<close>.
\<close>

section \<open>The request\<close>

text \<open>A Go \<^verbatim>\<open>int\<close> has 64 bits here.\<close>

record SearchRequest =
  sr_BaseDN :: string
  sr_Scope :: int64
  sr_DerefAliases :: int64
  sr_SizeLimit :: int64
  sr_TimeLimit :: int64
  sr_TypesOnly :: bool
  sr_Filter :: string
  sr_Attributes :: "string list"
  sr_Controls :: "control list"
  sr_EnforceSizeLimit :: bool

definition NewSearchRequest ::
  "string \<Rightarrow> int64 \<Rightarrow> int64 \<Rightarrow> int64 \<Rightarrow> int64 \<Rightarrow> bool \<Rightarrow> string \<Rightarrow> string list \<Rightarrow> control list \<Rightarrow> SearchRequest" where
  "NewSearchRequest BaseDN Scope DerefAliases SizeLimit TimeLimit TypesOnly Filter attributes Controls =
     \<lparr>sr_BaseDN = BaseDN, sr_Scope = Scope, sr_DerefAliases = DerefAliases, sr_SizeLimit = SizeLimit,
      sr_TimeLimit = TimeLimit, sr_TypesOnly = TypesOnly, sr_Filter = Filter, sr_Attributes = attributes,
      sr_Controls = Controls, sr_EnforceSizeLimit = False\<rparr>"

definition search_numbers :: "ber \<Rightarrow> SearchRequest \<Rightarrow> packet list" where
  "search_numbers B req =
     [octets B (sr_BaseDN req) ''Base DN'',
      ber_NewInteger B ClassUniversal TypePrimitive TagEnumerated (VUint64 (sr_Scope req)) ''Scope'',
      ber_NewInteger B ClassUniversal TypePrimitive TagEnumerated (VUint64 (sr_DerefAliases req)) ''Deref Aliases'',
      ber_NewInteger B ClassUniversal TypePrimitive TagInteger (VUint64 (sr_SizeLimit req)) ''Size Limit'',
      ber_NewInteger B ClassUniversal TypePrimitive TagInteger (VUint64 (sr_TimeLimit req)) ''Time Limit'',
      ber_NewBoolean B ClassUniversal TypePrimitive TagBoolean (sr_TypesOnly req) ''Types Only'']"

definition SearchRequest_appendTo :: "ber \<Rightarrow> SearchRequest \<Rightarrow> request" where
  "SearchRequest_appendTo B req envelope =
     do { pkt \<leftarrow> appendChildren B (application B ApplicationSearchRequest ''Search Request'') (search_numbers B req);
          (filterPacket, err) \<leftarrow> CompileFilter B (sr_Filter req);
          case err of
            Some e \<Rightarrow> Some (Some e, envelope)
          | None \<Rightarrow>
              append_request B
                (do { pkt \<leftarrow> ber_AppendChild B pkt filterPacket;
                      attributes \<leftarrow> appendChildren B (new_sequence B ''Attributes'')
                        (map (\<lambda>attribute. octets B attribute ''Attribute'') (sr_Attributes req));
                      ber_AppendChild B pkt attributes })
                (sr_Controls req) envelope }"

section \<open>Search\<close>

record SearchResult =
  res_Entries :: "Entry list"
  res_Referrals :: "string list"
  res_Controls :: "control list"

definition empty_result :: SearchResult where
  "empty_result = \<lparr>res_Entries = [], res_Referrals = [], res_Controls = []\<rparr>"

text \<open>\<^verbatim>\<open>s.appendTo(r)\<close> gives the changed \<^verbatim>\<open>r\<close>.\<close>

definition SearchResult_appendTo :: "SearchResult \<Rightarrow> SearchResult \<Rightarrow> SearchResult" where
  "SearchResult_appendTo s r =
     \<lparr>res_Entries = res_Entries r @ res_Entries s, res_Referrals = res_Referrals r @ res_Referrals s,
      res_Controls = res_Controls r @ res_Controls s\<rparr>"

definition ErrSizeLimitExceeded :: go_error where
  "ErrSizeLimitExceeded = NewError ErrorNetwork (ErrText ''ldap: size limit exceeded'')"

text \<open>The type assertion on the first child of a response: the DN of an entry, the URL of a referral.\<close>

definition first_string :: "packet \<Rightarrow> string option" where
  "first_string response =
     do { k \<leftarrow> nth_child response 0; k \<leftarrow> deref k; as_string (Value k) }"

definition entry_attributes :: "packet \<Rightarrow> packet list option" where
  "entry_attributes response =
     (if 1 < length (Children response) then
        do { k \<leftarrow> deref (Children response ! 1); Some (Children k) }
      else Some [])"

definition size_limit_reached :: "SearchRequest \<Rightarrow> SearchResult \<Rightarrow> bool" where
  "size_limit_reached req result \<longleftrightarrow>
     sr_EnforceSizeLimit req \<and> 0 < sint (sr_SizeLimit req)
     \<and> sint (sr_SizeLimit req) \<le> int (length (res_Entries result))"

definition search_entry ::
  "(rune \<Rightarrow> bool) \<Rightarrow> SearchRequest \<Rightarrow> packet \<Rightarrow> SearchResult \<Rightarrow> (go_error option \<times> SearchResult) option" where
  "search_entry ip req response result =
     (if size_limit_reached req result then Some (Some ErrSizeLimitExceeded, result)
      else
        do { attr \<leftarrow> entry_attributes response;
             r \<leftarrow> unpackAttributes ip attr;
             case r of
               Inl e \<Rightarrow> Some (Some e, result)
             | Inr attributes \<Rightarrow>
                 do { dn \<leftarrow> first_string response;
                      Some (None, result\<lparr>res_Entries := res_Entries result
                              @ [\<lparr>en_DN = dn, en_Attributes = attributes\<rparr>]\<rparr>) } })"

text \<open>The controls decoded before the one that fails stay in the result.\<close>

fun search_controls ::
  "ber \<Rightarrow> uuid_FromBytes \<Rightarrow> (rune \<Rightarrow> bool) \<Rightarrow> packet list \<Rightarrow> SearchResult \<Rightarrow> (go_error option \<times> SearchResult) option" where
  "search_controls B fb ip [] result = Some (None, result)"
| "search_controls B fb ip (child # cs) result =
     do { (_, r) \<leftarrow> DecodeControl B fb ip child;
          case r of
            Inl e \<Rightarrow> Some (Some (ErrTextOf ''failed to decode child control: '' e), result)
          | Inr c \<Rightarrow> search_controls B fb ip cs (result\<lparr>res_Controls := res_Controls result @ [c]\<rparr>) }"

definition search_done ::
  "ber \<Rightarrow> uuid_FromBytes \<Rightarrow> (rune \<Rightarrow> bool) \<Rightarrow> packet \<Rightarrow> SearchResult \<Rightarrow> (go_error option \<times> SearchResult) option" where
  "search_done B fb ip packet result =
     do { err \<leftarrow> GetLDAPError packet;
          case err of
            Some e \<Rightarrow> Some (Some e, result)
          | None \<Rightarrow>
              if length (Children packet) = 3 then
                do { k \<leftarrow> deref (Children packet ! 2); search_controls B fb ip (Children k) result }
              else Some (None, result) }"

text \<open>
  One packet: \<^const>\<open>Inl\<close> ends the search with the error and the result, \<^const>\<open>Inr\<close> goes on.  A response of
  another kind is skipped.
\<close>

definition search_packet ::
  "ber \<Rightarrow> uuid_FromBytes \<Rightarrow> (rune \<Rightarrow> bool) \<Rightarrow> SearchRequest \<Rightarrow> packet \<Rightarrow> SearchResult
   \<Rightarrow> ((go_error option \<times> SearchResult) + SearchResult) option" where
  "search_packet B fb ip req packet result =
     do { response \<leftarrow> nth_child packet 1;
          response \<leftarrow> deref response;
          if Tag response = ApplicationSearchResultEntry then
            do { (err, result) \<leftarrow> search_entry ip req response result;
                 case err of Some e \<Rightarrow> Some (Inl (Some e, result)) | None \<Rightarrow> Some (Inr result) }
          else if Tag response = ApplicationSearchResultDone then
            do { r \<leftarrow> search_done B fb ip packet result; Some (Inl r) }
          else if Tag response = ApplicationSearchResultReference then
            do { ref \<leftarrow> first_string response;
                 Some (Inr (result\<lparr>res_Referrals := res_Referrals result @ [ref]\<rparr>)) }
          else Some (Inr result) }"

text \<open>The loop over the responses; the calls are the receives.\<close>

fun search_loop ::
  "ber \<Rightarrow> uuid_FromBytes \<Rightarrow> (rune \<Rightarrow> bool) \<Rightarrow> SearchRequest \<Rightarrow> PacketResponse option list \<Rightarrow> SearchResult
   \<Rightarrow> (go_error option \<times> SearchResult) outcome" where
  "search_loop B fb ip req [] result = Some ([ReceiveResponse], Some response_channel_closed, result)"
| "search_loop B fb ip req (r # responses) result =
     (case readPacket (r # responses) of
        Inl e \<Rightarrow> Some ([ReceiveResponse], Some e, result)
      | Inr packet \<Rightarrow>
          do { x \<leftarrow> search_packet B fb ip req packet result;
               case x of
                 Inl ended \<Rightarrow> Some ([ReceiveResponse], ended)
               | Inr result \<Rightarrow>
                   do { (calls, ended) \<leftarrow> search_loop B fb ip req responses result;
                        Some (ReceiveResponse # calls, ended) } })"

definition Conn_Search ::
  "ber \<Rightarrow> uuid_FromBytes \<Rightarrow> (rune \<Rightarrow> bool) \<Rightarrow> session \<Rightarrow> SearchRequest
   \<Rightarrow> (SearchResult option \<times> go_error option) outcome" where
  "Conn_Search B fb ip s req =
     do { (calls, err) \<leftarrow> doRequest B s (SearchRequest_appendTo B req);
          case err of
            Some e \<Rightarrow> Some (calls, None, Some e)
          | None \<Rightarrow>
              do { (loop_calls, err, result) \<leftarrow> search_loop B fb ip req (se_responses s) empty_result;
                   Some (calls @ loop_calls @ [FinishMessage], Some result, err) } }"

section \<open>Paging\<close>

text \<open>
  The caller's control is an object shared with the request: \<^verbatim>\<open>SetCookie\<close> changes the first paging
  control of the list.  The controls of a request are taken to be different objects.
\<close>

fun set_paging_cookie :: "bytes \<Rightarrow> control list \<Rightarrow> control list" where
  "set_paging_cookie cookie [] = []"
| "set_paging_cookie cookie (c # cs) =
     (if GetControlType c = ControlTypePaging then ControlPaging_SetCookie cookie c # cs
      else c # set_paging_cookie cookie cs)"

text \<open>The \<^verbatim>\<open>%v\<close> text of a control that has the paging type without being a paging control is its
  \<^verbatim>\<open>String\<close>; only \<^verbatim>\<open>ControlString\<close> has a free type.\<close>

fun ControlString_String :: "(rune \<Rightarrow> bool) \<Rightarrow> control \<Rightarrow> string" where
  "ControlString_String ip (ControlString ty crit v) =
     ''Control Type: '' @ ControlTypeMap ty @ '' ('' @ Quote ip ty @ '')  Criticality: ''
     @ (if crit then ''true'' else ''false'') @ ''  Control Value: '' @ v"
| "ControlString_String ip _ = []"

definition prepare_paging :: "(rune \<Rightarrow> bool) \<Rightarrow> SearchRequest \<Rightarrow> 32 word \<Rightarrow> go_error + SearchRequest" where
  "prepare_paging ip searchRequest pagingSize =
     (case FindControl (sr_Controls searchRequest) ControlTypePaging of
        None \<Rightarrow> Inr (searchRequest\<lparr>sr_Controls := sr_Controls searchRequest @ [NewControlPaging pagingSize]\<rparr>)
      | Some (ControlPaging given cookie) \<Rightarrow>
          if given \<noteq> pagingSize then
            Inl (ErrText (''paging size given in search request ('' @ decimal (unat given)
              @ '') conflicts with size given in search call ('' @ decimal (unat pagingSize) @ '')''))
          else Inr searchRequest
      | Some control \<Rightarrow>
          Inl (ErrText (''expected paging control to be of type *ControlPaging, got ''
                        @ ControlString_String ip control)))"

text \<open>
  The loop, one session per search.  When the list of sessions ends before the loop does, the result is
  \<^const>\<open>None\<close>: the client is still searching.  Both breaks of the loop set the paging control to nil, so
  the search after the loop, which would abandon the paging, is never made.
\<close>

definition page_cookie :: "SearchResult \<Rightarrow> bytes option option" where
  "page_cookie result =
     (case FindControl (res_Controls result) ControlTypePaging of
        None \<Rightarrow> Some None
      | Some (ControlPaging _ cookie) \<Rightarrow> Some (if length cookie = 0 then None else Some cookie)
      | Some _ \<Rightarrow> None)"

definition page_received ::
  "SearchResult option \<Rightarrow> go_error option \<Rightarrow> SearchResult
   \<Rightarrow> ((SearchResult \<times> go_error option) + bytes \<times> SearchResult) option" where
  "page_received result err searchResult =
     (let searchResult' = (case result of None \<Rightarrow> searchResult | Some r \<Rightarrow> SearchResult_appendTo r searchResult) in
      case (result, err) of
        (None, None) \<Rightarrow>
          Some (Inl (searchResult', Some (NewError ErrorNetwork (ErrText ''ldap: packet not received''))))
      | (_, Some e) \<Rightarrow> Some (Inl (searchResult', Some e))
      | (Some r, None) \<Rightarrow>
          do { cookie \<leftarrow> page_cookie r;
               case cookie of
                 None \<Rightarrow> Some (Inl (searchResult', None))
               | Some cookie \<Rightarrow> Some (Inr (cookie, searchResult')) })"

fun paging_loop ::
  "ber \<Rightarrow> uuid_FromBytes \<Rightarrow> (rune \<Rightarrow> bool) \<Rightarrow> session list \<Rightarrow> SearchRequest \<Rightarrow> SearchResult
   \<Rightarrow> ((SearchResult \<times> go_error option) option \<times> SearchRequest) outcome" where
  "paging_loop B fb ip [] searchRequest searchResult = Some ([], None, searchRequest)"
| "paging_loop B fb ip (s # ss) searchRequest searchResult =
     do { (calls, result, err) \<leftarrow> Conn_Search B fb ip s searchRequest;
          r \<leftarrow> page_received result err searchResult;
          case r of
            Inl returned \<Rightarrow> Some (calls, Some returned, searchRequest)
          | Inr (cookie, searchResult) \<Rightarrow>
              do { (more, x) \<leftarrow> paging_loop B fb ip ss
                     (searchRequest\<lparr>sr_Controls := set_paging_cookie cookie (sr_Controls searchRequest)\<rparr>)
                     searchResult;
                   Some (calls @ more, x) } }"

definition SearchWithPaging ::
  "ber \<Rightarrow> uuid_FromBytes \<Rightarrow> (rune \<Rightarrow> bool) \<Rightarrow> session list \<Rightarrow> SearchRequest \<Rightarrow> 32 word
   \<Rightarrow> ((SearchResult option \<times> go_error option) option \<times> SearchRequest) outcome" where
  "SearchWithPaging B fb ip ss searchRequest pagingSize =
     (case prepare_paging ip searchRequest pagingSize of
        Inl e \<Rightarrow> Some ([], Some (None, Some e), searchRequest)
      | Inr searchRequest \<Rightarrow>
          do { (calls, r, searchRequest) \<leftarrow> paging_loop B fb ip ss searchRequest empty_result;
               Some (calls, map_option (map_prod Some id) r, searchRequest) })"

section \<open>DirSync and Syncrepl\<close>

definition prepare_DirSync :: "SearchRequest \<Rightarrow> int \<Rightarrow> int \<Rightarrow> bytes \<Rightarrow> (go_error + SearchRequest) option" where
  "prepare_DirSync searchRequest flags maxAttrCount cookie =
     (case FindControl (sr_Controls searchRequest) ControlTypeDirSync of
        None \<Rightarrow>
          Some (Inr (searchRequest\<lparr>sr_Controls := sr_Controls searchRequest
                       @ [NewRequestControlDirSync flags maxAttrCount cookie]\<rparr>))
      | Some (ControlDirSync _ cflags cmax _) \<Rightarrow>
          if cflags \<noteq> flags then
            Some (Inl (ErrText (''flags given in search request ('' @ show_int cflags
              @ '') conflicts with flags given in search call ('' @ show_int flags @ '')'')))
          else if cmax \<noteq> maxAttrCount then
            Some (Inl (ErrText (''MaxAttrCnt given in search request ('' @ show_int cmax
              @ '') conflicts with maxAttrCount given in search call ('' @ show_int maxAttrCount @ '')'')))
          else Some (Inr searchRequest)
      | Some _ \<Rightarrow> None)"

definition Conn_DirSync ::
  "ber \<Rightarrow> uuid_FromBytes \<Rightarrow> (rune \<Rightarrow> bool) \<Rightarrow> session \<Rightarrow> SearchRequest \<Rightarrow> int \<Rightarrow> int \<Rightarrow> bytes
   \<Rightarrow> (SearchResult option \<times> go_error option) outcome" where
  "Conn_DirSync B fb ip s searchRequest flags maxAttrCount cookie =
     do { r \<leftarrow> prepare_DirSync searchRequest flags maxAttrCount cookie;
          case r of
            Inl e \<Rightarrow> Some ([], None, Some e)
          | Inr req \<Rightarrow>
              do { (calls, searchResult, err) \<leftarrow> Conn_Search B fb ip s req;
                   case err of
                     Some e \<Rightarrow> Some (calls, None, Some e)
                   | None \<Rightarrow>
                       (case searchResult of
                          None \<Rightarrow> Some (calls, None, Some (NewError ErrorNetwork (ErrText ''ldap: packet not received'')))
                        | Some result \<Rightarrow>
                            (case FindControl (res_Controls result) ControlTypeDirSync of
                               None \<Rightarrow> Some (calls, Some result, None)
                             | Some (ControlDirSync _ _ _ _) \<Rightarrow> Some (calls, Some result, None)
                             | Some _ \<Rightarrow> None)) } }"

text \<open>The requests \<^verbatim>\<open>Syncrepl\<close> and \<^verbatim>\<open>DirSyncAsync\<close> start an asynchronous search with.\<close>

definition Syncrepl_request :: "SearchRequest \<Rightarrow> int \<Rightarrow> bytes \<Rightarrow> bool \<Rightarrow> SearchRequest" where
  "Syncrepl_request searchRequest mode cookie reloadHint =
     searchRequest\<lparr>sr_Controls := sr_Controls searchRequest @ [NewControlSyncRequest mode cookie reloadHint]\<rparr>"

definition DirSyncAsync_request :: "SearchRequest \<Rightarrow> int \<Rightarrow> int \<Rightarrow> bytes \<Rightarrow> SearchRequest" where
  "DirSyncAsync_request searchRequest flags maxAttrCount cookie =
     searchRequest\<lparr>sr_Controls := sr_Controls searchRequest @ [NewRequestControlDirSync flags maxAttrCount cookie]\<rparr>"

end
