(* ===== verification/Search_Async.thy ===== *)
theory Search_Async
  imports LDAP_Search
begin

text \<open>
  Asynchronous searches, \<^verbatim>\<open>src/v3/response.go\<close>: the goroutine that reads the responses and hands
  results over a channel, and the consumer's side of the channel.

  What the scheduler and the caller's context decide is the argument \<^verbatim>\<open>sc\<close>: whether the k-th
  \<^verbatim>\<open>select\<close> of the loop takes the cancellation, and whether the k-th result reaches the channel; the
  consumer may stop reading at any point.  The context of a call is a choice the caller can make at
  any moment, so every function \<^verbatim>\<open>sc\<close> is possible.
\<close>

record SearchSingleResult =
  ss_Entry :: "Entry option"
  ss_Referral :: string
  ss_Controls :: "control list"
  ss_Error :: "go_error option"

definition no_result :: SearchSingleResult where
  "no_result = \<lparr>ss_Entry = None, ss_Referral = [], ss_Controls = [], ss_Error = None\<rparr>"

definition error_result :: "go_error \<Rightarrow> SearchSingleResult" where
  "error_result e = no_result\<lparr>ss_Error := Some e\<rparr>"

record schedule =
  sc_done :: "nat \<Rightarrow> bool"
  sc_taken :: "nat \<Rightarrow> bool"

text \<open>What the goroutine has done: its calls, the results on the channel, and how many it tried to put there.\<close>

record progress =
  pg_calls :: "call list"
  pg_sent :: "SearchSingleResult list"
  pg_tried :: nat

definition offer :: "schedule \<Rightarrow> SearchSingleResult \<Rightarrow> progress \<Rightarrow> bool \<times> progress" where
  "offer sc res pg =
     (let taken = sc_taken sc (pg_tried pg)
      in (taken, pg\<lparr>pg_sent := (if taken then pg_sent pg @ [res] else pg_sent pg), pg_tried := pg_tried pg + 1\<rparr>))"

text \<open>\<^verbatim>\<open>send\<close> gives up when the context is cancelled; it tells whether the result was handed off.\<close>

definition send :: "schedule \<Rightarrow> SearchSingleResult \<Rightarrow> progress \<Rightarrow> bool \<times> progress" where
  "send sc res pg = offer sc res pg"

text \<open>How a step of the goroutine ends.  \<^verbatim>\<open>Blocked\<close> is a plain channel send nobody receives.\<close>

datatype flow = GoOn | Finished | Return | Blocked

definition send_return :: "schedule \<Rightarrow> SearchSingleResult \<Rightarrow> progress \<Rightarrow> flow \<times> progress" where
  "send_return sc res pg = (let (_, pg) = send sc res pg in (Return, pg))"

definition send_continue :: "schedule \<Rightarrow> SearchSingleResult \<Rightarrow> progress \<Rightarrow> flow \<times> progress" where
  "send_continue sc res pg = (let (ok, pg) = send sc res pg in (if ok then GoOn else Return, pg))"

definition async_entry ::
  "ber \<Rightarrow> uuid_FromBytes \<Rightarrow> (rune \<Rightarrow> bool) \<Rightarrow> schedule \<Rightarrow> packet \<Rightarrow> packet \<Rightarrow> progress \<Rightarrow> (flow \<times> progress) option" where
  "async_entry B fb ip sc packet response pg =
     do { attrs \<leftarrow> nth_child response 1;
          attrs \<leftarrow> deref attrs;
          r \<leftarrow> unpackAttributes ip (Children attrs);
          case r of
            Inl e \<Rightarrow> (let (ok, pg) = offer sc (error_result e) pg in Some (if ok then Return else Blocked, pg))
          | Inr attributes \<Rightarrow>
              do { dn \<leftarrow> first_string response;
                   let result = no_result\<lparr>ss_Entry := Some \<lparr>en_DN = dn, en_Attributes = attributes\<rparr>\<rparr> in
                   if length (Children packet) \<noteq> 3 then Some (send_continue sc result pg)
                   else
                     do { k \<leftarrow> deref (Children packet ! 2);
                          c \<leftarrow> nth_child k 0;
                          (_, r) \<leftarrow> DecodeControl B fb ip c;
                          case r of
                            Inl e \<Rightarrow>
                              Some (send_return sc (result\<lparr>ss_Error :=
                                Some (ErrWrap ''failed to decode search result entry: '' e)\<rparr>) pg)
                          | Inr decoded \<Rightarrow> Some (send_continue sc (result\<lparr>ss_Controls := [decoded]\<rparr>) pg) } } }"

definition async_done ::
  "ber \<Rightarrow> uuid_FromBytes \<Rightarrow> (rune \<Rightarrow> bool) \<Rightarrow> schedule \<Rightarrow> packet \<Rightarrow> progress \<Rightarrow> (flow \<times> progress) option" where
  "async_done B fb ip sc packet pg =
     do { err \<leftarrow> GetLDAPError packet;
          case err of
            Some e \<Rightarrow> Some (send_return sc (error_result e) pg)
          | None \<Rightarrow>
              if length (Children packet) = 3 then
                do { r \<leftarrow> response_controls B fb ip packet;
                     case r of
                       Inl e \<Rightarrow> Some (send_return sc (error_result (ErrWrap ''failed to decode child control: '' e)) pg)
                     | Inr cs \<Rightarrow>
                         (let (_, pg) = send sc (no_result\<lparr>ss_Controls := cs\<rparr>) pg in Some (Finished, pg)) }
              else Some (Finished, pg) }"

text \<open>One packet.  \<^const>\<open>None\<close> is a panic; none of them comes after a result of the same packet.\<close>

definition async_packet ::
  "ber \<Rightarrow> uuid_FromBytes \<Rightarrow> (rune \<Rightarrow> bool) \<Rightarrow> schedule \<Rightarrow> packet \<Rightarrow> progress \<Rightarrow> (flow \<times> progress) option" where
  "async_packet B fb ip sc packet pg =
     do { response \<leftarrow> nth_child packet 1;
          response \<leftarrow> deref response;
          if Tag response = ApplicationSearchResultEntry then async_entry B fb ip sc packet response pg
          else if Tag response = ApplicationSearchResultDone then async_done B fb ip sc packet pg
          else if Tag response = ApplicationSearchResultReference then
            do { ref \<leftarrow> first_string response; Some (send_continue sc (no_result\<lparr>ss_Referral := ref\<rparr>) pg) }
          else if Tag response = ApplicationIntermediateResponse then
            do { (_, r) \<leftarrow> DecodeControl B fb ip response;
                 case r of
                   Inl e \<Rightarrow>
                     Some (send_return sc (error_result (ErrWrap ''failed to decode intermediate response: '' e)) pg)
                 | Inr decoded \<Rightarrow> Some (send_continue sc (no_result\<lparr>ss_Controls := [decoded]\<rparr>) pg) }
          else
            Some (send_return sc (error_result (ErrText (''unknown tag: '' @ decimal (Tag response)))) pg) }"

text \<open>
  The loop.  \<^const>\<open>Inl\<close> is a panic, with what was done before it.
\<close>

fun async_loop ::
  "ber \<Rightarrow> uuid_FromBytes \<Rightarrow> (rune \<Rightarrow> bool) \<Rightarrow> schedule \<Rightarrow> nat \<Rightarrow> PacketResponse option list \<Rightarrow> progress
   \<Rightarrow> progress + flow \<times> progress" where
  "async_loop B fb ip sc k [] pg =
     (if sc_done sc k then Inr (Return, pg)
      else Inr (send_return sc (error_result response_channel_closed) (pg\<lparr>pg_calls := pg_calls pg @ [ReceiveResponse]\<rparr>)))"
| "async_loop B fb ip sc k (packetResponse # responses) pg =
     (if sc_done sc k then Inr (Return, pg)
      else
        let pg = pg\<lparr>pg_calls := pg_calls pg @ [ReceiveResponse]\<rparr> in
        (case ReadPacket packetResponse of
           (packet, Some err) \<Rightarrow> Inr (send_return sc (error_result err) pg)
         | (packet, None) \<Rightarrow>
             (case async_packet B fb ip sc packet pg of
                None \<Rightarrow> Inl pg
              | Some (GoOn, pg) \<Rightarrow> async_loop B fb ip sc (k + 1) responses pg
              | Some (flow, pg) \<Rightarrow> Inr (flow, pg))))"

text \<open>
  The goroutine.  Deferred calls run last first: \<^verbatim>\<open>finishMessage\<close>, then the function that closes the
  channel and turns a panic into the connection's error.  A blocked goroutine runs none of them.
\<close>

datatype ending = Closed | Recovered | Stuck

record async_run =
  ar_calls :: "call list"
  ar_sent :: "SearchSingleResult list"
  ar_end :: ending

definition run_of :: "ending \<Rightarrow> call list \<Rightarrow> progress \<Rightarrow> async_run" where
  "run_of en calls pg = \<lparr>ar_calls = pg_calls pg @ calls, ar_sent = pg_sent pg, ar_end = en\<rparr>"

definition finished_run :: "progress + flow \<times> progress \<Rightarrow> async_run" where
  "finished_run r =
     (case r of
        Inl pg \<Rightarrow> run_of Recovered [FinishMessage] pg
      | Inr (Blocked, pg) \<Rightarrow> run_of Stuck [] pg
      | Inr (_, pg) \<Rightarrow> run_of Closed [FinishMessage] pg)"

definition idle :: progress where
  "idle = \<lparr>pg_calls = [], pg_sent = [], pg_tried = 0\<rparr>"

definition async_request :: "ber \<Rightarrow> session \<Rightarrow> SearchRequest \<Rightarrow> (go_error option \<times> packet) option" where
  "async_request B s searchRequest =
     do { packet \<leftarrow> ber_AppendChild B
            (ber_Encode B ClassUniversal TypeConstructed TagSequence VNil ''LDAP Request'')
            (ber_NewInteger B ClassUniversal TypePrimitive TagInteger (VInt64 (sint (se_id s))) ''MessageID'');
          SearchRequest_appendTo B searchRequest packet }"

definition start ::
  "ber \<Rightarrow> uuid_FromBytes \<Rightarrow> (rune \<Rightarrow> bool) \<Rightarrow> schedule \<Rightarrow> session \<Rightarrow> SearchRequest \<Rightarrow> async_run" where
  "start B fb ip sc s searchRequest =
     (if se_closing s then run_of Closed [] idle
      else
        (case async_request B s searchRequest of
           None \<Rightarrow> run_of Recovered [] idle
         | Some (Some err, _) \<Rightarrow> run_of Closed [] (snd (send sc (error_result err) idle))
         | Some (None, packet) \<Rightarrow>
             (let pg = idle\<lparr>pg_calls := [SendMessage packet]\<rparr> in
              case se_send s packet of
                Some err \<Rightarrow> run_of Closed [] (snd (send sc (error_result err) pg))
              | None \<Rightarrow> finished_run (async_loop B fb ip sc 0 (se_responses s) pg))))"

section \<open>The consumer\<close>

text \<open>The fields of \<^verbatim>\<open>searchResponse\<close>; the channel is the list of results still to be received, followed by its close.\<close>

record searchResponse =
  rs_ch :: "SearchSingleResult option list"
  rs_entry :: "Entry option"
  rs_referral :: string
  rs_controls :: "control list"
  rs_err :: "go_error option"

definition newSearchResponse :: "SearchSingleResult option list \<Rightarrow> searchResponse" where
  "newSearchResponse ch = \<lparr>rs_ch = ch, rs_entry = None, rs_referral = [], rs_controls = [], rs_err = None\<rparr>"

definition Next :: "searchResponse \<Rightarrow> bool \<times> searchResponse" where
  "Next r =
     (case rs_ch r of
        [] \<Rightarrow> (False, r)
      | None # ch \<Rightarrow> (False, r\<lparr>rs_ch := ch\<rparr>)
      | Some res # ch \<Rightarrow>
          (let r = r\<lparr>rs_ch := ch, rs_err := ss_Error res\<rparr> in
           if rs_err r \<noteq> None then (False, r)
           else (True, r\<lparr>rs_entry := ss_Entry res, rs_referral := ss_Referral res, rs_controls := ss_Controls res\<rparr>)))"

text \<open>\<^verbatim>\<open>SearchAsync\<close>, \<^verbatim>\<open>Syncrepl\<close> and \<^verbatim>\<open>DirSyncAsync\<close> start the goroutine and return the consumer's side.\<close>

definition SearchAsync ::
  "ber \<Rightarrow> uuid_FromBytes \<Rightarrow> (rune \<Rightarrow> bool) \<Rightarrow> schedule \<Rightarrow> session \<Rightarrow> SearchRequest \<Rightarrow> async_run \<times> searchResponse" where
  "SearchAsync B fb ip sc s searchRequest =
     (let run = start B fb ip sc s searchRequest in (run, newSearchResponse (map Some (ar_sent run))))"

definition Syncrepl ::
  "ber \<Rightarrow> uuid_FromBytes \<Rightarrow> (rune \<Rightarrow> bool) \<Rightarrow> schedule \<Rightarrow> session \<Rightarrow> SearchRequest \<Rightarrow> int \<Rightarrow> bytes \<Rightarrow> bool
   \<Rightarrow> async_run \<times> searchResponse" where
  "Syncrepl B fb ip sc s searchRequest mode cookie reloadHint =
     SearchAsync B fb ip sc s (Syncrepl_request searchRequest mode cookie reloadHint)"

definition DirSyncAsync ::
  "ber \<Rightarrow> uuid_FromBytes \<Rightarrow> (rune \<Rightarrow> bool) \<Rightarrow> schedule \<Rightarrow> session \<Rightarrow> SearchRequest \<Rightarrow> int \<Rightarrow> int \<Rightarrow> bytes
   \<Rightarrow> async_run \<times> searchResponse" where
  "DirSyncAsync B fb ip sc s searchRequest flags maxAttrCount cookie =
     SearchAsync B fb ip sc s (DirSyncAsync_request searchRequest flags maxAttrCount cookie)"

text \<open>A caller's loop \<^verbatim>\<open>for r.Next()\<close>: the states in which the body runs, and the state after the loop.\<close>

function consume :: "searchResponse \<Rightarrow> searchResponse list \<times> searchResponse" where
  "consume r =
     (case Next r of
        (False, r') \<Rightarrow> ([], r')
      | (True, r') \<Rightarrow> (let (rs, last) = consume r' in (r' # rs, last)))"
  by pat_completeness auto
termination
  by (relation "measure (\<lambda>r. length (rs_ch r))")
    (auto simp: Next_def Let_def split: list.splits option.splits if_splits)

declare consume.simps [simp del]

end
