(* ===== verification/Ber_Wire.thy ===== *)
theory Ber_Wire
  imports Ber_Reference
begin

text \<open>
  The second contract of the packet library, extending \<^verbatim>\<open>ber_library\<close>: what arrives when a packet
  is sent.  Decoding the bytes of a packet gives the packet back without its descriptions, with the
  value of a universal primitive element read from its content, integers in two's complement.  The laws hold up to the
  library's limit on the length of a packet and for the low tag numbers, the only ones LDAP uses.
\<close>

section \<open>The contract\<close>

text \<open>\<^verbatim>\<open>MaxPacketLengthBytes\<close>\<close>

abbreviation max_packet_length :: nat where
  "max_packet_length \<equiv> 2147483647"

definition parsed_int :: "ber \<Rightarrow> bytes \<Rightarrow> int" where
  "parsed_int B d = (case ber_ParseInt64 B d of Inl _ \<Rightarrow> 0 | Inr i \<Rightarrow> i)"

definition decoded_value :: "ber \<Rightarrow> nat \<Rightarrow> bytes \<Rightarrow> ber_value" where
  "decoded_value B g d =
     (if g = TagBoolean then VBool (parsed_int B d \<noteq> 0)
      else if g = TagInteger \<or> g = TagEnumerated then VInt64 (parsed_int B d)
      else VString d)"

text \<open>Nothing is said of the \<^verbatim>\<open>ByteValue\<close> of an element that is not universal: it is what the decoder makes of
  the element, \<^verbatim>\<open>other_bytes\<close>.\<close>

definition other_bytes :: "ber \<Rightarrow> ber_class \<Rightarrow> nat \<Rightarrow> bytes \<Rightarrow> bytes" where
  "other_bytes B c g d =
     (case ber_DecodePacketErr B (ber_Bytes B (Packet c TypePrimitive g VNil [] (Some d) [] [])) of
        Inl _ \<Rightarrow> [] | Inr q \<Rightarrow> ByteValue q)"

definition primitive_packet :: "ber \<Rightarrow> ber_class \<Rightarrow> nat \<Rightarrow> bytes \<Rightarrow> packet" where
  "primitive_packet B c g d =
     Packet c TypePrimitive g (if c = ClassUniversal then decoded_value B g d else VNil)
       (if c = ClassUniversal then d else other_bytes B c g d) (Some d) [] []"

text \<open>The packet \<^verbatim>\<open>q\<close> that arrives when \<^verbatim>\<open>p\<close> is sent.  An end-of-contents element would end the
  element around it.\<close>

definition wire :: "ber \<Rightarrow> packet \<Rightarrow> packet \<Rightarrow> bool" where
  "wire B p q \<longleftrightarrow> ber_DecodePacketErr B (ber_Bytes B p) = Inr q \<and> p \<noteq> NilPacket \<and> Tag p < 31
     \<and> \<not> (ClassType p = ClassUniversal \<and> Tag p = TagEOC)"

definition sends :: "ber \<Rightarrow> packet \<Rightarrow> packet \<Rightarrow> bool" where
  "sends B p q \<longleftrightarrow> p \<noteq> NilPacket \<and> (length (ber_Bytes B p) \<le> max_packet_length \<longrightarrow> wire B p q)"

locale ber_wire = ber_library +
  assumes AppendChild_data: "k \<noteq> NilPacket \<Longrightarrow>
      ber_AppendChild B (Packet c t g v b (Some d) cs ds) k
      = Some (Packet c t g v b (Some (d @ ber_Bytes B k)) (cs @ [k]) ds)"
    and Encode_nil: "ber_Encode B c t g VNil ds = Packet c t g VNil [] (Some []) [] ds"
    and Encode_octets: "ber_Encode B ClassUniversal t TagOctetString (VString s) ds
      = Packet ClassUniversal t TagOctetString (VString s) [] (Some s) [] ds"
    and ParseInt64_octets: "length d \<le> 8 \<Longrightarrow> ber_ParseInt64 B d = Inr (octets_int d)"
    and NewInteger_data: "- (2 ^ 63) \<le> i \<Longrightarrow> i < 2 ^ 63 \<Longrightarrow>
      \<exists>d. ber_NewInteger B c t g (VInt64 i) ds = Packet c t g (VInt64 i) [] (Some d) [] ds
        \<and> ber_ParseInt64 B d = Inr i \<and> length d \<le> 8"
    and NewBoolean_data:
      "\<exists>d i. ber_NewBoolean B c t g x ds = Packet c t g (VBool x) [] (Some d) [] ds
        \<and> ber_ParseInt64 B d = Inr i \<and> (i \<noteq> 0 \<longleftrightarrow> x) \<and> length d = 1"
    and NewLDAPBoolean_data:
      "\<exists>d i. ber_NewLDAPBoolean B c t g x ds = Packet c t g (VBool x) [] (Some d) [] ds
        \<and> ber_ParseInt64 B d = Inr i \<and> (i \<noteq> 0 \<longleftrightarrow> x) \<and> length d = 1"
    and Bytes_length: "length d \<le> length (ber_Bytes B (Packet c t g v b (Some d) cs ds))"
    and Decode_primitive: "g < 31 \<Longrightarrow>
      c \<noteq> ClassUniversal \<or> g \<in> {TagBoolean, TagInteger, TagOctetString, TagEnumerated} \<Longrightarrow>
      length d \<le> max_packet_length \<Longrightarrow>
      ber_DecodePacketErr B (ber_Bytes B (Packet c TypePrimitive g v b (Some d) cs ds))
      = Inr (primitive_packet B c g d)"
    and Decode_constructed: "g < 31 \<Longrightarrow> list_all2 (wire B) ks ks' \<Longrightarrow>
      d = concat (map (ber_Bytes B) ks) \<Longrightarrow> length d \<le> max_packet_length \<Longrightarrow>
      ber_DecodePacketErr B (ber_Bytes B (Packet c TypeConstructed g v b (Some d) cs ds))
      = Inr (Packet c TypeConstructed g VNil [] (Some d) ks' [])"
begin

lemma appendChildren_data:
  assumes "NilPacket \<notin> set ks"
  shows "appendChildren B (Packet c t g v b (Some d) cs ds) ks
    = Some (Packet c t g v b (Some (d @ concat (map (ber_Bytes B) ks))) (cs @ ks) ds)"
  using assms by (induction ks arbitrary: d cs) (auto simp: AppendChild_data)

lemma wire_not_nil: "list_all2 (wire B) ks ks' \<Longrightarrow> NilPacket \<notin> set ks"
  by (induction rule: list_all2_induct) (auto simp: wire_def)

text \<open>A constructed element built by \<^verbatim>\<open>ber.Encode\<close> and a run of \<^verbatim>\<open>AppendChild\<close>.\<close>

lemma wire_constructed:
  assumes "appendChildren B (ber_Encode B c TypeConstructed g VNil ds) ks = Some p"
    and "g < 31" "c \<noteq> ClassUniversal \<or> g \<noteq> TagEOC"
    and "list_all2 (wire B) ks ks'" "length (ber_Bytes B p) \<le> max_packet_length"
  shows "wire B p (Packet c TypeConstructed g VNil [] (Data p) ks' [])"
proof -
  let ?d = "concat (map (ber_Bytes B) ks)"
  have p: "p = Packet c TypeConstructed g VNil [] (Some ?d) ks ds"
    using assms(1) by (simp add: Encode_nil appendChildren_data [OF wire_not_nil [OF assms(4)]])
  have "length ?d \<le> max_packet_length"
    using Bytes_length [of ?d c TypeConstructed g VNil "[]" ks ds] assms(5) by (simp only: p)
  from Decode_constructed [OF assms(2,4) refl this] assms(2,3) show ?thesis
    by (auto simp: wire_def p)
qed

lemma wire_primitive:
  assumes "p = Packet c TypePrimitive g v b (Some d) cs ds" "g < 31"
    and "c \<noteq> ClassUniversal \<or> g \<in> {TagBoolean, TagInteger, TagOctetString, TagEnumerated}"
    and "length (ber_Bytes B p) \<le> max_packet_length"
  shows "wire B p (primitive_packet B c g d)"
proof -
  have "length d \<le> max_packet_length"
    using Bytes_length [of d c TypePrimitive g v b cs ds] assms(1,4) by simp
  with assms Decode_primitive [OF assms(2,3)] show ?thesis
    by (auto simp: wire_def)
qed

text \<open>
  The same with the limit on the length as a condition: what is short enough arrives, and the
  children of what is short enough are.
\<close>

lemma sends_primitive:
  assumes "g < 31" "c \<noteq> ClassUniversal \<or> g \<in> {TagBoolean, TagInteger, TagOctetString, TagEnumerated}"
  shows "sends B (Packet c TypePrimitive g v b (Some d) cs ds) (primitive_packet B c g d)"
  using wire_primitive [OF refl assms] by (simp add: sends_def)

lemma sends_children:
  assumes "list_all2 (sends B) ks ks'" "length (concat (map (ber_Bytes B) ks)) \<le> max_packet_length"
  shows "list_all2 (wire B) ks ks'"
  using assms by (induction rule: list_all2_induct) (auto simp: sends_def)

lemma sends_not_nil: "list_all2 (sends B) ks ks' \<Longrightarrow> NilPacket \<notin> set ks"
  by (induction rule: list_all2_induct) (auto simp: sends_def)

lemma child_length:
  assumes "appendChildren B (ber_Encode B c t g VNil ds) ks = Some p" "NilPacket \<notin> set ks" "k \<in> set ks"
  shows "length (ber_Bytes B k) \<le> length (ber_Bytes B p)"
proof -
  let ?d = "concat (map (ber_Bytes B) ks)"
  have "p = Packet c t g VNil [] (Some ?d) ks ds"
    using assms(1) by (simp add: Encode_nil appendChildren_data [OF assms(2)])
  then have "length ?d \<le> length (ber_Bytes B p)" by (simp only: Bytes_length)
  moreover have "length (ber_Bytes B k) \<le> length ?d"
    using assms(3) by (induction ks) auto
  ultimately show ?thesis by simp
qed

lemma sends_constructed:
  assumes "list_all2 (sends B) ks ks'" "g < 31" "c \<noteq> ClassUniversal \<or> g \<noteq> TagEOC"
    and "appendChildren B (ber_Encode B c TypeConstructed g VNil ds) ks = Some p"
  shows "sends B p (Packet c TypeConstructed g VNil [] (Data p) ks' [])"
proof -
  let ?d = "concat (map (ber_Bytes B) ks)"
  have p: "p = Packet c TypeConstructed g VNil [] (Some ?d) ks ds"
    using assms(4) by (simp add: Encode_nil appendChildren_data [OF sends_not_nil [OF assms(1)]])
  have "length ?d \<le> length (ber_Bytes B p)" unfolding p by (rule Bytes_length)
  then have "wire B p (Packet c TypeConstructed g VNil [] (Data p) ks' [])"
    if "length (ber_Bytes B p) \<le> max_packet_length"
    using that by (intro wire_constructed [OF assms(4,2,3) sends_children [OF assms(1)]]) simp_all
  then show ?thesis by (simp add: sends_def p)
qed

end

section \<open>The reference instance\<close>

lemma identifier_bits:
  assumes "g < (31 :: nat)"
  shows "(64 + g) div 32 = 2" "(96 + g) div 32 = 3" "(128 + g) div 32 = 4" "(160 + g) div 32 = 5"
    "(192 + g) div 32 = 6" "(224 + g) div 32 = 7" "(64 + g) mod 32 = g" "(96 + g) mod 32 = g"
    "(128 + g) mod 32 = g" "(160 + g) mod 32 = g" "(192 + g) mod 32 = g" "(224 + g) mod 32 = g"
proof -
  have a: "(32 * k + g) div 32 = k \<and> (32 * k + g) mod 32 = g" for k using assms by simp
  show "(64 + g) div 32 = 2" "(96 + g) div 32 = 3" "(128 + g) div 32 = 4" "(160 + g) div 32 = 5"
    "(192 + g) div 32 = 6" "(224 + g) div 32 = 7" "(64 + g) mod 32 = g" "(96 + g) mod 32 = g"
    "(128 + g) mod 32 = g" "(160 + g) mod 32 = g" "(192 + g) mod 32 = g" "(224 + g) mod 32 = g"
    using a [of 2] a [of 3] a [of 4] a [of 5] a [of 6] a [of 7] by simp_all
qed

lemma read_identifier_octets:
  "g < 31 \<Longrightarrow> read_identifier (identifier_octets c t g @ r) = Some (c, t, g, r)"
  by (cases c; cases t; simp add: identifier_octets_def read_class_def read_type_def identifier_bits)

lemma length_base256: "n < 256 ^ Suc k \<Longrightarrow> length (base256 n) \<le> Suc k"
proof (induction k arbitrary: n)
  case 0
  then show ?case by (subst base256.simps) simp
next
  case (Suc k)
  then have "n div 256 < 256 ^ Suc k" by (simp add: less_mult_imp_div_less)
  from Suc.IH [OF this] show ?case by (subst base256.simps) simp
qed

lemma read_length_octets:
  assumes "n \<le> max_packet_length"
  shows "read_length (length_octets n @ r) = Some (n, r)"
proof (cases "n < 128")
  case True
  then show ?thesis by (simp add: length_octets_def)
next
  case False
  have "length (base256 n) \<le> Suc 3" using assms by (intro length_base256) simp
  with False show ?thesis by (simp add: length_octets_def from256_base256)
qed

definition content :: "packet \<Rightarrow> bytes" where
  "content p = (case Data p of None \<Rightarrow> [] | Some d \<Rightarrow> d)"

lemma ref_Bytes_content:
  "p \<noteq> NilPacket \<Longrightarrow> ref_Bytes p =
     identifier_octets (ClassType p) (TagType p) (Tag p) @ length_octets (length (content p)) @ content p"
  by (cases p) (simp_all add: content_def)

lemma read_header_Bytes:
  assumes "p \<noteq> NilPacket" "Tag p < 31" "length (content p) \<le> max_packet_length"
  shows "read_header (ref_Bytes p @ r) = Some ((ClassType p, TagType p, Tag p), content p, r)"
  using assms by (simp add: read_header_def ref_Bytes_content read_identifier_octets read_length_octets)

lemma ref_Bytes_not_Nil: "p \<noteq> NilPacket \<Longrightarrow> ref_Bytes p \<noteq> []"
  by (cases p) (simp_all add: identifier_octets_def)

lemma ref_Bytes_Suc: "p \<noteq> NilPacket \<Longrightarrow> \<exists>n. length (ref_Bytes p) = Suc n"
  using ref_Bytes_not_Nil [of p] by (metis length_0_conv not0_implies_Suc)

lemma length_content: "p \<noteq> NilPacket \<Longrightarrow> length (content p) < length (ref_Bytes p)"
  by (simp add: ref_Bytes_content identifier_octets_def)

text \<open>More fuel than needed does not change the result.\<close>

lemma read_elements_mono: "read_elements n s = Some ps \<Longrightarrow> n \<le> m \<Longrightarrow> read_elements m s = Some ps"
proof (induction n arbitrary: s ps m)
  case 0
  then show ?case by (cases m) (auto split: if_splits)
next
  case (Suc n)
  then obtain m' where m: "m = Suc m'" "n \<le> m'" by (cases m) auto
  show ?case using Suc.prems(1) unfolding m
    by (auto split: if_splits bind_splits simp: Suc.IH [OF _ m(2)])
qed

lemma ref_Decode_iff:
  assumes "p \<noteq> NilPacket" "Tag p < 31" "length (content p) \<le> max_packet_length"
  shows "ref_DecodePacketErr (ref_Bytes p) = Inr q
    \<longleftrightarrow> read_elements (length (ref_Bytes p)) (ref_Bytes p) = Some [q]"
  using read_header_Bytes [OF assms, of "[]"]
  by (auto simp: ref_DecodePacketErr_def ref_ReadPacket_def split: option.splits list.splits)

definition element :: "packet \<Rightarrow> packet list \<Rightarrow> packet" where
  "element p ks = Packet (ClassType p) (TagType p) (Tag p)
     (if TagType p = TypePrimitive \<and> ClassType p = ClassUniversal
      then universal_value (Tag p) (content p) else VNil)
     (if TagType p = TypePrimitive \<and> ClassType p = ClassUniversal then content p else []) (Some (content p)) ks []"

lemma read_elements_Bytes:
  assumes "p \<noteq> NilPacket" "Tag p < 31" "length (content p) \<le> max_packet_length"
  shows "read_elements (Suc n) (ref_Bytes p @ r) =
    do { ks \<leftarrow> (if TagType p = TypeConstructed then read_elements n (content p) else Some []);
         ps \<leftarrow> read_elements n r;
         Some (element p ks # ps) }"
  by (simp add: read_header_Bytes [OF assms] ref_Bytes_not_Nil [OF assms(1)] element_def)

lemma read_elements_wire:
  assumes "list_all2 (\<lambda>p q. ref_DecodePacketErr (ref_Bytes p) = Inr q \<and> p \<noteq> NilPacket \<and> Tag p < 31) ps qs"
    and "length (concat (map ref_Bytes ps)) \<le> max_packet_length"
  shows "read_elements (length (concat (map ref_Bytes ps))) (concat (map ref_Bytes ps)) = Some qs"
  using assms
proof (induction rule: list_all2_induct)
  case Nil
  then show ?case by simp
next
  case (Cons p ps q qs)
  let ?r = "concat (map ref_Bytes ps)"
  have p: "p \<noteq> NilPacket" "Tag p < 31" "length (content p) \<le> max_packet_length"
    using Cons.hyps(1) Cons.prems length_content [of p] by auto
  obtain n where n: "length (ref_Bytes p) = Suc n"
    using ref_Bytes_Suc [OF p(1)] by blast
  from Cons.hyps(1) have "read_elements (Suc n) (ref_Bytes p @ []) = Some [q]"
    by (simp add: ref_Decode_iff [OF p] n)
  then obtain ks where ks: "q = element p ks"
    "(if TagType p = TypeConstructed then read_elements n (content p) else Some []) = Some ks"
    unfolding read_elements_Bytes [OF p] by (auto split: bind_splits)
  let ?m = "n + length ?r"
  have "(if TagType p = TypeConstructed then read_elements ?m (content p) else Some []) = Some ks"
    using ks(2) by (auto split: if_splits intro: read_elements_mono)
  moreover have "read_elements ?m ?r = Some qs"
    using Cons.IH Cons.prems by (auto intro: read_elements_mono)
  ultimately have "read_elements (Suc ?m) (ref_Bytes p @ ?r) = Some (q # qs)"
    by (simp only: read_elements_Bytes [OF p]) (simp add: ks(1))
  then show ?case by (simp add: n)
qed

text \<open>The two's complement octets of an integer are read back.\<close>

lemma from256_snoc: "from256 (xs @ [c]) = from256 xs * 256 + ord c"
  by (simp add: from256_def)

lemma from256_Cons: "from256 (c # cs) = ord c * 256 ^ length cs + from256 cs"
  by (induction cs rule: rev_induct) (simp_all add: from256_snoc from256_def algebra_simps flip: append_Cons)

lemma ord_less_256: "ord c < 256"
  by simp

lemma from256_less: "from256 cs < 256 ^ length cs"
proof (induction cs rule: rev_induct)
  case Nil
  then show ?case by (simp add: from256_def)
next
  case (snoc c cs)
  then have "from256 cs * 256 + ord c < Suc (from256 cs) * 256" using ord_less_256 [of c] by simp
  also have "\<dots> \<le> 256 ^ length cs * 256" using snoc by (intro mult_le_mono1) simp
  finally show ?case by (simp add: from256_snoc)
qed

lemma length_low_octets [simp]: "length (low_octets n i) = n"
  by (induction n arbitrary: i) simp_all

lemma from256_low_octets: "int (from256 (low_octets n i)) = i mod 256 ^ n"
proof (induction n arbitrary: i)
  case 0
  then show ?case by (simp add: from256_def)
next
  case (Suc n)
  have "i mod 256 ^ Suc n = 256 * (i div 256 mod 256 ^ n) + i mod 256"
    using zmod_zmult2_eq [of "256 ^ n" i 256] by simp
  moreover have "nat (i mod 256) mod 256 = nat (i mod 256)" by (simp add: nat_less_iff)
  ultimately show ?case using Suc.IH [of "i div 256"] by (simp add: from256_snoc)
qed

lemma octets_int_low_octets:
  assumes "- (128 * 256 ^ n) \<le> i" "i < 128 * 256 ^ n"
  shows "octets_int (low_octets (Suc n) i) = i"
proof -
  obtain c cs where l: "low_octets (Suc n) i = c # cs" "length cs = n"
    using length_low_octets [of "Suc n" i] by (metis length_Suc_conv)
  have f: "int (from256 (c # cs)) = i mod 256 ^ Suc n"
    using from256_low_octets [of "Suc n" i] l(1) by simp
  have "128 \<le> ord c \<longleftrightarrow> 128 * 256 ^ n \<le> from256 (c # cs)"
  proof
    assume "128 \<le> ord c"
    then have "128 * 256 ^ n \<le> ord c * 256 ^ n" by (rule mult_le_mono1)
    also have "\<dots> \<le> from256 (c # cs)" by (simp add: from256_Cons l(2))
    finally show "128 * 256 ^ n \<le> from256 (c # cs)" .
  next
    assume a: "128 * 256 ^ n \<le> from256 (c # cs)"
    show "128 \<le> ord c"
    proof (rule ccontr)
      assume "\<not> 128 \<le> ord c"
      then have "Suc (ord c) * 256 ^ n \<le> 128 * 256 ^ n" by (intro mult_le_mono1) simp
      then have "ord c * 256 ^ n + 256 ^ n \<le> 128 * 256 ^ n" by (simp only: mult_Suc add.commute)
      with from256_less [of cs] a show False unfolding from256_Cons l(2) by linarith
    qed
  qed
  also have "\<dots> \<longleftrightarrow> 128 * 256 ^ n \<le> i mod 256 ^ Suc n"
    unfolding f [symmetric]
    using of_nat_le_iff [of "128 * 256 ^ n" "from256 (c # cs)", where 'a = int] by simp
  finally have h: "128 \<le> ord c \<longleftrightarrow> 128 * 256 ^ n \<le> i mod 256 ^ Suc n" .
  show ?thesis
  proof (cases "i < 0")
    case True
    have "0 \<le> i + 256 ^ Suc n" "i + 256 ^ Suc n < 256 ^ Suc n" using True assms(1) by simp_all
    from mod_pos_pos_trivial [OF this] have "i mod 256 ^ Suc n = i + 256 ^ Suc n"
      by (simp only: mod_add_self2)
    with True assms h f l show ?thesis by (simp add: octets_int_def)
  next
    case False
    with assms have "i mod 256 ^ Suc n = i" by simp
    with assms h f l show ?thesis by (simp add: octets_int_def)
  qed
qed

lemma octets_int_int_octets: "octets_int (int_octets i) = i"
proof -
  let ?m = "nat (if i < 0 then - i - 1 else i)"
  obtain n where n: "int_width i = Suc n"
    by (metis int_width_def base256.simps length_append_singleton length_Cons)
  have "?m * 2 < 256 ^ Suc n"
    using from256_less [of "base256 (?m * 2)"] n by (simp add: from256_base256 int_width_def)
  then have "?m < 128 * 256 ^ n" by simp
  then have "- (128 * 256 ^ n) \<le> i" "i < 128 * 256 ^ n"
    by (auto simp: nat_less_iff split: if_splits)
  then show ?thesis unfolding int_octets_def n by (rule octets_int_low_octets)
qed

lemma length_int_octets:
  assumes "- (2 ^ 63) \<le> i" "i < 2 ^ 63"
  shows "length (int_octets i) \<le> 8"
proof -
  have "nat (if i < 0 then - i - 1 else i) * 2 < 256 ^ Suc 7" using assms by auto
  then show ?thesis using length_base256 [of _ 7] by (simp add: int_octets_def int_width_def)
qed

lemma parsed_int_ref: "parsed_int ref_ber d = octets_int64 d"
  by (simp add: parsed_int_def ref_ber_def ref_ParseInt64_def octets_int64_def)

lemma ref_Decode_element:
  assumes "g < 31" "length d \<le> max_packet_length"
  shows "ref_DecodePacketErr (ref_Bytes (Packet c TypePrimitive g v b (Some d) cs ds))
    = Inr (element (Packet c TypePrimitive g v b (Some d) cs ds) [])"
proof -
  let ?p = "Packet c TypePrimitive g v b (Some d) cs ds"
  have p: "?p \<noteq> NilPacket" "Tag ?p < 31" "length (content ?p) \<le> max_packet_length"
    using assms by (simp_all add: content_def)
  obtain n where n: "length (ref_Bytes ?p) = Suc n"
    using ref_Bytes_Suc [OF p(1)] by blast
  have "read_elements (Suc n) (ref_Bytes ?p @ []) = Some [element ?p []]"
    by (simp only: read_elements_Bytes [OF p]) (cases n; simp)
  then show ?thesis by (simp only: ref_Decode_iff [OF p] n append_Nil2)
qed

lemma other_bytes_ref:
  assumes "g < 31" "length d \<le> max_packet_length" "c \<noteq> ClassUniversal"
  shows "other_bytes ref_ber c g d = []"
  using ref_Decode_element [OF assms(1,2), of c VNil "[]" "[]" "[]"] assms(3)
  by (simp add: other_bytes_def ref_ber_def element_def)

lemma ref_Decode_primitive:
  assumes "g < 31" "length d \<le> max_packet_length"
    and "c \<noteq> ClassUniversal \<or> g \<in> {TagBoolean, TagInteger, TagOctetString, TagEnumerated}"
  shows "ref_DecodePacketErr (ref_Bytes (Packet c TypePrimitive g v b (Some d) cs ds))
    = Inr (primitive_packet ref_ber c g d)"
  unfolding ref_Decode_element [OF assms(1,2)] using assms(3) other_bytes_ref [OF assms(1,2)]
  by (auto simp: element_def content_def primitive_packet_def decoded_value_def universal_value_def parsed_int_ref)

lemma ref_Decode_constructed:
  assumes "g < 31" "length d \<le> max_packet_length" "d = concat (map ref_Bytes ks)"
    and "list_all2 (\<lambda>p q. ref_DecodePacketErr (ref_Bytes p) = Inr q \<and> p \<noteq> NilPacket \<and> Tag p < 31) ks ks'"
  shows "ref_DecodePacketErr (ref_Bytes (Packet c TypeConstructed g v b (Some d) cs ds))
    = Inr (Packet c TypeConstructed g VNil [] (Some d) ks' [])"
proof -
  let ?p = "Packet c TypeConstructed g v b (Some d) cs ds"
  have p: "?p \<noteq> NilPacket" "Tag ?p < 31" "length (content ?p) \<le> max_packet_length"
    using assms by (simp_all add: content_def)
  obtain n where n: "length (ref_Bytes ?p) = Suc n"
    using ref_Bytes_Suc [OF p(1)] by blast
  have "read_elements (length d) d = Some ks'"
    using read_elements_wire [OF assms(4)] assms(2,3) by simp
  moreover have "length d \<le> n" using length_content [OF p(1)] n by (simp add: content_def del: ref_Bytes.simps)
  ultimately have "read_elements n (content ?p) = Some ks'"
    by (auto simp: content_def intro: read_elements_mono)
  then have "read_elements (Suc n) (ref_Bytes ?p @ []) = Some [element ?p ks']"
    by (simp only: read_elements_Bytes [OF p]) (cases n; simp)
  then show ?thesis
    by (simp only: ref_Decode_iff [OF p] n append_Nil2) (simp add: element_def content_def)
qed

lemma octets_int_bool: "octets_int [octet (if x then 255 else 0)] \<noteq> 0 \<longleftrightarrow> x"
  "octets_int [octet (if x then 1 else 0)] \<noteq> 0 \<longleftrightarrow> x"
  by (simp_all add: octets_int_def from256_def)

interpretation ref_wire: ber_wire ref_ber
proof
  fix k c t g v b d cs ds
  assume "k \<noteq> NilPacket"
  then show "ber_AppendChild ref_ber (Packet c t g v b (Some d) cs ds) k
      = Some (Packet c t g v b (Some (d @ ber_Bytes ref_ber k)) (cs @ [k]) ds)"
    by (simp add: ref_ber_def)
next
  fix c t g ds
  show "ber_Encode ref_ber c t g VNil ds = Packet c t g VNil [] (Some []) [] ds"
    by (simp add: ref_ber_def ref_new_def)
next
  fix t s ds
  show "ber_Encode ref_ber ClassUniversal t TagOctetString (VString s) ds
      = Packet ClassUniversal t TagOctetString (VString s) [] (Some s) [] ds"
    by (simp add: ref_ber_def ref_new_def)
next
  fix d :: bytes
  assume "length d \<le> 8"
  then show "ber_ParseInt64 ref_ber d = Inr (octets_int d)" by (simp add: ref_ber_def ref_ParseInt64_def)
next
  fix i c t g ds
  assume "- (2 ^ 63) \<le> i" "i < (2 :: int) ^ 63"
  then have "length (int_octets i) \<le> 8" by (rule length_int_octets)
  then show "\<exists>d. ber_NewInteger ref_ber c t g (VInt64 i) ds = Packet c t g (VInt64 i) [] (Some d) [] ds
      \<and> ber_ParseInt64 ref_ber d = Inr i \<and> length d \<le> 8"
    by (simp add: ref_ber_def ref_new_def ref_ParseInt64_def octets_int_int_octets)
next
  fix c t g x ds
  show "\<exists>d i. ber_NewBoolean ref_ber c t g x ds = Packet c t g (VBool x) [] (Some d) [] ds
      \<and> ber_ParseInt64 ref_ber d = Inr i \<and> (i \<noteq> 0 \<longleftrightarrow> x) \<and> length d = 1"
    using octets_int_bool(2) [of x] by (simp add: ref_ber_def ref_ParseInt64_def)
  show "\<exists>d i. ber_NewLDAPBoolean ref_ber c t g x ds = Packet c t g (VBool x) [] (Some d) [] ds
      \<and> ber_ParseInt64 ref_ber d = Inr i \<and> (i \<noteq> 0 \<longleftrightarrow> x) \<and> length d = 1"
    using octets_int_bool(1) [of x] by (simp add: ref_ber_def ref_new_def ref_ParseInt64_def)
next
  fix c t g v b d cs ds
  show "length d \<le> length (ber_Bytes ref_ber (Packet c t g v b (Some d) cs ds))"
    by (simp add: ref_ber_def)
next
  fix c v b cs ds and g :: nat and d :: bytes
  assume "g < 31" "c \<noteq> ClassUniversal \<or> g \<in> {TagBoolean, TagInteger, TagOctetString, TagEnumerated}"
    "length d \<le> max_packet_length"
  from ref_Decode_primitive [OF this(1,3,2)]
  show "ber_DecodePacketErr ref_ber (ber_Bytes ref_ber (Packet c TypePrimitive g v b (Some d) cs ds))
      = Inr (primitive_packet ref_ber c g d)"
    by (simp add: ref_ber_def)
next
  fix ks ks' d c v b cs ds and g :: nat
  assume a: "g < 31" "list_all2 (wire ref_ber) ks ks'" "d = concat (map (ber_Bytes ref_ber) ks)"
    "length d \<le> max_packet_length"
  have "list_all2 (\<lambda>p q. ref_DecodePacketErr (ref_Bytes p) = Inr q \<and> p \<noteq> NilPacket \<and> Tag p < 31) ks ks'"
    by (rule list_all2_mono [OF a(2)]) (simp add: wire_def ref_ber_def)
  from ref_Decode_constructed [OF a(1,4) _ this] a(3)
  show "ber_DecodePacketErr ref_ber (ber_Bytes ref_ber (Packet c TypeConstructed g v b (Some d) cs ds))
      = Inr (Packet c TypeConstructed g VNil [] (Some d) ks' [])"
    by (simp add: ref_ber_def)
qed

end
