(* ===== verification/Control_Codec.thy ===== *)
theory Control_Codec
  imports LDAP_Control Ber_Wire
begin

text \<open>
  What the control codec guarantees: when a list of controls can be encoded, which controls survive
  the network, and on which packets \<^verbatim>\<open>DecodeControl\<close> panics.
\<close>

section \<open>Encoding succeeds\<close>

text \<open>The controls whose \<^verbatim>\<open>Encode\<close> returns a packet; the others return nil.\<close>

fun encodable :: "control \<Rightarrow> bool" where
  "encodable (ControlVChuPasswordMustChange _) = False"
| "encodable (ControlVChuPasswordWarning _) = False"
| "encodable (ControlSyncState _ _ _ _) = False"
| "encodable (ControlSyncDone _ _ _) = False"
| "encodable (ControlSyncInfo _ _ _ _ _ _) = False"
| "encodable _ = True"

definition usable :: "packet \<Rightarrow> bool" where
  "usable p \<longleftrightarrow> p \<noteq> NilPacket \<and> Data p \<noteq> None"

lemma usable_Data_Write: "usable p \<Longrightarrow> \<exists>p'. Data_Write s p = Some p' \<and> usable p'"
  by (cases p) (auto simp: usable_def Data_Write_def)

lemma usable_set_Value [simp]: "usable (set_Value v p) \<longleftrightarrow> usable p"
  by (simp add: usable_def)

context ber_library
begin

lemma usable_new [simp]:
  "usable (ber_Encode B c t g v ds)" "usable (ber_NewString B c t g s ds)"
  "usable (ber_NewBoolean B c t g x ds)" "usable (ber_NewLDAPBoolean B c t g x ds)"
  "usable (new_Control B)" "usable (new_sequence B ds)" "usable (new_value B ds)" "usable (new_type B ty)"
  by (simp_all add: usable_def new_Control_def new_sequence_def new_value_def new_type_def)

lemma usable_NewInteger [simp]: "integer_value v \<Longrightarrow> usable (ber_NewInteger B c t g v ds)"
  by (simp add: usable_def)

lemma usable_criticality [simp]: "list_all usable (criticality_packets B crit)"
  by (simp add: criticality_packets_def)

lemma usable_appendChildren:
  "usable p \<Longrightarrow> list_all usable ks \<Longrightarrow> \<exists>p'. appendChildren B p ks = Some p' \<and> usable p'"
  using appendChildren_grown [of p ks] by (auto simp: usable_def grown_def list_all_iff)

lemma usable_AppendChild:
  "usable p \<Longrightarrow> usable k \<Longrightarrow> \<exists>p'. ber_AppendChild B p k = Some p' \<and> usable p'"
  using AppendChild_grown [of p k] by (auto simp: usable_def grown_def)

lemma usable_bind:
  assumes "\<exists>x. m = Some x \<and> usable x" "\<And>x. usable x \<Longrightarrow> \<exists>y. f x = Some y \<and> usable y"
  shows "\<exists>y. m \<bind> f = Some y \<and> usable y"
  using assms by auto

lemma usable_SortKey_packet: "\<exists>p. SortKey_packet B f = Some p \<and> usable p"
  unfolding SortKey_packet_def by (rule usable_appendChildren) simp_all

lemma usable_SortKey_packets: "usable seqs \<Longrightarrow> \<exists>p. SortKey_packets B seqs keys = Some p \<and> usable p"
proof (induction keys arbitrary: seqs)
  case Nil
  then show ?case by simp
next
  case (Cons f fs)
  obtain seq where "SortKey_packet B f = Some seq" "usable seq"
    using usable_SortKey_packet by blast
  with Cons usable_AppendChild [of seqs seq] show ?case by auto
qed

lemmas usable_intros = usable_bind usable_appendChildren usable_AppendChild usable_Data_Write
  usable_SortKey_packets

lemma usable_simple_Encode:
  "\<exists>p. ControlString_Encode B ty crit v = Some p \<and> usable p"
  "\<exists>p. type_only_Encode B ty = Some p \<and> usable p"
  "\<exists>p. ControlManageDsaIT_Encode B crit = Some p \<and> usable p"
  "\<exists>p. ControlServerSideSortingResult_Encode B r = Some p \<and> usable p"
  unfolding ControlString_Encode_def type_only_Encode_def ControlManageDsaIT_Encode_def
    ControlServerSideSortingResult_Encode_def
  by (intro usable_intros; simp)+

lemma usable_structured_Encode:
  "\<exists>p. ControlPaging_Encode B pagingSize cookie = Some p \<and> usable p"
  "\<exists>p. ControlMicrosoftSDFlags_Encode B crit w = Some p \<and> usable p"
  "\<exists>p. ControlServerSideSorting_Encode B keys = Some p \<and> usable p"
  unfolding ControlPaging_Encode_def ControlMicrosoftSDFlags_Encode_def ControlServerSideSorting_Encode_def
  by (intro usable_intros; simp)+

lemma usable_cookie:
  "usable p \<Longrightarrow> \<exists>k. (if s \<noteq> [] then Data_Write s (set_Value (VBytes s) p) else Some p) = Some k \<and> usable k"
  using usable_Data_Write [of "set_Value (VBytes s) p" s] by auto

lemma usable_DirSync_Encode: "\<exists>p. ControlDirSync_Encode B crit flags n cookie = Some p \<and> usable p"
  unfolding ControlDirSync_Encode_def Let_def by (intro usable_intros usable_cookie; simp)

lemma usable_SyncRequest_Encode: "\<exists>p. ControlSyncRequest_Encode B crit mode cookie hint = Some p \<and> usable p"
proof -
  obtain k where "Data_Write cookie (set_Value (VBytes cookie) (new_value B ''Cookie'')) = Some k" "usable k"
    using usable_Data_Write [of "set_Value (VBytes cookie) (new_value B ''Cookie'')" cookie] by auto
  then show ?thesis unfolding ControlSyncRequest_Encode_def Let_def
    by (cases "cookie = []"; simp del: appendChildren.simps; intro usable_intros; simp)
qed

lemma Control_Encode_total: "encodable c \<Longrightarrow> \<exists>p. Control_Encode B c = Some p \<and> usable p"
  by (cases c) (simp_all add: usable_simple_Encode usable_structured_Encode usable_DirSync_Encode
      usable_SyncRequest_Encode)

lemma Control_Encode_nil: "\<not> encodable c \<Longrightarrow> Control_Encode B c = Some NilPacket"
  by (cases c) simp_all

lemma encode_onto_appendChildren:
  assumes "list_all encodable cs"
  shows "encode_onto B p cs = appendChildren B p (map (the \<circ> Control_Encode B) cs)"
  using assms by (induction cs arbitrary: p) (auto dest!: Control_Encode_total split: option.splits)

lemma encode_onto_nil: "\<exists>c \<in> set cs. \<not> encodable c \<Longrightarrow> encode_onto B p cs = None"
proof (induction cs arbitrary: p)
  case Nil
  then show ?case by simp
next
  case (Cons c cs)
  show ?case
  proof (cases "encodable c")
    case True
    then obtain k where "Control_Encode B c = Some k" using Control_Encode_total by blast
    with True Cons show ?thesis by (cases "ber_AppendChild B p k") auto
  next
    case False
    then show ?thesis by (simp add: Control_Encode_nil AppendChild_nil)
  qed
qed

lemma encodeControls_spec:
  "if list_all encodable cs
   then \<exists>p. encodeControls B cs = Some p \<and> ClassType p = ClassContext \<and> TagType p = TypeConstructed
     \<and> Tag p = 0 \<and> map Some (Children p) = map (Control_Encode B) cs
   else encodeControls B cs = None"
proof (cases "list_all encodable cs")
  case True
  let ?e = "ber_Encode B ClassContext TypeConstructed 0 VNil ''Controls''"
  let ?ks = "map (the \<circ> Control_Encode B) cs"
  have enc: "\<forall>c \<in> set cs. \<exists>p. Control_Encode B c = Some p \<and> usable p"
    using True Control_Encode_total by (auto simp: list_all_iff)
  then have "NilPacket \<notin> set ?ks" by (force simp: usable_def)
  then obtain p where "appendChildren B ?e ?ks = Some p" "grown ?e ?ks p"
    using appendChildren_grown [of ?e ?ks] by auto
  moreover have "map Some ?ks = map (Control_Encode B) cs" using enc by auto
  ultimately show ?thesis
    using True by (auto simp: encodeControls_def encode_onto_appendChildren grown_def)
next
  case False
  then show ?thesis by (auto simp: encodeControls_def list_all_iff intro: encode_onto_nil)
qed

end

section \<open>Over the network\<close>

text \<open>The controls that are read back as they were sent.\<close>

fun wire_exact :: "control \<Rightarrow> bool" where
  "wire_exact (ControlString ty crit v) \<longleftrightarrow> ty \<notin> set decoded_types"
| "wire_exact (ControlPaging _ _) \<longleftrightarrow> True"
| "wire_exact (ControlManageDsaIT _) \<longleftrightarrow> True"
| "wire_exact ControlMicrosoftNotification \<longleftrightarrow> True"
| "wire_exact ControlMicrosoftShowDeleted \<longleftrightarrow> True"
| "wire_exact ControlMicrosoftServerLinkTTL \<longleftrightarrow> True"
| "wire_exact ControlSubtreeDelete \<longleftrightarrow> True"
| "wire_exact (ControlDirSync crit flags maxAttrCount _) \<longleftrightarrow>
     crit \<and> - (2 ^ 31) \<le> flags \<and> flags < 2 ^ 31 \<and> - (2 ^ 63) \<le> maxAttrCount \<and> maxAttrCount < 2 ^ 63"
| "wire_exact (ControlServerSideSorting keys) \<longleftrightarrow>
     keys \<noteq> [] \<and> list_all (\<lambda>k. sk_AttributeType k \<noteq> []) keys"
| "wire_exact _ \<longleftrightarrow> False"

text \<open>A control's packet as it arrives: the type, the criticality if it was sent, the value if there is one.\<close>

definition arrived_type :: "string \<Rightarrow> packet" where
  "arrived_type ty = Packet ClassUniversal TypePrimitive TagOctetString (VString ty) ty (Some ty) [] []"

definition arrived_crit :: "bytes \<Rightarrow> packet" where
  "arrived_crit d = Packet ClassUniversal TypePrimitive TagBoolean (VBool True) d (Some d) [] []"

definition arrived_int :: "int \<Rightarrow> bytes \<Rightarrow> packet" where
  "arrived_int i d = Packet ClassUniversal TypePrimitive TagInteger (VInt64 i) d (Some d) [] []"

definition arrived_sequence :: "bytes option \<Rightarrow> packet list \<Rightarrow> packet" where
  "arrived_sequence d ks = Packet ClassUniversal TypeConstructed TagSequence VNil [] d ks []"

definition arrived_control :: "bytes \<Rightarrow> packet list \<Rightarrow> packet" where
  "arrived_control d ks = Packet ClassUniversal TypeConstructed TagSequence VNil [] (Some d) ks []"

abbreviation decodes ::
  "ber \<Rightarrow> uuid_FromBytes \<Rightarrow> (rune \<Rightarrow> bool) \<Rightarrow> packet \<Rightarrow> control \<Rightarrow> bool" where
  "decodes B fromBytes isPrint q c \<equiv> \<exists>q'. DecodeControl B fromBytes isPrint q = Some (q', Inr c)"

lemmas control_parts_simps = control_parts_def describe_child_def nth_child_def deref_def
  arrived_type_def arrived_crit_def arrived_control_def set_child_def

lemma control_parts_arrived:
  "\<exists>q. control_parts (arrived_control d [arrived_type ty]) = Some (q, Inr (ty, False, None))"
  "\<exists>q. control_parts (arrived_control d [arrived_type ty, arrived_crit b]) = Some (q, Inr (ty, True, None))"
  "\<exists>q. control_parts (arrived_control d [arrived_type ty, arrived_type v])
     = Some (q, Inr (ty, False, Some 1)) \<and> Children q ! 1 = set_Description ''Control Value'' (arrived_type v)"
  "\<exists>q. control_parts (arrived_control d [arrived_type ty, arrived_crit b, arrived_type v])
     = Some (q, Inr (ty, True, Some 2)) \<and> Children q ! 2 = set_Description ''Control Value'' (arrived_type v)"
  by (simp_all add: control_parts_simps)

text \<open>Decoding what arrives, in terms of the decoder of the value.\<close>

lemma DecodeControl_parts:
  assumes "control_parts q = Some (q1, Inr (ty, crit, vi))"
    and "decode_value B fb ip ty crit (case vi of None \<Rightarrow> NilPacket | Some i \<Rightarrow> Children q1 ! i)
      = Some (v', Inr c)"
  shows "decodes B fb ip q c"
  using assms by (cases vi) (simp_all add: DecodeControl_def)

lemma decodes_arrived_type:
  "decode_value B fb ip ty False NilPacket = Some (v', Inr c) \<Longrightarrow>
   decodes B fb ip (arrived_control d [arrived_type ty]) c"
  using control_parts_arrived(1) [of d ty] DecodeControl_parts by fastforce

lemma decodes_arrived_crit:
  "decode_value B fb ip ty True NilPacket = Some (v', Inr c) \<Longrightarrow>
   decodes B fb ip (arrived_control d [arrived_type ty, arrived_crit b]) c"
  using control_parts_arrived(2) [of d ty b] DecodeControl_parts by fastforce

lemma decodes_arrived_value:
  assumes "decode_value B fb ip ty False (set_Description ''Control Value'' (arrived_type s)) = Some (v', Inr c)"
  shows "decodes B fb ip (arrived_control d [arrived_type ty, arrived_type s]) c"
proof -
  obtain q where q: "control_parts (arrived_control d [arrived_type ty, arrived_type s])
     = Some (q, Inr (ty, False, Some 1))" "Children q ! 1 = set_Description ''Control Value'' (arrived_type s)"
    using control_parts_arrived(3) [of d ty s] by blast
  show ?thesis by (rule DecodeControl_parts [OF q(1)]) (simp add: q(2) assms del: One_nat_def)
qed

lemma decodes_arrived_crit_value:
  assumes "decode_value B fb ip ty True (set_Description ''Control Value'' (arrived_type s)) = Some (v', Inr c)"
  shows "decodes B fb ip (arrived_control d [arrived_type ty, arrived_crit b, arrived_type s]) c"
proof -
  obtain q where q: "control_parts (arrived_control d [arrived_type ty, arrived_crit b, arrived_type s])
     = Some (q, Inr (ty, True, Some 2))" "Children q ! 2 = set_Description ''Control Value'' (arrived_type s)"
    using control_parts_arrived(4) [of d ty b s] by blast
  show ?thesis by (rule DecodeControl_parts [OF q(1)]) (simp add: q(2) assms)
qed

text \<open>The dispatch on the type.\<close>

lemma decoded_types_rev_distinct: "distinct (rev decoded_types)"
  by (simp add: decoded_types_distinct)

lemmas ControlType_neq = decoded_types_rev_distinct [unfolded decoded_types_def, simplified]

lemma decode_value_types:
  "decode_value B fb ip ControlTypePaging crit v = decode_paging B v"
  "decode_value B fb ip ControlTypeManageDsaIT crit v = Some (v, Inr (ControlManageDsaIT crit))"
  "decode_value B fb ip ControlTypeBeheraPasswordPolicy crit v = decode_behera B v"
  "decode_value B fb ip ControlTypeMicrosoftNotification crit v = Some (v, Inr ControlMicrosoftNotification)"
  "decode_value B fb ip ControlTypeMicrosoftShowDeleted crit v = Some (v, Inr ControlMicrosoftShowDeleted)"
  "decode_value B fb ip ControlTypeMicrosoftServerLinkTTL crit v = Some (v, Inr ControlMicrosoftServerLinkTTL)"
  "decode_value B fb ip ControlTypeSubtreeDelete crit v = Some (v, Inr ControlSubtreeDelete)"
  "decode_value B fb ip ControlTypeServerSideSorting crit v = NewControlServerSideSorting B v"
  "decode_value B fb ip ControlTypeServerSideSortingResult crit v = NewControlServerSideSortingResult B v"
  "decode_value B fb ip ControlTypeDirSync crit v =
     do { v \<leftarrow> extend_Description '' (DirSync)'' v; NewResponseControlDirSync B v }"
  "decode_value B fb ip ControlTypeSyncState crit v =
     decode_sync B '' (Sync State)'' (NewControlSyncState fb) v"
  "decode_value B fb ip ControlTypeSyncDone crit v = decode_sync B '' (Sync Done)'' NewControlSyncDone v"
  "decode_value B fb ip ControlTypeSyncInfo crit v =
     decode_sync B '' (Sync Info)'' (NewControlSyncInfo fb) v"
  by (simp_all add: decode_value_def ControlType_neq NewControlManageDsaIT_def)

lemma decode_value_string:
  "ty \<notin> set decoded_types \<Longrightarrow> decode_value B fb ip ty crit v = decode_string ty crit v"
  by (simp add: decode_value_def decoded_types_def)

text \<open>The bytes of the flags are the two's complement octets of a 32-bit integer.\<close>

lemma digit256: "k \<le> 3 \<Longrightarrow> (f mod 256 ^ 4) div 256 ^ k mod 256 = (f :: int) div 256 ^ k mod 256"
proof -
  assume k: "k \<le> 3"
  then have e: "(256 :: int) ^ 4 = 256 ^ k * 256 ^ (4 - k)" by (simp flip: power_add)
  have "(f mod 256 ^ 4) div 256 ^ k = f div 256 ^ k mod 256 ^ (4 - k)"
    unfolding e by (subst zmod_zmult2_eq) simp_all
  moreover have "(256 :: int) dvd 256 ^ (4 - k)" using k by (intro dvd_power) simp
  ultimately show ?thesis by (simp add: mod_mod_cancel)
qed

lemma PutUint32_octets: "PutUint32 (word_of_int f) = low_octets 4 f"
proof -
  have u: "int (unat (word_of_int f :: 32 word)) = f mod 256 ^ 4" by (simp add: unat_eq_nat_uint uint_word_of_int)
  have "char_of (unat (word_of_int f :: 32 word) div 256 ^ k mod 256) = octet (nat (f div 256 ^ k mod 256))"
    if "k \<le> 3" for k
  proof -
    have "int (unat (word_of_int f :: 32 word) div 256 ^ k mod 256) = f div 256 ^ k mod 256"
      using digit256 [OF that, of f] u by (simp add: zdiv_int zmod_int)
    then have "unat (word_of_int f :: 32 word) div 256 ^ k mod 256 = nat (f div 256 ^ k mod 256)" by linarith
    then show ?thesis by (simp add: octet_def)
  qed
  note digit = this [of 0] this [of 1] this [of 2] this [of 3]
  have "(4 :: nat) = Suc (Suc (Suc (Suc 0)))" by simp
  then have "low_octets 4 f = [octet (nat (f div 256 ^ 3 mod 256)), octet (nat (f div 256 ^ 2 mod 256)),
      octet (nat (f div 256 ^ 1 mod 256)), octet (nat (f div 256 ^ 0 mod 256))]"
    by (simp only: low_octets.simps append.simps) (simp flip: zdiv_zmult2_eq)
  with digit show ?thesis by (simp add: PutUint32_def)
qed

lemma octets_int_PutUint32:
  "- (2 ^ 31) \<le> f \<Longrightarrow> f < 2 ^ 31 \<Longrightarrow> octets_int (PutUint32 (word_of_int f)) = f"
  using octets_int_low_octets [of 3 f] by (simp add: PutUint32_octets del: low_octets.simps)

text \<open>A sort key's element as it arrives.\<close>

definition arrived_key :: "SortKey \<Rightarrow> packet \<Rightarrow> bool" where
  "arrived_key f q \<longleftrightarrow>
     (\<exists>d ms. q = arrived_sequence d ms \<and> ms \<noteq> [] \<and> length ms \<le> 3
       \<and> sort_members ms \<lparr>sk_Reverse = False, sk_AttributeType = [], sk_MatchingRule = []\<rparr> = Some f)"

lemma sort_keys_arrived:
  assumes "list_all2 arrived_key keys qs" "list_all (\<lambda>k. sk_AttributeType k \<noteq> []) keys"
  shows "sort_keys i qs = Some (Inr keys)"
  using assms
proof (induction arbitrary: i rule: list_all2_induct)
  case Nil
  then show ?case by simp
next
  case (Cons f keys q qs)
  then obtain d ms where q: "q = arrived_sequence d ms" "ms \<noteq> []" "length ms \<le> 3"
    "sort_members ms \<lparr>sk_Reverse = False, sk_AttributeType = [], sk_MatchingRule = []\<rparr> = Some f"
    by (auto simp: arrived_key_def)
  then have "\<not> (length ms < 1 \<or> 3 < length ms)" by (cases ms) auto
  with q Cons show ?case by (simp add: deref_def arrived_sequence_def del: One_nat_def)
qed

context ber_wire
begin

lemma sends_octets: "sends B (Packet ClassUniversal TypePrimitive TagOctetString v b (Some s) cs ds) (arrived_type s)"
  using sends_primitive [of TagOctetString ClassUniversal v b s cs ds]
  by (simp add: primitive_packet_def decoded_value_def arrived_type_def)

lemma sends_NewString [simp]:
  "sends B (ber_NewString B ClassUniversal TypePrimitive TagOctetString s ds) (arrived_type s)"
  "sends B (new_type B s) (arrived_type s)"
  by (simp_all add: new_type_def NewString_packet sends_octets)

lemma sends_bool:
  assumes "p = Packet ClassUniversal TypePrimitive TagBoolean (VBool True) [] (Some d) [] ds"
    and "ber_ParseInt64 B d = Inr i" "i \<noteq> 0"
  shows "sends B p (arrived_crit d)"
  using sends_primitive [of TagBoolean ClassUniversal "VBool True" "[]" d "[]" ds] assms
  by (simp add: primitive_packet_def decoded_value_def parsed_int_def arrived_crit_def)

lemma sends_crit:
  "\<exists>d. sends B (ber_NewBoolean B ClassUniversal TypePrimitive TagBoolean True ds) (arrived_crit d)"
  "\<exists>d. sends B (ber_NewLDAPBoolean B ClassUniversal TypePrimitive TagBoolean True ds) (arrived_crit d)"
  using NewBoolean_data [of ClassUniversal TypePrimitive TagBoolean True ds]
    NewLDAPBoolean_data [of ClassUniversal TypePrimitive TagBoolean True ds]
  by (blast intro: sends_bool)+

lemma sends_int:
  assumes "- (2 ^ 63) \<le> i" "i < 2 ^ 63"
  shows "\<exists>d. sends B (ber_NewInteger B ClassUniversal TypePrimitive TagInteger (VInt64 i) ds) (arrived_int i d)"
proof -
  obtain d where d: "ber_NewInteger B ClassUniversal TypePrimitive TagInteger (VInt64 i) ds
      = Packet ClassUniversal TypePrimitive TagInteger (VInt64 i) [] (Some d) [] ds"
    "ber_ParseInt64 B d = Inr i"
    using NewInteger_data [OF assms, of ClassUniversal TypePrimitive TagInteger ds] by blast
  have "sends B (ber_NewInteger B ClassUniversal TypePrimitive TagInteger (VInt64 i) ds) (arrived_int i d)"
    using sends_primitive [of TagInteger ClassUniversal "VInt64 i" "[]" d "[]" ds] d
    by (simp add: primitive_packet_def decoded_value_def parsed_int_def arrived_int_def)
  then show ?thesis ..
qed

lemma control_arrives:
  assumes "appendChildren B (new_Control B) ks = Some p" "list_all2 (sends B) ks ks'"
    and "length (ber_Bytes B p) \<le> max_packet_length" "\<And>d. decodes B fb ip (arrived_control d ks') c"
  shows "\<exists>q. wire B p q \<and> decodes B fb ip q c"
proof -
  have "sends B p (Packet ClassUniversal TypeConstructed TagSequence VNil [] (Data p) ks' [])"
    by (rule sends_constructed [OF assms(2) _ _ assms(1) [unfolded new_Control_def]]) simp_all
  moreover have "Data p = Some (concat (map (ber_Bytes B) ks))"
    using assms(1) sends_not_nil [OF assms(2)] by (auto simp: new_Control_def Encode_nil appendChildren_data)
  ultimately have "wire B p (arrived_control (concat (map (ber_Bytes B) ks)) ks')"
    using assms(3) by (simp add: sends_def arrived_control_def)
  with assms(4) show ?thesis by blast
qed

lemma type_only_arrives:
  assumes "type_only_Encode B ty = Some p" "length (ber_Bytes B p) \<le> max_packet_length"
    and "decode_value B fb ip ty False NilPacket = Some (v', Inr c)"
  shows "\<exists>q. wire B p q \<and> decodes B fb ip q c"
  using control_arrives [OF assms(1) [unfolded type_only_Encode_def] _ assms(2), of "[arrived_type ty]"]
    decodes_arrived_type [OF assms(3)] by simp

lemma ControlManageDsaIT_arrives:
  assumes "ControlManageDsaIT_Encode B crit = Some p" "length (ber_Bytes B p) \<le> max_packet_length"
  shows "\<exists>q. wire B p q \<and> decodes B fb ip q (ControlManageDsaIT crit)"
proof (cases crit)
  case True
  obtain b where b: "sends B (ber_NewBoolean B ClassUniversal TypePrimitive TagBoolean True ''Criticality'')
      (arrived_crit b)" using sends_crit(1) by blast
  have "appendChildren B (new_Control B) [new_type B ControlTypeManageDsaIT,
      ber_NewBoolean B ClassUniversal TypePrimitive TagBoolean True ''Criticality''] = Some p"
    using assms(1) True by (simp only: ControlManageDsaIT_Encode_def criticality_packets_def if_True)
  from control_arrives [OF this _ assms(2), of "[arrived_type ControlTypeManageDsaIT, arrived_crit b]"]
  show ?thesis using decodes_arrived_crit [OF decode_value_types(2)] True b by simp
next
  case False
  then have "type_only_Encode B ControlTypeManageDsaIT = Some p"
    using assms(1) by (simp only: ControlManageDsaIT_Encode_def type_only_Encode_def criticality_packets_def if_False)
  from type_only_arrives [OF this assms(2) decode_value_types(2)] False show ?thesis by simp
qed

lemma ControlString_arrives:
  assumes "ControlString_Encode B ty crit v = Some p" "length (ber_Bytes B p) \<le> max_packet_length"
    and "ty \<notin> set decoded_types"
  shows "\<exists>q. wire B p q \<and> decodes B fb ip q (ControlString ty crit v)"
proof -
  let ?crit = "ber_NewBoolean B ClassUniversal TypePrimitive TagBoolean True ''Criticality''"
  let ?v = "ber_NewString B ClassUniversal TypePrimitive TagOctetString v ''Control Value''"
  obtain b where b: "sends B ?crit (arrived_crit b)" using sends_crit(1) by blast
  have none: "decode_value B fb ip ty c NilPacket = Some (NilPacket, Inr (ControlString ty c []))" for c
    by (simp add: decode_value_string [OF assms(3)] decode_string_def)
  have some: "\<exists>v'. decode_value B fb ip ty c (set_Description ds (arrived_type v)) = Some (v', Inr (ControlString ty c v))"
    for c ds by (simp add: decode_value_string [OF assms(3)] decode_string_def arrived_type_def)
  note enc = assms(1) [unfolded ControlString_Encode_def criticality_packets_def]
  consider "crit" "v = []" | "crit" "v \<noteq> []" | "\<not> crit" "v = []" | "\<not> crit" "v \<noteq> []" by blast
  then show ?thesis
  proof cases
    case 1
    with enc have "appendChildren B (new_Control B) [new_type B ty, ?crit] = Some p" by simp
    from control_arrives [OF this _ assms(2), of "[arrived_type ty, arrived_crit b]"]
    show ?thesis using decodes_arrived_crit [OF none] b 1 by simp
  next
    case 2
    with enc have e: "appendChildren B (new_Control B) [new_type B ty, ?crit, ?v] = Some p" by simp
    obtain v' where v': "decode_value B fb ip ty True (set_Description ''Control Value'' (arrived_type v))
        = Some (v', Inr (ControlString ty True v))"
      using some by blast
    from control_arrives [OF e _ assms(2), of "[arrived_type ty, arrived_crit b, arrived_type v]"]
    show ?thesis using decodes_arrived_crit_value [OF v'] b 2 by simp
  next
    case 3
    with enc have "type_only_Encode B ty = Some p" by (simp add: type_only_Encode_def)
    from type_only_arrives [OF this assms(2) none] 3 show ?thesis by simp
  next
    case 4
    with enc have e: "appendChildren B (new_Control B) [new_type B ty, ?v] = Some p" by simp
    obtain v' where v': "decode_value B fb ip ty False (set_Description ''Control Value'' (arrived_type v))
        = Some (v', Inr (ControlString ty False v))"
      using some by blast
    from control_arrives [OF e _ assms(2), of "[arrived_type ty, arrived_type v]"]
    show ?thesis using decodes_arrived_value [OF v'] 4 by simp
  qed
qed

text \<open>A value that holds an element: it arrives as an octet string with the element's bytes.\<close>

lemma value_packet:
  assumes "ber_AppendChild B (new_value B ds) seq = Some p2" "sends B seq seq'"
  shows "sends B p2 (arrived_type (ber_Bytes B seq))" "length (ber_Bytes B seq) \<le> length (ber_Bytes B p2)"
proof -
  have p2: "p2 = Packet ClassUniversal TypePrimitive TagOctetString VNil [] (Some (ber_Bytes B seq)) [seq] ds"
    using assms by (auto simp: new_value_def Encode_nil AppendChild_data sends_def)
  show "sends B p2 (arrived_type (ber_Bytes B seq))" unfolding p2 by (rule sends_octets)
  show "length (ber_Bytes B seq) \<le> length (ber_Bytes B p2)" unfolding p2 by (rule Bytes_length)
qed

lemma value_element:
  assumes "appendChildren B (new_Control B) ks = Some p" "list_all2 (sends B) ks ks'"
    and "length (ber_Bytes B p) \<le> max_packet_length" "k \<in> set ks"
    and "length (ber_Bytes B seq) \<le> length (ber_Bytes B k)" "sends B seq seq'"
  shows "ber_DecodePacketErr B (ber_Bytes B seq) = Inr seq'"
  using child_length [OF assms(1) [unfolded new_Control_def] sends_not_nil [OF assms(2)] assms(4)] assms(3,5,6)
  by (simp add: sends_def wire_def)

lemma unpack_arrived:
  assumes "ber_DecodePacketErr B s = Inr seq" "seq \<noteq> NilPacket"
  shows "unpack_value B (set_Description ds (arrived_type s)) =
    Some (Packet ClassUniversal TypePrimitive TagOctetString VNil s (Some (ber_Bytes B seq)) [seq] ds, Inr ())"
  using assms by (simp add: unpack_value_def arrived_type_def AppendChild_data)

lemma extend_arrived:
  "extend_Description x (set_Description ds (arrived_type s)) = Some (set_Description (ds @ x) (arrived_type s))"
  by (simp add: extend_Description_def arrived_type_def deref_def)

lemma set_Description_arrived [simp]: "set_Description ds (arrived_type s) \<noteq> NilPacket"
  by (simp add: arrived_type_def)

lemma sends_sequence:
  "list_all2 (sends B) ks ks' \<Longrightarrow> appendChildren B (new_sequence B ds) ks = Some seq \<Longrightarrow>
   sends B seq (arrived_sequence (Data seq) ks')"
  unfolding arrived_sequence_def by (rule sends_constructed) (simp_all add: new_sequence_def)

lemma decode_paging_arrived:
  assumes "ber_DecodePacketErr B s = Inr (arrived_sequence d [arrived_int n x, arrived_type ck])"
  shows "\<exists>v'. decode_paging B (set_Description ds (arrived_type s))
    = Some (v', Inr (ControlPaging (word_of_int n) ck))"
  using unpack_arrived [OF assms]
  by (simp add: decode_paging_def extend_arrived arrived_sequence_def)
    (simp add: paging_sequence_def deref_def describe_child_def nth_child_def set_child_def arrived_int_def arrived_type_def)

lemma Data_Write_cookie:
  "Data_Write ck (set_Value (VBytes ck) (new_value B ds))
   = Some (Packet ClassUniversal TypePrimitive TagOctetString (VBytes ck) [] (Some ck) [] ds)"
  by (simp add: Data_Write_def new_value_def Encode_nil)

lemma ControlPaging_arrives:
  assumes "ControlPaging_Encode B w ck = Some p" "length (ber_Bytes B p) \<le> max_packet_length"
  shows "\<exists>q. wire B p q \<and> decodes B fb ip q (ControlPaging w ck)"
proof -
  let ?n = "ber_NewInteger B ClassUniversal TypePrimitive TagInteger (VInt64 (uint w)) ''Paging Size''"
  let ?ck = "Packet ClassUniversal TypePrimitive TagOctetString (VBytes ck) [] (Some ck) [] ''Cookie''"
  obtain seq p2 where seq: "appendChildren B (new_sequence B ''Search Control Value'') [?n, ?ck] = Some seq"
    and p2: "ber_AppendChild B (new_value B ''Control Value (Paging)'') seq = Some p2"
    and p: "appendChildren B (new_Control B) [new_type B ControlTypePaging, p2] = Some p"
    using assms(1) by (auto simp only: ControlPaging_Encode_def Data_Write_cookie bind_eq_Some_conv option.inject)
  have "- (2 ^ 63) \<le> uint w" by (rule order.trans [OF _ uint_ge_0]) simp
  moreover have "uint w < 2 ^ 63" using uint_bounded [of w] by simp
  ultimately obtain d where d: "sends B ?n (arrived_int (uint w) d)" using sends_int by blast
  have sseq: "sends B seq (arrived_sequence (Data seq) [arrived_int (uint w) d, arrived_type ck])"
    by (rule sends_sequence [OF _ seq]) (simp add: d sends_octets)
  note v = value_packet [OF p2 sseq]
  have ks: "list_all2 (sends B) [new_type B ControlTypePaging, p2]
      [arrived_type ControlTypePaging, arrived_type (ber_Bytes B seq)]" by (simp add: v(1))
  have "ber_DecodePacketErr B (ber_Bytes B seq)
      = Inr (arrived_sequence (Data seq) [arrived_int (uint w) d, arrived_type ck])"
    by (rule value_element [OF p ks assms(2) _ v(2) sseq]) simp
  from decode_paging_arrived [OF this] obtain v' where
    "decode_paging B (set_Description ''Control Value'' (arrived_type (ber_Bytes B seq)))
      = Some (v', Inr (ControlPaging w ck))" by (force simp: word_of_int_uint)
  then have "decode_value B fb ip ControlTypePaging False
      (set_Description ''Control Value'' (arrived_type (ber_Bytes B seq))) = Some (v', Inr (ControlPaging w ck))"
    by (simp add: decode_value_types)
  then show ?thesis by (intro control_arrives [OF p ks assms(2)] decodes_arrived_value)
qed

lemma DirSync_cookie:
  "(if ck \<noteq> [] then Data_Write ck (set_Value (VBytes ck) (ber_Encode B ClassUniversal TypePrimitive TagOctetString (VString []) ds))
    else Some (ber_Encode B ClassUniversal TypePrimitive TagOctetString (VString []) ds))
   = Some (Packet ClassUniversal TypePrimitive TagOctetString (if ck \<noteq> [] then VBytes ck else VString []) []
       (Some ck) [] ds)"
  by (simp add: Data_Write_def Encode_octets)

lemma DirSync_flags:
  "Data_Write s (set_Value v (ber_Encode B ClassUniversal TypePrimitive TagInteger VNil ds))
   = Some (Packet ClassUniversal TypePrimitive TagInteger v [] (Some s) [] ds)"
  by (simp add: Data_Write_def Encode_nil)

lemma sends_flags:
  assumes "- (2 ^ 31) \<le> f" "f < 2 ^ 31"
  shows "sends B (Packet ClassUniversal TypePrimitive TagInteger v [] (Some (PutUint32 (word_of_int f))) [] ds)
    (arrived_int f (PutUint32 (word_of_int f)))"
proof -
  have "length (PutUint32 (word_of_int f)) \<le> 8" by (simp add: PutUint32_def)
  then have "parsed_int B (PutUint32 (word_of_int f)) = f"
    by (simp add: parsed_int_def ParseInt64_octets octets_int_PutUint32 [OF assms])
  then show ?thesis
    using sends_primitive [of TagInteger ClassUniversal v "[]" "PutUint32 (word_of_int f)" "[]" ds]
    by (simp add: primitive_packet_def decoded_value_def arrived_int_def)
qed

lemma decode_DirSync_arrived:
  assumes "ber_DecodePacketErr B s = Inr (arrived_sequence d [arrived_int f x, arrived_int n y, arrived_type ck])"
  shows "\<exists>v'. decode_value B fb ip ControlTypeDirSync crit (set_Description ds (arrived_type s))
    = Some (v', Inr (ControlDirSync True f n ck))"
  using unpack_arrived [OF assms]
  by (simp add: decode_value_types NewResponseControlDirSync_def extend_arrived arrived_sequence_def deref_def)
    (simp add: deref_def describe_child_def nth_child_def set_child_def arrived_int_def arrived_type_def)

lemma ControlDirSync_arrives:
  assumes "ControlDirSync_Encode B True f n ck = Some p" "length (ber_Bytes B p) \<le> max_packet_length"
    and f: "- (2 ^ 31) \<le> f" "f < 2 ^ 31" and n: "- (2 ^ 63) \<le> n" "n < 2 ^ 63"
  shows "\<exists>q. wire B p q \<and> decodes B fb ip q (ControlDirSync True f n ck)"
proof -
  let ?f = "Packet ClassUniversal TypePrimitive TagInteger (VInt64 f) [] (Some (PutUint32 (word_of_int f))) [] ''Flags''"
  let ?n = "ber_NewInteger B ClassUniversal TypePrimitive TagInteger (VInt64 n) ''MaxAttrCount''"
  let ?ck = "Packet ClassUniversal TypePrimitive TagOctetString (if ck \<noteq> [] then VBytes ck else VString []) []
    (Some ck) [] ''Cookie''"
  let ?crit = "ber_NewLDAPBoolean B ClassUniversal TypePrimitive TagBoolean True ''Criticality''"
  obtain seq val where seq: "appendChildren B (new_sequence B ''DirSync Control Value'') [?f, ?n, ?ck] = Some seq"
    and val: "ber_AppendChild B (new_value B ''Control Value (DirSync)'') seq = Some val"
    and p: "appendChildren B (new_Control B) [new_type B ControlTypeDirSync, ?crit, val] = Some p"
    using assms(1)
    by (auto simp only: ControlDirSync_Encode_def Let_def DirSync_cookie DirSync_flags bind_eq_Some_conv option.inject)
  obtain y where y: "sends B ?n (arrived_int n y)" using sends_int [OF n] by blast
  obtain b where b: "sends B ?crit (arrived_crit b)" using sends_crit(2) by blast
  let ?seq = "arrived_sequence (Data seq)
    [arrived_int f (PutUint32 (word_of_int f)), arrived_int n y, arrived_type ck]"
  have sseq: "sends B seq ?seq"
    by (rule sends_sequence [OF _ seq]) (simp add: y sends_octets sends_flags [OF f])
  note v = value_packet [OF val sseq]
  have ks: "list_all2 (sends B) [new_type B ControlTypeDirSync, ?crit, val]
      [arrived_type ControlTypeDirSync, arrived_crit b, arrived_type (ber_Bytes B seq)]" using v(1) b by simp
  have "ber_DecodePacketErr B (ber_Bytes B seq) = Inr ?seq"
    by (rule value_element [OF p ks assms(2) _ v(2) sseq]) simp
  from decode_DirSync_arrived [OF this] obtain v' where
    "decode_value B fb ip ControlTypeDirSync True
      (set_Description ''Control Value'' (arrived_type (ber_Bytes B seq)))
      = Some (v', Inr (ControlDirSync True f n ck))" by blast
  then show ?thesis by (intro control_arrives [OF p ks assms(2)] decodes_arrived_crit_value)
qed

lemma sends_rule:
  "\<exists>b. sends B (ber_NewString B ClassContext TypePrimitive 0 r ds)
     (Packet ClassContext TypePrimitive 0 VNil b (Some r) [] [])"
  using sends_primitive [of 0 ClassContext "VString r" "[]" r "[]" ds]
  by (auto simp: NewString_packet primitive_packet_def)

lemma sends_reverse:
  "\<exists>c b. ord c \<noteq> 0 \<and> sends B (ber_NewBoolean B ClassContext TypePrimitive 1 True ds)
     (Packet ClassContext TypePrimitive 1 VNil b (Some [c]) [] [])"
proof -
  obtain d i where d: "ber_NewBoolean B ClassContext TypePrimitive 1 True ds
      = Packet ClassContext TypePrimitive 1 (VBool True) [] (Some d) [] ds"
    "ber_ParseInt64 B d = Inr i" "i \<noteq> 0" "length d = 1"
    using NewBoolean_data [of ClassContext TypePrimitive 1 True ds] by blast
  then obtain c where c: "d = [c]" by (auto simp: length_Suc_conv)
  with d have "octets_int [c] \<noteq> 0" by (simp add: ParseInt64_octets)
  then have "ord c \<noteq> 0" by (auto simp: octets_int_def from256_def Let_def split: if_splits)
  then show ?thesis
    using sends_primitive [of 1 ClassContext "VBool True" "[]" d "[]" ds] d(1)
    by (auto simp: primitive_packet_def c)
qed

lemma sends_key_members:
  "\<exists>ms. list_all2 (sends B)
      (ber_NewString B ClassUniversal TypePrimitive TagOctetString (sk_AttributeType f) ''attributeType''
        # (if sk_MatchingRule f \<noteq> [] then
             [ber_NewString B ClassContext TypePrimitive 0 (sk_MatchingRule f) ''orderingRule''] else [])
        @ (if sk_Reverse f then
             [ber_NewBoolean B ClassContext TypePrimitive 1 (sk_Reverse f) ''reverseOrder''] else [])) ms
    \<and> ms \<noteq> [] \<and> length ms \<le> 3
    \<and> sort_members ms \<lparr>sk_Reverse = False, sk_AttributeType = [], sk_MatchingRule = []\<rparr> = Some f"
proof -
  obtain c b where c: "ord c \<noteq> 0" "sends B (ber_NewBoolean B ClassContext TypePrimitive 1 True ''reverseOrder'')
     (Packet ClassContext TypePrimitive 1 VNil b (Some [c]) [] [])"
    using sends_reverse by blast
  obtain b' where b': "sends B (ber_NewString B ClassContext TypePrimitive 0 (sk_MatchingRule f) ''orderingRule'')
     (Packet ClassContext TypePrimitive 0 VNil b' (Some (sk_MatchingRule f)) [] [])"
    using sends_rule by blast
  let ?ms = "arrived_type (sk_AttributeType f)
    # (if sk_MatchingRule f \<noteq> [] then
         [Packet ClassContext TypePrimitive 0 VNil b' (Some (sk_MatchingRule f)) [] []] else [])
    @ (if sk_Reverse f then [Packet ClassContext TypePrimitive 1 VNil b (Some [c]) [] []] else [])"
  have "sort_members ?ms \<lparr>sk_Reverse = False, sk_AttributeType = [], sk_MatchingRule = []\<rparr> = Some f"
    using c(1) by (cases f) (auto simp: sort_member_def deref_def arrived_type_def Data_String_def)
  with c(2) show ?thesis
    by (intro exI [of _ ?ms]) (cases "sk_Reverse f"; simp add: b')
qed

lemma sends_SortKey:
  assumes "SortKey_packet B f = Some k"
  shows "\<exists>q. sends B k q \<and> arrived_key f q"
  using sends_key_members [of f] sends_sequence [OF _ assms [unfolded SortKey_packet_def]]
  unfolding arrived_key_def by blast

lemma sends_SortKeys:
  "\<exists>ks qs. SortKey_packets B seqs keys = appendChildren B seqs ks
     \<and> list_all2 (sends B) ks qs \<and> list_all2 arrived_key keys qs"
proof (induction keys arbitrary: seqs)
  case Nil
  then show ?case by (intro exI [of _ "[]"]) simp
next
  case (Cons f keys)
  obtain k where k: "SortKey_packet B f = Some k" "usable k" using usable_SortKey_packet by blast
  then obtain q where q: "sends B k q" "arrived_key f q" using sends_SortKey by blast
  show ?case
  proof (cases "ber_AppendChild B seqs k")
    case None
    from Cons.IH obtain ks qs where "list_all2 (sends B) ks qs" "list_all2 arrived_key keys qs" by blast
    with None k q show ?thesis by (intro exI [of _ "k # ks"] exI [of _ "q # qs"]) simp
  next
    case (Some seqs')
    from Cons.IH [of seqs'] obtain ks qs where "SortKey_packets B seqs' keys = appendChildren B seqs' ks"
      "list_all2 (sends B) ks qs" "list_all2 arrived_key keys qs" by blast
    with Some k q show ?thesis by (intro exI [of _ "k # ks"] exI [of _ "q # qs"]) simp
  qed
qed

lemma ControlServerSideSorting_arrives:
  assumes "ControlServerSideSorting_Encode B keys = Some p" "length (ber_Bytes B p) \<le> max_packet_length"
    and keys: "keys \<noteq> []" "list_all (\<lambda>k. sk_AttributeType k \<noteq> []) keys"
  shows "\<exists>q. wire B p q \<and> decodes B fb ip q (ControlServerSideSorting keys)"
proof -
  obtain ks qs where ks: "SortKey_packets B (new_sequence B ''SortKeyList'') keys
      = appendChildren B (new_sequence B ''SortKeyList'') ks"
    "list_all2 (sends B) ks qs" "list_all2 arrived_key keys qs" using sends_SortKeys by blast
  let ?ty = "ber_NewString B ClassUniversal TypePrimitive TagOctetString ControlTypeServerSideSorting ''Control Type''"
  let ?v = "\<lambda>s. Packet ClassUniversal TypePrimitive TagOctetString (VString s) [] (Some s) [] ''Control Value''"
  obtain seqs where seqs: "appendChildren B (new_sequence B ''SortKeyList'') ks = Some seqs"
    and p: "appendChildren B (new_Control B) [?ty, ?v (ber_Bytes B seqs)] = Some p"
    using assms(1)
    by (auto simp only: ControlServerSideSorting_Encode_def ks(1) Encode_octets bind_eq_Some_conv)
  have sseqs: "sends B seqs (arrived_sequence (Data seqs) qs)" by (rule sends_sequence [OF ks(2) seqs])
  have l: "list_all2 (sends B) [?ty, ?v (ber_Bytes B seqs)]
      [arrived_type ControlTypeServerSideSorting, arrived_type (ber_Bytes B seqs)]" by (simp add: sends_octets)
  have d: "ber_DecodePacketErr B (ber_Bytes B seqs) = Inr (arrived_sequence (Data seqs) qs)"
    by (rule value_element [OF p l assms(2), of "?v (ber_Bytes B seqs)", OF _ Bytes_length sseqs]) simp
  have "qs \<noteq> []" using keys(1) ks(3) by auto
  with d sort_keys_arrived [OF ks(3) keys(2)]
  have "\<exists>v'. decode_value B fb ip ControlTypeServerSideSorting False
      (set_Description ''Control Value'' (arrived_type (ber_Bytes B seqs)))
      = Some (v', Inr (ControlServerSideSorting keys))"
    by (simp add: decode_value_types NewControlServerSideSorting_def arrived_type_def arrived_sequence_def deref_def)
  then obtain v' where "decode_value B fb ip ControlTypeServerSideSorting False
      (set_Description ''Control Value'' (arrived_type (ber_Bytes B seqs)))
      = Some (v', Inr (ControlServerSideSorting keys))" by blast
  then show ?thesis by (intro control_arrives [OF p l assms(2)] decodes_arrived_value)
qed

lemma Control_arrives:
  assumes "wire_exact c" "Control_Encode B c = Some p" "length (ber_Bytes B p) \<le> max_packet_length"
  shows "\<exists>q. wire B p q \<and> decodes B fb ip q c"
  using assms
  by (cases c) (auto intro: ControlString_arrives ControlPaging_arrives ControlManageDsaIT_arrives
      ControlDirSync_arrives ControlServerSideSorting_arrives type_only_arrives [OF _ _ decode_value_types(4)]
      type_only_arrives [OF _ _ decode_value_types(5)] type_only_arrives [OF _ _ decode_value_types(6)]
      type_only_arrives [OF _ _ decode_value_types(7)])

end

section \<open>The members of a sync value\<close>

text \<open>Of several members with the same tag the last one counts.\<close>

definition sync_flag :: "packet \<Rightarrow> bool option list" where
  "sync_flag k = (if Tag k = TagBoolean then (case Value k of VBool b \<Rightarrow> [Some b] | _ \<Rightarrow> []) else [])"

definition with_tag :: "nat \<Rightarrow> packet list \<Rightarrow> packet list" where
  "with_tag g ks = filter (\<lambda>k. Tag k = g) ks"

lemma with_tag_simps [simp]:
  "with_tag g [] = []" "with_tag g (k # ks) = (if Tag k = g then k # with_tag g ks else with_tag g ks)"
  by (simp_all add: with_tag_def)

lemma sync_members_last:
  "NilPacket \<notin> set ks \<Longrightarrow> sync_members ks (cookie, flag, uuidSet) =
     Some (last (cookie # map ByteValue (with_tag TagOctetString ks)),
           last (flag # concat (map sync_flag (with_tag TagBoolean ks))),
           last (uuidSet # with_tag TagSet ks))"
proof (induction ks arbitrary: cookie flag uuidSet)
  case Nil
  then show ?case by simp
next
  case (Cons k ks)
  then have k: "deref k = Some k" and ks: "NilPacket \<notin> set ks" by (auto simp: deref_def)
  show ?case
  proof (cases "Tag k = TagBoolean")
    case True
    then show ?thesis by (cases "Value k") (simp_all add: k Cons.IH [OF ks] sync_flag_def)
  next
    case False
    then show ?thesis by (simp add: k Cons.IH [OF ks])
  qed
qed

lemma with_tag_mset:
  assumes "mset ks = mset ks'" "length (with_tag g ks) \<le> 1"
  shows "with_tag g ks = with_tag g ks'"
proof -
  have m: "mset (with_tag g ks) = mset (with_tag g ks')" using assms(1) by (simp add: with_tag_def)
  then have "length (with_tag g ks) = length (with_tag g ks')" by (rule mset_eq_length)
  with m assms(2) show ?thesis
    by (cases "with_tag g ks"; cases "with_tag g ks'") auto
qed

section \<open>When decoding panics\<close>

text \<open>What the library's decoder makes: no nil pointer anywhere, and every buffer is there.\<close>

fun wf_packet :: "packet \<Rightarrow> bool" where
  "wf_packet NilPacket = False"
| "wf_packet (Packet c t g v b d cs ds) = (d \<noteq> None \<and> list_all wf_packet cs)"

lemma wf_packet_sel:
  assumes "wf_packet p"
  shows "p \<noteq> NilPacket" "deref p = Some p" "\<exists>d. Data p = Some d" "k \<in> set (Children p) \<Longrightarrow> wf_packet k"
    "i < length (Children p) \<Longrightarrow> wf_packet (Children p ! i)"
  using assms by (cases p; auto simp: deref_def list_all_iff)+

lemma wf_set_Description [simp]: "wf_packet (set_Description ds p) = wf_packet p"
  by (cases p) auto

lemma wf_set_child: "wf_packet p \<Longrightarrow> wf_packet k \<Longrightarrow> wf_packet (set_child i k p)"
  using set_update_subset_insert [of "Children p" i k] by (cases p) (auto simp: set_child_def list_all_iff)

lemma wf_describe_child:
  assumes "wf_packet p" "i < length (Children p)"
  shows "\<exists>p'. describe_child i ds p = Some p' \<and> wf_packet p' \<and> length (Children p') = length (Children p)"
  using wf_packet_sel(5) [OF assms] assms
  by (auto simp: describe_child_def nth_child_def wf_packet_sel(2) intro!: wf_set_child)

text \<open>Reading the parts of a control never panics on such a packet.\<close>

lemma wf_control_parts:
  assumes "wf_packet p"
  shows "\<exists>q r. control_parts p = Some (q, r) \<and> wf_packet q
    \<and> (\<forall>ty crit i. r = Inr (ty, crit, Some i) \<longrightarrow> i < length (Children q))"
proof -
  consider "length (Children p) = 0" | "length (Children p) = 1" | "length (Children p) = 2"
    | "length (Children p) = 3" | "3 < length (Children p)" by linarith
  then show ?thesis
  proof cases
    case 2
    obtain p1 where "describe_child 0 type_description p = Some p1" "wf_packet p1"
      using wf_describe_child [OF assms, of 0] 2 by auto
    with 2 assms show ?thesis by (simp add: control_parts_def wf_packet_sel(2) [OF assms] split: ber_value.splits)
  next
    case 3
    obtain p1 where p1: "describe_child 0 type_description p = Some p1" "wf_packet p1" "length (Children p1) = 2"
      using wf_describe_child [OF assms, of 0] 3 by auto
    have k1: "nth_child p1 1 = Some (Children p1 ! 1)" "deref (Children p1 ! 1) = Some (Children p1 ! 1)"
      using p1(3) wf_packet_sel(2) [OF wf_packet_sel(5) [OF p1(2)], of 1] by (simp_all add: nth_child_def)
    obtain pc pv where "describe_child 1 ''Criticality'' p1 = Some pc" "wf_packet pc"
      "describe_child 1 ''Control Value'' p1 = Some pv" "wf_packet pv" "length (Children pv) = 2"
      using wf_describe_child [OF p1(2), of 1] p1(3) by (metis one_less_numeral_iff semiring_norm(76))
    with 3 assms p1 k1 show ?thesis
      by (simp add: control_parts_def wf_packet_sel(2) [OF assms] Let_def split: ber_value.splits option.splits)
  next
    case 4
    obtain p1 where p1: "describe_child 0 type_description p = Some p1" "wf_packet p1" "length (Children p1) = 3"
      using wf_describe_child [OF assms, of 0] 4 by auto
    obtain p2 where p2: "describe_child 1 ''Criticality'' p1 = Some p2" "wf_packet p2" "length (Children p2) = 3"
      using wf_describe_child [OF p1(2), of 1] p1(3) by auto
    obtain p3 where "describe_child 2 ''Control Value'' p2 = Some p3" "wf_packet p3" "length (Children p3) = 3"
      using wf_describe_child [OF p2(2), of 2] p2(3) by auto
    with 4 assms p1 p2 show ?thesis
      by (simp add: control_parts_def wf_packet_sel(2) [OF assms] split: ber_value.splits)
  qed (use assms in \<open>simp_all add: control_parts_def wf_packet_sel(2) [OF assms]\<close>)
qed

lemma wf_sort_members: "list_all wf_packet ks \<Longrightarrow> \<exists>key'. sort_members ks key = Some key'"
proof (induction ks arbitrary: key)
  case Nil
  then show ?case by simp
next
  case (Cons k ks)
  then have "wf_packet k" by simp
  then have "\<exists>key'. sort_member k key = Some key'"
    using wf_packet_sel(2,3) [of k] by (auto simp: sort_member_def split: ber_value.splits)
  with Cons show ?case by auto
qed

lemma wf_Children: "wf_packet p \<Longrightarrow> list_all wf_packet (Children p)"
  using wf_packet_sel(4) [of p] by (simp add: list_all_iff)

lemma wf_sort_keys: "list_all wf_packet ks \<Longrightarrow> \<exists>r. sort_keys i ks = Some r"
proof (induction ks arbitrary: i)
  case Nil
  then show ?case by simp
next
  case (Cons k ks)
  then have k: "wf_packet k" by simp
  obtain key where "sort_members (Children k)
      \<lparr>sk_Reverse = False, sk_AttributeType = [], sk_MatchingRule = []\<rparr> = Some key"
    using wf_sort_members [OF wf_Children [OF k]] by blast
  moreover obtain r where "sort_keys (Suc i) ks = Some r" using Cons by fastforce
  ultimately show ?case by (simp add: wf_packet_sel(2) [OF k])
qed

lemma wf_not_nil: "list_all wf_packet ks \<Longrightarrow> NilPacket \<notin> set ks"
  by (auto simp: list_all_iff)

lemma wf_sync_uuids: "list_all wf_packet ks \<Longrightarrow> \<exists>r. sync_uuids fb ks = Some r"
  by (induction ks) (auto simp: wf_packet_sel(2) split: sum.splits)

lemma wf_sync_set:
  assumes "list_all wf_packet ks" "parseSyncMembers ks = Some (cookie, flag, uuidSet)"
  shows "list_all wf_packet (Children uuidSet)"
proof -
  have "uuidSet = last (NilPacket # with_tag TagSet ks)"
    using assms(2) sync_members_last [OF wf_not_nil [OF assms(1)]] by (simp add: parseSyncMembers_def)
  then have "uuidSet = NilPacket \<or> uuidSet \<in> set ks"
    using last_in_set [of "with_tag TagSet ks"] by (auto simp: with_tag_def split: if_splits)
  then show ?thesis using assms(1) by (auto simp: list_all_iff intro: wf_packet_sel(4))
qed

lemma wf_sync_info:
  assumes "wf_packet p"
  shows "\<exists>r. NewControlSyncDone p = Some r" "\<exists>r. NewControlSyncInfo fb p = Some r"
proof -
  note ks = wf_Children [OF assms]
  obtain cookie flag uuidSet where m: "parseSyncMembers (Children p) = Some (cookie, flag, uuidSet)"
    using sync_members_last [OF wf_not_nil [OF ks]] by (simp add: parseSyncMembers_def)
  obtain r where r: "sync_uuids fb (Children uuidSet) = Some r"
    using wf_sync_uuids [OF wf_sync_set [OF ks m]] by blast
  show "\<exists>r. NewControlSyncDone p = Some r"
    by (simp add: NewControlSyncDone_def wf_packet_sel(2) [OF assms] m)
  show "\<exists>r. NewControlSyncInfo fb p = Some r"
    by (simp add: NewControlSyncInfo_def wf_packet_sel(2) [OF assms] m r)
qed

lemma wf_paging_sequence:
  assumes "wf_packet seq"
  shows "\<exists>r. paging_sequence seq = Some r"
proof (cases "length (Children seq) < 2")
  case True
  then show ?thesis by (simp add: paging_sequence_def)
next
  case False
  obtain s1 where s1: "describe_child 0 ''Paging Size'' seq = Some s1" "wf_packet s1" "1 < length (Children s1)"
    using wf_describe_child [OF assms, of 0] False by fastforce
  obtain s2 where s2: "describe_child 1 ''Cookie'' s1 = Some s2" "wf_packet s2" "1 < length (Children s2)"
    using wf_describe_child [OF s1(2), of 1] s1(3) by fastforce
  obtain d where d: "Data (Children s2 ! 1) = Some d"
    using wf_packet_sel(3) [OF wf_packet_sel(5) [OF s2(2), of 1]] s2(3) by blast
  show ?thesis using False s1(1) s2(1) d
    by (cases "Value (Children s2 ! 0)") (simp_all add: paging_sequence_def del: One_nat_def)
qed

text \<open>The control types whose decoder panics on some packets from the network, with a value and without.\<close>

definition fragile :: "string \<Rightarrow> bool \<Rightarrow> bool" where
  "fragile ty has_value \<longleftrightarrow>
     ty \<in> {ControlTypeBeheraPasswordPolicy, ControlTypeDirSync, ControlTypeSyncState}
     \<or> \<not> has_value \<and> ty \<in> {ControlTypeServerSideSorting, ControlTypeSyncDone, ControlTypeSyncInfo}"

locale ber_decoder = ber_library +
  assumes Decode_wf: "ber_DecodePacketErr B s = Inr q \<Longrightarrow> wf_packet q"
begin

lemma wf_unpack_value:
  assumes "wf_packet v"
  shows "\<exists>v' r. unpack_value B v = Some (v', r) \<and> wf_packet v'"
proof -
  obtain c t g x b d cs ds where v: "v = Packet c t g x b (Some d) cs ds" "list_all wf_packet cs"
    using assms by (cases v) auto
  have "\<exists>v'. ber_AppendChild B (Packet c t g VNil b (Some []) cs ds) q = Some v' \<and> wf_packet v'"
    if "ber_DecodePacketErr B d = Inr q" for q
    using AppendChild_child [OF wf_packet_sel(1) [OF Decode_wf [OF that]], of c t g VNil b "[]" cs ds]
      Decode_wf [OF that] v(2) by auto
  then show ?thesis using assms v(1) by (auto simp: unpack_value_def split: sum.splits)
qed

lemma wf_decode_paging:
  assumes "v = NilPacket \<or> wf_packet v"
  shows "\<exists>r. decode_paging B v = Some r"
proof (cases "v = NilPacket")
  case True
  then show ?thesis by (simp add: decode_paging_def)
next
  case False
  with assms have v: "wf_packet v" by blast
  have "wf_packet (set_Description (Description v @ '' (Paging)'') v)" using v by simp
  then obtain v1 r where v1: "unpack_value B (set_Description (Description v @ '' (Paging)'') v) = Some (v1, r)"
    "wf_packet v1" using wf_unpack_value by blast
  have "\<exists>s r. deref (Children v1 ! 0) = Some (Children v1 ! 0)
      \<and> paging_sequence (set_Description ''Search Control Value'' (Children v1 ! 0)) = Some (s, r)"
    if "Children v1 \<noteq> []"
  proof -
    have "wf_packet (Children v1 ! 0)" using that v1(2) by (intro wf_packet_sel(5)) auto
    with wf_paging_sequence show ?thesis by (simp add: wf_packet_sel(2))
  qed
  with v1 v show ?thesis
    by (cases r) (auto simp: decode_paging_def extend_Description_def wf_packet_sel(2) False)
qed

lemma wf_sorting_result:
  assumes "v = NilPacket \<or> wf_packet v"
  shows "\<exists>r. NewControlServerSideSortingResult B v = Some r"
proof (cases "v = NilPacket \<or> Children v = []")
  case True
  then show ?thesis by (auto simp: NewControlServerSideSortingResult_def)
next
  case False
  with assms have k: "wf_packet (Children v ! 0)" by (intro wf_packet_sel(5)) auto
  from False wf_packet_sel(2,3) [OF k] show ?thesis
    by (auto simp: NewControlServerSideSortingResult_def split: sum.splits option.splits)
qed

lemma wf_decode_value:
  assumes "v = NilPacket \<or> wf_packet v" "\<not> fragile ty (v \<noteq> NilPacket)"
  shows "\<exists>r. decode_value B fb ip ty crit v = Some r"
proof -
  have ty: "ty \<notin> {ControlTypeBeheraPasswordPolicy, ControlTypeDirSync, ControlTypeSyncState}"
    using assms(2) by (simp add: fragile_def)
  have sync: "\<exists>r. decode_sync B ds new v = Some r" if "wf_packet v" "\<And>q. wf_packet q \<Longrightarrow> \<exists>r. new q = Some r" for ds new
    using that wf_packet_sel(2,3) [OF that(1)]
    by (fastforce simp: decode_sync_def extend_Description_def split: sum.splits dest!: Decode_wf)
  have sort: "\<exists>r. NewControlServerSideSorting B v = Some r" if v: "wf_packet v"
  proof -
    obtain d where d: "Data v = Some d" using wf_packet_sel(3) [OF v] by blast
    show ?thesis
    proof (cases "ber_DecodePacketErr B d")
      case (Inl e)
      with d v show ?thesis by (simp add: NewControlServerSideSorting_def wf_packet_sel(2))
    next
      case (Inr q)
      then have q: "wf_packet q" by (rule Decode_wf)
      then obtain r where "sort_keys 0 (Children q) = Some r" using wf_sort_keys wf_Children by blast
      with d v q Inr show ?thesis by (simp add: NewControlServerSideSorting_def wf_packet_sel(2))
    qed
  qed
  have "\<exists>r. decode_warning B ip v = Some r"
    by (auto simp: decode_warning_def Let_def split: option.splits sum.splits)
  moreover have "\<exists>r. NewControlServerSideSortingResult B v = Some r"
    using assms(1) by (rule wf_sorting_result)
  moreover have "\<exists>r. decode_string ty crit v = Some r" by (simp add: decode_string_def)
  moreover have "v \<noteq> NilPacket \<longrightarrow> (\<exists>r. NewControlServerSideSorting B v = Some r)"
    "v \<noteq> NilPacket \<longrightarrow> (\<exists>r. decode_sync B '' (Sync Done)'' NewControlSyncDone v = Some r)"
    "v \<noteq> NilPacket \<longrightarrow> (\<exists>r. decode_sync B '' (Sync Info)'' (NewControlSyncInfo fb) v = Some r)"
    using assms(1) sort sync wf_sync_info by blast+
  moreover have "v = NilPacket \<longrightarrow> ty \<notin> {ControlTypeServerSideSorting, ControlTypeSyncDone, ControlTypeSyncInfo}"
    using assms(2) by (auto simp: fragile_def)
  ultimately show ?thesis
    using ty wf_decode_paging [OF assms(1)] unfolding decode_value_def by auto
qed

lemma wf_DecodeControl:
  assumes "wf_packet p"
    and "\<And>q ty crit vi. control_parts p = Some (q, Inr (ty, crit, vi)) \<Longrightarrow> \<not> fragile ty (vi \<noteq> None)"
  shows "\<exists>r. DecodeControl B fb ip p = Some r"
proof -
  obtain q r where q: "control_parts p = Some (q, r)" "wf_packet q"
    "\<forall>ty crit i. r = Inr (ty, crit, Some i) \<longrightarrow> i < length (Children q)"
    using wf_control_parts [OF assms(1)] by blast
  show ?thesis
  proof (cases r)
    case (Inl e)
    with q show ?thesis by (simp add: DecodeControl_def)
  next
    case (Inr parts)
    then obtain ty crit vi where r: "r = Inr (ty, crit, vi)" by (cases parts) auto
    have nf: "\<not> fragile ty (vi \<noteq> None)" using assms(2) q(1) r by blast
    show ?thesis
    proof (cases vi)
      case None
      with nf wf_decode_value [of NilPacket ty fb ip crit] q(1) r show ?thesis
        by (auto simp: DecodeControl_def)
    next
      case (Some i)
      with q r have v: "wf_packet (Children q ! i)" by (intro wf_packet_sel(5)) auto
      then have "Children q ! i \<noteq> NilPacket" by (rule wf_packet_sel(1))
      with v nf Some wf_decode_value [of "Children q ! i" ty fb ip crit] q(1) r show ?thesis
        by (auto simp: DecodeControl_def)
    qed
  qed
qed

end

lemma wf_read_elements: "read_elements n s = Some ps \<Longrightarrow> list_all wf_packet ps"
proof (induction n arbitrary: s ps)
  case 0
  then show ?case by (simp split: if_splits)
next
  case (Suc n)
  then show ?case by (fastforce split: if_splits bind_splits)
qed

interpretation ref_decoder: ber_decoder ref_ber
proof
  fix s q
  assume "ber_DecodePacketErr ref_ber s = Inr q"
  then obtain n s' where "read_elements n s' = Some [q]"
    by (auto simp: ref_ber_def ref_DecodePacketErr_def ref_ReadPacket_def
        split: sum.splits option.splits list.splits prod.splits)
  from wf_read_elements [OF this] show "wf_packet q" by simp
qed

section \<open>Properties\<close>

text \<open>C26. A control of one of the kinds below, encoded, sent and received, is decoded to itself: generic
  controls with a type the decoder does not know, the paging control with any size and cookie, the
  four controls without a value, \<^verbatim>\<open>ManageDsaIT\<close>, critical \<^verbatim>\<open>DirSync\<close> controls whose flags fit a signed
  32-bit integer, and sort requests whose keys name an attribute.  Encoding never panics on them; a packet
  beyond the library's length limit is not read.\<close>

theorem DecodeControl_Control_Encode:
  assumes "ber_wire B" "wire_exact c"
  shows "\<exists>p. Control_Encode B c = Some p \<and>
    (length (ber_Bytes B p) \<le> max_packet_length \<longrightarrow>
      (\<exists>q q'. ber_DecodePacketErr B (ber_Bytes B p) = Inr q
        \<and> DecodeControl B fromBytes isPrint q = Some (q', Inr c)))"
proof -
  have "encodable c" using assms(2) by (cases c) simp_all
  with ber_library.Control_Encode_total [OF ber_wire.axioms(1) [OF assms(1)]]
  obtain p where p: "Control_Encode B c = Some p" by blast
  from ber_wire.Control_arrives [OF assms p] p show ?thesis by (fastforce simp: wire_def)
qed

theorem DecodeControl_Control_Encode_witness:
  "\<exists>p q q'. Control_Encode ref_ber (ControlPaging 10 ''next'') = Some p
     \<and> ber_DecodePacketErr ref_ber (ber_Bytes ref_ber p) = Inr q
     \<and> DecodeControl ref_ber (\<lambda>s. Inr s) (\<lambda>_. True) q = Some (q', Inr (ControlPaging 10 ''next''))"
proof -
  have "int_width 10 = 1" by (simp add: int_width_def base256.simps)
  then have "\<exists>p. Control_Encode ref_ber (ControlPaging 10 ''next'') = Some p \<and> length (ber_Bytes ref_ber p) \<le> max_packet_length"
    by (simp add: ControlPaging_Encode_def ref_ber_def Data_Write_def new_value_def new_sequence_def new_type_def
        new_Control_def identifier_octets_def length_octets_def int_octets_def ControlTypePaging_def ref_new_def)
  with DecodeControl_Control_Encode [OF ref_wire.ber_wire_axioms, of "ControlPaging 10 ''next''" "\<lambda>s. Inr s" "\<lambda>_. True"]
  show ?thesis by auto
qed

text \<open>C28. \<^verbatim>\<open>encodeControls\<close> panics exactly when the list holds a control whose \<^verbatim>\<open>Encode\<close> returns nil (the
  two VChu controls and the sync state, done and info controls); otherwise it gives the context element 0
  whose children are the encodings of the controls in order.\<close>

theorem encodeControls_panics_iff:
  assumes "ber_library B"
  shows "(encodeControls B cs = None \<longleftrightarrow> (\<exists>c \<in> set cs. \<not> encodable c))
    \<and> (\<forall>p. encodeControls B cs = Some p \<longrightarrow> ClassType p = ClassContext \<and> TagType p = TypeConstructed
        \<and> Tag p = 0 \<and> map Some (Children p) = map (Control_Encode B) cs)"
  using ber_library.encodeControls_spec [OF assms, of cs] by (auto simp: list_all_iff split: if_splits)

theorem encodeControls_panics_iff_witness:
  "encodeControls ref_ber [ControlManageDsaIT True, ControlSyncDone False ''x'' True] = None"
  using encodeControls_panics_iff [OF ref.ber_library_axioms, of "[ControlManageDsaIT True, ControlSyncDone False ''x'' True]"]
  by auto

text \<open>C27. On a packet that came out of the library's decoder, \<^verbatim>\<open>DecodeControl\<close> returns a control or an
  error and does not panic, unless the control type is that of the Behera, DirSync or sync state control,
  or that of the sort request, sync done or sync info control with the value missing.\<close>

theorem DecodeControl_no_panic:
  assumes "ber_decoder B" "wf_packet p"
    and "\<forall>q ty crit vi. control_parts p = Some (q, Inr (ty, crit, vi)) \<longrightarrow> \<not> fragile ty (vi \<noteq> None)"
  shows "\<exists>p' r. DecodeControl B fromBytes isPrint p = Some (p', r)"
  using ber_decoder.wf_DecodeControl [OF assms(1,2)] assms(3) by fastforce

theorem DecodeControl_no_panic_witness:
  "\<exists>p' r. DecodeControl ref_ber (\<lambda>s. Inr s) (\<lambda>_. True) (arrived_control [] [arrived_type ControlTypePaging]) = Some (p', r)"
proof (rule DecodeControl_no_panic [OF ref_decoder.ber_decoder_axioms])
  show "wf_packet (arrived_control [] [arrived_type ControlTypePaging])"
    by (simp add: arrived_control_def arrived_type_def)
  show "\<forall>q ty crit vi. control_parts (arrived_control [] [arrived_type ControlTypePaging])
      = Some (q, Inr (ty, crit, vi)) \<longrightarrow> \<not> fragile ty (vi \<noteq> None)"
    using control_parts_arrived(1) [of "[]" ControlTypePaging] ControlType_neq by (auto simp: fragile_def)
qed

text \<open>C30. A server that sends one of these controls without a value crashes the goroutine that decodes it:
  the decoder dereferences the missing value.\<close>

theorem DecodeControl_missing_value_panics:
  assumes "ty \<in> {ControlTypeBeheraPasswordPolicy, ControlTypeServerSideSorting, ControlTypeDirSync,
      ControlTypeSyncState, ControlTypeSyncDone, ControlTypeSyncInfo}"
  shows "DecodeControl B fromBytes isPrint (arrived_control d [arrived_type ty]) = None"
proof -
  have "decode_value B fromBytes isPrint ty False NilPacket = None"
    using assms by (auto simp: decode_value_types decode_behera_def NewControlServerSideSorting_def
        decode_sync_def extend_Description_def deref_def)
  then show ?thesis using control_parts_arrived(1) [of d ty] by (auto simp: DecodeControl_def)
qed

theorem DecodeControl_missing_value_panics_witness:
  "DecodeControl ref_ber (\<lambda>s. Inr s) (\<lambda>_. True)
     (arrived_control [] [arrived_type ControlTypeBeheraPasswordPolicy]) = None"
  by (rule DecodeControl_missing_value_panics) simp

text \<open>The result of server side sorting is always reported as success when it comes over the network:
  the control's value is an octet string, whose packet has no children, and the code inside is never
  looked at.\<close>

theorem sorting_result_always_success:
  "\<exists>q. DecodeControl B fromBytes isPrint
     (arrived_control d [arrived_type ControlTypeServerSideSortingResult, arrived_type s])
     = Some (q, Inr (ControlServerSideSortingResult False 0))"
  by (rule decodes_arrived_value)
    (simp add: decode_value_types NewControlServerSideSortingResult_def arrived_type_def)

text \<open>The members of a sync sequence are identified by their tags alone: with at most one member for
  each tag, \<^verbatim>\<open>parseSyncMembers\<close> gives the same result whatever the order of the members.\<close>

theorem parseSyncMembers_order:
  assumes "mset ks = mset ks'" "NilPacket \<notin> set ks"
    and "length (with_tag TagOctetString ks) \<le> 1" "length (with_tag TagBoolean ks) \<le> 1"
      "length (with_tag TagSet ks) \<le> 1"
  shows "parseSyncMembers ks = parseSyncMembers ks' \<and> parseSyncMembers ks \<noteq> None"
proof -
  have "NilPacket \<notin> set ks'" using assms(1,2) mset_eq_setD by blast
  moreover note with_tag_mset [OF assms(1,3)] with_tag_mset [OF assms(1,4)] with_tag_mset [OF assms(1,5)]
  ultimately show ?thesis
    using assms(2) by (simp only: parseSyncMembers_def sync_members_last simp_thms option.distinct)
qed

theorem parseSyncMembers_order_witness:
  "parseSyncMembers [arrived_type ''ck'', arrived_crit ''t''] = parseSyncMembers [arrived_crit ''t'', arrived_type ''ck'']"
  using parseSyncMembers_order [of "[arrived_type ''ck'', arrived_crit ''t'']" "[arrived_crit ''t'', arrived_type ''ck'']"]
  by (simp add: arrived_type_def arrived_crit_def)

end
