(* ===== verification/Control_Typing.thy ===== *)
theory Control_Typing
  imports Control_Codec
begin

text \<open>
  The dynamic types of the controls the decoder returns (\<^verbatim>\<open>control.go\<close>): which structure stands behind a control
  type, and what \<^verbatim>\<open>FindControl\<close> gives for the paging type.
\<close>

section \<open>The structure behind a type\<close>

text \<open>
  A caller finds a control by its type and asserts the structure.  \<^verbatim>\<open>typed\<close> says that the assertion
  is right: a type the decoder knows comes as its own structure and never as a \<^verbatim>\<open>ControlString\<close>, and the two
  structures the decoder does not know come as \<^verbatim>\<open>ControlString\<close>.
\<close>

fun typed :: "control \<Rightarrow> bool" where
  "typed (ControlString ControlType _ _) \<longleftrightarrow> ControlType \<notin> set decoded_types"
| "typed (ControlMicrosoftSDFlags _ _) \<longleftrightarrow> False"
| "typed (ControlSyncRequest _ _ _ _) \<longleftrightarrow> False"
| "typed _ \<longleftrightarrow> True"

lemma map_sum_eq_Inr: "map_sum id g r = Inr c \<longleftrightarrow> (\<exists>x. r = Inr x \<and> c = g x)"
  by (cases r) auto

lemma paging_sequence_typed: "paging_sequence q = Some (q', Inr c) \<Longrightarrow> typed c"
  by (auto simp: paging_sequence_def Let_def split: bind_splits if_splits ber_value.splits)

lemma decode_paging_typed: "decode_paging B v = Some (v', Inr c) \<Longrightarrow> typed c"
  by (auto simp: decode_paging_def split: bind_splits if_splits sum.splits dest: paging_sequence_typed)

lemma decode_behera_typed: "decode_behera B v = Some (v', Inr c) \<Longrightarrow> typed c"
  by (auto simp: decode_behera_def map_sum_eq_Inr split: bind_splits if_splits sum.splits)

lemma decode_warning_typed: "decode_warning B ip v = Some (v', Inr c) \<Longrightarrow> typed c"
  by (auto simp: decode_warning_def Let_def split: bind_splits if_splits sum.splits option.splits)

lemma decode_sorting_typed:
  "NewControlServerSideSorting B v = Some (v', Inr c) \<Longrightarrow> typed c"
  "NewControlServerSideSortingResult B v = Some (v', Inr c) \<Longrightarrow> typed c"
  by (auto simp: NewControlServerSideSorting_def NewControlServerSideSortingResult_def map_sum_eq_Inr
      split: bind_splits if_splits sum.splits option.splits)

lemma decode_DirSync_typed: "NewResponseControlDirSync B v = Some (v', Inr c) \<Longrightarrow> typed c"
  by (auto simp: NewResponseControlDirSync_def Let_def split: bind_splits if_splits sum.splits)

lemma decode_sync_typed:
  assumes "decode_sync B ds new v = Some (v', Inr c)" "\<And>q. new q = Some (Inr c) \<Longrightarrow> typed c"
  shows "typed c"
  using assms by (auto simp: decode_sync_def split: bind_splits sum.splits)

lemma sync_constructors_typed:
  "NewControlSyncState fb q = Some (Inr c) \<Longrightarrow> typed c"
  "NewControlSyncDone q = Some (Inr c) \<Longrightarrow> typed c"
  "NewControlSyncInfo fb q = Some (Inr c) \<Longrightarrow> typed c"
  by (auto simp: NewControlSyncState_def NewControlSyncDone_def NewControlSyncInfo_def Let_def map_sum_eq_Inr
      split: bind_splits if_splits sum.splits)

lemma decode_sync_value_typed:
  "decode_sync B ds (NewControlSyncState fb) v = Some (v', Inr c) \<Longrightarrow> typed c"
  "decode_sync B ds NewControlSyncDone v = Some (v', Inr c) \<Longrightarrow> typed c"
  "decode_sync B ds (NewControlSyncInfo fb) v = Some (v', Inr c) \<Longrightarrow> typed c"
  using decode_sync_typed sync_constructors_typed by blast+

lemmas decoders_typed = decode_paging_typed decode_behera_typed decode_warning_typed decode_sorting_typed
  decode_DirSync_typed decode_sync_value_typed

lemma decode_value_typed:
  assumes "decode_value B fb ip ty crit v = Some (v', Inr c)"
  shows "typed c"
proof (cases "ty \<in> set decoded_types")
  case True
  then show ?thesis using assms unfolding decode_value_def NewControlManageDsaIT_def
    by (auto simp: decoded_types_def split: if_splits bind_splits dest: decoders_typed)
next
  case False
  with assms show ?thesis by (auto simp: decode_value_string decode_string_def)
qed

lemma DecodeControl_typed:
  assumes "DecodeControl B fb ip p = Some (p', Inr c)"
  shows "typed c"
proof -
  obtain q parts where "control_parts p = Some (q, parts)"
    using assms by (auto simp: DecodeControl_def split: bind_splits)
  with assms show ?thesis
    by (auto simp: DecodeControl_def bind_eq_Some_conv split: sum.splits option.splits dest: decode_value_typed)
qed

lemma FindControl_typed:
  "FindControl cs ty = Some c \<Longrightarrow> list_all typed cs \<Longrightarrow> typed c \<and> GetControlType c = ty"
  by (induction cs) (auto split: if_splits)

lemma typed_paging:
  assumes "typed c" "GetControlType c = ControlTypePaging"
  shows "\<exists>n cookie. c = ControlPaging n cookie"
  using assms ControlType_neq by (cases c) (auto simp: decoded_types_def)

section \<open>The cookie of a page\<close>

text \<open>The cookie the server asks to be sent back: that of the first paging control, if it is not empty.\<close>

fun paging_cookie :: "control \<Rightarrow> bytes option" where
  "paging_cookie (ControlPaging _ cookie) = Some cookie"
| "paging_cookie _ = None"

fun next_cookie :: "control list \<Rightarrow> bytes option" where
  "next_cookie [] = None"
| "next_cookie (c # cs) =
     (case paging_cookie c of None \<Rightarrow> next_cookie cs | Some [] \<Rightarrow> None | Some cookie \<Rightarrow> Some cookie)"

lemma paging_cookie_None: "typed c \<Longrightarrow> paging_cookie c = None \<longleftrightarrow> GetControlType c \<noteq> ControlTypePaging"
  using typed_paging [of c] by (cases c) auto

lemma FindControl_next_cookie:
  assumes "list_all typed cs"
  shows "next_cookie cs = (case FindControl cs ControlTypePaging of
      Some (ControlPaging n cookie) \<Rightarrow> if cookie = [] then None else Some cookie | _ \<Rightarrow> None)"
  using assms
proof (induction cs)
  case (Cons c cs)
  show ?case
  proof (cases "GetControlType c = ControlTypePaging")
    case True
    with Cons.prems typed_paging [of c] obtain n cookie where "c = ControlPaging n cookie" by auto
    then show ?thesis by (auto split: list.splits)
  next
    case False
    with Cons paging_cookie_None [of c] show ?thesis by auto
  qed
qed simp

end
