(* ===== verification/Request_Properties.thy ===== *)
theory Request_Properties
  imports LDAP_Request Control_Typing
begin

text \<open>
  What the operations of \<^verbatim>\<open>LDAP_Request\<close> do to the connection and what they make of a response.  The
  operations with one response share the contract of the locale \<^verbatim>\<open>exchange_operation\<close>, which is
  interpreted on each of them.
\<close>

section \<open>The exchange\<close>

text \<open>
  The calls of an operation that keep the connection in order: nothing without a request; nothing after
  a request that was refused; after an accepted one, responses are received and the message is finished
  once, at the end.
\<close>

definition balanced :: "session \<Rightarrow> call list \<Rightarrow> bool" where
  "balanced s calls \<longleftrightarrow>
     (case calls of
        [] \<Rightarrow> True
      | SendMessage p # rest \<Rightarrow>
          (if se_send s p = None then rest = replicate (length rest - 1) ReceiveResponse @ [FinishMessage]
           else rest = [])
      | _ \<Rightarrow> False)"

lemma doRequest_calls:
  assumes "doRequest B s app = Some (calls, err)"
  shows "calls = [] \<and> err \<noteq> None \<or> (\<exists>p. calls = [SendMessage p] \<and> err = se_send s p)"
  using assms by (auto simp: doRequest_def split: bind_splits if_splits option.splits)

locale exchange_operation =
  fixes B :: ber
    and appendTo :: request
    and fail :: "go_error \<Rightarrow> 'r"
    and handle :: "packet \<Rightarrow> 'r option"
    and operation :: "session \<Rightarrow> 'r outcome"
  assumes operation_exchange: "operation s =
    do { (calls, r) \<leftarrow> exchange B s appendTo;
         case r of
           Inl e \<Rightarrow> Some (calls, fail e)
         | Inr packet \<Rightarrow> do { x \<leftarrow> handle packet; Some (calls, x) } }"
begin

lemma operation_balanced: "operation s = Some (calls, x) \<Longrightarrow> balanced s calls"
  using doRequest_calls [of B s appendTo]
  by (force simp: operation_exchange exchange_def balanced_def split: bind_splits option.splits sum.splits)

lemma nil_connection: "se_nil s \<Longrightarrow> operation s = Some ([], fail ErrNilConnection)"
  by (simp add: operation_exchange exchange_def doRequest_def)

lemma unanswered:
  assumes "doRequest B s appendTo = Some ([SendMessage p], None)" "readPacket (se_responses s) = Inl e"
  shows "operation s = Some ([SendMessage p, ReceiveResponse, FinishMessage], fail e)"
  using assms by (simp add: operation_exchange exchange_def)

lemma answered:
  assumes "doRequest B s appendTo = Some ([SendMessage p], None)" "readPacket (se_responses s) = Inr q"
  shows "operation s = map_option (Pair [SendMessage p, ReceiveResponse, FinishMessage]) (handle q)"
  using assms by (simp add: operation_exchange exchange_def map_option_case split: option.splits)

end

interpretation add: exchange_operation B "AddRequest_appendTo B req" Some "check_response ApplicationAddResponse"
    "\<lambda>s. Conn_Add B s (Some req)" for B req
  by unfold_locales (simp add: Conn_Add_def simple_operation_def)

interpretation del: exchange_operation B "DelRequest_appendTo B req" Some "check_response ApplicationDelResponse"
    "\<lambda>s. Conn_Del B s (Some req)" for B req
  by unfold_locales (simp add: Conn_Del_def simple_operation_def)

interpretation modify: exchange_operation B "ModifyRequest_appendTo B req" Some
    "check_response ApplicationModifyResponse" "\<lambda>s. Conn_Modify B s req" for B req
  by unfold_locales (simp add: Conn_Modify_def simple_operation_def)

interpretation modify_dn: exchange_operation B "ModifyDNRequest_appendTo B req" Some
    "check_response ApplicationModifyDNResponse" "\<lambda>s. Conn_ModifyDN B s req" for B req
  by unfold_locales (simp add: Conn_ModifyDN_def simple_operation_def)

interpretation compare: exchange_operation B
    "CompareRequest_appendTo B \<lparr>cmp_DN = dn, cmp_Attribute = attribute, cmp_Value = v\<rparr>"
    "\<lambda>e. (False, Some e)" compare_response "\<lambda>s. Conn_Compare B s dn attribute v" for B dn attribute v
  by unfold_locales (simp add: Conn_Compare_def)

interpretation modify_result: exchange_operation B "ModifyRequest_appendTo B req" "\<lambda>e. (None, Some e)"
    "modify_response B fb ip" "\<lambda>s. Conn_ModifyWithResult B fb ip s req" for B fb ip req
  by unfold_locales (simp add: Conn_ModifyWithResult_def)

interpretation extended: exchange_operation B "ExtendedRequest_appendTo B req" Inl "extended_response B fb ip"
    "\<lambda>s. Conn_Extended B fb ip s (Some req)" for B fb ip req
  by unfold_locales (simp add: Conn_Extended_def)

interpretation password: exchange_operation B "PasswordModifyRequest_appendTo B req" "\<lambda>e. (None, Some e)"
    "password_response B" "\<lambda>s. Conn_PasswordModify B s req" for B req
  by unfold_locales (simp add: Conn_PasswordModify_def)

lemmas operation_balanced = add.operation_balanced del.operation_balanced modify.operation_balanced
  modify_dn.operation_balanced compare.operation_balanced modify_result.operation_balanced
  extended.operation_balanced password.operation_balanced

lemma balanced_Nil [simp]: "balanced s []"
  by (simp add: balanced_def)

lemma WhoAmI_balanced: "Conn_WhoAmI B fb ip s controls = Some (calls, x) \<Longrightarrow> balanced s calls"
  unfolding Conn_WhoAmI_def
  by (auto split: bind_splits sum.splits dest: extended.operation_balanced)

section \<open>The request\<close>

text \<open>The envelope that is sent: the message id, the operation's element, and the controls if there are any.\<close>

definition is_request :: "ber \<Rightarrow> session \<Rightarrow> nat \<Rightarrow> control list \<Rightarrow> packet \<Rightarrow> bool" where
  "is_request B s code controls p \<longleftrightarrow>
     p \<noteq> NilPacket \<and> ClassType p = ClassUniversal \<and> TagType p = TypeConstructed \<and> Tag p = TagSequence
     \<and> length (Children p) = (if controls = [] then 2 else 3)
     \<and> Tag (Children p ! 0) = TagInteger \<and> Value (Children p ! 0) = VInt64 (sint (se_id s))
     \<and> ClassType (Children p ! 1) = ClassApplication \<and> Tag (Children p ! 1) = code
     \<and> (controls \<noteq> [] \<longrightarrow> map Some (Children (Children p ! 2)) = map (Control_Encode B) controls)"

text \<open>What \<^verbatim>\<open>appendTo\<close> promises: it adds the element and the controls to a packet.\<close>

definition appends :: "ber \<Rightarrow> request \<Rightarrow> (packet \<Rightarrow> bool) \<Rightarrow> control list \<Rightarrow> bool" where
  "appends B app shape controls \<longleftrightarrow>
     (\<forall>env. usable env \<longrightarrow>
        (\<exists>env' pkt cs. app env = Some (None, env') \<and> grown env (pkt # cs) env' \<and> usable pkt \<and> shape pkt
           \<and> (if controls = [] then cs = []
              else \<exists>c. cs = [c] \<and> map Some (Children c) = map (Control_Encode B) controls)))"

context ber_library
begin

lemma encodeControls_usable:
  assumes "list_all encodable cs"
  shows "\<exists>c. encodeControls B cs = Some c \<and> usable c \<and> map Some (Children c) = map (Control_Encode B) cs"
proof -
  obtain c where c: "encodeControls B cs = Some c" "map Some (Children c) = map (Control_Encode B) cs"
    using encodeControls_spec [of cs] assms by auto
  let ?e = "ber_Encode B ClassContext TypeConstructed 0 VNil ''Controls''"
  have "list_all usable (map (the \<circ> Control_Encode B) cs)"
    using assms Control_Encode_total by (force simp: list_all_iff)
  then have "\<exists>p. encodeControls B cs = Some p \<and> usable p"
    using usable_appendChildren [of ?e] assms by (simp add: encodeControls_def encode_onto_appendChildren)
  with c show ?thesis by auto
qed

lemma appends_append_request:
  assumes "pkt = Some p" "usable p" "shape p" "list_all encodable controls"
  shows "appends B (append_request B pkt controls) shape controls"
  unfolding appends_def
proof (intro allI impI)
  fix env assume env: "usable env"
  with assms(2) obtain e1 where e1: "ber_AppendChild B env p = Some e1" "grown env [p] e1"
    using AppendChild_grown [of env p] by (auto simp: usable_def)
  show "\<exists>env' pkt' cs. append_request B pkt controls env = Some (None, env') \<and> grown env (pkt' # cs) env'
      \<and> usable pkt' \<and> shape pkt' \<and> (if controls = [] then cs = []
        else \<exists>c. cs = [c] \<and> map Some (Children c) = map (Control_Encode B) controls)"
  proof (cases "controls = []")
    case True
    with e1 assms show ?thesis by (auto simp: append_request_def)
  next
    case False
    obtain c where c: "encodeControls B controls = Some c" "usable c"
      "map Some (Children c) = map (Control_Encode B) controls"
      using encodeControls_usable [OF assms(4)] by blast
    from e1 c(2) obtain e2 where "ber_AppendChild B e1 c = Some e2" "grown e1 [c] e2"
      using AppendChild_grown [of e1 c] by (auto simp: usable_def grown_def)
    with False e1 c assms show ?thesis
      by (auto simp: append_request_def intro!: exI [of _ "[c]"] dest: grown_Cons)
  qed
qed

lemma envelope:
  obtains env id where "ber_AppendChild B
      (ber_Encode B ClassUniversal TypeConstructed TagSequence VNil ''LDAP Request'')
      (ber_NewInteger B ClassUniversal TypePrimitive TagInteger (VInt64 i) ''MessageID'') = Some env"
    "usable env" "Children env = [id]" "Tag id = TagInteger" "Value id = VInt64 i"
    "ClassType env = ClassUniversal" "TagType env = TypeConstructed" "Tag env = TagSequence"
proof -
  let ?id = "ber_NewInteger B ClassUniversal TypePrimitive TagInteger (VInt64 i) ''MessageID''"
  let ?e = "ber_Encode B ClassUniversal TypeConstructed TagSequence VNil ''LDAP Request''"
  obtain env where "ber_AppendChild B ?e ?id = Some env" "grown ?e [?id] env"
    using AppendChild_grown [of ?e ?id] by auto
  then show thesis by (intro that [of env ?id]) (simp_all add: grown_def usable_def)
qed

lemma doRequest_sends:
  assumes "appends B app shape controls" "\<not> se_nil s" "\<And>p. se_send s p = None"
    and "\<And>p. shape p \<Longrightarrow> ClassType p = ClassApplication \<and> Tag p = code"
  obtains p where "doRequest B s app = Some ([SendMessage p], None)" "is_request B s code controls p"
    "shape (Children p ! 1)"
proof -
  obtain env id where env: "ber_AppendChild B
      (ber_Encode B ClassUniversal TypeConstructed TagSequence VNil ''LDAP Request'')
      (ber_NewInteger B ClassUniversal TypePrimitive TagInteger (VInt64 (sint (se_id s))) ''MessageID'') = Some env"
    "usable env" "Children env = [id]" "Tag id = TagInteger" "Value id = VInt64 (sint (se_id s))"
    "ClassType env = ClassUniversal" "TagType env = TypeConstructed" "Tag env = TagSequence"
    by (rule envelope)
  from assms(1) env(2) obtain p pkt cs where p: "app env = Some (None, p)" "grown env (pkt # cs) p" "shape pkt"
    "if controls = [] then cs = [] else \<exists>c. cs = [c] \<and> map Some (Children c) = map (Control_Encode B) controls"
    unfolding appends_def by blast
  show thesis
  proof (rule that [of p])
    show "doRequest B s app = Some ([SendMessage p], None)"
      using assms(2,3) env(1) p(1) by (simp add: doRequest_def)
    show "is_request B s code controls p" "shape (Children p ! 1)"
      using p(2-4) env assms(4) [OF p(3)] by (auto simp: is_request_def grown_def split: if_splits)
  qed
qed

end

section \<open>What the requests carry\<close>

text \<open>The elements of the four requests that write, as a server reads them.\<close>

definition read_attribute :: "packet \<Rightarrow> ber_value \<times> ber_value list" where
  "read_attribute p = (Value (Children p ! 0), map Value (Children (Children p ! 1)))"

definition attribute_values :: "Attribute \<Rightarrow> ber_value \<times> ber_value list" where
  "attribute_values a = (VString (at_Type a), map VString (at_Vals a))"

definition read_change :: "packet \<Rightarrow> ber_value \<times> ber_value \<times> ber_value list" where
  "read_change p = (Value (Children p ! 0), read_attribute (Children p ! 1))"

definition change_values :: "Change \<Rightarrow> ber_value \<times> ber_value \<times> ber_value list" where
  "change_values c = (VUint64 (ch_Operation c), attribute_values (ch_Modification c))"

definition is_application :: "nat \<Rightarrow> packet \<Rightarrow> bool" where
  "is_application code r \<longleftrightarrow> ClassType r = ClassApplication \<and> Tag r = code"

definition add_element :: "AddRequest \<Rightarrow> packet \<Rightarrow> bool" where
  "add_element req r \<longleftrightarrow> is_application ApplicationAddRequest r \<and> length (Children r) = 2
     \<and> Value (Children r ! 0) = VString (add_DN req)
     \<and> map read_attribute (Children (Children r ! 1)) = map attribute_values (add_Attributes req)"

definition del_element :: "DelRequest \<Rightarrow> packet \<Rightarrow> bool" where
  "del_element req r \<longleftrightarrow> is_application ApplicationDelRequest r \<and> Children r = []
     \<and> Value r = VString (del_DN req) \<and> Data r = Some (del_DN req)"

definition modify_element :: "ModifyRequest \<Rightarrow> packet \<Rightarrow> bool" where
  "modify_element req r \<longleftrightarrow> is_application ApplicationModifyRequest r \<and> length (Children r) = 2
     \<and> Value (Children r ! 0) = VString (mod_DN req)
     \<and> map read_change (Children (Children r ! 1)) = map change_values (mod_Changes req)"

definition modify_dn_element :: "ModifyDNRequest \<Rightarrow> packet \<Rightarrow> bool" where
  "modify_dn_element req r \<longleftrightarrow> is_application ApplicationModifyDNRequest r
     \<and> map Value (Children r) =
         [VString (mdn_DN req), VString (mdn_NewRDN req),
          if mdn_DeleteOldRDN req then VString [CHR 0xFF] else VBool False]
         @ (if mdn_NewSuperior req = [] then [] else [VString (mdn_NewSuperior req)])"

definition compare_element :: "CompareRequest \<Rightarrow> packet \<Rightarrow> bool" where
  "compare_element req r \<longleftrightarrow> is_application ApplicationCompareRequest r \<and> length (Children r) = 2
     \<and> Value (Children r ! 0) = VString (cmp_DN req)
     \<and> map Value (Children (Children r ! 1)) = [VString (cmp_Attribute req), VString (cmp_Value req)]"

context ber_library
begin

lemma octets_sel [simp]:
  "usable (octets B s ds)" "octets B s ds \<noteq> NilPacket" "Value (octets B s ds) = VString s"
  by (simp_all add: octets_def usable_def)

lemma application_sel [simp]:
  "usable (application B code ds)" "application B code ds \<noteq> NilPacket" "Children (application B code ds) = []"
  "ClassType (application B code ds) = ClassApplication" "Tag (application B code ds) = code"
  "Data (application B code ds) \<noteq> None"
  by (simp_all add: application_def usable_def)

text \<open>A run of appends on a packet without children.\<close>

lemma appendChildren_fresh:
  assumes "usable p" "Children p = []" "list_all usable ks"
  obtains q where "appendChildren B p ks = Some q" "usable q" "Children q = ks" "ClassType q = ClassType p"
    "Tag q = Tag p"
  using appendChildren_grown [of p ks] assms by (auto simp: usable_def grown_def list_all_iff)

lemma new_sequence_fresh [simp]: "Children (new_sequence B ds) = []"
  by (simp add: new_sequence_def)

lemma attribute_encode_reads:
  "\<exists>q. attribute_encode B ds a = Some q \<and> usable q \<and> read_attribute q = attribute_values a"
proof -
  let ?set = "ber_Encode B ClassUniversal TypeConstructed TagSet VNil ''AttributeValue''"
  have l: "list_all usable (map (\<lambda>x. octets B x ''Vals'') (at_Vals a))" by (simp add: list_all_iff)
  obtain vs where vs: "appendChildren B ?set (map (\<lambda>x. octets B x ''Vals'') (at_Vals a)) = Some vs"
    "usable vs" "Children vs = map (\<lambda>x. octets B x ''Vals'') (at_Vals a)"
    by (rule appendChildren_fresh [OF _ _ l, of ?set]) simp_all
  then have l': "list_all usable [octets B (at_Type a) ''Type'', vs]" by simp
  obtain q where "appendChildren B (new_sequence B ds) [octets B (at_Type a) ''Type'', vs] = Some q"
    "usable q" "Children q = [octets B (at_Type a) ''Type'', vs]"
    by (rule appendChildren_fresh [OF _ _ l', of "new_sequence B ds"]) simp_all
  with vs show ?thesis
    by (simp add: attribute_encode_def read_attribute_def attribute_values_def del: appendChildren.simps)
qed

lemma Change_encode_reads:
  "\<exists>q. Change_encode B c = Some q \<and> usable q \<and> read_change q = change_values c"
proof -
  let ?op = "ber_NewInteger B ClassUniversal TypePrimitive TagEnumerated (VUint64 (ch_Operation c)) ''Operation''"
  obtain m where m: "PartialAttribute_encode B (ch_Modification c) = Some m" "usable m"
    "read_attribute m = attribute_values (ch_Modification c)"
    using attribute_encode_reads by (auto simp: PartialAttribute_encode_def)
  then have l: "list_all usable [?op, m]" by simp
  obtain q where "appendChildren B (new_sequence B ''Change'') [?op, m] = Some q" "usable q"
    "Children q = [?op, m]"
    by (rule appendChildren_fresh [OF _ _ l, of "new_sequence B ''Change''"]) simp_all
  with m show ?thesis
    by (simp add: Change_encode_def read_change_def change_values_def del: appendChildren.simps)
qed

text \<open>A sequence of elements, each of which reads back as its value.\<close>

lemma sequence_packets_reads:
  assumes "\<And>x. \<exists>q. f x = Some q \<and> usable q \<and> rd q = val x"
  shows "\<exists>qs. sequence_packets (map f xs) = Some qs \<and> list_all usable qs \<and> map rd qs = map val xs"
proof (induction xs)
  case Nil
  then show ?case by simp
next
  case (Cons x xs)
  with assms [of x] show ?case by auto
qed

lemma named_list_element:
  assumes "\<And>x. \<exists>q. f x = Some q \<and> usable q \<and> rd q = val x"
  obtains r where
    "do { ks \<leftarrow> sequence_packets (map f xs);
          seq \<leftarrow> appendChildren B (new_sequence B ds) ks;
          appendChildren B (application B code ds') [octets B name ''DN'', seq] } = Some r"
    "usable r" "is_application code r" "length (Children r) = 2" "Value (Children r ! 0) = VString name"
    "map rd (Children (Children r ! 1)) = map val xs"
proof -
  obtain ks where ks: "sequence_packets (map f xs) = Some ks" "list_all usable ks" "map rd ks = map val xs"
    using sequence_packets_reads [of f rd val xs] assms by blast
  obtain seq where seq: "appendChildren B (new_sequence B ds) ks = Some seq" "usable seq" "Children seq = ks"
    by (rule appendChildren_fresh [OF _ _ ks(2), of "new_sequence B ds"]) simp_all
  have l: "list_all usable [octets B name ''DN'', seq]" using seq(2) by simp
  obtain r where "appendChildren B (application B code ds') [octets B name ''DN'', seq] = Some r" "usable r"
    "Children r = [octets B name ''DN'', seq]" "ClassType r = ClassApplication" "Tag r = code"
    by (rule appendChildren_fresh [OF _ _ l, of "application B code ds'"]) simp_all
  with ks seq show thesis
    by (intro that [of r]) (simp_all add: is_application_def del: appendChildren.simps)
qed

lemma AddRequest_appends:
  "list_all encodable (add_Controls req) \<Longrightarrow>
   appends B (AddRequest_appendTo B req) (add_element req) (add_Controls req)"
  unfolding AddRequest_appendTo_def
  by (rule named_list_element [of "Attribute_encode B" read_attribute attribute_values "add_Attributes req"
        "''Attributes''" ApplicationAddRequest "''Add Request''" "add_DN req"])
    (auto simp: Attribute_encode_def attribute_encode_reads add_element_def del: appendChildren.simps
      intro: appends_append_request)

lemma ModifyRequest_appends:
  "list_all encodable (mod_Controls req) \<Longrightarrow>
   appends B (ModifyRequest_appendTo B req) (modify_element req) (mod_Controls req)"
  unfolding ModifyRequest_appendTo_def
  by (rule named_list_element [of "Change_encode B" read_change change_values "mod_Changes req"
        "''Changes''" ApplicationModifyRequest "''Modify Request''" "mod_DN req"])
    (auto simp: Change_encode_reads modify_element_def del: appendChildren.simps
      intro: appends_append_request)

lemma DelRequest_appends:
  assumes "list_all encodable (del_Controls req)"
  shows "appends B (DelRequest_appendTo B req) (del_element req) (del_Controls req)"
proof -
  let ?e = "ber_Encode B ClassApplication TypePrimitive ApplicationDelRequest (VString (del_DN req)) ''Del Request''"
  note e = Encode_application [of TypePrimitive ApplicationDelRequest "VString (del_DN req)" "''Del Request''"]
  have "Data_Write (del_DN req) ?e = Some (set_Data (Some (del_DN req)) ?e)"
    unfolding e by (simp add: Data_Write_def)
  then show ?thesis unfolding DelRequest_appendTo_def
    by (rule appends_append_request) (simp_all add: assms e usable_def del_element_def is_application_def)
qed

lemma ModifyDNRequest_appends:
  assumes "list_all encodable (mdn_Controls req)"
  shows "appends B (ModifyDNRequest_appendTo B req) (modify_dn_element req) (mdn_Controls req)"
proof -
  let ?ks = "[octets B (mdn_DN req) ''DN'', octets B (mdn_NewRDN req) ''New RDN'',
       (if mdn_DeleteOldRDN req then
          ber_NewString B ClassUniversal TypePrimitive TagBoolean [CHR 0xFF] ''Delete old RDN''
        else ber_NewBoolean B ClassUniversal TypePrimitive TagBoolean (mdn_DeleteOldRDN req) ''Delete old RDN'')]
      @ (if mdn_NewSuperior req \<noteq> [] then
           [ber_NewString B ClassContext TypePrimitive 0 (mdn_NewSuperior req) ''New Superior''] else [])"
  have l: "list_all usable ?ks" by simp
  obtain r where "appendChildren B (application B ApplicationModifyDNRequest ''Modify DN Request'') ?ks = Some r"
    "usable r" "Children r = ?ks" "ClassType r = ClassApplication" "Tag r = ApplicationModifyDNRequest"
    by (rule appendChildren_fresh [OF _ _ l, of "application B ApplicationModifyDNRequest ''Modify DN Request''"])
      simp_all
  then show ?thesis unfolding ModifyDNRequest_appendTo_def
    by (intro appends_append_request [of _ r] assms) (simp_all add: modify_dn_element_def is_application_def)
qed

lemma CompareRequest_appends:
  "appends B (CompareRequest_appendTo B req) (compare_element req) []"
proof -
  let ?ava = "[octets B (cmp_Attribute req) ''AttributeDesc'',
     ber_Encode B ClassUniversal TypePrimitive TagOctetString (VString (cmp_Value req)) ''AssertionValue'']"
  have l: "list_all usable ?ava" by simp
  obtain ava where ava: "appendChildren B (new_sequence B ''AttributeValueAssertion'') ?ava = Some ava" "usable ava"
    "Children ava = ?ava"
    by (rule appendChildren_fresh [OF _ _ l, of "new_sequence B ''AttributeValueAssertion''"]) simp_all
  have l': "list_all usable [octets B (cmp_DN req) ''DN'', ava]" using ava(2) by simp
  obtain r where "appendChildren B (application B ApplicationCompareRequest ''Compare Request'')
      [octets B (cmp_DN req) ''DN'', ava] = Some r" "usable r" "Children r = [octets B (cmp_DN req) ''DN'', ava]"
    "ClassType r = ClassApplication" "Tag r = ApplicationCompareRequest"
    by (rule appendChildren_fresh [OF _ _ l', of "application B ApplicationCompareRequest ''Compare Request''"])
      simp_all
  with ava show ?thesis unfolding CompareRequest_appendTo_def
    by (intro appends_append_request [of _ r])
      (simp_all add: compare_element_def is_application_def del: appendChildren.simps)
qed

end

section \<open>What the operations make of a response\<close>

text \<open>The error an LDAPResult stands for.\<close>

definition result_error :: "packet \<Rightarrow> int \<Rightarrow> string \<Rightarrow> string \<Rightarrow> go_error option" where
  "result_error q code dn msg =
     (if 65536 dvd code then None else Some (LdapError (ErrText msg) (word_of_int code) dn q))"

text \<open>One exchange: the request that is sent, what it carries, and the operation's result.\<close>

definition exchanged ::
  "ber \<Rightarrow> session \<Rightarrow> nat \<Rightarrow> control list \<Rightarrow> (packet \<Rightarrow> bool) \<Rightarrow> 'r \<Rightarrow> 'r outcome \<Rightarrow> bool" where
  "exchanged B s code controls shape r out \<longleftrightarrow>
     (\<exists>p. is_request B s code controls p \<and> shape (Children p ! 1)
        \<and> out = Some ([SendMessage p, ReceiveResponse, FinishMessage], r))"

lemma is_LDAPResult_deref:
  "is_LDAPResult q code dn msg \<Longrightarrow> 2 \<le> length (Children q) \<and> deref (Children q ! 1) = Some (Children q ! 1)"
  by (auto simp: is_LDAPResult_def deref_def Let_def)

definition simple_result :: "nat \<Rightarrow> packet \<Rightarrow> int \<Rightarrow> string \<Rightarrow> string \<Rightarrow> go_error option" where
  "simple_result app q code dn msg =
     (if Tag (Children q ! 1) = app then result_error q code dn msg
      else Some (ErrText (''ldap: unexpected response: '' @ decimal (Tag (Children q ! 1)))))"

lemma check_response_result:
  "is_LDAPResult q code dn msg \<Longrightarrow> check_response app q = Some (simple_result app q code dn msg)"
  using is_LDAPResult_deref [of q code dn msg]
  by (simp add: check_response_def simple_result_def result_error_def GetLDAPError_of_LDAPResult)

definition compare_result :: "packet \<Rightarrow> int \<Rightarrow> string \<Rightarrow> string \<Rightarrow> bool \<times> go_error option" where
  "compare_result q code dn msg =
     (if code mod 65536 = 6 then (True, None) else if code mod 65536 = 5 then (False, None)
      else (False, result_error q code dn msg))"

lemma word16_eq_numeral:
  "(word_of_int code :: 16 word) = 6 \<longleftrightarrow> code mod 65536 = 6"
  "(word_of_int code :: 16 word) = 5 \<longleftrightarrow> code mod 65536 = 5"
  by (simp_all add: word_uint_eq_iff uint_word_of_int)

lemma IsErrorWithCode_result_error:
  "IsErrorWithCode (result_error q code dn msg) c \<longleftrightarrow> \<not> 65536 dvd code \<and> word_of_int code = c"
  by (simp add: result_error_def IsErrorWithCode_def IsErrorAnyOf_def)

lemma compare_response_result:
  assumes "is_LDAPResult q code dn msg" "Tag (Children q ! 1) = ApplicationCompareResponse"
  shows "compare_response q = Some (compare_result q code dn msg)"
proof -
  have "\<not> 65536 dvd code" if "code mod 65536 = 6 \<or> code mod 65536 = 5" using that by (auto simp: dvd_eq_mod_eq_0)
  then have "IsErrorWithCode (result_error q code dn msg) 6 \<longleftrightarrow> code mod 65536 = 6"
    "IsErrorWithCode (result_error q code dn msg) 5 \<longleftrightarrow> code mod 65536 = 5"
    unfolding IsErrorWithCode_result_error word16_eq_numeral by blast+
  moreover have "GetLDAPError q = Some (result_error q code dn msg)"
    using assms(1) by (simp add: GetLDAPError_of_LDAPResult result_error_def)
  moreover note is_LDAPResult_deref [OF assms(1)] assms(2)
  ultimately show ?thesis unfolding compare_response_def compare_result_def by simp
qed

lemma exchangedI:
  assumes "ber_library B" "\<not> se_nil s" "\<And>p. se_send s p = None" "readPacket (se_responses s) = Inr q"
    and "exchange_operation B app fail handle operation" "appends B app shape controls"
    and "\<And>p. shape p \<Longrightarrow> is_application code p" "handle q = Some r"
  shows "exchanged B s code controls shape r (operation s)"
proof -
  obtain p where p: "doRequest B s app = Some ([SendMessage p], None)" "is_request B s code controls p"
    "shape (Children p ! 1)"
    by (rule ber_library.doRequest_sends [OF assms(1,6,2,3)]) (use assms(7) in \<open>auto simp: is_application_def\<close>)
  from exchange_operation.answered [OF assms(5) p(1) assms(4)] assms(8)
  have "operation s = Some ([SendMessage p, ReceiveResponse, FinishMessage], r)" by simp
  with p show ?thesis unfolding exchanged_def by blast
qed

text \<open>The controls of a response: its third element, when there are three, holds packets that decode to them.\<close>

definition done_controls ::
  "ber \<Rightarrow> uuid_FromBytes \<Rightarrow> (rune \<Rightarrow> bool) \<Rightarrow> packet \<Rightarrow> control list \<Rightarrow> bool" where
  "done_controls B fb ip q cs \<longleftrightarrow>
     (if length (Children q) = 3
      then Children q ! 2 \<noteq> NilPacket \<and> list_all2 (decodes B fb ip) (Children (Children q ! 2)) cs
      else cs = [])"

lemma decode_controls_decoded:
  "list_all2 (decodes B fb ip) ks cs \<Longrightarrow> decode_controls B fb ip ks = Some (Inr cs)"
  by (induction rule: list_all2_induct) auto

lemma response_controls_decoded: "done_controls B fb ip q cs \<Longrightarrow> response_controls B fb ip q = Some (Inr cs)"
  by (auto simp: response_controls_def done_controls_def decode_controls_decoded deref_def split: if_splits)

lemma done_controls_typed: "done_controls B fb ip q cs \<Longrightarrow> list_all typed cs"
  by (auto simp: done_controls_def list_all2_conv_all_nth list_all_length dest: DecodeControl_typed split: if_splits)

lemma paging_control_arrives: "\<exists>pk. decodes ref_ber fb ip pk (ControlPaging 10 ''n'')"
proof -
  have "int_width 10 = 1" by (simp add: int_width_def base256.simps)
  then have "\<exists>p. ControlPaging_Encode ref_ber 10 ''n'' = Some p \<and> length (ber_Bytes ref_ber p) \<le> max_packet_length"
    by (simp add: ControlPaging_Encode_def ref_ber_def Data_Write_def new_value_def new_sequence_def new_type_def
        new_Control_def identifier_octets_def length_octets_def int_octets_def ControlTypePaging_def ref_new_def)
  then show ?thesis using ref_wire.ControlPaging_arrives by blast
qed

section \<open>Properties\<close>

text \<open>C11. \<^verbatim>\<open>Add\<close>, \<^verbatim>\<open>Del\<close>, \<^verbatim>\<open>Modify\<close> and \<^verbatim>\<open>ModifyDN\<close> on a working connection: the operation sends one envelope with
  the message id, an element that carries the DN and the attributes, changes or names in the order of the
  request, and the encoded controls; it receives one response, finishes the message, and returns nil or
  the server's error when the response has the operation's own type, and an error for any other type.\<close>

theorem write_operations_answered:
  assumes "ber_library B" "\<not> se_nil s" "\<And>p. se_send s p = None" "readPacket (se_responses s) = Inr q"
    and "is_LDAPResult q code dn msg"
    and "list_all encodable (add_Controls a)" "list_all encodable (del_Controls d)"
    and "list_all encodable (mod_Controls m)" "list_all encodable (mdn_Controls n)"
  shows "exchanged B s ApplicationAddRequest (add_Controls a) (add_element a)
           (simple_result ApplicationAddResponse q code dn msg) (Conn_Add B s (Some a))
    \<and> exchanged B s ApplicationDelRequest (del_Controls d) (del_element d)
           (simple_result ApplicationDelResponse q code dn msg) (Conn_Del B s (Some d))
    \<and> exchanged B s ApplicationModifyRequest (mod_Controls m) (modify_element m)
           (simple_result ApplicationModifyResponse q code dn msg) (Conn_Modify B s m)
    \<and> exchanged B s ApplicationModifyDNRequest (mdn_Controls n) (modify_dn_element n)
           (simple_result ApplicationModifyDNResponse q code dn msg) (Conn_ModifyDN B s n)"
proof (intro conjI)
  note ex = exchangedI [OF assms(1-4)] and res = check_response_result [OF assms(5)]
  show "exchanged B s ApplicationAddRequest (add_Controls a) (add_element a)
      (simple_result ApplicationAddResponse q code dn msg) (Conn_Add B s (Some a))"
    by (rule ex [OF add.exchange_operation_axioms ber_library.AddRequest_appends [OF assms(1,6)] _ res])
      (simp add: add_element_def)
  show "exchanged B s ApplicationDelRequest (del_Controls d) (del_element d)
      (simple_result ApplicationDelResponse q code dn msg) (Conn_Del B s (Some d))"
    by (rule ex [OF del.exchange_operation_axioms ber_library.DelRequest_appends [OF assms(1,7)] _ res])
      (simp add: del_element_def)
  show "exchanged B s ApplicationModifyRequest (mod_Controls m) (modify_element m)
      (simple_result ApplicationModifyResponse q code dn msg) (Conn_Modify B s m)"
    by (rule ex [OF modify.exchange_operation_axioms ber_library.ModifyRequest_appends [OF assms(1,8)] _ res])
      (simp add: modify_element_def)
  show "exchanged B s ApplicationModifyDNRequest (mdn_Controls n) (modify_dn_element n)
      (simple_result ApplicationModifyDNResponse q code dn msg) (Conn_ModifyDN B s n)"
    by (rule ex [OF modify_dn.exchange_operation_axioms ber_library.ModifyDNRequest_appends [OF assms(1,9)] _ res])
      (simp add: modify_dn_element_def)
qed

definition answer :: "nat \<Rightarrow> int \<Rightarrow> packet" where
  "answer app code = Packet ClassUniversal TypeConstructed 16 VNil [] (Some []) [
     Packet ClassUniversal TypePrimitive 2 (VInt64 7) [] (Some []) [] [],
     Packet ClassApplication TypeConstructed app VNil [] (Some []) [
       Packet ClassUniversal TypePrimitive 10 (VInt64 code) [] (Some []) [] [],
       Packet ClassUniversal TypePrimitive 4 (VString ''dc=x'') [] (Some []) [] [],
       Packet ClassUniversal TypePrimitive 4 (VString ''denied'') [] (Some []) [] []] []] []"

lemma answer_LDAPResult: "is_LDAPResult (answer app code) code ''dc=x'' ''denied''"
  by (simp add: is_LDAPResult_def answer_def)

definition working :: "packet list \<Rightarrow> session" where
  "working qs = \<lparr>se_nil = False, se_closing = False, se_id = 7, se_send = (\<lambda>_. None),
     se_responses = map (\<lambda>q. Some \<lparr>pr_Packet = q, pr_Error = None\<rparr>) qs\<rparr>"

lemma working_sel [simp]:
  "\<not> se_nil (working qs)" "\<not> se_closing (working qs)" "se_send (working qs) p = None" "se_id (working qs) = 7"
  by (simp_all add: working_def)

lemma working_read [simp]: "q \<noteq> NilPacket \<Longrightarrow> readPacket (se_responses (working (q # qs))) = Inr q"
  by (simp add: working_def readPacket_def ReadPacket_def)

theorem write_operations_answered_witness:
  "let q = answer ApplicationAddResponse 50; s = working [q];
       a = AddRequest_Attribute ''cn'' [''x'', ''y''] (NewAddRequest ''cn=x'' [ControlManageDsaIT True])
   in simple_result ApplicationAddResponse q 50 ''dc=x'' ''denied''
        = Some (LdapError (ErrText ''denied'') 50 ''dc=x'' q)
      \<and> exchanged ref_ber s ApplicationAddRequest [ControlManageDsaIT True] (add_element a)
        (Some (LdapError (ErrText ''denied'') 50 ''dc=x'' q)) (Conn_Add ref_ber s (Some a))"
proof -
  let ?q = "answer ApplicationAddResponse 50"
  let ?a = "AddRequest_Attribute ''cn'' [''x'', ''y''] (NewAddRequest ''cn=x'' [ControlManageDsaIT True])"
  have "?q \<noteq> NilPacket" by (simp add: answer_def)
  then have "exchanged ref_ber (working [?q]) ApplicationAddRequest (add_Controls ?a) (add_element ?a)
      (simple_result ApplicationAddResponse ?q 50 ''dc=x'' ''denied'') (Conn_Add ref_ber (working [?q]) (Some ?a))"
    using write_operations_answered [OF ref.ber_library_axioms, of "working [?q]" ?q 50 "''dc=x''" "''denied''" ?a
        "NewDelRequest [] []" "NewModifyRequest [] []" "NewModifyDNRequest [] [] True []"]
    by (simp add: answer_LDAPResult AddRequest_Attribute_def NewAddRequest_def NewDelRequest_def
        NewModifyRequest_def NewModifyDNRequest_def)
  moreover have "simple_result ApplicationAddResponse ?q 50 ''dc=x'' ''denied''
      = Some (LdapError (ErrText ''denied'') 50 ''dc=x'' ?q)"
    by (simp add: simple_result_def result_error_def answer_def)
  moreover have "add_Controls ?a = [ControlManageDsaIT True]" by (simp add: AddRequest_Attribute_def NewAddRequest_def)
  ultimately show ?thesis by (simp add: Let_def)
qed

text \<open>\<^verbatim>\<open>Compare\<close> sends the DN, the attribute and the value, and returns true without an error exactly for
  the server's code 6, false without an error for code 5, and false with the result's error for any
  other code.\<close>

theorem Compare_answered:
  assumes "ber_library B" "\<not> se_nil s" "\<And>p. se_send s p = None" "readPacket (se_responses s) = Inr q"
    and "is_LDAPResult q code dn msg" "Tag (Children q ! 1) = ApplicationCompareResponse"
  shows "exchanged B s ApplicationCompareRequest []
      (compare_element \<lparr>cmp_DN = name, cmp_Attribute = attribute, cmp_Value = v\<rparr>)
      (compare_result q code dn msg) (Conn_Compare B s name attribute v)"
  by (rule exchangedI [OF assms(1-4) compare.exchange_operation_axioms
        ber_library.CompareRequest_appends [OF assms(1)] _ compare_response_result [OF assms(5,6)]])
    (simp add: compare_element_def)

theorem Compare_answered_witness:
  "exchanged ref_ber (working [answer ApplicationCompareResponse 6]) ApplicationCompareRequest []
     (compare_element \<lparr>cmp_DN = ''cn=x'', cmp_Attribute = ''sn'', cmp_Value = ''y''\<rparr>)
     (True, None) (Conn_Compare ref_ber (working [answer ApplicationCompareResponse 6]) ''cn=x'' ''sn'' ''y'')"
proof -
  let ?q = "answer ApplicationCompareResponse 6"
  have "?q \<noteq> NilPacket" "Tag (Children ?q ! 1) = ApplicationCompareResponse" by (simp_all add: answer_def)
  then show ?thesis
    using Compare_answered [OF ref.ber_library_axioms, of "working [?q]" ?q 6 "''dc=x''" "''denied''"
        "''cn=x''" "''sn''" "''y''"]
    by (simp add: answer_LDAPResult compare_result_def)
qed

text \<open>\<^verbatim>\<open>ModifyWithResult\<close> has no default case: on a working connection a response of any other type than a
  modify response, whatever its result code, is returned as a success with an empty result, where \<^verbatim>\<open>Modify\<close>
  reports an unexpected response.\<close>

theorem ModifyWithResult_unexpected_response:
  assumes "ber_library B" "\<not> se_nil s" "\<And>p. se_send s p = None" "readPacket (se_responses s) = Inr q"
    and "list_all encodable (mod_Controls m)"
    and "2 \<le> length (Children q)" "Children q ! 1 \<noteq> NilPacket" "Tag (Children q ! 1) \<noteq> ApplicationModifyResponse"
  shows "exchanged B s ApplicationModifyRequest (mod_Controls m) (modify_element m)
      (Some \<lparr>mr_Controls = [], mr_Referral = []\<rparr>, None) (Conn_ModifyWithResult B fb ip s m)
    \<and> exchanged B s ApplicationModifyRequest (mod_Controls m) (modify_element m)
      (Some (ErrText (''ldap: unexpected response: '' @ decimal (Tag (Children q ! 1))))) (Conn_Modify B s m)"
proof -
  note ex = exchangedI [OF assms(1-4)] and app = ber_library.ModifyRequest_appends [OF assms(1,5)]
  have r: "modify_response B fb ip q = Some (Some \<lparr>mr_Controls = [], mr_Referral = []\<rparr>, None)"
    "check_response ApplicationModifyResponse q
      = Some (Some (ErrText (''ldap: unexpected response: '' @ decimal (Tag (Children q ! 1)))))"
    using assms(6-8) by (simp_all add: modify_response_def check_response_def deref_def)
  show ?thesis
    by (intro conjI ex [OF modify_result.exchange_operation_axioms app _ r(1)]
        ex [OF modify.exchange_operation_axioms app _ r(2)]) (simp_all add: modify_element_def)
qed

theorem ModifyWithResult_unexpected_response_witness:
  "exchanged ref_ber (working [answer ApplicationDelResponse 50]) ApplicationModifyRequest []
     (modify_element (ModifyRequest_Replace ''sn'' [''y''] (NewModifyRequest ''cn=x'' [])))
     (Some \<lparr>mr_Controls = [], mr_Referral = []\<rparr>, None)
     (Conn_ModifyWithResult ref_ber (\<lambda>s. Inr s) (\<lambda>_. True) (working [answer ApplicationDelResponse 50])
       (ModifyRequest_Replace ''sn'' [''y''] (NewModifyRequest ''cn=x'' [])))"
proof -
  let ?q = "answer ApplicationDelResponse 50" and ?m = "ModifyRequest_Replace ''sn'' [''y''] (NewModifyRequest ''cn=x'' [])"
  have "mod_Controls ?m = []" by (simp add: ModifyRequest_Replace_def appendChange_def NewModifyRequest_def)
  moreover have "?q \<noteq> NilPacket" "2 \<le> length (Children ?q)" "Children ?q ! 1 \<noteq> NilPacket"
    "Tag (Children ?q ! 1) \<noteq> ApplicationModifyResponse"
    by (simp_all add: answer_def)
  ultimately show ?thesis
    using ModifyWithResult_unexpected_response [OF ref.ber_library_axioms, of "working [?q]" ?q ?m "\<lambda>s. Inr s" "\<lambda>_. True"]
    by simp
qed

end
