(* ===== verification/Filter_Total.thy ===== *)
theory Filter_Total
  imports LDAP_Filter Ber_Reference
begin

text \<open>
  The filter compiler of \<^verbatim>\<open>src/v3/filter.go\<close> always returns, and returns a packet exactly when it
  returns no error, although a recovered panic makes its inner function return neither.
\<close>

section \<open>Positions only move forward\<close>

lemma item_loop_forward: "item_loop B f pos it = Inr (q, it') \<Longrightarrow> pos \<le> q"
proof (induction B f pos it rule: item_loop.induct)
  case (1 B f pos it)
  then show ?case
    by (subst (asm) item_loop.simps) (force split: if_splits prod.splits dest: add_leD1)
qed

lemma item_loop_return: "item_loop B f pos it = Inl (p, q, e) \<Longrightarrow> e \<noteq> None"
proof (induction B f pos it rule: item_loop.induct)
  case (1 B f pos it)
  then show ?case by (subst (asm) (2) item_loop.simps) (force split: if_splits prod.splits)
qed

lemma compile_item_forward:
  assumes "compile_item B f pos = (p, q, None)" "p \<noteq> NilPacket"
  shows "pos < q"
proof -
  obtain newPos it where loop: "item_loop B f pos item_start = Inr (newPos, it)"
    using assms by (auto simp: compile_item_def split: sum.splits dest: item_loop_return)
  with assms have "q = newPos + 1"
    by (auto simp: compile_item_def finish_extensible_def finish_substrings_def finish_comparison_def Let_def
        split: if_splits option.splits sum.splits bind_splits)
  with item_loop_forward [OF loop] show ?thesis by simp
qed

text \<open>What the compiler's two functions leave when they report no error.\<close>

context ber_library
begin

lemma new_filter_sel [simp]:
  "new_filter B g \<noteq> NilPacket" "Tag (new_filter B g) = g" "ClassType (new_filter B g) = ClassContext"
  "TagType (new_filter B g) = TypeConstructed" "Children (new_filter B g) = []" "Data (new_filter B g) \<noteq> None"
  unfolding new_filter_def by (rule Encode_sel)+

lemma AppendChild_Some_child: "ber_AppendChild B p k = Some p' \<Longrightarrow> k \<noteq> NilPacket"
  using AppendChild_nil by auto

lemma compile_forward:
  "compileFilter B n f pos = Some (p, q, None) \<Longrightarrow> p \<noteq> NilPacket \<Longrightarrow> pos < q"
  "compileFilterSet B n f pos parent = Some (Some (p, q, None)) \<Longrightarrow> pos < q"
proof (induction n arbitrary: pos p q parent)
  case 0
  { case 1 then show ?case by simp next case 2 then show ?case by simp }
next
  case (Suc n)
  {
    case 1
    then show ?case
      by (auto simp: Let_def AppendChild_nil split: if_splits prod.splits option.splits
          dest!: Suc.IH compile_item_forward AppendChild_Some_child dest: DecodeRune_drop_pos)
  next
    case 2
    then show ?case
      by (auto split: if_splits option.splits prod.splits
          dest!: Suc.IH AppendChild_Some_child)
  }
qed

text \<open>The depth of the recursion: two calls for every position left.\<close>

lemma compile_returns:
  "2 * (length f - pos) + 2 \<le> n \<Longrightarrow> compileFilter B n f pos \<noteq> None"
  "2 * (length f - pos) + 1 \<le> n \<Longrightarrow> compileFilterSet B n f pos parent \<noteq> None"
proof (induction n arbitrary: pos parent)
  case 0
  { case 1 then show ?case by simp next case 2 then show ?case by simp }
next
  case (Suc n)
  {
    case 1
    obtain r w where d: "DecodeRune (drop pos f) = (r, w)" by fastforce
    show ?case
    proof (cases "r = RuneError \<or> length f < pos")
      case True
      with d show ?thesis by auto
    next
      case False
      then have "pos < length f" "0 < w"
        using d DecodeRune_drop_pos [OF d] by (cases "drop pos f"; force)+
      then have "compileFilter B n f (pos + w) \<noteq> None" "compileFilterSet B n f (pos + w) parent \<noteq> None" for parent
        using Suc.IH(1) [of "pos + w"] Suc.IH(2) [of "pos + w"] 1 by simp_all
      then obtain p q e s1 s2 where "compileFilter B n f (pos + w) = Some (p, q, e)"
        "compileFilterSet B n f (pos + w) (new_filter B FilterAnd) = Some s1"
        "compileFilterSet B n f (pos + w) (new_filter B FilterOr) = Some s2"
        by (metis option.exhaust prod_cases3)
      with d show ?thesis by (cases "compile_item B f pos") (simp split: option.split)
    qed
  next
    case 2
    show ?case
    proof (cases "pos < length f")
      case True
      then have "compileFilter B n f (pos + 1) \<noteq> None" using 2 by (intro Suc.IH(1)) simp
      moreover have "compileFilterSet B n f q parent \<noteq> None" if "pos + 1 < q" for q parent
        using 2 that True by (intro Suc.IH(2)) simp
      ultimately show ?thesis
        using compile_forward(1) [of n f "pos + 1"]
        by (fastforce split: option.splits prod.splits dest: AppendChild_Some_child)
    next
      case False
      then show ?thesis by simp
    qed
  }
qed

text \<open>A call that returns neither a packet nor an error has not got far.\<close>

lemma compile_item_nil: "compile_item B f pos = (NilPacket, q, None) \<Longrightarrow> q = 0"
proof -
  assume item: "compile_item B f pos = (NilPacket, q, None)"
  have finish: "finish_extensible B newPos it = Some (p, k, None) \<Longrightarrow> p \<noteq> NilPacket" for newPos it p k
    by (cases "decodeEscapedSymbols (it_condition it)")
      (auto simp: finish_extensible_def append_if_def bind_eq_Some_conv split: if_splits dest: AppendChild_packet)
  have sub: "finish_substrings B newPos it = Some (p, k, None) \<Longrightarrow> p \<noteq> NilPacket" for newPos it p k
    by (auto simp: finish_substrings_def Let_def bind_eq_Some_conv split: sum.splits)
      (metis AppendChild_packet obj_sumE)
  have cmp: "finish_comparison B newPos it = Some (p, k, None) \<Longrightarrow> p \<noteq> NilPacket" for newPos it p k
    by (auto simp: finish_comparison_def bind_eq_Some_conv split: sum.splits dest: AppendChild_packet)
  from item show ?thesis
    by (auto simp: compile_item_def split: sum.splits if_splits option.splits prod.splits
        dest: item_loop_return finish sub cmp)
qed

lemma compile_nil:
  "compileFilter B n f pos = Some (NilPacket, q, None) \<Longrightarrow> q \<le> length f - pos"
proof (induction n arbitrary: pos q)
  case (Suc n)
  obtain r w where d: "DecodeRune (drop pos f) = (r, w)" by fastforce
  have set: "compileFilterSet B n f p parent = Some (Some (NilPacket, q, None)) \<Longrightarrow> parent \<noteq> NilPacket \<Longrightarrow> False"
    for n p parent
    by (induction n arbitrary: p parent)
      (auto split: if_splits option.splits prod.splits dest: AppendChild_packet)
  show ?case
  proof (cases "r = 0x28 \<and> pos \<le> length f \<and> r \<noteq> RuneError")
    case True
    with Suc.prems d obtain q' where "compileFilter B n f (pos + w) = Some (NilPacket, q', None)" "q = q' + 1"
      by (auto split: option.splits prod.splits)
    moreover have "pos < length f" using True d by (cases "pos = length f") auto
    ultimately show ?thesis using Suc.IH [of "pos + w" q'] DecodeRune_drop_pos [OF d] by simp
  next
    case False
    with Suc.prems d have "q = 0"
      by (auto split: if_splits option.splits prod.splits dest: set compile_item_nil AppendChild_packet)
    then show ?thesis by simp
  qed
qed simp

lemma CompileFilter_returns:
  "\<exists>p e. CompileFilter B f = Some (p, e) \<and> (e = None \<longleftrightarrow> p \<noteq> NilPacket)"
proof (cases "f = [] \<or> hd f \<noteq> CHR ''(''")
  case True
  then show ?thesis by (simp add: CompileFilter_def)
next
  case False
  then have len: "0 < length f" by simp
  then obtain p q e where res: "compileFilter B (compile_bound f) f 1 = Some (p, q, e)"
    using compile_returns(1) [of f 1 "compile_bound f"] by (auto simp: compile_bound_def)
  show ?thesis
  proof (cases "e = None \<and> p = NilPacket")
    case True
    with res len have "q < length f" using compile_nil [of "compile_bound f" f 1 q]
      by (cases f) auto
    with True res False show ?thesis by (simp add: CompileFilter_def)
  next
    case False
    with \<open>\<not> (f = [] \<or> hd f \<noteq> CHR ''('')\<close> res show ?thesis
      by (cases e) (auto simp: CompileFilter_def)
  qed
qed

end

section \<open>Properties\<close>

text \<open>C22. \<^verbatim>\<open>CompileFilter\<close> returns on every input, with a packet and no error or an error and no
  packet: the panics it recovers from, which leave it with neither, never reach its caller.\<close>

theorem CompileFilter_total:
  assumes "ber_library B"
  shows "\<exists>p e. CompileFilter B f = Some (p, e) \<and> (e = None \<longleftrightarrow> p \<noteq> NilPacket)"
  using assms by (rule ber_library.CompileFilter_returns)

theorem CompileFilter_total_witness:
  "\<exists>p e. CompileFilter ref_ber ''((!(!))'' = Some (p, e) \<and> (e = None \<longleftrightarrow> p \<noteq> NilPacket)"
  by (rule CompileFilter_total [OF ref.ber_library_axioms])

end
