(* ===== verification/Filter_Roundtrip.thy ===== *)
theory Filter_Roundtrip
  imports Filter_Total
begin

text \<open>
  The filter compiler and decompiler of \<^verbatim>\<open>src/v3/filter.go\<close> against the filters of RFC 4515 as a
  datatype: compiling the string form of a filter gives a packet that encodes the filter, and
  decompiling any packet that encodes a filter gives its string form.
\<close>

section \<open>Filters, their string form and their packets\<close>

datatype comparison = Equality | GreaterOrEqual | LessOrEqual | ApproxMatch

text \<open>An empty string stands for an absent component: no initial or final substring, no attribute
  and no matching rule of an extensible match.\<close>

datatype ldap_filter =
    And "ldap_filter list"
  | Or "ldap_filter list"
  | Not ldap_filter
  | Compare comparison string string
  | Present string
  | Substrings string string "string list" string
  | Extensible string bool string string

fun comparison_text :: "comparison \<Rightarrow> string" where
  "comparison_text Equality = ''=''"
| "comparison_text GreaterOrEqual = ''>=''"
| "comparison_text LessOrEqual = ''<=''"
| "comparison_text ApproxMatch = ''~=''"

fun comparison_tag :: "comparison \<Rightarrow> nat" where
  "comparison_tag Equality = FilterEqualityMatch"
| "comparison_tag GreaterOrEqual = FilterGreaterOrEqual"
| "comparison_tag LessOrEqual = FilterLessOrEqual"
| "comparison_tag ApproxMatch = FilterApproxMatch"

definition substrings_text :: "string \<Rightarrow> string list \<Rightarrow> string \<Rightarrow> string" where
  "substrings_text i as f = escape_ref i @ ''*'' @ concat (map (\<lambda>a. escape_ref a @ ''*'') as) @ escape_ref f"

definition extensible_head :: "bool \<Rightarrow> string \<Rightarrow> string" where
  "extensible_head dn rule = (if dn then '':dn'' else []) @ (if rule = [] then [] else '':'' @ escape_ref rule)"

fun filter_body :: "ldap_filter \<Rightarrow> string" where
  "filter_body (And fs) = ''&'' @ concat (map (\<lambda>f. ''('' @ filter_body f) fs) @ '')''"
| "filter_body (Or fs) = ''|'' @ concat (map (\<lambda>f. ''('' @ filter_body f) fs) @ '')''"
| "filter_body (Not f) = ''!('' @ filter_body f @ '')''"
| "filter_body (Compare op a v) = escape_ref a @ comparison_text op @ escape_ref v @ '')''"
| "filter_body (Present a) = escape_ref a @ ''=*)''"
| "filter_body (Substrings a i as f) = escape_ref a @ ''='' @ substrings_text i as f @ '')''"
| "filter_body (Extensible a dn rule v) =
     escape_ref a @ extensible_head dn rule @ '':='' @ escape_ref v @ '')''"

definition show_filter :: "ldap_filter \<Rightarrow> string" where
  "show_filter f = ''('' @ filter_body f"

text \<open>The filters whose string form is unambiguous: attributes and rules without characters that
  end them, no empty inner substring, not all substrings empty (that is the presence filter), and no
  rule named \<^verbatim>\<open>dn\<close> where it would be read as the DN flag.\<close>

definition name_ok :: "string \<Rightarrow> bool" where
  "name_ok a \<longleftrightarrow> list_all (\<lambda>c. \<not> mustEscape c \<and> c \<notin> {CHR '':'', CHR ''='', CHR ''<'', CHR ''>'', CHR ''~''}) a"

definition attr_ok :: "string \<Rightarrow> bool" where
  "attr_ok a \<longleftrightarrow> name_ok a \<and> (a \<noteq> [] \<longrightarrow> hd a \<notin> {CHR ''&'', CHR ''|'', CHR ''!''})"

fun wf_filter :: "ldap_filter \<Rightarrow> bool" where
  "wf_filter (And fs) = list_all wf_filter fs"
| "wf_filter (Or fs) = list_all wf_filter fs"
| "wf_filter (Not f) = wf_filter f"
| "wf_filter (Compare op a v) = attr_ok a"
| "wf_filter (Present a) = attr_ok a"
| "wf_filter (Substrings a i as f) =
     (attr_ok a \<and> list_all (\<lambda>x. x \<noteq> []) as \<and> (i \<noteq> [] \<or> as \<noteq> [] \<or> f \<noteq> []))"
| "wf_filter (Extensible a dn rule v) =
     (attr_ok a \<and> name_ok rule \<and> (rule = ''dn'' \<longrightarrow> dn))"

text \<open>The packets of RFC 4511 for a filter.\<close>

definition is_string :: "ber_class \<Rightarrow> nat \<Rightarrow> string \<Rightarrow> packet \<Rightarrow> bool" where
  "is_string c g s p \<longleftrightarrow> p \<noteq> NilPacket \<and> ClassType p = c \<and> TagType p = TypePrimitive \<and> Tag p = g
     \<and> Value p = VString s \<and> Data p = Some s"

definition is_flag :: "packet \<Rightarrow> bool" where
  "is_flag p \<longleftrightarrow> p \<noteq> NilPacket \<and> ClassType p = ClassContext \<and> TagType p = TypePrimitive
     \<and> Tag p = MatchingRuleAssertionDNAttributes \<and> Value p = VBool True"

definition is_choice :: "ber_class \<Rightarrow> nat \<Rightarrow> packet \<Rightarrow> bool" where
  "is_choice c g p \<longleftrightarrow> p \<noteq> NilPacket \<and> ClassType p = c \<and> TagType p = TypeConstructed \<and> Tag p = g"

definition substring_list :: "string \<Rightarrow> string list \<Rightarrow> string \<Rightarrow> (nat \<times> string) list" where
  "substring_list i as f = (if i = [] then [] else [(FilterSubstringsInitial, i)])
     @ map (Pair FilterSubstringsAny) as @ (if f = [] then [] else [(FilterSubstringsFinal, f)])"

definition rule_list :: "string \<Rightarrow> string \<Rightarrow> string \<Rightarrow> (nat \<times> string) list" where
  "rule_list a rule v = (if rule = [] then [] else [(MatchingRuleAssertionMatchingRule, rule)])
     @ (if a = [] then [] else [(MatchingRuleAssertionType, a)]) @ [(MatchingRuleAssertionMatchValue, v)]"

abbreviation are_strings :: "packet list \<Rightarrow> (nat \<times> string) list \<Rightarrow> bool" where
  "are_strings ks gs \<equiv> list_all2 (\<lambda>k (g, s). is_string ClassContext g s k) ks gs"

inductive encodes :: "packet \<Rightarrow> ldap_filter \<Rightarrow> bool" where
  enc_And: "is_choice ClassContext FilterAnd p \<Longrightarrow> list_all2 encodes (Children p) fs \<Longrightarrow> encodes p (And fs)"
| enc_Or: "is_choice ClassContext FilterOr p \<Longrightarrow> list_all2 encodes (Children p) fs \<Longrightarrow> encodes p (Or fs)"
| enc_Not: "is_choice ClassContext FilterNot p \<Longrightarrow> Children p = [k] \<Longrightarrow> encodes k f \<Longrightarrow> encodes p (Not f)"
| enc_Compare: "is_choice ClassContext (comparison_tag op) p \<Longrightarrow> Children p = [k, l]
    \<Longrightarrow> is_string ClassUniversal TagOctetString a k \<Longrightarrow> is_string ClassUniversal TagOctetString v l
    \<Longrightarrow> encodes p (Compare op a v)"
| enc_Present: "is_string ClassContext FilterPresent a p \<Longrightarrow> encodes p (Present a)"
| enc_Substrings: "is_choice ClassContext FilterSubstrings p \<Longrightarrow> Children p = [k, seq]
    \<Longrightarrow> is_string ClassUniversal TagOctetString a k \<Longrightarrow> is_choice ClassUniversal TagSequence seq
    \<Longrightarrow> are_strings (Children seq) (substring_list i as f) \<Longrightarrow> encodes p (Substrings a i as f)"
| enc_Extensible: "is_choice ClassContext FilterExtensibleMatch p \<Longrightarrow> Children p = ks @ flags
    \<Longrightarrow> are_strings ks (rule_list a rule v)
    \<Longrightarrow> (if dn then \<exists>k. flags = [k] \<and> is_flag k else flags = []) \<Longrightarrow> encodes p (Extensible a dn rule v)"

section \<open>Decompiling\<close>

context ber_library
begin

lemma data_text_string [simp]: "is_string c g s p \<Longrightarrow> data_text B p = Some s"
  by (simp add: is_string_def data_text_def deref_def DecodeString_bytes)

lemma child_escaped_string:
  "i < length cs \<Longrightarrow> is_string c g s (cs ! i) \<Longrightarrow> child_escaped B cs i = Some (escape_ref s)"
  by (simp add: child_escaped_def EscapeFilter_ref)

lemma decompile_parts_strings:
  assumes "are_strings ks gs"
  shows "decompile_parts B i ks = Some ((if i = 0 \<and> gs \<noteq> [] \<and> fst (hd gs) \<noteq> FilterSubstringsInitial then ''*'' else [])
    @ concat (map (\<lambda>(g, s). escape_ref s @ (if g \<noteq> FilterSubstringsFinal then ''*'' else [])) gs))"
  using assms
proof (induction ks gs arbitrary: i rule: list_all2_induct)
  case (Cons k ks g gs)
  then obtain t s where g: "g = (t, s)" "is_string ClassContext t s k" by (cases g) auto
  then have "deref k = Some k" "Tag k = t" by (simp_all add: is_string_def deref_def)
  with g Cons.IH [of "Suc i"] show ?case by (simp add: EscapeFilter_ref)
qed simp

lemma decompile_substrings:
  assumes "are_strings ks (substring_list i as f)" "i \<noteq> [] \<or> as \<noteq> [] \<or> f \<noteq> []"
  shows "decompile_parts B 0 ks = Some (substrings_text i as f)"
proof -
  have "concat (map (\<lambda>(g, s). escape_ref s @ (if g \<noteq> FilterSubstringsFinal then ''*'' else []))
      (map (Pair FilterSubstringsAny) as)) = concat (map (\<lambda>a. escape_ref a @ ''*'') as)"
    by (simp add: comp_def)
  with assms(2) decompile_parts_strings [OF assms(1), of 0] show ?thesis
    by (cases "i = []"; cases "f = []"; cases as)
      (simp_all add: substring_list_def substrings_text_def comp_def)
qed

lemma read_extensible_rules:
  assumes "are_strings ks (rule_list a rule v)" "if dn then \<exists>k. flags = [k] \<and> is_flag k else flags = []"
  shows "read_extensible B \<lparr>ex_attr = [], ex_dnAttributes = False, ex_matchingRule = [], ex_value = []\<rparr> (ks @ flags)
    = Some \<lparr>ex_attr = a, ex_dnAttributes = dn, ex_matchingRule = rule, ex_value = v\<rparr>"
proof -
  have "read_extensible B ex flags = Some (if dn then ex\<lparr>ex_dnAttributes := True\<rparr> else ex)" for ex
    using assms(2) by (auto simp: is_flag_def deref_def split: if_splits)
  moreover have "deref k = Some k" "Tag k = g" if "is_string c g s k" for c g s k
    using that by (simp_all add: is_string_def deref_def)
  ultimately show ?thesis
    using assms(1) unfolding rule_list_def
    by (cases "rule = []"; cases "a = []") (auto simp: list_all2_Cons2)
qed

lemma decompile_children_all:
  assumes "list_all2 (\<lambda>p f. wf_filter f \<longrightarrow> DecompileFilter B p = (show_filter f, None)) ks fs"
    "list_all wf_filter fs"
  shows "decompile_children B ks = Inr (concat (map show_filter fs))"
  using assms by (induction ks fs rule: list_all2_induct) auto

text \<open>A constructed packet's tag selects the branch.\<close>

lemma DecompileFilter_item:
  assumes "p \<noteq> NilPacket" "Tag p \<notin> {FilterAnd, FilterOr, FilterNot}"
    "decompile_item B (Tag p) (Data p) (Children p) = Some s"
  shows "DecompileFilter B p = (''('' @ s @ '')'', None)"
  using assms by (cases p) auto

lemma DecompileFilter_encodes:
  "encodes p f \<Longrightarrow> wf_filter f \<Longrightarrow> DecompileFilter B p = (show_filter f, None)"
proof (induction p f rule: encodes.induct)
  case (enc_And p fs)
  then have "decompile_children B (Children p) = Inr (concat (map show_filter fs))"
    by (intro decompile_children_all) (auto elim: list_all2_mono)
  with enc_And.hyps(1) show ?case
    by (cases p) (auto simp: is_choice_def show_filter_def [abs_def])
next
  case (enc_Or p fs)
  then have "decompile_children B (Children p) = Inr (concat (map show_filter fs))"
    by (intro decompile_children_all) (auto elim: list_all2_mono)
  with enc_Or.hyps(1) show ?case
    by (cases p) (auto simp: is_choice_def show_filter_def [abs_def])
next
  case (enc_Not p k f)
  then show ?case by (cases p) (auto simp: is_choice_def show_filter_def)
next
  case (enc_Compare op p k l a v)
  then have "decompile_comparison B (Children p) (comparison_text op)
      = Some (escape_ref a @ comparison_text op @ escape_ref v)"
    by (simp add: decompile_comparison_def child_escaped_string)
  with enc_Compare.hyps(1) show ?case
    by (subst DecompileFilter_item [where s = "escape_ref a @ comparison_text op @ escape_ref v"])
      (cases op; simp add: is_choice_def decompile_item_def show_filter_def)+
next
  case (enc_Present a p)
  then show ?case
    by (subst DecompileFilter_item [where s = "escape_ref a @ ''=*''"])
      (simp_all add: is_string_def decompile_item_def show_filter_def DecodeString_bytes EscapeFilter_ref)
next
  case (enc_Substrings p k seq a i as f)
  from enc_Substrings have "decompile_item B FilterSubstrings (Data p) (Children p)
      = Some (escape_ref a @ ''='' @ substrings_text i as f)"
    by (auto simp: decompile_item_def child_escaped_string decompile_substrings is_choice_def deref_def)
  with enc_Substrings.hyps(1) show ?case
    by (subst DecompileFilter_item [where s = "escape_ref a @ ''='' @ substrings_text i as f"])
      (simp_all add: is_choice_def show_filter_def)
next
  case (enc_Extensible p ks flags a rule v dn)
  have "decompile_extensible B (Children p)
      = Some (escape_ref a @ extensible_head dn rule @ '':='' @ escape_ref v)"
    using read_extensible_rules [OF enc_Extensible.hyps(3,4)]
    by (simp add: decompile_extensible_def enc_Extensible.hyps(2) EscapeFilter_ref extensible_head_def)
  with enc_Extensible.hyps(1) show ?case
    by (subst DecompileFilter_item [where s = "escape_ref a @ extensible_head dn rule @ '':='' @ escape_ref v"])
      (simp_all add: is_choice_def decompile_item_def show_filter_def)
qed

end

section \<open>Reading an item\<close>

text \<open>The loop of the compiler at a character that is ASCII.\<close>

lemma item_loop_end: "item_loop B (pre @ CHR '')'' # rest) (length pre) it = Inr (length pre, it)"
  by (subst item_loop.simps) (simp add: is_ascii_def)

lemma item_loop_char:
  assumes "is_ascii c" "c \<noteq> CHR '')''" "item_step B (c # rest) (ord c) 1 it = (it', k)"
  shows "item_loop B (pre @ c # rest) (length pre) it = item_loop B (pre @ c # rest) (length pre + k) it'"
proof -
  have "ord c \<noteq> 0x29" using assms(2) by (simp add: char_lit_iff)
  moreover have "ord c \<noteq> RuneError" using assms(1) by (simp add: is_ascii_def RuneError_def)
  ultimately show ?thesis using assms by (subst item_loop.simps) simp
qed

text \<open>A run of characters that the current state only collects.\<close>

lemma item_loop_run:
  assumes "ascii_string t" "CHR '')'' \<notin> set t" "I it"
    and collect: "\<And>c u it. c \<in> set t \<Longrightarrow> I it \<Longrightarrow> item_step B (c # u) (ord c) 1 it = (add c it, 1) \<and> I (add c it)"
  shows "item_loop B (pre @ t @ rest) (length pre) it
    = item_loop B (pre @ t @ rest) (length (pre @ t)) (fold add t it) \<and> I (fold add t it)"
  using assms
proof (induction t arbitrary: pre it)
  case (Cons c t)
  have step: "item_step B (c # t @ rest) (ord c) 1 it = (add c it, 1)" "I (add c it)"
    using Cons.prems by (auto dest: Cons.prems(4))
  have "item_loop B (pre @ c # t @ rest) (length pre) it
      = item_loop B (pre @ c # t @ rest) (length pre + 1) (add c it)"
    using Cons.prems step by (intro item_loop_char) auto
  moreover have "item_loop B ((pre @ [c]) @ t @ rest) (length (pre @ [c])) (add c it)
      = item_loop B ((pre @ [c]) @ t @ rest) (length ((pre @ [c]) @ t)) (fold add t (add c it))
      \<and> I (fold add t (add c it))"
    using Cons.prems step by (intro Cons.IH) auto
  ultimately show ?case by simp
qed simp

lemma collect_attribute: "fold (\<lambda>c it. it\<lparr>it_attribute := it_attribute it @ [c]\<rparr>) t it
    = it\<lparr>it_attribute := it_attribute it @ t\<rparr>"
  by (induction t arbitrary: it) simp_all

lemma collect_rule: "fold (\<lambda>c it. it\<lparr>it_matchingRule := it_matchingRule it @ [c]\<rparr>) t it
    = it\<lparr>it_matchingRule := it_matchingRule it @ t\<rparr>"
  by (induction t arbitrary: it) simp_all

lemma collect_condition: "fold (\<lambda>c it. it\<lparr>it_condition := it_condition it @ [c]\<rparr>) t it
    = it\<lparr>it_condition := it_condition it @ t\<rparr>"
  by (induction t arbitrary: it) simp_all

lemma name_ok_char:
  assumes "name_ok a" "c \<in> set a"
  shows "is_ascii c" "c \<noteq> CHR '')''" "ord c \<notin> {0x3A, 0x3D, 0x3E, 0x3C, 0x7E}" "EncodeRune (ord c) = [c]"
  using assms by (auto simp: name_ok_def list_all_iff mustEscape_def is_ascii_def char_lit_iff)

lemma name_ok_string: "name_ok a \<Longrightarrow> ascii_string a \<and> CHR '')'' \<notin> set a"
  using name_ok_char by (auto simp: list_all_iff)

lemma name_ok_escape: "name_ok a \<Longrightarrow> escape_ref a = a"
  by (induction a) (auto simp: name_ok_def escape_byte_def)

lemma item_loop_attribute:
  assumes "name_ok a" "it_state it = stateReadingAttr"
  shows "item_loop B (pre @ a @ rest) (length pre) it
    = item_loop B (pre @ a @ rest) (length (pre @ a)) (it\<lparr>it_attribute := it_attribute it @ a\<rparr>)"
  using item_loop_run [of a "\<lambda>it. it_state it = stateReadingAttr" it B
      "\<lambda>c it. it\<lparr>it_attribute := it_attribute it @ [c]\<rparr>" pre rest] assms name_ok_string [OF assms(1)]
    name_ok_char [OF assms(1)]
  by (auto simp: item_step_def attr_step_def collect_attribute)

lemma item_loop_rule:
  assumes "name_ok a" "it_state it = stateReadingExtensibleMatchingRule"
  shows "item_loop B (pre @ a @ rest) (length pre) it
    = item_loop B (pre @ a @ rest) (length (pre @ a)) (it\<lparr>it_matchingRule := it_matchingRule it @ a\<rparr>)"
  using item_loop_run [of a "\<lambda>it. it_state it = stateReadingExtensibleMatchingRule" it B
      "\<lambda>c it. it\<lparr>it_matchingRule := it_matchingRule it @ [c]\<rparr>" pre rest] assms name_ok_string [OF assms(1)]
    name_ok_char [OF assms(1)]
  by (auto simp: item_step_def collect_rule)

lemma item_loop_condition:
  assumes "ascii_string t" "CHR '')'' \<notin> set t" "it_state it = stateReadingCondition"
  shows "item_loop B (pre @ t @ '')'' @ rest) (length pre) it
    = Inr (length (pre @ t), it\<lparr>it_condition := it_condition it @ t\<rparr>)"
proof -
  have "EncodeRune (ord c) = [c]" if "c \<in> set t" for c
    using assms(1) that by (simp add: list_all_iff is_ascii_def)
  with item_loop_run [of t "\<lambda>it. it_state it = stateReadingCondition" it B
      "\<lambda>c it. it\<lparr>it_condition := it_condition it @ [c]\<rparr>" pre "'')'' @ rest"] assms
  have "item_loop B (pre @ t @ '')'' @ rest) (length pre) it
    = item_loop B (pre @ t @ '')'' @ rest) (length (pre @ t)) (it\<lparr>it_condition := it_condition it @ t\<rparr>)"
    by (auto simp: item_step_def collect_condition)
  with item_loop_end [of B "pre @ t" rest] show ?thesis by simp
qed

text \<open>What the loop leaves when it has read a whole item.\<close>

definition read_item :: "packet \<Rightarrow> string \<Rightarrow> bool \<Rightarrow> string \<Rightarrow> string \<Rightarrow> item" where
  "read_item p a dn rule v = \<lparr>it_packet = p, it_state = stateReadingCondition, it_attribute = a,
     it_dnAttributes = dn, it_matchingRule = rule, it_condition = v\<rparr>"

lemma item_loop_comparison:
  assumes "name_ok a" "ascii_string v" "CHR '')'' \<notin> set v"
  shows "item_loop B (pre @ a @ comparison_text op @ v @ '')'' @ rest) (length pre) item_start
    = Inr (length (pre @ a @ comparison_text op @ v), read_item (new_filter B (comparison_tag op)) a False [] v)"
proof -
  let ?f = "pre @ a @ comparison_text op @ v @ '')'' @ rest"
  let ?it = "item_start\<lparr>it_attribute := a\<rparr>"
  let ?it' = "?it\<lparr>it_packet := new_filter B (comparison_tag op), it_state := stateReadingCondition\<rparr>"
  have "item_loop B ?f (length pre) item_start = item_loop B ?f (length (pre @ a)) ?it"
    using item_loop_attribute [OF assms(1), of item_start B pre] by (simp add: item_start_def)
  also have "\<dots> = item_loop B ?f (length (pre @ a) + length (comparison_text op)) ?it'"
  proof -
    obtain c cs where op: "comparison_text op = c # cs" "is_ascii c" "c \<noteq> CHR '')''"
      "\<And>u. item_step B (comparison_text op @ u) (ord c) 1 ?it = (?it', length (comparison_text op))"
      by (cases op) (auto simp: is_ascii_def item_step_def attr_step_def item_start_def)
    then show ?thesis
      using item_loop_char [of c B "cs @ v @ '')'' @ rest" ?it ?it' "length (comparison_text op)" "pre @ a"]
      by simp
  qed
  also have "\<dots> = Inr (length ((pre @ a @ comparison_text op) @ v), ?it'\<lparr>it_condition := v\<rparr>)"
    using item_loop_condition [OF assms(2,3), of ?it' B "pre @ a @ comparison_text op" rest]
    by (simp add: item_start_def add.assoc)
  finally show ?thesis by (simp add: read_item_def item_start_def add.assoc)
qed

lemma name_ok_Cons: "name_ok (c # a) \<Longrightarrow> name_ok a \<and> c \<noteq> CHR '':'' \<and> c \<noteq> CHR ''=''"
  by (simp add: name_ok_def)

lemma rule_not_dn:
  assumes "name_ok rule" "rule \<noteq> ''dn''"
  shows "\<not> prefix ''dn:'' (rule @ '':='' @ u)"
proof (cases rule)
  case (Cons c cs)
  with assms show ?thesis by (cases cs; cases "tl cs") (auto dest!: name_ok_Cons)
qed simp

text \<open>The part between the attribute and the condition of an extensible match.\<close>

lemma item_loop_head:
  assumes "name_ok rule" "rule = ''dn'' \<longrightarrow> dn" and it: "it_state it = stateReadingAttr"
    "it_matchingRule it = []" "\<not> it_dnAttributes it"
  shows "item_loop B (pre @ extensible_head dn rule @ '':='' @ u) (length pre) it
    = item_loop B (pre @ extensible_head dn rule @ '':='' @ u) (length (pre @ extensible_head dn rule @ '':=''))
        (it\<lparr>it_packet := new_filter B FilterExtensibleMatch, it_dnAttributes := dn,
            it_matchingRule := rule, it_state := stateReadingCondition\<rparr>)" (is "_ = item_loop B ?f _ ?it'")
proof (cases "rule = []")
  case True
  with it have "item_step B (extensible_head dn rule @ '':='' @ u) 0x3A 1 it
      = (?it', length (extensible_head dn rule @ '':=''))"
    by (cases it) (simp add: item_step_def attr_step_def extensible_head_def)
  moreover obtain cs where "extensible_head dn rule @ '':='' @ u = CHR '':'' # cs"
    using True by (cases dn) (auto simp: extensible_head_def)
  ultimately show ?thesis
    using item_loop_char [of "CHR '':''" B cs it ?it' "length (extensible_head dn rule @ '':='')" pre]
    by (simp add: is_ascii_def)
next
  case False
  let ?colon = "(if dn then '':dn'' else []) @ '':''"
  let ?it1 = "it\<lparr>it_packet := new_filter B FilterExtensibleMatch, it_dnAttributes := dn,
                it_state := stateReadingExtensibleMatchingRule\<rparr>"
  let ?it2 = "?it1\<lparr>it_matchingRule := rule\<rparr>"
  have f: "?f = pre @ ?colon @ rule @ '':='' @ u"
    using False by (simp add: extensible_head_def name_ok_escape [OF assms(1)])
  obtain c cs where rule: "rule = c # cs" "c \<noteq> CHR '':''" "c \<noteq> CHR ''=''"
    using False assms(1) by (cases rule) (auto dest: name_ok_Cons)
  have "prefix '':dn:'' (?colon @ rule @ '':='' @ u) \<longleftrightarrow> dn"
    using rule_not_dn [of rule u] assms(1,2) by auto
  then have "item_step B (?colon @ rule @ '':='' @ u) 0x3A 1 it = (?it1, length ?colon)"
    using it rule by (cases it) (auto simp: item_step_def attr_step_def prefix_def)
  moreover obtain ds where "?colon @ rule @ '':='' @ u = CHR '':'' # ds" by (cases dn) simp_all
  ultimately have "item_loop B ?f (length pre) it = item_loop B ?f (length (pre @ ?colon)) ?it1"
    using item_loop_char [of "CHR '':''" B ds it ?it1 "length ?colon" pre] f by (simp add: is_ascii_def)
  also have "\<dots> = item_loop B ?f (length (pre @ ?colon @ rule)) ?it2"
    using item_loop_rule [OF assms(1), of ?it1 B "pre @ ?colon" "'':='' @ u"] it f by simp
  also have "\<dots> = item_loop B ?f (length (pre @ ?colon @ rule) + 2) ?it'"
    using item_loop_char [of "CHR '':''" B "''='' @ u" ?it2 ?it' 2 "pre @ ?colon @ rule"] f
    by (simp add: is_ascii_def item_step_def)
  also have "length (pre @ ?colon @ rule) + 2 = length (pre @ extensible_head dn rule @ '':='')"
    using False by (simp add: extensible_head_def name_ok_escape [OF assms(1)])
  finally show ?thesis .
qed

lemma item_loop_extensible:
  assumes "name_ok a" "name_ok rule" "rule = ''dn'' \<longrightarrow> dn" "ascii_string v" "CHR '')'' \<notin> set v"
  shows "item_loop B (pre @ a @ extensible_head dn rule @ '':='' @ v @ '')'' @ rest) (length pre) item_start
    = Inr (length (pre @ a @ extensible_head dn rule @ '':='' @ v),
           read_item (new_filter B FilterExtensibleMatch) a dn rule v)"
proof -
  let ?h = "extensible_head dn rule"
  let ?f = "pre @ a @ ?h @ '':='' @ v @ '')'' @ rest"
  let ?it = "item_start\<lparr>it_attribute := a\<rparr>"
  let ?it' = "?it\<lparr>it_packet := new_filter B FilterExtensibleMatch, it_dnAttributes := dn,
            it_matchingRule := rule, it_state := stateReadingCondition\<rparr>"
  have "item_loop B ?f (length pre) item_start = item_loop B ?f (length (pre @ a)) ?it"
    using item_loop_attribute [OF assms(1), of item_start B pre] by (simp add: item_start_def)
  also have "\<dots> = item_loop B ?f (length ((pre @ a) @ ?h @ '':='')) ?it'"
    using item_loop_head [OF assms(2,3), of ?it B "pre @ a" "v @ '')'' @ rest"] by (simp add: item_start_def)
  also have "\<dots> = Inr (length ((pre @ a @ ?h @ '':='') @ v), ?it'\<lparr>it_condition := v\<rparr>)"
    using item_loop_condition [OF assms(4,5), of ?it' B "pre @ a @ ?h @ '':=''" rest]
    by (simp add: item_start_def)
  finally show ?thesis by (simp add: read_item_def item_start_def)
qed

section \<open>From an item to its packet\<close>

lemma read_item_sel [simp]:
  "it_packet (read_item p a dn rule v) = p" "it_attribute (read_item p a dn rule v) = a"
  "it_dnAttributes (read_item p a dn rule v) = dn" "it_matchingRule (read_item p a dn rule v) = rule"
  "it_condition (read_item p a dn rule v) = v"
  by (simp_all add: read_item_def)

lemma decode_escape_ref [simp]: "decodeEscapedSymbols (escape_ref v) = Inr v"
  by (rule filter_text.decode_encode) simp

lemma escape_ref_chars:
  "CHR ''*'' \<notin> set (escape_ref v)" "CHR '')'' \<notin> set (escape_ref v)" "escape_ref v \<noteq> ''*''"
  using escape_ref_plain [of v] by auto

lemma escape_ref_Nil_iff [simp]: "escape_ref v = [] \<longleftrightarrow> v = []"
  by (cases v) (auto simp: escape_byte_def)

text \<open>The packets of the substrings that are not empty, from index \<^verbatim>\<open>k\<close> of \<^verbatim>\<open>n\<close> parts on.\<close>

definition part_packet :: "ber \<Rightarrow> nat \<Rightarrow> string \<Rightarrow> packet" where
  "part_packet B g s = ber_NewString B ClassContext TypePrimitive g s (FilterSubstringsMap g)"

fun part_packets :: "ber \<Rightarrow> nat \<Rightarrow> nat \<Rightarrow> string list \<Rightarrow> packet list" where
  "part_packets B k n [] = []"
| "part_packets B k n (x # xs) =
     (if x = [] then [] else [part_packet B (substring_tag k n) x]) @ part_packets B (Suc k) n xs"

context ber_library
begin

text \<open>The calls of \<^verbatim>\<open>AppendChild\<close> that build a packet, as one run.\<close>

lemma appendChildren_choice:
  assumes "p \<noteq> NilPacket" "Data p \<noteq> None" "Children p = []" "ClassType p = c" "TagType p = TypeConstructed"
    "Tag p = g" "NilPacket \<notin> set ks"
  obtains p' where "appendChildren B p ks = Some p'" "is_choice c g p'" "Children p' = ks" "Data p' \<noteq> None"
  using appendChildren_grown [of p ks] assms by (auto simp: grown_def is_choice_def)

lemma NewString_Octet_string [simp]: "is_string ClassUniversal TagOctetString s (NewString_Octet B s ds)"
  by (simp add: is_string_def NewString_Octet_def)

lemma NewString_Rule_string [simp]: "is_string ClassContext g s (NewString_Rule B g s)"
  by (simp add: is_string_def NewString_Rule_def)

lemma nil_not_new [simp]:
  "NilPacket \<noteq> NewString_Octet B s ds" "NilPacket \<noteq> NewString_Rule B g s"
  "NilPacket \<noteq> ber_NewBoolean B c t g b ds" "NilPacket \<noteq> ber_NewString B c t g s ds"
  by (metis NewString_Octet_def NewString_sel(1)) (metis NewString_Rule_def NewString_sel(1), metis NewBoolean_sel(1), metis NewString_sel(1))

lemma finish_comparison_encodes:
  "\<exists>p. finish_comparison B q (read_item (new_filter B (comparison_tag op)) a False [] (escape_ref v))
     = Some (p, q + 1, None) \<and> encodes p (Compare op a v)"
proof -
  let ?k = "NewString_Octet B a ''Attribute''" and ?l = "NewString_Octet B v ''Condition''"
  have "NilPacket \<notin> set [?k, ?l]" by simp
  then obtain p where "appendChildren B (new_filter B (comparison_tag op)) [?k, ?l] = Some p"
    "is_choice ClassContext (comparison_tag op) p" "Children p = [?k, ?l]"
    using appendChildren_choice [of "new_filter B (comparison_tag op)" ClassContext "comparison_tag op" "[?k, ?l]"]
    by auto
  then show ?thesis
    by (intro exI [of _ p]) (auto simp: finish_comparison_def intro!: enc_Compare split: option.splits)
qed

lemma append_if_run:
  "append_if B b p k = appendChildren B p (if b then [k] else [])"
  by (simp add: append_if_def split: option.splits)

lemma appendChildren_append:
  "appendChildren B p (ks @ ls) = (case appendChildren B p ks of None \<Rightarrow> None | Some p' \<Rightarrow> appendChildren B p' ls)"
  by (induction ks arbitrary: p) (auto split: option.splits)

lemma finish_extensible_encodes:
  "\<exists>p. finish_extensible B q (read_item (new_filter B FilterExtensibleMatch) a dn rule (escape_ref v))
     = Some (p, q + 1, None) \<and> encodes p (Extensible a dn rule v)"
proof -
  let ?ks = "(if rule \<noteq> [] then [NewString_Rule B MatchingRuleAssertionMatchingRule rule] else [])
    @ (if a \<noteq> [] then [NewString_Rule B MatchingRuleAssertionType a] else [])
    @ [NewString_Rule B MatchingRuleAssertionMatchValue v]"
  let ?k = "ber_NewBoolean B ClassContext TypePrimitive MatchingRuleAssertionDNAttributes dn
    (MatchingRuleAssertionMap MatchingRuleAssertionDNAttributes)"
  let ?flags = "if dn then [?k] else []"
  have "NilPacket \<notin> set (?ks @ ?flags)" by simp
  then obtain p where run: "appendChildren B (new_filter B FilterExtensibleMatch) (?ks @ ?flags) = Some p"
    and p: "is_choice ClassContext FilterExtensibleMatch p" "Children p = ?ks @ ?flags"
    using appendChildren_choice [of "new_filter B FilterExtensibleMatch" ClassContext FilterExtensibleMatch "?ks @ ?flags"]
    by auto
  from run have "finish_extensible B q (read_item (new_filter B FilterExtensibleMatch) a dn rule (escape_ref v))
     = Some (p, q + 1, None)"
    by (auto simp: finish_extensible_def append_if_run appendChildren_append split: option.splits if_splits)
  moreover have "encodes p (Extensible a dn rule v)"
    using p by (intro enc_Extensible [of p ?ks ?flags]) (auto simp: rule_list_def is_flag_def)
  ultimately show ?thesis by blast
qed

lemma append_parts_run:
  "append_parts B k n (map escape_ref xs) seq = map_option Inr (appendChildren B seq (part_packets B k n xs))"
  by (induction xs arbitrary: k seq) (auto simp: part_packet_def split: option.splits)

lemma part_packet_string [simp]: "is_string ClassContext g s (part_packet B g s)"
  by (simp add: is_string_def part_packet_def)

lemma nil_not_part [simp]: "NilPacket \<notin> set (part_packets B k n xs)"
  by (induction xs arbitrary: k) (auto simp: part_packet_def)

lemma part_packets_any:
  "0 < k \<Longrightarrow> k + length as < n \<Longrightarrow> list_all (\<lambda>x. x \<noteq> []) as \<Longrightarrow>
   part_packets B k n (as @ [f]) = map (part_packet B FilterSubstringsAny) as @ part_packets B (k + length as) n [f]"
  by (induction as arbitrary: k) (auto simp: substring_tag_def)

lemma part_packets_strings:
  assumes "list_all (\<lambda>x. x \<noteq> []) as"
  shows "are_strings (part_packets B 0 (length as + 2) (i # as @ [f])) (substring_list i as f)"
proof -
  have "are_strings (map (part_packet B FilterSubstringsAny) as) (map (Pair FilterSubstringsAny) as)"
    by (simp add: list_all2_map1 list_all2_map2 list_all2_refl)
  moreover have "are_strings (part_packets B (Suc (length as)) (length as + 2) [f])
      (if f = [] then [] else [(FilterSubstringsFinal, f)])"
    by (simp add: substring_tag_def)
  ultimately show ?thesis
    using part_packets_any [of 1 as "length as + 2" f] assms
    by (auto simp: substring_list_def substring_tag_def intro!: list_all2_appendI)
qed

lemma split_substrings:
  "split_at (CHR ''*'') (substrings_text i as f) = map escape_ref (i # as @ [f])"
proof -
  have "split_at (CHR ''*'') (concat (map (\<lambda>a. escape_ref a @ ''*'') as) @ escape_ref f) = map escape_ref (as @ [f])"
    by (induction as) (simp_all add: split_at_piece split_at_last escape_ref_chars)
  then show ?thesis by (simp add: substrings_text_def split_at_piece escape_ref_chars)
qed

lemma finish_substrings_encodes:
  assumes "list_all (\<lambda>x. x \<noteq> []) as"
  shows "\<exists>p. finish_substrings B q (read_item (new_filter B FilterEqualityMatch) a False [] (substrings_text i as f))
     = Some (p, q + 1, None) \<and> encodes p (Substrings a i as f)"
proof -
  let ?k = "NewString_Octet B a ''Attribute''"
  let ?seq = "ber_Encode B ClassUniversal TypeConstructed TagSequence VNil ''Substrings''"
  define ks where "ks = part_packets B 0 (length as + 2) (i # as @ [f])"
  then have "NilPacket \<notin> set ks" by (simp only: nil_not_part not_False_eq_True)
  then obtain seq where seq: "appendChildren B ?seq ks = Some seq" "is_choice ClassUniversal TagSequence seq"
    "Children seq = ks"
    using appendChildren_choice [of ?seq ClassUniversal TagSequence ks] by auto
  obtain p1 where p1: "appendChildren B (new_filter B FilterEqualityMatch) [?k] = Some p1"
    "is_choice ClassContext FilterEqualityMatch p1" "Children p1 = [?k]" "Data p1 \<noteq> None"
    using appendChildren_choice [of "new_filter B FilterEqualityMatch" ClassContext FilterEqualityMatch "[?k]"] by auto
  let ?p2 = "set_Description (FilterMap FilterSubstrings) (set_Tag FilterSubstrings p1)"
  have "?p2 \<noteq> NilPacket" "Data ?p2 \<noteq> None" "seq \<noteq> NilPacket" using p1 seq by (simp_all add: is_choice_def)
  then obtain p3 where p3: "ber_AppendChild B ?p2 seq = Some p3" "grown ?p2 [seq] p3"
    using AppendChild_grown by blast
  have "finish_substrings B q (read_item (new_filter B FilterEqualityMatch) a False [] (substrings_text i as f))
     = Some (p3, q + 1, None)"
    using p1(1) p3(1) seq(1) ks_def append_parts_run [of 0 "length as + 2" "i # as @ [f]" ?seq]
    by (simp add: finish_substrings_def split_substrings Let_def split: option.splits)
  moreover have "encodes p3 (Substrings a i as f)"
  proof (rule enc_Substrings [of p3 ?k seq])
    show "is_choice ClassContext FilterSubstrings p3" "Children p3 = [?k, seq]"
      using p3(2) p1 by (simp_all add: grown_def is_choice_def)
    show "are_strings (Children seq) (substring_list i as f)"
      unfolding seq(3) ks_def using assms by (rule part_packets_strings)
  qed (use seq in simp_all)
  ultimately show ?thesis by blast
qed

text \<open>An item is a filter that holds no other filter.\<close>

lemma compile_item_loop:
  assumes "item_loop B (pre @ t @ '')'' @ rest) (length pre) item_start
      = Inr (length (pre @ t), read_item (new_filter B g) a dn rule v)"
  shows "compile_item B (pre @ t @ '')'' @ rest) (length pre) =
    (let it = read_item (new_filter B g) a dn rule v; q = length (pre @ t) in
     case (if g = FilterExtensibleMatch then finish_extensible B q it
           else if g = FilterEqualityMatch \<and> v = ''*'' then
             Some (ber_NewString B ClassContext TypePrimitive FilterPresent a (FilterMap FilterPresent), q + 1, None)
           else if g = FilterEqualityMatch \<and> CHR ''*'' \<in> set v then finish_substrings B q it
           else finish_comparison B q it) of
       None \<Rightarrow> recovered | Some res \<Rightarrow> res)"
  using assms by (simp add: compile_item_def Let_def)

lemma attr_ok_name: "attr_ok a \<Longrightarrow> name_ok a"
  by (simp add: attr_ok_def)

lemma compile_item_Compare:
  assumes "attr_ok a"
  shows "\<exists>p. compile_item B (pre @ filter_body (Compare op a v) @ suf) (length pre)
      = (p, length pre + length (filter_body (Compare op a v)), None) \<and> encodes p (Compare op a v)"
proof -
  let ?q = "length (pre @ a @ comparison_text op @ escape_ref v)"
  obtain p where "finish_comparison B ?q (read_item (new_filter B (comparison_tag op)) a False [] (escape_ref v))
      = Some (p, ?q + 1, None)" "encodes p (Compare op a v)"
    using finish_comparison_encodes by blast
  then show ?thesis
    using compile_item_loop [of pre "a @ comparison_text op @ escape_ref v" suf, simplified,
        OF item_loop_comparison [OF attr_ok_name [OF assms] escape_ref_ascii escape_ref_chars(2), of B, simplified]]
    by (cases op) (auto simp: name_ok_escape [OF attr_ok_name [OF assms]] escape_ref_chars Let_def)
qed

lemma compile_item_Present:
  assumes "attr_ok a"
  shows "\<exists>p. compile_item B (pre @ filter_body (Present a) @ suf) (length pre)
      = (p, length pre + length (filter_body (Present a)), None) \<and> encodes p (Present a)"
proof -
  have "encodes (ber_NewString B ClassContext TypePrimitive FilterPresent a (FilterMap FilterPresent)) (Present a)"
    by (rule enc_Present) (simp add: is_string_def)
  then show ?thesis
    using compile_item_loop [of pre "a @ comparison_text Equality @ ''*''" suf, simplified,
        OF item_loop_comparison [of a "''*''" B pre Equality suf, simplified]] attr_ok_name [OF assms]
    by (auto simp: name_ok_escape is_ascii_def)
qed

lemma compile_item_Substrings:
  assumes "wf_filter (Substrings a i as f)"
  shows "\<exists>p. compile_item B (pre @ filter_body (Substrings a i as f) @ suf) (length pre)
      = (p, length pre + length (filter_body (Substrings a i as f)), None) \<and> encodes p (Substrings a i as f)"
proof -
  let ?t = "substrings_text i as f"
  from assms have a: "name_ok a" and as: "list_all (\<lambda>x. x \<noteq> []) as" "i \<noteq> [] \<or> as \<noteq> [] \<or> f \<noteq> []"
    by (auto intro: attr_ok_name)
  have "ascii_string (concat (map (\<lambda>a. escape_ref a @ ''*'') as))"
    by (induction as) (simp_all add: escape_ref_ascii is_ascii_def [of "CHR ''*''"])
  then have t: "ascii_string ?t" "CHR '')'' \<notin> set ?t" "CHR ''*'' \<in> set ?t" "?t \<noteq> ''*''"
    using as(2) by (auto simp: substrings_text_def escape_ref_ascii escape_ref_chars
        is_ascii_def [of "CHR ''*''"] append_eq_Cons_conv)
  obtain p where "finish_substrings B (length (pre @ a @ ''='' @ ?t))
      (read_item (new_filter B FilterEqualityMatch) a False [] ?t)
      = Some (p, length (pre @ a @ ''='' @ ?t) + 1, None)" "encodes p (Substrings a i as f)"
    using finish_substrings_encodes [OF as(1)] by blast
  then show ?thesis
    using t compile_item_loop [of pre "a @ comparison_text Equality @ ?t" suf, simplified,
        OF item_loop_comparison [OF a t(1,2), of B pre Equality suf, simplified]]
    by (auto simp: name_ok_escape [OF a] Let_def)
qed

lemma compile_item_Extensible:
  assumes "wf_filter (Extensible a dn rule v)"
  shows "\<exists>p. compile_item B (pre @ filter_body (Extensible a dn rule v) @ suf) (length pre)
      = (p, length pre + length (filter_body (Extensible a dn rule v)), None) \<and> encodes p (Extensible a dn rule v)"
proof -
  let ?t = "a @ extensible_head dn rule @ '':='' @ escape_ref v"
  from assms have ok: "name_ok a" "name_ok rule" "rule = ''dn'' \<longrightarrow> dn" by (auto intro: attr_ok_name)
  obtain p where "finish_extensible B (length (pre @ ?t))
      (read_item (new_filter B FilterExtensibleMatch) a dn rule (escape_ref v)) = Some (p, length (pre @ ?t) + 1, None)"
    "encodes p (Extensible a dn rule v)"
    using finish_extensible_encodes by blast
  then show ?thesis
    using compile_item_loop [of pre ?t suf, simplified,
        OF item_loop_extensible [OF ok escape_ref_ascii escape_ref_chars(2), of B, simplified]]
    by (auto simp: name_ok_escape [OF ok(1)] Let_def)
qed

section \<open>Compiling a filter\<close>

lemma compileFilter_item:
  assumes "is_ascii c" "c \<notin> {CHR ''('', CHR ''&'', CHR ''|'', CHR ''!''}"
  shows "compileFilter B (Suc n) (pre @ c # rest) (length pre) = Some (compile_item B (pre @ c # rest) (length pre))"
proof -
  have "ord c \<noteq> RuneError" using assms(1) by (simp add: is_ascii_def RuneError_def)
  with assms show ?thesis by (auto simp: char_lit_iff)
qed

text \<open>The first character of an item's text sends the compiler to its default branch.\<close>

lemma item_head:
  assumes "attr_ok a" "t \<noteq> []" "hd t \<in> {CHR ''='', CHR ''<'', CHR ''>'', CHR ''~'', CHR '':''}"
  shows "\<exists>c cs. escape_ref a @ t = c # cs \<and> is_ascii c \<and> c \<notin> {CHR ''('', CHR ''&'', CHR ''|'', CHR ''!''}"
proof (cases a)
  case Nil
  with assms(2,3) show ?thesis by (cases t) (auto simp: is_ascii_def)
next
  case (Cons c cs)
  with assms(1) have "is_ascii c" "c \<notin> {CHR ''('', CHR ''&'', CHR ''|'', CHR ''!''}"
    by (auto simp: attr_ok_def name_ok_def mustEscape_def is_ascii_def)
  with Cons show ?thesis using name_ok_escape [OF attr_ok_name [OF assms(1)]] by simp
qed

lemma compile_item_body:
  assumes "\<exists>c cs. filter_body f = c # cs \<and> is_ascii c \<and> c \<notin> {CHR ''('', CHR ''&'', CHR ''|'', CHR ''!''}"
    and "\<exists>p. compile_item B (pre @ filter_body f @ suf) (length pre)
      = (p, length pre + length (filter_body f), None) \<and> encodes p f"
    and "0 < n"
  shows "\<exists>p. compileFilter B n (pre @ filter_body f @ suf) (length pre)
      = Some (p, length pre + length (filter_body f), None) \<and> encodes p f"
proof -
  obtain c cs where c: "filter_body f = c # cs" "is_ascii c" "c \<notin> {CHR ''('', CHR ''&'', CHR ''|'', CHR ''!''}"
    using assms(1) by blast
  with assms(2,3) show ?thesis
    using compileFilter_item [OF c(2,3), of "n - 1" pre "cs @ suf"] by auto
qed

lemma length_show_filter: "length (show_filter f) = Suc (length (filter_body f))"
  by (simp add: show_filter_def)

lemma filter_body_junction:
  "filter_body (And fs) = ''&'' @ concat (map show_filter fs) @ '')''"
  "filter_body (Or fs) = ''|'' @ concat (map show_filter fs) @ '')''"
  by (simp_all add: show_filter_def [abs_def])

definition compiles :: "ldap_filter \<Rightarrow> bool" where
  "compiles f \<longleftrightarrow> (\<forall>pre suf n. 2 * length (filter_body f) \<le> n \<longrightarrow>
     (\<exists>p. compileFilter B n (pre @ filter_body f @ suf) (length pre)
        = Some (p, length pre + length (filter_body f), None) \<and> encodes p f))"

lemma encodes_not_nil: "encodes p f \<Longrightarrow> p \<noteq> NilPacket"
  by (cases rule: encodes.cases) (auto simp: is_choice_def is_string_def)

lemma compile_set:
  assumes "\<forall>f \<in> set fs. compiles f" "parent \<noteq> NilPacket" "Data parent \<noteq> None"
    "2 * length (concat (map show_filter fs)) + 1 \<le> n"
  shows "\<exists>p ks. compileFilterSet B n (pre @ concat (map show_filter fs) @ '')'' @ suf) (length pre) parent
      = Some (Some (p, length pre + length (concat (map show_filter fs)) + 1, None))
    \<and> grown parent ks p \<and> list_all2 encodes ks fs"
  using assms
proof (induction fs arbitrary: pre parent n)
  case Nil
  then obtain m where "n = Suc m" by (cases n) auto
  with Nil show ?case by (auto simp: grown_def)
next
  case (Cons f fs)
  let ?rest = "concat (map show_filter fs) @ '')'' @ suf"
  from Cons.prems(4) obtain m where m: "n = Suc m" by (cases n) auto
  have "compiles f" "2 * length (filter_body f) \<le> m" using Cons.prems by (auto simp: m show_filter_def)
  then obtain k where k: "compileFilter B m ((pre @ ''('') @ filter_body f @ ?rest) (length (pre @ ''(''))
      = Some (k, length (pre @ ''('') + length (filter_body f), None)" "encodes k f"
    unfolding compiles_def by blast
  from encodes_not_nil [OF k(2)] Cons.prems(2,3) obtain p1 where
    p1: "ber_AppendChild B parent k = Some p1" "grown parent [k] p1"
    using AppendChild_grown by blast
  let ?pre = "pre @ show_filter f"
  obtain p ks where p: "compileFilterSet B m (?pre @ ?rest) (length ?pre) p1
      = Some (Some (p, length ?pre + length (concat (map show_filter fs)) + 1, None))"
    "grown p1 ks p" "list_all2 encodes ks fs"
  proof -
    have "\<forall>f \<in> set fs. compiles f" "p1 \<noteq> NilPacket" "Data p1 \<noteq> None"
      "2 * length (concat (map show_filter fs)) + 1 \<le> m"
      using Cons.prems p1(2) by (auto simp: m grown_def length_show_filter)
    from Cons.IH [OF this, of ?pre] that show thesis by blast
  qed
  from k(1) p1(1) p(1) have "compileFilterSet B n (pre @ show_filter f @ ?rest) (length pre) parent
      = Some (Some (p, length ?pre + length (concat (map show_filter fs)) + 1, None))"
    by (simp add: m show_filter_def add.assoc)
  moreover have "grown parent (k # ks) p" using p1(2) p(2) by (rule grown_Cons)
  ultimately show ?case using k(2) p(3) by (intro exI [of _ p] exI [of _ "k # ks"]) simp
qed

text \<open>The two sets differ only in their first character and their tag.\<close>

lemma compile_junction:
  assumes "\<forall>f \<in> set fs. compiles f" "2 * length ([c] @ concat (map show_filter fs) @ '')'') \<le> n"
    and "(c, g) = (CHR ''&'', FilterAnd) \<or> (c, g) = (CHR ''|'', FilterOr)"
  shows "\<exists>p. compileFilter B n (pre @ ([c] @ concat (map show_filter fs) @ '')'') @ suf) (length pre)
      = Some (p, length pre + length ([c] @ concat (map show_filter fs) @ '')''), None)
    \<and> is_choice ClassContext g p \<and> list_all2 encodes (Children p) fs"
proof -
  from assms(2) obtain m where m: "n = Suc m" "2 * length (concat (map show_filter fs)) + 1 \<le> m"
    by (cases n) auto
  from compile_set [OF assms(1) new_filter_sel(1,6) m(2), where pre = "pre @ [c]" and suf = suf and g1 = g]
  obtain p ks where
    p: "compileFilterSet B m ((pre @ [c]) @ concat (map show_filter fs) @ '')'' @ suf) (length (pre @ [c])) (new_filter B g)
      = Some (Some (p, length (pre @ [c]) + length (concat (map show_filter fs)) + 1, None))"
    "grown (new_filter B g) ks p" "list_all2 encodes ks fs" by blast
  have "compileFilter B n (pre @ ([c] @ concat (map show_filter fs) @ '')'') @ suf) (length pre)
      = Some (p, length pre + length ([c] @ concat (map show_filter fs) @ '')''), None)"
    using p(1) assms(3) by (auto simp: m is_ascii_def RuneError_def)
  with p(2,3) show ?thesis by (intro exI [of _ p]) (simp add: grown_def is_choice_def)
qed

lemma compile_not:
  assumes "compiles f" "2 * length (filter_body (Not f)) \<le> n"
  shows "\<exists>p. compileFilter B n (pre @ filter_body (Not f) @ suf) (length pre)
      = Some (p, length pre + length (filter_body (Not f)), None) \<and> encodes p (Not f)"
proof -
  from assms(2) obtain m where m: "n = Suc (Suc m)" "2 * length (filter_body f) \<le> m"
    by (cases n; cases "n - 1") auto
  from assms(1) m(2) obtain k where k: "compileFilter B m ((pre @ ''!('') @ filter_body f @ '')'' @ suf) (length (pre @ ''!(''))
      = Some (k, length (pre @ ''!('') + length (filter_body f), None)" "encodes k f"
    unfolding compiles_def by blast
  from encodes_not_nil [OF k(2)] obtain p where
    p: "ber_AppendChild B (new_filter B FilterNot) k = Some p" "grown (new_filter B FilterNot) [k] p"
    using AppendChild_grown [of "new_filter B FilterNot" k] by auto
  have "encodes p (Not f)" using p(2) k(2) by (intro enc_Not [of p k]) (auto simp: grown_def is_choice_def)
  moreover have "drop (Suc (length pre)) (pre @ CHR ''!'' # CHR ''('' # u) = CHR ''('' # u" for u by simp
  ultimately show ?thesis
    using k(1) p(1) by (intro exI [of _ p]) (simp add: m is_ascii_def RuneError_def)
qed

lemma wf_filter_compiles: "wf_filter f \<Longrightarrow> compiles f"
proof (induction f)
  case (And fs)
  then have "\<forall>f \<in> set fs. compiles f" by (simp add: list_all_iff)
  from compile_junction [OF this, where c = "CHR ''&''" and g = FilterAnd] show ?case
    unfolding compiles_def filter_body_junction by (blast intro: enc_And)
next
  case (Or fs)
  then have "\<forall>f \<in> set fs. compiles f" by (simp add: list_all_iff)
  from compile_junction [OF this, where c = "CHR ''|''" and g = FilterOr] show ?case
    unfolding compiles_def filter_body_junction by (blast intro: enc_Or)
next
  case (Not f)
  then show ?case unfolding compiles_def [of "Not f"] by (intro allI impI compile_not) simp_all
next
  case (Compare op a v)
  then have "\<exists>c cs. filter_body (Compare op a v) = c # cs \<and> is_ascii c \<and> c \<notin> {CHR ''('', CHR ''&'', CHR ''|'', CHR ''!''}"
    using item_head [of a "comparison_text op @ escape_ref v @ '')''"] by (cases op) simp_all
  with Compare show ?case unfolding compiles_def
    by (intro allI impI compile_item_body compile_item_Compare) simp_all
next
  case (Present a)
  then have "\<exists>c cs. filter_body (Present a) = c # cs \<and> is_ascii c \<and> c \<notin> {CHR ''('', CHR ''&'', CHR ''|'', CHR ''!''}"
    using item_head [of a "''=*)''"] by simp
  with Present show ?case unfolding compiles_def
    by (intro allI impI compile_item_body compile_item_Present) simp_all
next
  case (Substrings a i as f)
  then have "\<exists>c cs. filter_body (Substrings a i as f) = c # cs \<and> is_ascii c \<and> c \<notin> {CHR ''('', CHR ''&'', CHR ''|'', CHR ''!''}"
    using item_head [of a "''='' @ substrings_text i as f @ '')''"] by simp
  with Substrings show ?case unfolding compiles_def
    by (intro allI impI compile_item_body compile_item_Substrings) simp_all
next
  case (Extensible a dn rule v)
  then have "\<exists>c cs. filter_body (Extensible a dn rule v) = c # cs \<and> is_ascii c \<and> c \<notin> {CHR ''('', CHR ''&'', CHR ''|'', CHR ''!''}"
    using item_head [of a "extensible_head dn rule @ '':='' @ escape_ref v @ '')''"]
    by (auto simp: extensible_head_def)
  with Extensible show ?case unfolding compiles_def
    by (intro allI impI compile_item_body compile_item_Extensible) simp_all
qed

lemma CompileFilter_show:
  assumes "wf_filter f"
  shows "\<exists>p. CompileFilter B (show_filter f) = Some (p, None) \<and> encodes p f"
proof -
  have "2 * length (filter_body f) \<le> compile_bound (show_filter f)"
    by (simp add: compile_bound_def length_show_filter)
  with wf_filter_compiles [OF assms] obtain p where
    "compileFilter B (compile_bound (show_filter f)) (''('' @ filter_body f @ []) (length ''('')
      = Some (p, length ''('' + length (filter_body f), None)" "encodes p f"
    unfolding compiles_def by blast
  then show ?thesis by (auto simp: CompileFilter_def show_filter_def)
qed

lemma CompileFilter_wrapped:
  assumes "wf_filter f"
  shows "\<exists>p. CompileFilter B (''('' @ show_filter f @ [c]) = Some (p, None) \<and> encodes p f"
proof -
  let ?s = "''('' @ show_filter f @ [c]"
  obtain m where m: "compile_bound ?s = Suc m" "2 * length (filter_body f) \<le> m"
    by (simp add: compile_bound_def length_show_filter)
  from wf_filter_compiles [OF assms] m(2) obtain p where
    "compileFilter B m (''(('' @ filter_body f @ [c]) (length ''(('')
      = Some (p, length ''(('' + length (filter_body f), None)" "encodes p f"
    unfolding compiles_def by blast
  then show ?thesis
    using m(1) by (auto simp: CompileFilter_def show_filter_def is_ascii_def RuneError_def)
qed

end

section \<open>Properties\<close>

text \<open>C7. For every well-formed filter, of any nesting and with values of any bytes, compiling its
  string form succeeds and gives the packet of RFC 4511 for it.\<close>

theorem CompileFilter_correct:
  assumes "ber_library B" "wf_filter f"
  shows "\<exists>p. CompileFilter B (show_filter f) = Some (p, None) \<and> encodes p f"
  using assms by (rule ber_library.CompileFilter_show)

abbreviation sample_filter :: ldap_filter where
  "sample_filter \<equiv> And [Compare Equality ''cn'' ''a*(b)'', Not (Present ''mail''),
     Or [Substrings ''sn'' ''x'' [''y''] [], Extensible ''ou'' True ''2.5.13.5'' ''z'']]"

theorem CompileFilter_correct_witness:
  "wf_filter sample_filter
   \<and> (\<exists>p. CompileFilter ref_ber (show_filter sample_filter) = Some (p, None) \<and> encodes p sample_filter)"
proof -
  have wf: "wf_filter sample_filter"
    by (simp add: attr_ok_def name_ok_def mustEscape_def)
  with CompileFilter_correct [OF ref.ber_library_axioms wf] show ?thesis by blast
qed

text \<open>C20. Decompiling a packet that encodes a well-formed filter gives its string form, however the
  packet was made.\<close>

theorem DecompileFilter_correct:
  assumes "ber_library B" "encodes p f" "wf_filter f"
  shows "DecompileFilter B p = (show_filter f, None)"
  using assms by (rule ber_library.DecompileFilter_encodes)

theorem DecompileFilter_correct_witness:
  "DecompileFilter ref_ber (Packet ClassContext TypePrimitive FilterPresent (VString ''cn'') [] (Some ''cn'') [] [])
   = (show_filter (Present ''cn''), None)"
  by (rule DecompileFilter_correct [OF ref.ber_library_axioms])
    (auto intro!: enc_Present simp: is_string_def attr_ok_def name_ok_def mustEscape_def)

text \<open>The character that should close a doubly parenthesised filter is skipped without being
  looked at: whatever it is, the text compiles to the inner filter, so \<^verbatim>\<open>((cn=a)x\<close> is accepted.\<close>

theorem CompileFilter_unchecked_close:
  assumes "ber_library B" "wf_filter f"
  shows "\<exists>p. CompileFilter B (''('' @ show_filter f @ [c]) = Some (p, None) \<and> encodes p f"
  using assms by (rule ber_library.CompileFilter_wrapped)

theorem CompileFilter_unchecked_close_witness:
  "\<exists>p. CompileFilter ref_ber ''((cn=a)x'' = Some (p, None) \<and> encodes p (Compare Equality ''cn'' ''a'')"
proof -
  have "wf_filter (Compare Equality ''cn'' ''a'')" by (simp add: attr_ok_def name_ok_def mustEscape_def)
  moreover have "''((cn=a)x'' = ''('' @ show_filter (Compare Equality ''cn'' ''a'') @ ''x''"
    by (simp add: show_filter_def escape_byte_def mustEscape_def)
  ultimately show ?thesis using CompileFilter_unchecked_close [OF ref.ber_library_axioms] by metis
qed

end
