(* ===== verification/Search_Properties.thy ===== *)
theory Search_Properties
  imports LDAP_Search Request_Properties Filter_Roundtrip
begin

text \<open>
  What \<^verbatim>\<open>Search\<close> and \<^verbatim>\<open>SearchWithPaging\<close> return for the messages a server sends, and how the operations
  of a connection use it.
\<close>

section \<open>Messages\<close>

text \<open>What a server sends before the end of a search, and the packets that carry it.\<close>

datatype message = EntryMessage Entry | ReferralMessage string | OtherMessage

definition carries_attribute :: "packet \<Rightarrow> EntryAttribute \<Rightarrow> bool" where
  "carries_attribute p a \<longleftrightarrow>
     2 \<le> length (Children p) \<and> Value (Children p ! 0) = VString (ea_Name a) \<and> Children p ! 1 \<noteq> NilPacket
     \<and> map Value (Children (Children p ! 1)) = map VString (ea_Values a)
     \<and> map ByteValue (Children (Children p ! 1)) = ea_ByteValues a"

definition carries_entry :: "packet \<Rightarrow> Entry \<Rightarrow> bool" where
  "carries_entry r e \<longleftrightarrow>
     Children r \<noteq> [] \<and> Value (Children r ! 0) = VString (en_DN e)
     \<and> (if 1 < length (Children r)
        then Children r ! 1 \<noteq> NilPacket \<and> list_all2 carries_attribute (Children (Children r ! 1)) (en_Attributes e)
        else en_Attributes e = [])"

fun carries :: "packet \<Rightarrow> message \<Rightarrow> bool" where
  "carries q (EntryMessage e) \<longleftrightarrow> 2 \<le> length (Children q)
     \<and> Tag (Children q ! 1) = ApplicationSearchResultEntry \<and> carries_entry (Children q ! 1) e"
| "carries q (ReferralMessage u) \<longleftrightarrow> 2 \<le> length (Children q)
     \<and> Tag (Children q ! 1) = ApplicationSearchResultReference
     \<and> Children (Children q ! 1) \<noteq> [] \<and> Value (Children (Children q ! 1) ! 0) = VString u"
| "carries q OtherMessage \<longleftrightarrow> 2 \<le> length (Children q) \<and> Children q ! 1 \<noteq> NilPacket
     \<and> Tag (Children q ! 1) \<notin> {ApplicationSearchResultEntry, ApplicationSearchResultDone,
         ApplicationSearchResultReference}"

fun message_entries :: "message list \<Rightarrow> Entry list" where
  "message_entries [] = []"
| "message_entries (EntryMessage e # ms) = e # message_entries ms"
| "message_entries (_ # ms) = message_entries ms"

fun message_referrals :: "message list \<Rightarrow> string list" where
  "message_referrals [] = []"
| "message_referrals (ReferralMessage u # ms) = u # message_referrals ms"
| "message_referrals (_ # ms) = message_referrals ms"

definition arrived :: "packet \<Rightarrow> PacketResponse option" where
  "arrived q = Some \<lparr>pr_Packet = q, pr_Error = None\<rparr>"

lemma not_nil_if: "Children p \<noteq> [] \<Longrightarrow> p \<noteq> NilPacket" "Value p = VString v \<Longrightarrow> p \<noteq> NilPacket"
  "0 < Tag p \<Longrightarrow> p \<noteq> NilPacket"
  by auto

lemma deref_Some [simp]: "p \<noteq> NilPacket \<Longrightarrow> deref p = Some p"
  by (simp add: deref_def)

section \<open>Reading entries\<close>

lemma map_sum_Inr_iff: "map_sum id f r = Inr y \<longleftrightarrow> (\<exists>x. r = Inr x \<and> y = f x)"
  by (cases r) auto

lemma unpack_values_iff:
  "unpack_values ip name ps = Some (Inr vs) \<longleftrightarrow>
     map Value ps = map (VString \<circ> fst) vs \<and> map ByteValue ps = map snd vs"
proof (induction ps arbitrary: vs)
  case (Cons p ps)
  show ?case
  proof (cases "\<exists>v. Value p = VString v")
    case True
    then obtain v where v: "Value p = VString v" by blast
    moreover from v have "p \<noteq> NilPacket" by auto
    moreover note Cons
    ultimately show ?thesis
      by (cases vs) (auto simp: map_sum_Inr_iff bind_eq_Some_conv)
  next
    case False
    then show ?thesis by (cases vs) (auto simp: deref_def split: ber_value.splits)
  qed
qed auto

lemma unpack_attribute_iff:
  "unpack_attribute ip p = Some (Inr a) \<longleftrightarrow> carries_attribute p a"
proof -
  have nil: "p \<noteq> NilPacket" if "2 \<le> length (Children p)" using that by auto
  have vals: "(\<exists>vs. unpack_values ip name ks = Some (Inr vs) \<and> a = \<lparr>ea_Name = name, ea_Values = map fst vs, ea_ByteValues = map snd vs\<rparr>)
     \<longleftrightarrow> name = ea_Name a \<and> map Value ks = map VString (ea_Values a) \<and> map ByteValue ks = ea_ByteValues a" for name ks
  proof
    assume "\<exists>vs. unpack_values ip name ks = Some (Inr vs) \<and> a = \<lparr>ea_Name = name, ea_Values = map fst vs, ea_ByteValues = map snd vs\<rparr>"
    then show "name = ea_Name a \<and> map Value ks = map VString (ea_Values a) \<and> map ByteValue ks = ea_ByteValues a"
      by (auto simp: unpack_values_iff)
  next
    assume *: "name = ea_Name a \<and> map Value ks = map VString (ea_Values a) \<and> map ByteValue ks = ea_ByteValues a"
    then have "length (ea_Values a) = length (ea_ByteValues a)" by (metis length_map)
    with * show "\<exists>vs. unpack_values ip name ks = Some (Inr vs) \<and> a = \<lparr>ea_Name = name, ea_Values = map fst vs, ea_ByteValues = map snd vs\<rparr>"
      by (intro exI [of _ "zip (ea_Values a) (ea_ByteValues a)"]) (cases a, simp add: unpack_values_iff flip: map_map)
  qed
  show ?thesis
  proof (cases "2 \<le> length (Children p) \<and> (\<exists>name. Value (Children p ! 0) = VString name) \<and> Children p ! 1 \<noteq> NilPacket")
    case True
    then obtain name where n: "Value (Children p ! 0) = VString name" by blast
    then have "Children p ! 0 \<noteq> NilPacket" by auto
    with True n nil vals [of name "Children (Children p ! 1)"] show ?thesis
      by (auto simp: unpack_attribute_def carries_attribute_def map_sum_Inr_iff bind_eq_Some_conv)
  next
    case False
    then show ?thesis
      by (auto simp: unpack_attribute_def carries_attribute_def deref_def bind_eq_Some_conv split: if_splits ber_value.splits)
  qed
qed

lemma unpackAttributes_iff:
  "unpackAttributes ip ps = Some (Inr as) \<longleftrightarrow> list_all2 carries_attribute ps as"
proof (induction ps arbitrary: as)
  case (Cons p ps)
  show ?case
  proof (cases as)
    case Nil
    then show ?thesis by (auto simp: map_sum_Inr_iff bind_eq_Some_conv split: sum.splits)
  next
    case (Cons a as')
    show ?thesis
    proof (cases "\<exists>b. unpack_attribute ip p = Some (Inr b)")
      case True
      then obtain b where b: "unpack_attribute ip p = Some (Inr b)" by blast
      have "carries_attribute p a \<longleftrightarrow> b = a" by (simp add: b flip: unpack_attribute_iff [of ip])
      then show ?thesis unfolding \<open>as = a # as'\<close> by (auto simp: b map_sum_Inr_iff bind_eq_Some_conv Cons.IH)
    next
      case False
      then show ?thesis unfolding \<open>as = a # as'\<close>
        by (auto simp: bind_eq_Some_conv simp flip: unpack_attribute_iff [of ip] split: sum.splits)
    qed
  qed
qed auto

section \<open>The loop\<close>

definition gather :: "message list \<Rightarrow> SearchResult \<Rightarrow> SearchResult" where
  "gather ms result = result\<lparr>res_Entries := res_Entries result @ message_entries ms,
     res_Referrals := res_Referrals result @ message_referrals ms\<rparr>"

lemma gather_Nil [simp]: "gather [] result = result"
  by (simp add: gather_def)

lemma message_append [simp]:
  "message_entries (ms @ ns) = message_entries ms @ message_entries ns"
  "message_referrals (ms @ ns) = message_referrals ms @ message_referrals ns"
  by (induction ms rule: message_entries.induct) auto

lemma gather_gather: "gather ns (gather ms result) = gather (ms @ ns) result"
  by (simp add: gather_def)

definition room :: "SearchRequest \<Rightarrow> SearchResult \<Rightarrow> message list \<Rightarrow> bool" where
  "room req result ms \<longleftrightarrow> sr_EnforceSizeLimit req \<and> 0 < sint (sr_SizeLimit req) \<longrightarrow>
     int (length (res_Entries result) + length (message_entries ms)) \<le> sint (sr_SizeLimit req)"

lemma room_Cons: "room req result (m # ms) \<Longrightarrow> room req result [m] \<and> room req (gather [m] result) ms"
  using message_append(1) [of "[m]" ms] by (auto simp: room_def gather_def)

lemma first_string_child:
  "Children r \<noteq> [] \<Longrightarrow> Value (Children r ! 0) = VString v \<Longrightarrow> first_string r = Some v"
  using not_nil_if(2) [of "Children r ! 0" v] by (simp add: first_string_def nth_child_def)

lemma search_entry_carried:
  assumes "carries_entry r e" "\<not> size_limit_reached req result"
  shows "search_entry ip req r result = Some (None, gather [EntryMessage e] result)"
proof -
  obtain ps where ps: "entry_attributes r = Some ps" "list_all2 carries_attribute ps (en_Attributes e)"
    using assms(1) by (auto simp: carries_entry_def entry_attributes_def split: if_splits)
  then have "unpackAttributes ip ps = Some (Inr (en_Attributes e))" by (simp add: unpackAttributes_iff)
  moreover have "first_string r = Some (en_DN e)" using assms(1) by (simp add: carries_entry_def first_string_child)
  ultimately show ?thesis using ps(1) assms(2) by (simp add: search_entry_def gather_def)
qed

lemma search_packet_carried:
  assumes "carries q m" "room req result [m]"
  shows "search_packet B fb ip req q result = Some (Inr (gather [m] result))"
proof (cases m)
  case (EntryMessage e)
  then have "Children q ! 1 \<noteq> NilPacket" "\<not> size_limit_reached req result"
    using assms not_nil_if(3) [of "Children q ! 1"] by (auto simp: room_def size_limit_reached_def)
  moreover from this have "search_entry ip req (Children q ! 1) result = Some (None, gather [EntryMessage e] result)"
    using assms(1) EntryMessage by (intro search_entry_carried) simp_all
  ultimately show ?thesis using assms(1) EntryMessage by (simp add: search_packet_def nth_child_def)
next
  case (ReferralMessage u)
  then have "Children q ! 1 \<noteq> NilPacket" using assms(1) not_nil_if(3) [of "Children q ! 1"] by simp
  with assms(1) ReferralMessage show ?thesis
    by (simp add: search_packet_def nth_child_def first_string_child gather_def)
next
  case OtherMessage
  with assms(1) show ?thesis by (simp add: search_packet_def nth_child_def gather_def)
qed

lemma carries_not_nil: "carries q m \<Longrightarrow> q \<noteq> NilPacket"
  by (cases m) auto

lemma readPacket_arrived: "q \<noteq> NilPacket \<Longrightarrow> readPacket (arrived q # rs) = Inr q"
  by (simp add: readPacket_def ReadPacket_def arrived_def)

text \<open>The messages before the end are all received and kept, in their order.\<close>

lemma search_loop_messages:
  assumes "list_all2 carries qs ms" "room req result ms"
  shows "search_loop B fb ip req (map arrived qs @ rs) result =
    map_option (apfst ((@) (replicate (length qs) ReceiveResponse))) (search_loop B fb ip req rs (gather ms result))"
  using assms
proof (induction arbitrary: result rule: list_all2_induct)
  case Nil
  then show ?case by (cases "search_loop B fb ip req rs result") auto
next
  case (Cons q qs m ms)
  have r: "room req result [m]" "room req (gather [m] result) ms" using Cons.prems room_Cons by blast+
  have "search_loop B fb ip req (map arrived (q # qs) @ rs) result =
      map_option (apfst ((#) ReceiveResponse)) (search_loop B fb ip req (map arrived qs @ rs) (gather [m] result))"
    using search_packet_carried [OF Cons.hyps(1) r(1), of B fb ip] carries_not_nil [OF Cons.hyps(1)]
    by (simp add: readPacket_arrived map_option_case split: option.splits)
  also have "\<dots> = map_option (apfst ((@) (replicate (length (q # qs)) ReceiveResponse)))
      (search_loop B fb ip req rs (gather (m # ms) result))"
    using Cons.IH [OF r(2)]
    by (cases "search_loop B fb ip req rs (gather (m # ms) result)") (auto simp: gather_gather)
  finally show ?case .
qed

text \<open>The end of the search.\<close>

lemma search_controls_decoded:
  "list_all2 (decodes B fb ip) ks cs \<Longrightarrow>
   search_controls B fb ip ks result = Some (None, result\<lparr>res_Controls := res_Controls result @ cs\<rparr>)"
  by (induction arbitrary: result rule: list_all2_induct) auto

definition search_end :: "packet \<Rightarrow> int \<Rightarrow> string \<Rightarrow> string \<Rightarrow> control list \<Rightarrow> SearchResult \<Rightarrow> go_error option \<times> SearchResult" where
  "search_end q code dn msg cs result =
     (result_error q code dn msg,
      if 65536 dvd code then result\<lparr>res_Controls := res_Controls result @ cs\<rparr> else result)"

lemma search_loop_done:
  assumes "is_LDAPResult q code dn msg" "Tag (Children q ! 1) = ApplicationSearchResultDone"
    and "65536 dvd code \<Longrightarrow> done_controls B fb ip q cs"
  shows "search_loop B fb ip req (arrived q # rs) result = Some ([ReceiveResponse], search_end q code dn msg cs result)"
proof -
  have q: "q \<noteq> NilPacket" "Children q ! 1 \<noteq> NilPacket" "2 \<le> length (Children q)"
    using assms(1) by (auto simp: is_LDAPResult_def Let_def)
  have "search_done B fb ip q result = Some (search_end q code dn msg cs result)"
    using assms(1,3)
    by (auto simp: search_done_def search_end_def GetLDAPError_of_LDAPResult result_error_def done_controls_def
        search_controls_decoded split: if_splits)
  with q assms(2) show ?thesis
    by (simp add: readPacket_arrived search_packet_def nth_child_def)
qed

section \<open>The request\<close>

definition search_element :: "SearchRequest \<Rightarrow> packet \<Rightarrow> packet \<Rightarrow> bool" where
  "search_element req fp r \<longleftrightarrow> is_application ApplicationSearchRequest r \<and> length (Children r) = 8
     \<and> map Value (take 6 (Children r)) =
         [VString (sr_BaseDN req), VUint64 (sr_Scope req), VUint64 (sr_DerefAliases req),
          VUint64 (sr_SizeLimit req), VUint64 (sr_TimeLimit req), VBool (sr_TypesOnly req)]
     \<and> Children r ! 6 = fp \<and> map Value (Children (Children r ! 7)) = map VString (sr_Attributes req)"

context ber_library
begin

lemma SearchRequest_appends:
  assumes "CompileFilter B (sr_Filter req) = Some (fp, None)" "fp \<noteq> NilPacket"
    and "list_all encodable (sr_Controls req)"
  shows "appends B (SearchRequest_appendTo B req) (search_element req fp) (sr_Controls req)"
proof -
  let ?e = "application B ApplicationSearchRequest ''Search Request''"
  let ?as = "map (\<lambda>a. octets B a ''Attribute'') (sr_Attributes req)"
  have l: "list_all usable (search_numbers B req)" by (simp add: search_numbers_def)
  obtain p1 where p1: "appendChildren B ?e (search_numbers B req) = Some p1" "grown ?e (search_numbers B req) p1"
    using appendChildren_grown [of ?e "search_numbers B req"] l by (auto simp: list_all_iff usable_def)
  have l': "list_all usable ?as" by (simp add: list_all_iff)
  obtain as where as: "appendChildren B (new_sequence B ''Attributes'') ?as = Some as" "usable as" "Children as = ?as"
    by (rule appendChildren_fresh [OF _ _ l', of "new_sequence B ''Attributes''"]) simp_all
  obtain p2 where p2: "ber_AppendChild B p1 fp = Some p2" "grown p1 [fp] p2"
    using AppendChild_grown [of p1 fp] p1(2) assms(2) by (auto simp: grown_def)
  obtain p3 where p3: "ber_AppendChild B p2 as = Some p3" "grown p2 [as] p3"
    using AppendChild_grown [of p2 as] p2(2) as(2) by (auto simp: grown_def usable_def)
  have "grown ?e (search_numbers B req @ [fp, as]) p3"
    using grown_trans [OF grown_trans [OF p1(2) p2(2)] p3(2)] by simp
  then have "search_element req fp p3"
    by (simp add: grown_def search_element_def is_application_def search_numbers_def as(3))
  moreover have "usable p3" using p3(2) by (simp add: grown_def usable_def)
  ultimately have "appends B (append_request B (Some p3) (sr_Controls req)) (search_element req fp) (sr_Controls req)"
    using assms(3) by (intro appends_append_request) simp_all
  moreover have "SearchRequest_appendTo B req = append_request B (Some p3) (sr_Controls req)"
    using p1(1) p2(1) p3(1) as(1) assms(1)
    by (auto simp: SearchRequest_appendTo_def append_request_def simp del: appendChildren.simps)
  ultimately show ?thesis by simp
qed

lemma Search_sends:
  assumes "\<not> se_nil s" "\<And>p. se_send s p = None" "CompileFilter B (sr_Filter req) = Some (fp, None)"
    and "list_all encodable (sr_Controls req)"
  obtains p where "doRequest B s (SearchRequest_appendTo B req) = Some ([SendMessage p], None)"
    "is_request B s ApplicationSearchRequest (sr_Controls req) p" "search_element req fp (Children p ! 1)"
proof -
  have "fp \<noteq> NilPacket" using CompileFilter_returns [of "sr_Filter req"] assms(3) by auto
  moreover have "ClassType r = ClassApplication \<and> Tag r = ApplicationSearchRequest" if "search_element req fp r" for r
    using that by (simp add: search_element_def is_application_def)
  ultimately show thesis
    using doRequest_sends [OF SearchRequest_appends [OF assms(3) _ assms(4)] assms(1,2)] that by blast
qed

end

text \<open>A search whose responses are known: what is sent, and the end of the loop.\<close>

definition searched ::
  "ber \<Rightarrow> session \<Rightarrow> SearchRequest \<Rightarrow> packet \<Rightarrow> nat \<Rightarrow> SearchResult option \<times> go_error option
   \<Rightarrow> (SearchResult option \<times> go_error option) outcome \<Rightarrow> bool" where
  "searched B s req fp n res out \<longleftrightarrow>
     (\<exists>p. is_request B s ApplicationSearchRequest (sr_Controls req) p \<and> search_element req fp (Children p ! 1)
        \<and> out = Some (SendMessage p # replicate n ReceiveResponse @ [FinishMessage], res))"

lemma searchedI:
  assumes "ber_library B" "\<not> se_nil s" "\<And>p. se_send s p = None"
    and "CompileFilter B (sr_Filter req) = Some (fp, None)" "list_all encodable (sr_Controls req)"
    and "list_all2 carries qs ms" "room req empty_result ms" "se_responses s = map arrived qs @ rs"
    and "search_loop B fb ip req rs (gather ms empty_result) = Some ([ReceiveResponse], err, result)"
  shows "searched B s req fp (length qs + 1) (Some result, err) (Conn_Search B fb ip s req)"
proof -
  obtain p where p: "doRequest B s (SearchRequest_appendTo B req) = Some ([SendMessage p], None)"
    "is_request B s ApplicationSearchRequest (sr_Controls req) p" "search_element req fp (Children p ! 1)"
    by (rule ber_library.Search_sends [OF assms(1-5)])
  have "search_loop B fb ip req (se_responses s) empty_result
      = Some (replicate (length qs) ReceiveResponse @ [ReceiveResponse], err, result)"
    by (simp add: assms(8,9) search_loop_messages [OF assms(6,7)])
  then have "search_loop B fb ip req (se_responses s) empty_result
      = Some (replicate (length qs + 1) ReceiveResponse, err, result)"
    by (simp add: replicate_append_same)
  with p show ?thesis by (auto simp: searched_def Conn_Search_def)
qed

definition messages_result :: "message list \<Rightarrow> control list \<Rightarrow> SearchResult" where
  "messages_result ms cs =
     \<lparr>res_Entries = message_entries ms, res_Referrals = message_referrals ms, res_Controls = cs\<rparr>"

lemma gather_empty: "gather ms empty_result = messages_result ms []"
  by (simp add: gather_def empty_result_def messages_result_def)

section \<open>Search\<close>

text \<open>C6. \<^verbatim>\<open>Search\<close> on a working connection sends one request with the base DN, the limits, the packet of the
  filter, the attributes and the controls.  When the server sends entries, referrals and other messages and
  then ends the search, \<^verbatim>\<open>Search\<close> returns every entry and every referral in the order they were sent, with
  the controls of the last message, or with the server's error; when the connection ends first, it
  returns what has arrived together with an error.  Either way the message is finished once, at the end.\<close>

theorem Search_correct:
  assumes "ber_library B" "\<not> se_nil s" "\<And>p. se_send s p = None"
    and "sr_Filter req = show_filter f" "wf_filter f" "list_all encodable (sr_Controls req)"
    and "list_all2 carries qs ms" "room req empty_result ms"
    and "is_LDAPResult q code dn msg" "Tag (Children q ! 1) = ApplicationSearchResultDone"
    and "done_controls B fb ip q cs"
  shows "\<exists>fp. encodes fp f
    \<and> (se_responses s = map arrived (qs @ [q]) @ rs \<longrightarrow>
        searched B s req fp (length qs + 1)
          (Some (messages_result ms (if 65536 dvd code then cs else [])), result_error q code dn msg)
          (Conn_Search B fb ip s req))
    \<and> (se_responses s = map arrived qs \<longrightarrow>
        searched B s req fp (length qs + 1) (Some (messages_result ms []), Some response_channel_closed)
          (Conn_Search B fb ip s req))"
proof -
  obtain fp where fp: "CompileFilter B (sr_Filter req) = Some (fp, None)" "encodes fp f"
    using ber_library.CompileFilter_show [OF assms(1,5)] assms(4) by auto
  have "search_loop B fb ip req (arrived q # rs) (gather ms empty_result) = Some ([ReceiveResponse],
      result_error q code dn msg, messages_result ms (if 65536 dvd code then cs else []))"
    using search_loop_done [OF assms(9,10,11), of req rs]
    by (simp add: gather_empty search_end_def messages_result_def)
  then have "searched B s req fp (length qs + 1)
      (Some (messages_result ms (if 65536 dvd code then cs else [])), result_error q code dn msg)
      (Conn_Search B fb ip s req)" if "se_responses s = map arrived (qs @ [q]) @ rs"
    using that by (intro searchedI [OF assms(1-3) fp(1) assms(6-8), of "arrived q # rs"]) simp_all
  moreover have "searched B s req fp (length qs + 1) (Some (messages_result ms []), Some response_channel_closed)
      (Conn_Search B fb ip s req)" if "se_responses s = map arrived qs"
    using that by (intro searchedI [OF assms(1-3) fp(1) assms(6-8), of "[]"]) (simp_all add: gather_empty)
  ultimately show ?thesis using fp(2) by blast
qed

abbreviation sample_text :: ldap_filter where
  "sample_text \<equiv> Compare Equality ''cn'' ''a''"

definition sample_request :: SearchRequest where
  "sample_request = NewSearchRequest ''dc=x'' 2 0 0 0 False ''(cn=a)'' [''sn''] []"

lemma sample_request_filter: "sr_Filter sample_request = show_filter sample_text" "wf_filter sample_text"
  by (simp_all add: sample_request_def NewSearchRequest_def show_filter_def escape_byte_def mustEscape_def
      attr_ok_def name_ok_def)

definition text_packet :: "string \<Rightarrow> packet" where
  "text_packet t = Packet ClassUniversal TypePrimitive 4 (VString t) t (Some t) [] []"

definition sample_attribute :: "string \<Rightarrow> string list \<Rightarrow> packet" where
  "sample_attribute name vs = Packet ClassUniversal TypeConstructed 16 VNil [] (Some []) [text_packet name,
     Packet ClassUniversal TypeConstructed 17 VNil [] (Some []) (map text_packet vs) []] []"

definition sample_message :: "nat \<Rightarrow> packet list \<Rightarrow> packet" where
  "sample_message app ks = Packet ClassUniversal TypeConstructed 16 VNil [] (Some []) [
     Packet ClassUniversal TypePrimitive 2 (VInt64 7) [] (Some []) [] [],
     Packet ClassApplication TypeConstructed app VNil [] (Some []) ks []] []"

definition sample_entry_packet :: packet where
  "sample_entry_packet = sample_message ApplicationSearchResultEntry [text_packet ''cn=a,dc=x'',
     Packet ClassUniversal TypeConstructed 16 VNil [] (Some []) [sample_attribute ''sn'' [''u'', ''v'']] []]"

definition sample_entry :: Entry where
  "sample_entry = \<lparr>en_DN = ''cn=a,dc=x'', en_Attributes = [NewEntryAttribute ''sn'' [''u'', ''v'']]\<rparr>"

lemma sample_carries: "carries sample_entry_packet (EntryMessage sample_entry)"
  by (simp add: sample_entry_packet_def sample_entry_def sample_message_def carries_entry_def carries_attribute_def
      sample_attribute_def text_packet_def NewEntryAttribute_def)

theorem Search_correct_witness:
  "\<exists>fp. encodes fp sample_text \<and>
     searched ref_ber (working [sample_entry_packet, answer ApplicationSearchResultDone 0]) sample_request fp 2
       (Some \<lparr>res_Entries = [sample_entry], res_Referrals = [], res_Controls = []\<rparr>, None)
       (Conn_Search ref_ber (\<lambda>s. Inr s) (\<lambda>_. True)
         (working [sample_entry_packet, answer ApplicationSearchResultDone 0]) sample_request)"
proof -
  let ?q = "answer ApplicationSearchResultDone 0" and ?s = "working [sample_entry_packet, answer ApplicationSearchResultDone 0]"
  have "se_responses ?s = map arrived ([sample_entry_packet] @ [?q]) @ []" by (simp add: working_def arrived_def)
  moreover have "Tag (Children ?q ! 1) = ApplicationSearchResultDone" "done_controls ref_ber (\<lambda>s. Inr s) (\<lambda>_. True) ?q []"
    by (simp_all add: answer_def done_controls_def)
  moreover have "room sample_request empty_result [EntryMessage sample_entry]" "sr_Controls sample_request = []"
    by (simp_all add: room_def sample_request_def NewSearchRequest_def)
  ultimately show ?thesis
    using Search_correct [OF ref.ber_library_axioms _ _ sample_request_filter, of ?s "[sample_entry_packet]"
        "[EntryMessage sample_entry]" ?q 0 "''dc=x''" "''denied''" "\<lambda>s. Inr s" "\<lambda>_. True" "[]" "[]"]
    by (simp add: sample_carries answer_LDAPResult messages_result_def result_error_def numeral_2_eq_2
        del: carries.simps)
qed

section \<open>The size limit\<close>

definition within_limit :: "SearchRequest \<Rightarrow> SearchResult \<Rightarrow> bool" where
  "within_limit req result \<longleftrightarrow> sr_EnforceSizeLimit req \<and> 0 < sint (sr_SizeLimit req) \<longrightarrow>
     int (length (res_Entries result)) \<le> sint (sr_SizeLimit req)"

lemma search_controls_entries:
  "search_controls B fb ip ks result = Some (err, result') \<Longrightarrow> res_Entries result' = res_Entries result"
  by (induction ks arbitrary: result) (auto split: bind_splits sum.splits)

lemma search_entry_within:
  "search_entry ip req r result = Some (err, result') \<Longrightarrow> within_limit req result \<Longrightarrow> within_limit req result'"
  by (auto simp: search_entry_def within_limit_def size_limit_reached_def split: bind_splits if_splits sum.splits)

lemma search_done_within:
  "search_done B fb ip q result = Some (err, result') \<Longrightarrow> within_limit req result \<Longrightarrow> within_limit req result'"
  by (auto simp: search_done_def within_limit_def dest!: search_controls_entries
      split: bind_splits if_splits option.splits)

lemma search_packet_within:
  assumes "search_packet B fb ip req q result = Some x" "within_limit req result"
  shows "case x of Inl (err, result') \<Rightarrow> within_limit req result' | Inr result' \<Rightarrow> within_limit req result'"
  using assms search_entry_within [of ip req] search_done_within [of B fb ip q result]
  by (auto simp: search_packet_def split: bind_splits if_splits option.splits)
    (auto simp: within_limit_def)

lemma search_loop_within:
  "search_loop B fb ip req rs result = Some (calls, err, result') \<Longrightarrow> within_limit req result
   \<Longrightarrow> within_limit req result'"
proof (induction rs arbitrary: result calls)
  case (Cons r rs)
  show ?case
  proof (cases "readPacket (r # rs)")
    case (Inr q)
    then obtain x where x: "search_packet B fb ip req q result = Some x" using Cons.prems(1) by (auto simp: bind_eq_Some_conv)
    note search_packet_within [OF x Cons.prems(2)]
    with x Inr Cons show ?thesis by (auto split: bind_splits sum.splits)
  qed (use Cons.prems in simp)
qed simp

text \<open>C21. With \<^verbatim>\<open>EnforceSizeLimit\<close> and a positive limit, \<^verbatim>\<open>Search\<close> never returns more entries than the limit,
  whatever the server sends and however the search ends.\<close>

theorem Search_size_limit:
  assumes "Conn_Search B fb ip s req = Some (calls, Some result, err)"
    and "sr_EnforceSizeLimit req" "0 < sint (sr_SizeLimit req)"
  shows "int (length (res_Entries result)) \<le> sint (sr_SizeLimit req)"
proof -
  have "within_limit req empty_result" by (simp add: within_limit_def empty_result_def)
  then have "within_limit req result"
    using assms(1) by (auto simp: Conn_Search_def split: bind_splits option.splits dest: search_loop_within)
  with assms(2,3) show ?thesis by (simp add: within_limit_def)
qed

abbreviation limited_request :: SearchRequest where
  "limited_request \<equiv> sample_request\<lparr>sr_SizeLimit := 1, sr_EnforceSizeLimit := True\<rparr>"

theorem Search_size_limit_witness:
  "\<exists>calls result. Conn_Search ref_ber (\<lambda>s. Inr s) (\<lambda>_. True) (working [sample_entry_packet, sample_entry_packet])
       limited_request = Some (calls, Some result, Some ErrSizeLimitExceeded)
     \<and> length (res_Entries result) \<le> 1"
proof -
  let ?s = "working [sample_entry_packet, sample_entry_packet]" and ?m = "[EntryMessage sample_entry]"
  obtain fp where fp: "CompileFilter ref_ber (sr_Filter limited_request) = Some (fp, None)"
    using ref.CompileFilter_show [OF sample_request_filter(2)] sample_request_filter(1) by auto
  have r: "search_loop ref_ber (\<lambda>s. Inr s) (\<lambda>_. True) limited_request [arrived sample_entry_packet] (gather ?m empty_result)
      = Some ([ReceiveResponse], Some ErrSizeLimitExceeded, gather ?m empty_result)"
    by (simp add: readPacket_arrived search_packet_def sample_entry_packet_def sample_message_def nth_child_def
        search_entry_def size_limit_reached_def gather_def)
  have "room limited_request empty_result ?m" "sr_Controls limited_request = []"
    "se_responses ?s = map arrived [sample_entry_packet] @ [arrived sample_entry_packet]"
    by (simp_all add: room_def empty_result_def sample_request_def NewSearchRequest_def working_def arrived_def)
  then obtain calls where c: "Conn_Search ref_ber (\<lambda>s. Inr s) (\<lambda>_. True) ?s limited_request
      = Some (calls, Some (gather ?m empty_result), Some ErrSizeLimitExceeded)"
    using searchedI [OF ref.ber_library_axioms _ _ fp _ _ _ _ r, of ?s "[sample_entry_packet]"] sample_carries
    by (auto simp: searched_def simp del: carries.simps)
  with Search_size_limit [OF c] show ?thesis by auto
qed

section \<open>Paging\<close>

text \<open>One page: the session it is served in, its messages, the controls that end it, and the cookie for the next,
  which the first paging control among them holds; an empty cookie or no such control is the end.\<close>

record page =
  pa_session :: session
  pa_messages :: "message list"
  pa_controls :: "control list"
  pa_cookie :: "bytes option"

definition page_result :: "page \<Rightarrow> SearchResult" where
  "page_result pg = messages_result (pa_messages pg) (pa_controls pg)"

definition serves_page :: "ber \<Rightarrow> uuid_FromBytes \<Rightarrow> (rune \<Rightarrow> bool) \<Rightarrow> page \<Rightarrow> bool" where
  "serves_page B fb ip pg \<longleftrightarrow>
     \<not> se_nil (pa_session pg) \<and> (\<forall>p. se_send (pa_session pg) p = None)
     \<and> pa_cookie pg = next_cookie (pa_controls pg)
     \<and> (\<exists>qs q rs dn msg. se_responses (pa_session pg) = map arrived (qs @ [q]) @ rs
          \<and> list_all2 carries qs (pa_messages pg) \<and> is_LDAPResult q 0 dn msg
          \<and> Tag (Children q ! 1) = ApplicationSearchResultDone \<and> done_controls B fb ip q (pa_controls pg))"

definition with_cookie :: "SearchRequest \<Rightarrow> 32 word \<Rightarrow> bytes \<Rightarrow> SearchRequest" where
  "with_cookie req n cookie = req\<lparr>sr_Controls := sr_Controls req @ [ControlPaging n cookie]\<rparr>"

text \<open>The calls of a paged search: a complete search per page, each with the cookie of the page before.\<close>

fun paged_calls :: "ber \<Rightarrow> SearchRequest \<Rightarrow> 32 word \<Rightarrow> packet \<Rightarrow> bytes \<Rightarrow> page list \<Rightarrow> call list \<Rightarrow> bool" where
  "paged_calls B req n fp cookie [] calls \<longleftrightarrow> calls = []"
| "paged_calls B req n fp cookie (pg # pgs) calls \<longleftrightarrow>
     (\<exists>p rest. calls = SendMessage p # replicate (length (pa_messages pg) + 1) ReceiveResponse @ FinishMessage # rest
        \<and> is_request B (pa_session pg) ApplicationSearchRequest (sr_Controls req @ [ControlPaging n cookie]) p
        \<and> search_element req fp (Children p ! 1)
        \<and> paged_calls B req n fp (case pa_cookie pg of None \<Rightarrow> [] | Some c \<Rightarrow> c) pgs rest)"

definition pages_result :: "page list \<Rightarrow> SearchResult" where
  "pages_result pgs = \<lparr>res_Entries = concat (map (message_entries \<circ> pa_messages) pgs),
     res_Referrals = concat (map (message_referrals \<circ> pa_messages) pgs),
     res_Controls = concat (map pa_controls pgs)\<rparr>"

lemma FindControl_append: "FindControl cs ty = None \<Longrightarrow> FindControl (cs @ ds) ty = FindControl ds ty"
  by (induction cs) (auto split: if_splits)

lemma set_paging_cookie_append:
  "FindControl cs ControlTypePaging = None \<Longrightarrow>
   set_paging_cookie c (cs @ [ControlPaging n c']) = cs @ [ControlPaging n c]"
  by (induction cs) (auto split: if_splits)

lemma with_cookie_simps [simp]:
  "sr_Filter (with_cookie req n c) = sr_Filter req" "search_element (with_cookie req n c) = search_element req"
  "sr_EnforceSizeLimit (with_cookie req n c) = sr_EnforceSizeLimit req"
  "sr_Controls (with_cookie req n c) = sr_Controls req @ [ControlPaging n c]"
  by (auto simp: with_cookie_def search_element_def fun_eq_iff)

lemma with_cookie_next:
  "FindControl (sr_Controls req) ControlTypePaging = None \<Longrightarrow>
   (with_cookie req n c)\<lparr>sr_Controls := set_paging_cookie c' (sr_Controls req @ [ControlPaging n c])\<rparr> = with_cookie req n c'"
  by (simp add: with_cookie_def set_paging_cookie_append)

lemma serves_page_search:
  assumes "ber_library B" "CompileFilter B (sr_Filter req) = Some (fp, None)"
    and "list_all encodable (sr_Controls req)" "\<not> sr_EnforceSizeLimit req" "serves_page B fb ip pg"
  shows "\<exists>p. is_request B (pa_session pg) ApplicationSearchRequest (sr_Controls req) p \<and> search_element req fp (Children p ! 1)
    \<and> Conn_Search B fb ip (pa_session pg) req = Some (SendMessage p
        # replicate (length (pa_messages pg) + 1) ReceiveResponse @ [FinishMessage], Some (page_result pg), None)"
proof -
  obtain qs q rs dn msg where pg: "se_responses (pa_session pg) = map arrived qs @ arrived q # rs"
    "list_all2 carries qs (pa_messages pg)" "is_LDAPResult q 0 dn msg"
    "Tag (Children q ! 1) = ApplicationSearchResultDone" "done_controls B fb ip q (pa_controls pg)"
    and s: "\<not> se_nil (pa_session pg)" "\<And>p. se_send (pa_session pg) p = None"
    using assms(5) by (auto simp: serves_page_def)
  have "room req empty_result (pa_messages pg)" using assms(4) by (simp add: room_def)
  moreover have "search_loop B fb ip req (arrived q # rs) (gather (pa_messages pg) empty_result)
      = Some ([ReceiveResponse], None, page_result pg)"
    using search_loop_done [OF pg(3-5), of req rs]
    by (simp add: gather_empty search_end_def messages_result_def page_result_def result_error_def)
  ultimately have "searched B (pa_session pg) req fp (length qs + 1) (Some (page_result pg), None)
      (Conn_Search B fb ip (pa_session pg) req)"
    using s pg(1,2) assms(1-3) by (intro searchedI) auto
  with list_all2_lengthD [OF pg(2)] show ?thesis by (auto simp: searched_def)
qed

lemma page_cookie_typed:
  "list_all typed (res_Controls result) \<Longrightarrow> page_cookie result = Some (next_cookie (res_Controls result))"
  by (auto simp: page_cookie_def FindControl_next_cookie split: option.splits dest!: FindControl_typed typed_paging)

lemma serves_page_cookie:
  assumes "serves_page B fb ip pg"
  shows "page_cookie (page_result pg) = Some (pa_cookie pg)"
proof -
  obtain q where "done_controls B fb ip q (pa_controls pg)" using assms by (auto simp: serves_page_def)
  then have "list_all typed (pa_controls pg)" by (rule done_controls_typed)
  with page_cookie_typed [of "page_result pg"] assms show ?thesis
    by (simp add: serves_page_def page_result_def messages_result_def)
qed

lemma pages_result_Cons:
  "SearchResult_appendTo (pages_result (pg # pgs)) acc
   = SearchResult_appendTo (pages_result pgs) (SearchResult_appendTo (page_result pg) acc)"
  by (simp add: SearchResult_appendTo_def pages_result_def page_result_def messages_result_def)

lemma pages_result_single:
  "SearchResult_appendTo (pages_result [pg]) acc = SearchResult_appendTo (page_result pg) acc"
  by (simp add: SearchResult_appendTo_def pages_result_def page_result_def messages_result_def)

lemma paging_loop_pages:
  assumes "ber_library B" "CompileFilter B (sr_Filter req) = Some (fp, None)"
    and "list_all encodable (sr_Controls req)" "\<not> sr_EnforceSizeLimit req"
    and "FindControl (sr_Controls req) ControlTypePaging = None"
    and "pgs \<noteq> []" "list_all (serves_page B fb ip) pgs"
    and "list_all (\<lambda>pg. pa_cookie pg \<noteq> None) (butlast pgs)" "pa_cookie (last pgs) = None"
  shows "\<exists>calls req'. paged_calls B req n fp c pgs calls
    \<and> paging_loop B fb ip (map pa_session pgs) (with_cookie req n c) acc
      = Some (calls, Some (SearchResult_appendTo (pages_result pgs) acc, None), req')"
  using assms(6-9)
proof (induction pgs arbitrary: c acc)
  case Nil
  then show ?case by simp
next
  case (Cons pg pgs)
  let ?calls = "\<lambda>p. SendMessage p # replicate (length (pa_messages pg) + 1) ReceiveResponse @ [FinishMessage]"
  obtain p where p: "is_request B (pa_session pg) ApplicationSearchRequest (sr_Controls req @ [ControlPaging n c]) p"
    "search_element req fp (Children p ! 1)"
    "Conn_Search B fb ip (pa_session pg) (with_cookie req n c) = Some (?calls p, Some (page_result pg), None)"
    using serves_page_search [OF assms(1), of "with_cookie req n c" fp fb ip pg] assms(2-4) Cons.prems(2) by auto
  have cookie: "page_cookie (page_result pg) = Some (pa_cookie pg)" using Cons.prems(2) serves_page_cookie [of B fb ip pg] by simp
  show ?case
  proof (cases "pgs = []")
    case True
    with Cons.prems(4) p cookie show ?thesis by (auto simp: page_received_def pages_result_single)
  next
    case False
    then obtain c' where c': "pa_cookie pg = Some c'" using Cons.prems(3) by auto
    from False Cons.prems obtain calls req' where "paged_calls B req n fp c' pgs calls"
      "paging_loop B fb ip (map pa_session pgs) (with_cookie req n c') (SearchResult_appendTo (page_result pg) acc)
        = Some (calls, Some (SearchResult_appendTo (pages_result pgs) (SearchResult_appendTo (page_result pg) acc), None), req')"
      using Cons.IH [of c' "SearchResult_appendTo (page_result pg) acc"] by auto
    with p cookie c' show ?thesis
      by (auto simp: page_received_def with_cookie_next [OF assms(5)] pages_result_Cons)
  qed
qed

text \<open>C10. \<^verbatim>\<open>SearchWithPaging\<close> against a server that serves the result in pages returns the entries, the referrals and
  the controls of all pages in order, after one complete search per page, whose request carries the page
  size and the cookie the page before ended with.\<close>

theorem SearchWithPaging_correct:
  assumes "ber_library B" "sr_Filter req = show_filter f" "wf_filter f"
    and "list_all encodable (sr_Controls req)" "\<not> sr_EnforceSizeLimit req"
    and "FindControl (sr_Controls req) ControlTypePaging = None"
    and "pgs \<noteq> []" "list_all (serves_page B fb ip) pgs"
    and "list_all (\<lambda>pg. pa_cookie pg \<noteq> None) (butlast pgs)" "pa_cookie (last pgs) = None"
  shows "\<exists>fp calls req'. encodes fp f \<and> paged_calls B req n fp [] pgs calls
    \<and> SearchWithPaging B fb ip (map pa_session pgs) req n = Some (calls, Some (Some (pages_result pgs), None), req')"
proof -
  obtain fp where fp: "CompileFilter B (sr_Filter req) = Some (fp, None)" "encodes fp f"
    using ber_library.CompileFilter_show [OF assms(1,3)] assms(2) by auto
  have e: "SearchResult_appendTo r empty_result = r" for r by (simp add: SearchResult_appendTo_def empty_result_def)
  have "prepare_paging ip req n = Inr (with_cookie req n [])"
    by (simp add: prepare_paging_def assms(6) with_cookie_def NewControlPaging_def)
  with fp paging_loop_pages [OF assms(1) fp(1) assms(4-10), of n "[]" empty_result] show ?thesis
    by (auto simp: SearchWithPaging_def e)
qed

definition ended :: "packet list \<Rightarrow> packet" where
  "ended ks = Packet ClassUniversal TypeConstructed 16 VNil [] (Some []) (Children (answer ApplicationSearchResultDone 0)
     @ [Packet ClassContext TypeConstructed 0 VNil [] (Some []) ks []]) []"

definition sample_page :: "packet list \<Rightarrow> control list \<Rightarrow> bytes option \<Rightarrow> page" where
  "sample_page ks cs cookie = \<lparr>pa_session = working [sample_entry_packet, ended ks],
     pa_messages = [EntryMessage sample_entry], pa_controls = cs, pa_cookie = cookie\<rparr>"

lemma serves_sample_page:
  assumes "list_all2 (decodes B fb ip) ks cs" "cookie = next_cookie cs"
  shows "serves_page B fb ip (sample_page ks cs cookie)"
proof -
  have "se_responses (working [sample_entry_packet, ended ks]) = map arrived ([sample_entry_packet] @ [ended ks]) @ []"
    by (simp add: working_def arrived_def)
  moreover have "list_all2 carries [sample_entry_packet] [EntryMessage sample_entry]"
    using sample_carries by (simp del: carries.simps)
  moreover have "is_LDAPResult (ended ks) 0 ''dc=x'' ''denied''"
    by (simp add: ended_def answer_def is_LDAPResult_def)
  moreover have "Tag (Children (ended ks) ! 1) = ApplicationSearchResultDone" by (simp add: ended_def answer_def)
  moreover have "done_controls B fb ip (ended ks) cs"
    using assms(1) by (simp add: done_controls_def ended_def answer_def)
  ultimately have "\<exists>qs q rs dn msg. se_responses (working [sample_entry_packet, ended ks]) = map arrived (qs @ [q]) @ rs
      \<and> list_all2 carries qs [EntryMessage sample_entry] \<and> is_LDAPResult q 0 dn msg
      \<and> Tag (Children q ! 1) = ApplicationSearchResultDone \<and> done_controls B fb ip q cs"
    by blast
  then show ?thesis using assms(2) by (simp add: serves_page_def page_result_def sample_page_def)
qed

theorem SearchWithPaging_correct_witness:
  "\<exists>pgs fp calls req'. length pgs = 2 \<and> encodes fp sample_text \<and> paged_calls ref_ber sample_request 10 fp [] pgs calls
     \<and> SearchWithPaging ref_ber (\<lambda>s. Inr s) (\<lambda>_. True) (map pa_session pgs) sample_request 10
       = Some (calls, Some (Some \<lparr>res_Entries = [sample_entry, sample_entry], res_Referrals = [],
           res_Controls = [ControlPaging 10 ''n'']\<rparr>, None), req')"
proof -
  obtain pk where pk: "decodes ref_ber (\<lambda>s. Inr s) (\<lambda>_. True) pk (ControlPaging 10 ''n'')"
    using paging_control_arrives by blast
  let ?p1 = "sample_page [pk] [ControlPaging 10 ''n''] (Some ''n'')" and ?p2 = "sample_page [] [] None"
  have "serves_page ref_ber (\<lambda>s. Inr s) (\<lambda>_. True) ?p1" "serves_page ref_ber (\<lambda>s. Inr s) (\<lambda>_. True) ?p2"
    using pk by (auto intro!: serves_sample_page)
  moreover have "sr_Controls sample_request = []" "\<not> sr_EnforceSizeLimit sample_request"
    "pa_cookie ?p1 = Some ''n''" "pa_cookie ?p2 = None"
    by (simp_all add: sample_request_def NewSearchRequest_def sample_page_def)
  moreover have "pages_result [?p1, ?p2] = \<lparr>res_Entries = [sample_entry, sample_entry], res_Referrals = [],
      res_Controls = [ControlPaging 10 ''n'']\<rparr>"
    by (simp add: pages_result_def sample_page_def)
  ultimately show ?thesis
    using SearchWithPaging_correct [OF ref.ber_library_axioms sample_request_filter, of "[?p1, ?p2]"
        "\<lambda>s. Inr s" "\<lambda>_. True" 10]
    by (intro exI [of _ "[?p1, ?p2]"]) simp
qed

end
