(* ===== verification/Async_Properties.thy ===== *)
theory Async_Properties
  imports Search_Async Search_Properties
begin

text \<open>
  How asynchronous searches compare with \<^verbatim>\<open>Search\<close>: the calls they make, what the consumer of an
  uncancelled search receives, and what becomes of a panic in the goroutine.
\<close>

section \<open>The consumer\<close>

definition clean :: "SearchSingleResult list \<Rightarrow> bool" where
  "clean rs \<longleftrightarrow> list_all (\<lambda>r. ss_Error r = None) rs"

lemma clean_simps [simp]: "clean []" "clean (r # rs) \<longleftrightarrow> ss_Error r = None \<and> clean rs"
  "clean (rs @ rs') \<longleftrightarrow> clean rs \<and> clean rs'"
  by (simp_all add: clean_def)

definition delivered :: "searchResponse \<Rightarrow> Entry option \<times> string \<times> control list" where
  "delivered r = (rs_entry r, rs_referral r, rs_controls r)"

definition contents :: "SearchSingleResult \<Rightarrow> Entry option \<times> string \<times> control list" where
  "contents r = (ss_Entry r, ss_Referral r, ss_Controls r)"

lemma error_result_sel [simp]: "ss_Error (error_result e) = Some e"
  by (simp add: error_result_def)

lemma consume_clean:
  assumes "rs_ch r = map Some rs @ ch" "clean rs" "ch = [] \<or> (\<exists>x ch'. ch = Some x # ch' \<and> ss_Error x \<noteq> None)" "rs_err r = None"
  shows "map delivered (fst (consume r)) = map contents rs
    \<and> rs_err (snd (consume r)) = (case ch of Some x # _ \<Rightarrow> ss_Error x | _ \<Rightarrow> None)"
  using assms
proof (induction rs arbitrary: r)
  case Nil
  then show ?case
    by (auto simp: consume.simps [of r] Next_def)
next
  case (Cons x rs)
  let ?r = "r\<lparr>rs_ch := map Some rs @ ch, rs_err := None, rs_entry := ss_Entry x, rs_referral := ss_Referral x,
      rs_controls := ss_Controls x\<rparr>"
  have n: "Next r = (True, ?r)" using Cons.prems by (simp add: Next_def)
  have "consume r = (?r # fst (consume ?r), snd (consume ?r))"
    by (simp add: consume.simps [of r] n split: prod.splits)
  moreover have "delivered ?r = contents x" by (simp add: delivered_def contents_def)
  ultimately show ?case using Cons.IH [of ?r] Cons.prems by simp
qed

lemma consume_sent:
  assumes "clean rs"
  shows "map delivered (fst (consume (newSearchResponse (map Some rs)))) = map contents rs"
    "rs_err (snd (consume (newSearchResponse (map Some rs)))) = None"
    "map delivered (fst (consume (newSearchResponse (map Some (rs @ [error_result e]))))) = map contents rs"
    "rs_err (snd (consume (newSearchResponse (map Some (rs @ [error_result e]))))) = Some e"
  using consume_clean [OF _ assms, of "newSearchResponse (map Some rs)" "[]"]
    consume_clean [OF _ assms, of "newSearchResponse (map Some (rs @ [error_result e]))" "[Some (error_result e)]"]
  by (simp_all add: newSearchResponse_def)

section \<open>The goroutine\<close>

lemma offer_simps:
  "pg_calls (snd (offer sc res pg)) = pg_calls pg"
  "fst (offer sc res pg) = sc_taken sc (pg_tried pg)"
  "pg_sent (snd (offer sc res pg)) = pg_sent pg @ (if sc_taken sc (pg_tried pg) then [res] else [])"
  by (simp_all add: offer_def Let_def)

text \<open>What a step may do: leave the calls alone, and hand over results, of which only the last before a
  return can be an error.\<close>

definition advances :: "progress \<Rightarrow> flow \<times> progress \<Rightarrow> bool" where
  "advances pg x \<longleftrightarrow> pg_calls (snd x) = pg_calls pg
     \<and> (\<exists>rs. pg_sent (snd x) = pg_sent pg @ rs \<and> (fst x = GoOn \<or> fst x = Finished \<longrightarrow> clean rs))"

lemma send_advances:
  "advances pg (send_return sc res pg)"
  "ss_Error res = None \<Longrightarrow> advances pg (send_continue sc res pg)"
  "send sc res pg = (b, pg') \<Longrightarrow> ss_Error res = None \<Longrightarrow> advances pg (Finished, pg')"
  "offer sc res pg = (b, pg') \<Longrightarrow> advances pg (Return, pg')"
  "offer sc res pg = (b, pg') \<Longrightarrow> advances pg (Blocked, pg')"
  by (auto simp: advances_def send_return_def send_continue_def send_def offer_def Let_def)

lemma advances_refl: "advances pg (flow, pg)"
  by (auto simp: advances_def)

lemma async_entry_advances:
  "async_entry B fb ip sc packet response pg = Some x \<Longrightarrow> advances pg x"
  unfolding async_entry_def
  by (auto simp: Let_def no_result_def split: bind_splits sum.splits if_splits prod.splits
      intro: send_advances)

lemma async_done_advances:
  "async_done B fb ip sc packet pg = Some x \<Longrightarrow> advances pg x"
  unfolding async_done_def
  by (auto simp: Let_def no_result_def split: bind_splits sum.splits if_splits prod.splits option.splits
      intro: send_advances advances_refl)

lemma async_packet_advances:
  "async_packet B fb ip sc packet pg = Some x \<Longrightarrow> advances pg x"
  unfolding async_packet_def
  by (auto simp: no_result_def split: bind_splits sum.splits if_splits
      intro!: send_advances(1,2) intro: async_entry_advances async_done_advances)

text \<open>The whole loop: the receives are its calls, a panic leaves no error behind.\<close>

lemma async_loop_calls:
  "\<exists>n. pg_calls (case async_loop B fb ip sc k rs pg of Inl pg' \<Rightarrow> pg' | Inr (_, pg') \<Rightarrow> pg')
     = pg_calls pg @ replicate n ReceiveResponse"
proof (induction rs arbitrary: k pg)
  case Nil
  show ?case by (auto simp: send_return_def send_def offer_def Let_def intro: exI [of _ 0] exI [of _ 1])
next
  case (Cons r rs)
  let ?pg = "pg\<lparr>pg_calls := pg_calls pg @ [ReceiveResponse]\<rparr>"
  have shift: "\<exists>n. c = pg_calls pg @ replicate n ReceiveResponse"
    if "c = pg_calls ?pg @ replicate m ReceiveResponse" for c m
    using that by (intro exI [of _ "Suc m"]) simp
  show ?case
  proof (cases "sc_done sc k")
    case True
    then show ?thesis by (auto intro: exI [of _ 0])
  next
    case False
    show ?thesis
    proof (cases "ReadPacket r")
      case (Pair q err)
      show ?thesis
      proof (cases err)
        case (Some e)
        with False Pair show ?thesis by (auto simp: send_return_def send_def offer_def Let_def intro: exI [of _ 1])
      next
        case None
        show ?thesis
        proof (cases "async_packet B fb ip sc q ?pg")
          case N: None
          with False Pair None show ?thesis by (auto simp: Let_def intro: exI [of _ 1])
        next
          case (Some x)
          obtain flow pg' where x: "x = (flow, pg')" by fastforce
          have c: "pg_calls pg' = pg_calls ?pg" using async_packet_advances [OF Some] by (simp add: advances_def x)
          show ?thesis
          proof (cases "flow = GoOn")
            case True
            with False Pair None Some x c Cons.IH [of "k + 1" pg'] show ?thesis by (auto simp: Let_def intro: shift)
          next
            case F: False
            with False Pair None Some x c show ?thesis
              by (cases flow) (auto simp: Let_def intro: exI [of _ 1])
          qed
        qed
      qed
    qed
  qed
qed

lemma async_loop_panic_clean:
  "async_loop B fb ip sc k rs pg = Inl pg' \<Longrightarrow> clean (pg_sent pg) \<Longrightarrow> clean (pg_sent pg')"
proof (induction rs arbitrary: k pg)
  case (Cons r rs)
  let ?pg = "pg\<lparr>pg_calls := pg_calls pg @ [ReceiveResponse]\<rparr>"
  obtain q where q: "ReadPacket r = (q, None)" "\<not> sc_done sc k"
    using Cons.prems(1) by (cases "ReadPacket r") (auto simp: Let_def split: if_splits option.splits)
  show ?case
  proof (cases "async_packet B fb ip sc q ?pg")
    case None
    with q Cons.prems show ?thesis by (auto simp: Let_def)
  next
    case (Some x)
    with q Cons.prems(1) obtain pg1 where x: "x = (GoOn, pg1)" "async_loop B fb ip sc (k + 1) rs pg1 = Inl pg'"
      by (cases x) (auto simp: Let_def split: flow.splits)
    from async_packet_advances [OF Some] x(1) Cons.prems(2) have "clean (pg_sent pg1)" by (auto simp: advances_def)
    with Cons.IH x(2) show ?thesis by blast
  qed
qed (auto split: if_splits)

section \<open>Calls\<close>

lemma balanced_exchange:
  "se_send s p = None \<Longrightarrow> balanced s (SendMessage p # replicate n ReceiveResponse @ [FinishMessage])"
  by (simp add: balanced_def)

lemma search_loop_calls:
  "search_loop B fb ip req rs result = Some (calls, x) \<Longrightarrow> \<exists>n. calls = replicate n ReceiveResponse"
proof (induction rs arbitrary: result calls)
  case Nil
  then show ?case by (auto intro: exI [of _ 1])
next
  case (Cons r rs)
  have one: "calls = [ReceiveResponse] \<Longrightarrow> \<exists>n. calls = replicate n ReceiveResponse" by (intro exI [of _ 1]) simp
  show ?case
  proof (cases "readPacket (r # rs)")
    case (Inl e)
    with Cons.prems one show ?thesis by simp
  next
    case (Inr q)
    then obtain y where y: "search_packet B fb ip req q result = Some y" using Cons.prems by (auto split: bind_splits)
    show ?thesis
    proof (cases y)
      case (Inl e)
      with Inr y Cons.prems one show ?thesis by simp
    next
      case (Inr result')
      with \<open>readPacket (r # rs) = Inr q\<close> y Cons.prems obtain more
        where more: "search_loop B fb ip req rs result' = Some (more, x)" "calls = ReceiveResponse # more"
        by (auto split: bind_splits)
      from Cons.IH [OF more(1)] obtain n where "more = replicate n ReceiveResponse" by blast
      with more(2) show ?thesis by (intro exI [of _ "Suc n"]) simp
    qed
  qed
qed

lemma Search_balanced:
  assumes "Conn_Search B fb ip s req = Some (calls, x)"
  shows "balanced s calls"
proof -
  obtain c err where d: "doRequest B s (SearchRequest_appendTo B req) = Some (c, err)"
    using assms by (auto simp: Conn_Search_def split: bind_splits)
  show ?thesis
  proof (cases err)
    case (Some e)
    with assms d doRequest_calls [OF d] show ?thesis by (auto simp: Conn_Search_def balanced_def split: if_splits) (metis option.distinct(1))
  next
    case None
    then obtain p where p: "c = [SendMessage p]" "se_send s p = None" using doRequest_calls [OF d] by auto
    obtain lc y where l: "search_loop B fb ip req (se_responses s) empty_result = Some (lc, y)"
      using assms d None by (auto simp: Conn_Search_def split: bind_splits)
    with search_loop_calls [OF l] p d None assms show ?thesis
      by (cases y) (auto simp: Conn_Search_def balanced_exchange)
  qed
qed

lemma DirSync_balanced:
  assumes "Conn_DirSync B fb ip s req flags n cookie = Some (calls, x)"
  shows "balanced s calls"
proof -
  obtain r where r: "prepare_DirSync req flags n cookie = Some r"
    using assms by (auto simp: Conn_DirSync_def split: bind_splits)
  show ?thesis
  proof (cases r)
    case (Inl e)
    with r assms show ?thesis by (auto simp: Conn_DirSync_def)
  next
    case (Inr req')
    then obtain c y where y: "Conn_Search B fb ip s req' = Some (c, y)"
      using r assms by (auto simp: Conn_DirSync_def split: bind_splits)
    with r Inr assms have "calls = c"
      by (cases y) (auto simp: Conn_DirSync_def split: option.splits control.splits)
    with Search_balanced [OF y] show ?thesis by simp
  qed
qed

lemma finished_run_balanced:
  assumes "se_send s p = None" "ar_end run \<noteq> Stuck"
    and run: "run = finished_run (async_loop B fb ip sc k rs pg)" and "pg_calls pg = [SendMessage p]"
  shows "balanced s (ar_calls run)"
proof -
  let ?r = "async_loop B fb ip sc k rs pg"
  obtain n where n: "pg_calls (case ?r of Inl pg' \<Rightarrow> pg' | Inr (_, pg') \<Rightarrow> pg') = SendMessage p # replicate n ReceiveResponse"
    using async_loop_calls [of B fb ip sc k rs pg] assms(4) by auto
  have "ar_calls run = pg_calls (case ?r of Inl pg' \<Rightarrow> pg' | Inr (_, pg') \<Rightarrow> pg') @ [FinishMessage]"
    using assms(2) unfolding run by (auto simp: finished_run_def run_of_def split: sum.splits flow.splits)
  with n assms(1) show ?thesis by (simp add: balanced_exchange)
qed

lemma start_balanced: "ar_end (start B fb ip sc s req) \<noteq> Stuck \<Longrightarrow> balanced s (ar_calls (start B fb ip sc s req))"
  unfolding start_def
  by (auto simp: run_of_def idle_def send_def offer_def Let_def split: option.splits
      intro!: finished_run_balanced [OF _ _ refl]) (auto simp: balanced_def)

section \<open>Compared with Search\<close>

text \<open>A search that is not cancelled and whose consumer keeps reading.\<close>

definition uncancelled :: schedule where
  "uncancelled = \<lparr>sc_done = (\<lambda>_. False), sc_taken = (\<lambda>_. True)\<rparr>"

text \<open>The responses the two searches treat alike: entries with an attribute list and without controls of
  their own, referrals, and the end of the search.\<close>

definition regular :: "packet \<Rightarrow> bool" where
  "regular q \<longleftrightarrow> 2 \<le> length (Children q) \<longrightarrow>
     Tag (Children q ! 1) \<in> {ApplicationSearchResultEntry, ApplicationSearchResultDone, ApplicationSearchResultReference}
     \<and> (Tag (Children q ! 1) = ApplicationSearchResultEntry \<longrightarrow>
          2 \<le> length (Children (Children q ! 1)) \<and> length (Children q) \<noteq> 3)"

definition regular_response :: "PacketResponse option \<Rightarrow> bool" where
  "regular_response r = (case r of None \<Rightarrow> True | Some x \<Rightarrow> regular (pr_Packet x))"

definition matches :: "SearchSingleResult list \<Rightarrow> SearchResult \<Rightarrow> bool" where
  "matches sent result \<longleftrightarrow> clean sent \<and> List.map_filter ss_Entry sent = res_Entries result
     \<and> filter (\<lambda>u. u \<noteq> []) (map ss_Referral sent) = filter (\<lambda>u. u \<noteq> []) (res_Referrals result)"

definition mirrors :: "SearchSingleResult list \<Rightarrow> SearchResult \<Rightarrow> bool" where
  "mirrors sent result \<longleftrightarrow> matches sent result \<and> concat (map ss_Controls sent) = res_Controls result"

text \<open>How both end.\<close>

definition same_end :: "SearchSingleResult list \<Rightarrow> go_error option \<Rightarrow> SearchResult \<Rightarrow> bool" where
  "same_end sent err result \<longleftrightarrow>
     (case err of
        None \<Rightarrow> mirrors sent result
      | Some _ \<Rightarrow> \<exists>sent' e. sent = sent' @ [error_result e] \<and> matches sent' result)"

lemma mirrors_matches: "mirrors sent result \<Longrightarrow> matches sent result"
  by (simp add: mirrors_def)

lemma map_filter_append: "List.map_filter f (xs @ ys) = List.map_filter f xs @ List.map_filter f ys"
  by (simp add: List.map_filter_def)

lemma uncancelled_send:
  "send uncancelled res pg = (True, pg\<lparr>pg_sent := pg_sent pg @ [res], pg_tried := pg_tried pg + 1\<rparr>)"
  "offer uncancelled res pg = (True, pg\<lparr>pg_sent := pg_sent pg @ [res], pg_tried := pg_tried pg + 1\<rparr>)"
  by (simp_all add: send_def offer_def uncancelled_def)

lemmas uncancelled_simps = uncancelled_send send_return_def send_continue_def

lemma mirrors_steps:
  assumes "mirrors sent result"
  shows "mirrors (sent @ [no_result\<lparr>ss_Entry := Some e\<rparr>]) (result\<lparr>res_Entries := res_Entries result @ [e]\<rparr>)"
    "mirrors (sent @ [no_result\<lparr>ss_Referral := u\<rparr>]) (result\<lparr>res_Referrals := res_Referrals result @ [u]\<rparr>)"
    "mirrors (sent @ [no_result\<lparr>ss_Controls := cs\<rparr>]) (result\<lparr>res_Controls := res_Controls result @ cs\<rparr>)"
    "same_end (sent @ [error_result err]) (Some err') result"
  using assms by (auto simp: mirrors_def matches_def map_filter_append no_result_def List.map_filter_simps same_end_def)

lemma search_controls_decode:
  assumes "search_controls B fb ip ks result = Some (err, result')"
  shows "case err of
      None \<Rightarrow> \<exists>cs. decode_controls B fb ip ks = Some (Inr cs) \<and> result' = result\<lparr>res_Controls := res_Controls result @ cs\<rparr>
    | Some _ \<Rightarrow> (\<exists>e. decode_controls B fb ip ks = Some (Inl e))
        \<and> res_Entries result' = res_Entries result \<and> res_Referrals result' = res_Referrals result"
  using assms
proof (induction ks arbitrary: result)
  case Nil
  then show ?case by auto
next
  case (Cons k ks)
  show ?case
  proof (cases "\<exists>p c. DecodeControl B fb ip k = Some (p, Inr c)")
    case True
    then obtain p c where c: "DecodeControl B fb ip k = Some (p, Inr c)" by blast
    with Cons.prems Cons.IH [of "result\<lparr>res_Controls := res_Controls result @ [c]\<rparr>"] show ?thesis
      by (auto split: option.splits)
  next
    case False
    with Cons.prems show ?thesis by (auto split: bind_splits sum.splits)
  qed
qed

lemma matches_cong:
  "res_Entries result' = res_Entries result \<Longrightarrow> res_Referrals result' = res_Referrals result \<Longrightarrow>
   matches sent result' = matches sent result"
  by (simp add: matches_def)

lemma async_done_same:
  assumes "search_done B fb ip q result = Some (err, result')" "mirrors (pg_sent pg) result"
  shows "\<exists>flow pg'. async_done B fb ip uncancelled q pg = Some (flow, pg') \<and> flow \<in> {Finished, Return}
    \<and> pg_calls pg' = pg_calls pg \<and> same_end (pg_sent pg') err result'"
proof -
  obtain ge where ge: "GetLDAPError q = Some ge" using assms(1) by (auto simp: search_done_def split: bind_splits)
  show ?thesis
  proof (cases ge)
    case (Some e)
    with ge assms mirrors_steps(4) [OF assms(2), of e e] show ?thesis
      by (auto simp: search_done_def async_done_def uncancelled_simps)
  next
    case None
    show ?thesis
    proof (cases "length (Children q) = 3")
      case True
      with ge None assms(1) have k: "Children q ! 2 \<noteq> NilPacket"
        and c: "search_controls B fb ip (Children (Children q ! 2)) result = Some (err, result')"
        by (auto simp: search_done_def deref_def split: if_splits)
      show ?thesis
      proof (cases err)
        case N: None
        with search_controls_decode [OF c] obtain cs where
          "decode_controls B fb ip (Children (Children q ! 2)) = Some (Inr cs)"
          "result' = result\<lparr>res_Controls := res_Controls result @ cs\<rparr>" by auto
        with ge None True k N mirrors_steps(3) [OF assms(2), of cs] show ?thesis
          by (auto simp: async_done_def response_controls_def uncancelled_simps same_end_def)
      next
        case (Some e)
        with search_controls_decode [OF c] obtain e' where
          d: "decode_controls B fb ip (Children (Children q ! 2)) = Some (Inl e')"
          and r: "res_Entries result' = res_Entries result" "res_Referrals result' = res_Referrals result" by auto
        have "same_end (pg_sent pg @ [error_result (ErrWrap ''failed to decode child control: '' e')]) err result'"
          using Some assms(2) matches_cong [OF r] by (auto simp: same_end_def mirrors_def)
        with ge None True k d show ?thesis
          by (auto simp: async_done_def response_controls_def uncancelled_simps)
      qed
    next
      case False
      with ge None assms show ?thesis
        by (auto simp: search_done_def async_done_def same_end_def)
    qed
  qed
qed

lemma async_entry_same:
  assumes "search_entry ip req r result = Some (err, result')" "mirrors (pg_sent pg) result"
    and "\<not> sr_EnforceSizeLimit req" "2 \<le> length (Children r)" "length (Children q) \<noteq> 3"
  shows "\<exists>flow pg'. async_entry B fb ip uncancelled q r pg = Some (flow, pg') \<and> pg_calls pg' = pg_calls pg
    \<and> (case err of None \<Rightarrow> flow = GoOn \<and> mirrors (pg_sent pg') result'
       | Some _ \<Rightarrow> flow = Return \<and> same_end (pg_sent pg') err result')"
proof -
  have lim: "\<not> size_limit_reached req result" using assms(3) by (simp add: size_limit_reached_def)
  have k: "Children r ! 1 \<noteq> NilPacket" using assms(1,4) lim
    by (auto simp: search_entry_def entry_attributes_def deref_def split: if_splits)
  then have attrs: "entry_attributes r = Some (Children (Children r ! 1))"
    using assms(4) by (simp add: entry_attributes_def)
  then obtain u where u: "unpackAttributes ip (Children (Children r ! 1)) = Some u"
    using assms(1) lim by (auto simp: search_entry_def split: bind_splits)
  show ?thesis
  proof (cases u)
    case (Inl e)
    with attrs u assms(1) lim have "err = Some e" "result' = result" by (simp_all add: search_entry_def)
    with Inl u k assms(2,4) mirrors_steps(4) [OF assms(2), of e e] show ?thesis
      by (simp add: async_entry_def nth_child_def uncancelled_simps)
  next
    case (Inr as)
    with attrs u assms(1) lim obtain dn where dn: "first_string r = Some dn" "err = None"
      "result' = result\<lparr>res_Entries := res_Entries result @ [\<lparr>en_DN = dn, en_Attributes = as\<rparr>]\<rparr>"
      by (auto simp: search_entry_def split: bind_splits)
    with Inr u k assms(2,4,5) mirrors_steps(1) [OF assms(2), of "\<lparr>en_DN = dn, en_Attributes = as\<rparr>"] show ?thesis
      by (simp add: async_entry_def nth_child_def uncancelled_simps)
  qed
qed

lemma async_packet_same:
  assumes "search_packet B fb ip req q result = Some x" "mirrors (pg_sent pg) result"
    and "\<not> sr_EnforceSizeLimit req" "regular q"
  shows "\<exists>flow pg'. async_packet B fb ip uncancelled q pg = Some (flow, pg') \<and> pg_calls pg' = pg_calls pg
    \<and> (case x of
         Inr result' \<Rightarrow> flow = GoOn \<and> mirrors (pg_sent pg') result'
       | Inl (err, result') \<Rightarrow> flow \<in> {Finished, Return} \<and> same_end (pg_sent pg') err result')"
proof -
  let ?r = "Children q ! 1"
  have q: "2 \<le> length (Children q)" "?r \<noteq> NilPacket"
    using assms(1) by (auto simp: search_packet_def nth_child_def deref_def split: if_splits)
  with assms(4) consider (entry) "Tag ?r = ApplicationSearchResultEntry" "2 \<le> length (Children ?r)" "length (Children q) \<noteq> 3"
    | (ended) "Tag ?r = ApplicationSearchResultDone" | (ref) "Tag ?r = ApplicationSearchResultReference"
    by (auto simp: regular_def)
  then show ?thesis
  proof cases
    case entry
    then obtain err result' where e: "search_entry ip req ?r result = Some (err, result')"
      using assms(1) q by (auto simp: search_packet_def nth_child_def split: bind_splits)
    from async_entry_same [OF e assms(2,3) entry(2,3), of B fb] e entry assms(1) q show ?thesis
      by (cases err) (auto simp: search_packet_def async_packet_def nth_child_def)
  next
    case ended
    then obtain err result' where e: "search_done B fb ip q result = Some (err, result')" "x = Inl (err, result')"
      using assms(1) q by (auto simp: search_packet_def nth_child_def split: bind_splits)
    from async_done_same [OF e(1) assms(2)] e(2) ended q show ?thesis
      by (auto simp: async_packet_def nth_child_def)
  next
    case ref
    then obtain u where "first_string ?r = Some u" "x = Inr (result\<lparr>res_Referrals := res_Referrals result @ [u]\<rparr>)"
      using assms(1) q by (auto simp: search_packet_def nth_child_def split: bind_splits)
    with ref q mirrors_steps(2) [OF assms(2), of u] show ?thesis
      by (simp add: async_packet_def nth_child_def uncancelled_simps)
  qed
qed

lemma readPacket_ReadPacket:
  "readPacket (r # rs) = (case ReadPacket r of (q, None) \<Rightarrow> Inr q | (q, Some e) \<Rightarrow> Inl e)"
  by (auto simp: readPacket_def ReadPacket_def split: option.splits)

lemma regular_read: "ReadPacket r = (q, None) \<Longrightarrow> regular_response r \<Longrightarrow> regular q"
  by (auto simp: ReadPacket_def regular_response_def split: option.splits if_splits)

lemma async_loop_same:
  assumes "search_loop B fb ip req rs result = Some (calls, err, result')" "mirrors (pg_sent pg) result"
    and "\<not> sr_EnforceSizeLimit req" "list_all regular_response rs"
  shows "\<exists>flow pg'. async_loop B fb ip uncancelled k rs pg = Inr (flow, pg') \<and> flow \<in> {Finished, Return}
    \<and> pg_calls pg' = pg_calls pg @ calls \<and> same_end (pg_sent pg') err result'"
  using assms(1,2,4)
proof (induction rs arbitrary: result calls pg k)
  case Nil
  with mirrors_steps(4) [of "pg_sent pg" result response_channel_closed response_channel_closed] show ?case
    by (auto simp: uncancelled_simps uncancelled_def [THEN arg_cong, of sc_done])
next
  case (Cons r rs)
  let ?pg = "pg\<lparr>pg_calls := pg_calls pg @ [ReceiveResponse]\<rparr>"
  have nd: "sc_done uncancelled k = False" by (simp add: uncancelled_def)
  have m: "mirrors (pg_sent ?pg) result" using Cons.prems(2) by simp
  show ?case
  proof (cases "ReadPacket r")
    case (Pair q e)
    show ?thesis
    proof (cases e)
      case (Some e')
      with Pair Cons.prems mirrors_steps(4) [OF m, of e' e'] nd show ?thesis
        by (auto simp: readPacket_ReadPacket uncancelled_simps Let_def)
    next
      case None
      with Pair Cons.prems(1) obtain x where x: "search_packet B fb ip req q result = Some x"
        by (auto simp: readPacket_ReadPacket split: bind_splits)
      have "regular q" using Pair None Cons.prems(3) regular_read by auto
      from async_packet_same [OF x m assms(3) this] obtain flow pg' where
        a: "async_packet B fb ip uncancelled q ?pg = Some (flow, pg')" "pg_calls pg' = pg_calls pg @ [ReceiveResponse]"
        "case x of Inr result' \<Rightarrow> flow = GoOn \<and> mirrors (pg_sent pg') result'
         | Inl (err, result') \<Rightarrow> flow \<in> {Finished, Return} \<and> same_end (pg_sent pg') err result'"
        by auto
      show ?thesis
      proof (cases x)
        case (Inl ended)
        with a Pair None nd x Cons.prems(1) show ?thesis
          by (cases ended) (auto simp: readPacket_ReadPacket Let_def split: flow.splits)
      next
        case (Inr result1)
        with Pair None x Cons.prems(1) obtain more where
          "search_loop B fb ip req rs result1 = Some (more, err, result')" "calls = ReceiveResponse # more"
          by (auto simp: readPacket_ReadPacket split: bind_splits)
        with Inr a Pair None nd Cons.prems(3) Cons.IH [of result1 more pg' "k + 1"] show ?thesis
          by (auto simp: Let_def)
      qed
    qed
  qed
qed

lemma doRequest_async:
  "\<not> se_nil s \<Longrightarrow> doRequest B s (SearchRequest_appendTo B req) =
     map_option (\<lambda>(err, p). case err of Some e \<Rightarrow> ([], Some e) | None \<Rightarrow> ([SendMessage p], se_send s p))
       (async_request B s req)"
  by (auto simp: doRequest_def async_request_def map_option_case split: option.splits prod.splits bind_splits)

lemma start_sent:
  assumes "\<not> se_nil s" "\<not> se_closing s" "doRequest B s (SearchRequest_appendTo B req) = Some (c, None)"
  obtains p where "c = [SendMessage p]"
    "start B fb ip sc s req = finished_run (async_loop B fb ip sc 0 (se_responses s) (idle\<lparr>pg_calls := [SendMessage p]\<rparr>))"
proof -
  obtain p where "async_request B s req = Some (None, p)" "c = [SendMessage p]" "se_send s p = None"
    using assms(1,3) by (auto simp: doRequest_async split: option.splits)
  with assms(2) show thesis by (intro that [of p]) (simp_all add: start_def Let_def)
qed

text \<open>What the consumer sees of the results on the channel.\<close>

definition received_entries :: "searchResponse list \<Rightarrow> Entry list" where
  "received_entries rs = List.map_filter rs_entry rs"

definition received_referrals :: "searchResponse list \<Rightarrow> string list" where
  "received_referrals rs = filter (\<lambda>u. u \<noteq> []) (map rs_referral rs)"

lemma received_contents:
  assumes "map delivered rs = map contents sent"
  shows "received_entries rs = List.map_filter ss_Entry sent"
    "received_referrals rs = filter (\<lambda>u. u \<noteq> []) (map ss_Referral sent)"
    "map rs_controls rs = map ss_Controls sent"
proof -
  have "map rs_entry rs = map ss_Entry sent" "map rs_referral rs = map ss_Referral sent"
    "map rs_controls rs = map ss_Controls sent"
    using assms by (induction rs arbitrary: sent) (auto simp: delivered_def contents_def map_eq_Cons_conv Cons_eq_map_conv)
  moreover have "List.map_filter f xs = List.map_filter id (map f xs)" for f :: "'x \<Rightarrow> 'y option" and xs
    by (simp add: List.map_filter_def comp_def filter_map)
  ultimately show "received_entries rs = List.map_filter ss_Entry sent"
    "received_referrals rs = filter (\<lambda>u. u \<noteq> []) (map ss_Referral sent)"
    "map rs_controls rs = map ss_Controls sent"
    unfolding received_entries_def received_referrals_def by metis+
qed

lemma consume_same_end:
  assumes "same_end sent err result" "r = newSearchResponse (map Some sent)"
  shows "received_entries (fst (consume r)) = res_Entries result
    \<and> received_referrals (fst (consume r)) = filter (\<lambda>u. u \<noteq> []) (res_Referrals result)
    \<and> (rs_err (snd (consume r)) = None \<longleftrightarrow> err = None)
    \<and> (err = None \<longrightarrow> concat (map rs_controls (fst (consume r))) = res_Controls result)"
proof (cases err)
  case None
  with assms(1) have m: "matches sent result" "concat (map ss_Controls sent) = res_Controls result"
    by (auto simp: same_end_def mirrors_def)
  then have c: "clean sent" by (simp add: matches_def)
  from received_contents [OF consume_sent(1) [OF c]] consume_sent(2) [OF c] m None show ?thesis
    by (simp add: assms(2) matches_def)
next
  case (Some e)
  with assms(1) obtain sent' e' where s: "sent = sent' @ [error_result e']" "matches sent' result"
    by (auto simp: same_end_def)
  then have c: "clean sent'" by (simp add: matches_def)
  from received_contents [OF consume_sent(3) [OF c]] consume_sent(4) [OF c] s Some show ?thesis
    by (simp add: assms(2) matches_def)
qed

section \<open>Properties\<close>

text \<open>C8. Whatever the server answers, an operation leaves the connection in order: without an accepted request
  it makes no further call; after one it receives responses and finishes the message exactly once, as its last
  call.  The goroutine of an asynchronous search does so too, cancelled or not and even when it panics, unless
  it is stuck handing over an error.\<close>

theorem operations_balanced:
  "(Conn_Add B s a = Some (calls, r1) \<longrightarrow> balanced s calls)
   \<and> (Conn_Del B s d = Some (calls, r1) \<longrightarrow> balanced s calls)
   \<and> (Conn_Modify B s m = Some (calls, r1) \<longrightarrow> balanced s calls)
   \<and> (Conn_ModifyDN B s n = Some (calls, r1) \<longrightarrow> balanced s calls)
   \<and> (Conn_Compare B s dn attribute v = Some (calls, r2) \<longrightarrow> balanced s calls)
   \<and> (Conn_ModifyWithResult B fb ip s m = Some (calls, r3) \<longrightarrow> balanced s calls)
   \<and> (Conn_Extended B fb ip s e = Some (calls, r4) \<longrightarrow> balanced s calls)
   \<and> (Conn_WhoAmI B fb ip s cs = Some (calls, r5) \<longrightarrow> balanced s calls)
   \<and> (Conn_PasswordModify B s pw = Some (calls, r6) \<longrightarrow> balanced s calls)
   \<and> (Conn_Search B fb ip s req = Some (calls, r7) \<longrightarrow> balanced s calls)
   \<and> (Conn_DirSync B fb ip s req flags k cookie = Some (calls, r7) \<longrightarrow> balanced s calls)
   \<and> (ar_end (start B fb ip sc s req) \<noteq> Stuck \<longrightarrow> balanced s (ar_calls (start B fb ip sc s req)))"
proof -
  have a: "Conn_Add B s a = Some (calls, r1) \<Longrightarrow> balanced s calls"
    by (cases a) (auto simp: Conn_Add_def [of B s None] dest: operation_balanced)
  have d: "Conn_Del B s d = Some (calls, r1) \<Longrightarrow> balanced s calls"
    by (cases d) (auto simp: Conn_Del_def [of B s None] dest: operation_balanced)
  have e: "Conn_Extended B fb ip s e = Some (calls, r4) \<Longrightarrow> balanced s calls"
    by (cases e) (auto simp: Conn_Extended_def [of B fb ip s None] dest: operation_balanced)
  show ?thesis
    by (intro conjI impI; elim a d e operation_balanced(3,4,5,6,8) WhoAmI_balanced Search_balanced DirSync_balanced
        start_balanced)
qed

theorem operations_balanced_witness:
  "let q = answer ApplicationDelResponse 32; s = working [q]; p = the (map_option (hd \<circ> fst) (Conn_Del ref_ber s (Some (NewDelRequest ''cn=x'' []))))
   in balanced s [p, ReceiveResponse, FinishMessage]"
proof -
  let ?q = "answer ApplicationDelResponse 32" and ?d = "NewDelRequest ''cn=x'' []"
  have "exchanged ref_ber (working [?q]) ApplicationDelRequest (del_Controls ?d) (del_element ?d)
      (simple_result ApplicationDelResponse ?q 32 ''dc=x'' ''denied'') (Conn_Del ref_ber (working [?q]) (Some ?d))"
    by (rule exchangedI [OF ref.ber_library_axioms _ _ working_read del.exchange_operation_axioms ref.DelRequest_appends
          _ check_response_result [OF answer_LDAPResult]])
      (simp_all add: answer_def NewDelRequest_def del_element_def)
  then obtain p where p: "Conn_Del ref_ber (working [?q]) (Some ?d) = Some ([SendMessage p, ReceiveResponse, FinishMessage],
      simple_result ApplicationDelResponse ?q 32 ''dc=x'' ''denied'')"
    by (auto simp: exchanged_def)
  with operations_balanced [of ref_ber "working [?q]" None _ _ "Some ?d"] show ?thesis by (simp add: Let_def)
qed

text \<open>A panic in the goroutine of an asynchronous search is not reported to the consumer: every result that
  was handed over is delivered, \<^verbatim>\<open>Next\<close> then returns false and \<^verbatim>\<open>Err\<close> is nil, as after a complete search.\<close>

theorem SearchAsync_panic_unreported:
  assumes "SearchAsync B fb ip sc s req = (run, r)" "ar_end run = Recovered"
  shows "map delivered (fst (consume r)) = map contents (ar_sent run) \<and> rs_err (snd (consume r)) = None"
proof -
  have run: "run = start B fb ip sc s req" and r: "r = newSearchResponse (map Some (ar_sent run))"
    using assms(1) by (auto simp: SearchAsync_def Let_def)
  have "clean (ar_sent run)" using assms(2) unfolding run start_def
    by (auto simp: run_of_def idle_def finished_run_def Let_def split: option.splits if_splits sum.splits flow.splits
        dest!: async_loop_panic_clean)
  from consume_sent(1,2) [OF this] show ?thesis by (simp add: r)
qed

theorem SearchAsync_panic_unreported_witness:
  "let q = sample_message ApplicationSearchResultEntry [text_packet ''cn=a,dc=x''];
       (run, r) = SearchAsync ref_ber (\<lambda>s. Inr s) (\<lambda>_. True) uncancelled (working [sample_entry_packet, q]) sample_request
   in ar_end run = Recovered \<and> rs_err (snd (consume r)) = None"
proof -
  let ?q = "sample_message ApplicationSearchResultEntry [text_packet ''cn=a,dc=x'']"
  let ?s = "working [sample_entry_packet, ?q]"
  let ?run = "start ref_ber (\<lambda>s. Inr s) (\<lambda>_. True) uncancelled ?s sample_request"
  obtain fp where fp: "CompileFilter ref_ber (sr_Filter sample_request) = Some (fp, None)"
    using ref.CompileFilter_show [OF sample_request_filter(2)] sample_request_filter(1) by auto
  obtain p where p: "doRequest ref_ber ?s (SearchRequest_appendTo ref_ber sample_request) = Some ([SendMessage p], None)"
    by (rule ref.Search_sends [OF _ _ fp, of ?s]) (simp_all add: sample_request_def NewSearchRequest_def)
  obtain p' where st: "?run = finished_run (async_loop ref_ber (\<lambda>s. Inr s) (\<lambda>_. True) uncancelled 0 (se_responses ?s)
      (idle\<lparr>pg_calls := [SendMessage p']\<rparr>))"
    by (rule start_sent [OF _ _ p, of "\<lambda>s. Inr s" "\<lambda>_. True" uncancelled]) simp_all
  have none: "async_packet ref_ber (\<lambda>s. Inr s) (\<lambda>_. True) uncancelled ?q pg = None" for pg
    by (simp add: async_packet_def async_entry_def nth_child_def sample_message_def)
  have "unpackAttributes (\<lambda>_. True) [sample_attribute ''sn'' [''u'', ''v'']] = Some (Inr (en_Attributes sample_entry))"
    unfolding unpackAttributes_iff
    using sample_carries by (simp add: sample_entry_packet_def sample_message_def carries_entry_def)
  then have go: "\<exists>pg'. async_packet ref_ber (\<lambda>s. Inr s) (\<lambda>_. True) uncancelled sample_entry_packet pg = Some (GoOn, pg')" for pg
    by (simp add: async_packet_def async_entry_def nth_child_def sample_entry_packet_def sample_message_def
        first_string_def text_packet_def uncancelled_simps)
  obtain pg1 where go1: "async_packet ref_ber (\<lambda>s. Inr s) (\<lambda>_. True) uncancelled sample_entry_packet
      (idle\<lparr>pg_calls := [SendMessage p', ReceiveResponse]\<rparr>) = Some (GoOn, pg1)" using go by blast
  have "sc_done uncancelled n = False" for n by (simp add: uncancelled_def)
  moreover have "se_responses ?s = [arrived sample_entry_packet, arrived ?q]" by (simp add: working_def arrived_def)
  moreover have "ReadPacket (arrived sample_entry_packet) = (sample_entry_packet, None)" "ReadPacket (arrived ?q) = (?q, None)"
    by (simp_all add: ReadPacket_def arrived_def sample_entry_packet_def sample_message_def)
  ultimately have "ar_end ?run = Recovered"
    by (simp add: st go1 none Let_def finished_run_def run_of_def)
  then show ?thesis
    using SearchAsync_panic_unreported [of ref_ber "\<lambda>s. Inr s" "\<lambda>_. True" uncancelled ?s sample_request ?run]
    by (simp add: SearchAsync_def Let_def)
qed

text \<open>C9. An asynchronous search that is not cancelled delivers what \<^verbatim>\<open>Search\<close> returns: on responses that both treat
  alike it makes the same calls, the consumer receives the same entries in the same order and the same
  referrals, \<^verbatim>\<open>Err\<close> is nil exactly when \<^verbatim>\<open>Search\<close> returns no error, and then the controls agree too.\<close>

theorem SearchAsync_like_Search:
  assumes "\<not> se_nil s" "\<not> se_closing s" "\<not> sr_EnforceSizeLimit req" "list_all regular_response (se_responses s)"
    and "Conn_Search B fb ip s req = Some (calls, Some result, err)"
    and "SearchAsync B fb ip uncancelled s req = (run, r)"
  shows "ar_end run = Closed \<and> ar_calls run = calls
    \<and> received_entries (fst (consume r)) = res_Entries result
    \<and> received_referrals (fst (consume r)) = filter (\<lambda>u. u \<noteq> []) (res_Referrals result)
    \<and> (rs_err (snd (consume r)) = None \<longleftrightarrow> err = None)
    \<and> (err = None \<longrightarrow> concat (map rs_controls (fst (consume r))) = res_Controls result)"
proof -
  obtain c lc where d: "doRequest B s (SearchRequest_appendTo B req) = Some (c, None)"
    and l: "search_loop B fb ip req (se_responses s) empty_result = Some (lc, err, result)"
    and calls: "calls = c @ lc @ [FinishMessage]"
    using assms(5) by (auto simp: Conn_Search_def split: bind_splits option.splits)
  obtain p where p: "c = [SendMessage p]" "start B fb ip uncancelled s req
      = finished_run (async_loop B fb ip uncancelled 0 (se_responses s) (idle\<lparr>pg_calls := [SendMessage p]\<rparr>))"
    by (rule start_sent [OF assms(1,2) d])
  have "mirrors (pg_sent (idle\<lparr>pg_calls := [SendMessage p]\<rparr>)) empty_result"
    by (simp add: mirrors_def matches_def idle_def empty_result_def List.map_filter_simps)
  from async_loop_same [OF l this assms(3,4), of 0] obtain flow pg' where
    a: "async_loop B fb ip uncancelled 0 (se_responses s) (idle\<lparr>pg_calls := [SendMessage p]\<rparr>) = Inr (flow, pg')"
    "flow \<in> {Finished, Return}" "pg_calls pg' = [SendMessage p] @ lc" "same_end (pg_sent pg') err result"
    by auto
  then have "start B fb ip uncancelled s req
      = \<lparr>ar_calls = pg_calls pg' @ [FinishMessage], ar_sent = pg_sent pg', ar_end = Closed\<rparr>"
    unfolding p(2) by (auto simp: finished_run_def run_of_def)
  then have run: "run = \<lparr>ar_calls = pg_calls pg' @ [FinishMessage], ar_sent = pg_sent pg', ar_end = Closed\<rparr>"
    "r = newSearchResponse (map Some (pg_sent pg'))"
    using assms(6) by (auto simp: SearchAsync_def Let_def)
  from consume_same_end [OF a(4) run(2)] show ?thesis using run(1) a(3) calls p(1) by simp
qed

theorem SearchAsync_like_Search_witness:
  "\<exists>run r calls. SearchAsync ref_ber (\<lambda>s. Inr s) (\<lambda>_. True) uncancelled
       (working [sample_entry_packet, answer ApplicationSearchResultDone 0]) sample_request = (run, r)
     \<and> Conn_Search ref_ber (\<lambda>s. Inr s) (\<lambda>_. True) (working [sample_entry_packet, answer ApplicationSearchResultDone 0])
       sample_request = Some (calls, Some \<lparr>res_Entries = [sample_entry], res_Referrals = [], res_Controls = []\<rparr>, None)
     \<and> ar_end run = Closed \<and> ar_calls run = calls \<and> received_entries (fst (consume r)) = [sample_entry]
     \<and> rs_err (snd (consume r)) = None"
proof -
  let ?q = "answer ApplicationSearchResultDone 0" and ?m = "[EntryMessage sample_entry]"
  let ?s = "working [sample_entry_packet, ?q]"
  obtain fp where fp: "CompileFilter ref_ber (sr_Filter sample_request) = Some (fp, None)"
    using ref.CompileFilter_show [OF sample_request_filter(2)] sample_request_filter(1) by auto
  have "Tag (Children ?q ! 1) = ApplicationSearchResultDone" "done_controls ref_ber (\<lambda>s. Inr s) (\<lambda>_. True) ?q []"
    by (simp_all add: answer_def done_controls_def)
  then have r: "search_loop ref_ber (\<lambda>s. Inr s) (\<lambda>_. True) sample_request [arrived ?q] (gather ?m empty_result)
      = Some ([ReceiveResponse], None, \<lparr>res_Entries = [sample_entry], res_Referrals = [], res_Controls = []\<rparr>)"
    using search_loop_done [OF answer_LDAPResult, of ApplicationSearchResultDone 0]
    by (simp add: search_end_def gather_empty messages_result_def result_error_def)
  have req: "room sample_request empty_result ?m" "sr_Controls sample_request = []" "\<not> sr_EnforceSizeLimit sample_request"
    "se_responses ?s = map arrived [sample_entry_packet] @ [arrived ?q]"
    by (simp_all add: room_def sample_request_def NewSearchRequest_def working_def arrived_def)
  have reg: "list_all regular_response (se_responses ?s)"
    by (simp add: working_def regular_response_def regular_def sample_entry_packet_def sample_message_def answer_def)
  obtain calls where c: "Conn_Search ref_ber (\<lambda>s. Inr s) (\<lambda>_. True) ?s sample_request
      = Some (calls, Some \<lparr>res_Entries = [sample_entry], res_Referrals = [], res_Controls = []\<rparr>, None)"
    using searchedI [OF ref.ber_library_axioms _ _ fp _ _ _ _ r, of ?s "[sample_entry_packet]"] sample_carries req
    by (auto simp: searched_def simp del: carries.simps)
  obtain run r where run: "SearchAsync ref_ber (\<lambda>s. Inr s) (\<lambda>_. True) uncancelled ?s sample_request = (run, r)"
    by fastforce
  from SearchAsync_like_Search [OF _ _ req(3) reg c run] c run show ?thesis by auto
qed

end
