(* ===== verification/Search_Types.thy ===== *)
theory Search_Types
  imports Search_Properties
begin

text \<open>
  The controls of a search result have the structure of their type, and the type assertion of \<^verbatim>\<open>SearchWithPaging\<close>
  (\<^verbatim>\<open>search.go\<close>) is always right: a paged search panics exactly where one of the searches it makes does.
\<close>

section \<open>The controls of a result\<close>

lemma search_controls_typed:
  "search_controls B fb ip ks result = Some (err, result') \<Longrightarrow> list_all typed (res_Controls result)
   \<Longrightarrow> list_all typed (res_Controls result')"
proof (induction ks arbitrary: result)
  case (Cons k ks)
  obtain p r where d: "DecodeControl B fb ip k = Some (p, r)" using Cons.prems(1) by (auto split: bind_splits)
  show ?case
  proof (cases r)
    case (Inr c)
    with d have "typed c" using DecodeControl_typed by simp
    with Cons d Inr show ?thesis by simp
  qed (use Cons.prems d in auto)
qed simp

lemma search_entry_controls:
  "search_entry ip req r result = Some (err, result') \<Longrightarrow> res_Controls result' = res_Controls result"
  by (auto simp: search_entry_def split: bind_splits if_splits sum.splits)

lemma search_packet_typed:
  assumes "search_packet B fb ip req q result = Some x" "list_all typed (res_Controls result)"
  shows "case x of Inl (err, result') \<Rightarrow> list_all typed (res_Controls result')
                 | Inr result' \<Rightarrow> list_all typed (res_Controls result')"
  using assms
  by (auto simp: search_packet_def search_done_def split: bind_splits if_splits option.splits
      dest!: search_entry_controls dest: search_controls_typed)

lemma search_loop_typed:
  "search_loop B fb ip req rs result = Some (calls, err, result') \<Longrightarrow> list_all typed (res_Controls result)
   \<Longrightarrow> list_all typed (res_Controls result')"
proof (induction rs arbitrary: result calls)
  case (Cons r rs)
  show ?case
  proof (cases "readPacket (r # rs)")
    case (Inr q)
    then obtain x where x: "search_packet B fb ip req q result = Some x" using Cons.prems(1) by (auto simp: bind_eq_Some_conv)
    note search_packet_typed [OF x Cons.prems(2)]
    with x Inr Cons show ?thesis by (auto split: bind_splits sum.splits)
  qed (use Cons.prems in simp)
qed simp

lemma Conn_Search_typed:
  "Conn_Search B fb ip s req = Some (calls, Some result, err) \<Longrightarrow> list_all typed (res_Controls result)"
  by (auto simp: Conn_Search_def split: bind_splits option.splits dest!: search_loop_typed) (simp add: empty_result_def)

section \<open>The searches of a paged search\<close>

text \<open>The request for the next page: the paging control with the cookie of the page before.\<close>

fun put_cookie :: "bytes \<Rightarrow> control list \<Rightarrow> control list" where
  "put_cookie cookie [] = []"
| "put_cookie cookie (ControlPaging n _ # cs) = ControlPaging n cookie # cs"
| "put_cookie cookie (c # cs) = c # put_cookie cookie cs"

text \<open>The searches of a paged search, one per page, as long as a search succeeds and its result holds a cookie.\<close>

fun paged_searches ::
  "ber \<Rightarrow> uuid_FromBytes \<Rightarrow> (rune \<Rightarrow> bool) \<Rightarrow> session list \<Rightarrow> SearchRequest \<Rightarrow> (session \<times> SearchRequest) list" where
  "paged_searches B fb ip [] req = []"
| "paged_searches B fb ip (s # ss) req = (s, req) #
     (case Conn_Search B fb ip s req of
        Some (_, Some result, None) \<Rightarrow>
          (case next_cookie (res_Controls result) of
             None \<Rightarrow> []
           | Some cookie \<Rightarrow> paged_searches B fb ip ss (req\<lparr>sr_Controls := put_cookie cookie (sr_Controls req)\<rparr>))
      | _ \<Rightarrow> [])"

definition paged :: "SearchRequest \<Rightarrow> bool" where
  "paged req \<longleftrightarrow> (\<exists>n cookie. FindControl (sr_Controls req) ControlTypePaging = Some (ControlPaging n cookie))"

lemma set_paging_cookie_put:
  assumes "FindControl cs ControlTypePaging = Some (ControlPaging n c)"
  shows "set_paging_cookie cookie cs = put_cookie cookie cs
    \<and> FindControl (put_cookie cookie cs) ControlTypePaging = Some (ControlPaging n cookie)"
  using assms by (induction cookie cs rule: put_cookie.induct) (auto split: if_splits)

lemma prepare_paging_paged: "prepare_paging ip req n = Inr req' \<Longrightarrow> paged req'"
  by (auto simp: prepare_paging_def paged_def FindControl_append NewControlPaging_def
      split: option.splits control.splits if_splits)

lemma page_received_typed:
  assumes "Conn_Search B fb ip s req = Some (calls, result, err)"
  shows "page_received result err acc = Some (case (result, err) of
      (Some r, None) \<Rightarrow>
        (case next_cookie (res_Controls r) of
           None \<Rightarrow> Inl (SearchResult_appendTo r acc, None)
         | Some cookie \<Rightarrow> Inr (cookie, SearchResult_appendTo r acc))
    | (None, None) \<Rightarrow> Inl (acc, Some (NewError ErrorNetwork (ErrText ''ldap: packet not received'')))
    | (None, Some e) \<Rightarrow> Inl (acc, Some e)
    | (Some r, Some e) \<Rightarrow> Inl (SearchResult_appendTo r acc, Some e))"
  using assms Conn_Search_typed [of B fb ip s req calls _ err] page_cookie_typed
  by (cases result; cases err) (auto simp: page_received_def Let_def split: option.splits)

lemma paging_loop_panic:
  assumes "paged req"
  shows "paging_loop B fb ip ss req acc = None
    \<longleftrightarrow> (\<exists>(s, r) \<in> set (paged_searches B fb ip ss req). Conn_Search B fb ip s r = None)"
  using assms
proof (induction ss arbitrary: req acc)
  case (Cons s ss)
  obtain n c where n: "FindControl (sr_Controls req) ControlTypePaging = Some (ControlPaging n c)"
    using Cons.prems by (auto simp: paged_def)
  show ?case
  proof (cases "Conn_Search B fb ip s req")
    case (Some x)
    obtain calls result err where x: "x = (calls, result, err)" by (cases x) auto
    note pr = page_received_typed [OF Some [unfolded x], of acc]
    show ?thesis
    proof (cases "\<exists>r cookie. result = Some r \<and> err = None \<and> next_cookie (res_Controls r) = Some cookie")
      case True
      then obtain r cookie where r: "result = Some r" "err = None" "next_cookie (res_Controls r) = Some cookie" by blast
      note put = set_paging_cookie_put [OF n, of cookie]
      then have "paged (req\<lparr>sr_Controls := put_cookie cookie (sr_Controls req)\<rparr>)" by (simp add: paged_def)
      from Cons.IH [OF this] Some x pr r put show ?thesis by (simp add: bind_eq_None_conv split: prod.splits)
    next
      case False
      with Some x pr show ?thesis by (auto split: option.splits)
    qed
  qed auto
qed simp

text \<open>C29. The controls of a search result have the structure of their type, whatever the server sends: so the
  unchecked assertion of \<^verbatim>\<open>SearchWithPaging\<close> on the control it finds under the paging type cannot fail and the cookie
  it reads is that of the first paging control.  A paged search panics exactly when one of the searches it makes
  does: the first of them, or one with the cookie of the page before it.\<close>

theorem SearchWithPaging_assertion_safe:
  assumes "Conn_Search B fb ip s req = Some (calls, Some result, err)"
  shows "list_all typed (res_Controls result) \<and> page_cookie result = Some (next_cookie (res_Controls result))
    \<and> (SearchWithPaging B fb ip ss req' n = None \<longleftrightarrow>
        (\<exists>prepared. prepare_paging ip req' n = Inr prepared
          \<and> (\<exists>(s', r) \<in> set (paged_searches B fb ip ss prepared). Conn_Search B fb ip s' r = None)))"
proof -
  have "SearchWithPaging B fb ip ss req' n = None \<longleftrightarrow>
      (\<exists>prepared. prepare_paging ip req' n = Inr prepared \<and> paging_loop B fb ip ss prepared empty_result = None)"
    by (cases "prepare_paging ip req' n") (auto simp: SearchWithPaging_def bind_eq_None_conv split: prod.splits)
  with Conn_Search_typed [OF assms] page_cookie_typed show ?thesis
    using paging_loop_panic [OF prepare_paging_paged] by blast
qed

text \<open>A search whose request holds a control that cannot be encoded panics.\<close>

lemma Conn_Search_unencodable:
  assumes "ber_library B" "\<not> se_nil s" "CompileFilter B (sr_Filter req) = Some (fp, None)"
    and "\<exists>c \<in> set (sr_Controls req). \<not> encodable c"
  shows "Conn_Search B fb ip s req = None"
proof -
  have "encodeControls B (sr_Controls req) = None" "sr_Controls req \<noteq> []"
    using ber_library.encode_onto_nil [OF assms(1,4)] assms(4) by (auto simp: encodeControls_def)
  then have "append_request B p (sr_Controls req) envelope = None" for p envelope
    by (auto simp: append_request_def bind_eq_None_conv)
  then have "SearchRequest_appendTo B req envelope = None" for envelope
    by (simp add: SearchRequest_appendTo_def assms(3) bind_eq_None_conv)
  with assms(2) show ?thesis by (simp add: Conn_Search_def doRequest_def bind_eq_None_conv)
qed

abbreviation unencodable_request :: SearchRequest where
  "unencodable_request \<equiv> sample_request\<lparr>sr_Controls := [ControlVChuPasswordMustChange True]\<rparr>"

theorem SearchWithPaging_assertion_safe_witness:
  "\<exists>pk calls. Conn_Search ref_ber (\<lambda>s. Inr s) (\<lambda>_. True) (working [sample_entry_packet, ended [pk]]) sample_request
       = Some (calls, Some \<lparr>res_Entries = [sample_entry], res_Referrals = [],
           res_Controls = [ControlPaging 10 ''n'']\<rparr>, None)
     \<and> typed (ControlPaging 10 ''n'') \<and> \<not> typed (ControlString ControlTypePaging False ''n'')
     \<and> page_cookie \<lparr>res_Entries = [sample_entry], res_Referrals = [], res_Controls = [ControlPaging 10 ''n'']\<rparr> = Some (Some ''n'')
     \<and> SearchWithPaging ref_ber (\<lambda>s. Inr s) (\<lambda>_. True) [working []] unencodable_request 10 = None"
proof -
  obtain pk where pk: "decodes ref_ber (\<lambda>s. Inr s) (\<lambda>_. True) pk (ControlPaging 10 ''n'')"
    using paging_control_arrives by blast
  let ?p = "sample_page [pk] [ControlPaging 10 ''n''] (Some ''n'')" and ?r = "with_cookie unencodable_request 10 []"
  obtain fp where fp: "CompileFilter ref_ber (sr_Filter sample_request) = Some (fp, None)"
    using ref.CompileFilter_show [OF sample_request_filter(2)] sample_request_filter(1) by auto
  have "serves_page ref_ber (\<lambda>s. Inr s) (\<lambda>_. True) ?p" using pk by (auto intro!: serves_sample_page)
  moreover have "list_all encodable (sr_Controls sample_request)" "\<not> sr_EnforceSizeLimit sample_request"
    by (simp_all add: sample_request_def NewSearchRequest_def)
  ultimately obtain calls where c: "Conn_Search ref_ber (\<lambda>s. Inr s) (\<lambda>_. True) (pa_session ?p) sample_request
      = Some (calls, Some (page_result ?p), None)"
    using serves_page_search [OF ref.ber_library_axioms fp] by blast
  have "page_result ?p = \<lparr>res_Entries = [sample_entry], res_Referrals = [], res_Controls = [ControlPaging 10 ''n'']\<rparr>"
    by (simp add: page_result_def messages_result_def sample_page_def)
  moreover have "prepare_paging (\<lambda>_. True) unencodable_request 10 = Inr ?r"
    using ControlType_neq by (simp add: prepare_paging_def with_cookie_def NewControlPaging_def)
  moreover have "Conn_Search ref_ber (\<lambda>s. Inr s) (\<lambda>_. True) (working []) ?r = None"
    by (rule Conn_Search_unencodable [OF ref.ber_library_axioms, of _ _ fp]) (simp_all add: fp)
  ultimately show ?thesis
    using c SearchWithPaging_assertion_safe [OF c, of "[working []]" unencodable_request 10]
    by (auto simp: sample_page_def decoded_types_def)
qed

end
