(* ===== verification/Go_Digest.thy ===== *)
theory Go_Digest
  imports Go_Strings "HOL-Library.Word"
begin

text \<open>
  What \<^verbatim>\<open>src/v3/bind.go\<close> uses of Go's \<^verbatim>\<open>crypto/md5\<close>, \<^verbatim>\<open>unicode/utf16\<close>, \<^verbatim>\<open>encoding/binary\<close> and of
  \<^verbatim>\<open>strings.ToLower\<close> and \<^verbatim>\<open>strings.ReplaceAll\<close>.
\<close>

unbundle bit_operations_syntax

section \<open>MD5\<close>

text \<open>RFC 1321: the state of four words, the table of sines, the shifts and the padding.\<close>

type_synonym md5_state = "32 word \<times> 32 word \<times> 32 word \<times> 32 word"

definition md5_table :: "32 word list" where
  "md5_table =
     [0xD76AA478, 0xE8C7B756, 0x242070DB, 0xC1BDCEEE, 0xF57C0FAF, 0x4787C62A, 0xA8304613, 0xFD469501,
      0x698098D8, 0x8B44F7AF, 0xFFFF5BB1, 0x895CD7BE, 0x6B901122, 0xFD987193, 0xA679438E, 0x49B40821,
      0xF61E2562, 0xC040B340, 0x265E5A51, 0xE9B6C7AA, 0xD62F105D, 0x02441453, 0xD8A1E681, 0xE7D3FBC8,
      0x21E1CDE6, 0xC33707D6, 0xF4D50D87, 0x455A14ED, 0xA9E3E905, 0xFCEFA3F8, 0x676F02D9, 0x8D2A4C8A,
      0xFFFA3942, 0x8771F681, 0x6D9D6122, 0xFDE5380C, 0xA4BEEA44, 0x4BDECFA9, 0xF6BB4B60, 0xBEBFBC70,
      0x289B7EC6, 0xEAA127FA, 0xD4EF3085, 0x04881D05, 0xD9D4D039, 0xE6DB99E5, 0x1FA27CF8, 0xC4AC5665,
      0xF4292244, 0x432AFF97, 0xAB9423A7, 0xFC93A039, 0x655B59C3, 0x8F0CCC92, 0xFFEFF47D, 0x85845DD1,
      0x6FA87E4F, 0xFE2CE6E0, 0xA3014314, 0x4E0811A1, 0xF7537E82, 0xBD3AF235, 0x2AD7D2BB, 0xEB86D391]"

definition md5_shift :: "nat \<Rightarrow> nat" where
  "md5_shift i = [[7, 12, 17, 22], [5, 9, 14, 20], [4, 11, 16, 23], [6, 10, 15, 21]] ! (i div 16) ! (i mod 4)"

definition md5_round :: "nat \<Rightarrow> 32 word \<Rightarrow> 32 word \<Rightarrow> 32 word \<Rightarrow> 32 word \<times> nat" where
  "md5_round i b c d =
     (if i < 16 then ((b AND c) OR (NOT b AND d), i)
      else if i < 32 then ((d AND b) OR (NOT d AND c), (5 * i + 1) mod 16)
      else if i < 48 then (b XOR c XOR d, (3 * i + 5) mod 16)
      else (c XOR (b OR NOT d), 7 * i mod 16))"

definition md5_step :: "32 word list \<Rightarrow> md5_state \<Rightarrow> nat \<Rightarrow> md5_state" where
  "md5_step block st i =
     (case st of (a, b, c, d) \<Rightarrow>
        (case md5_round i b c d of (f, g) \<Rightarrow>
           (d, b + word_rotl (md5_shift i) (a + f + md5_table ! i + block ! g), b, c)))"

definition md5_block :: "md5_state \<Rightarrow> 32 word list \<Rightarrow> md5_state" where
  "md5_block st block =
     (case st of (a0, b0, c0, d0) \<Rightarrow>
        (case foldl (md5_step block) st [0..<64] of (a, b, c, d) \<Rightarrow> (a0 + a, b0 + b, c0 + c, d0 + d)))"

fun little_endian :: "nat \<Rightarrow> int \<Rightarrow> bytes" where
  "little_endian 0 n = []"
| "little_endian (Suc k) n = char_of (n mod 256) # little_endian k (n div 256)"

fun of_little_endian :: "bytes \<Rightarrow> int" where
  "of_little_endian [] = 0"
| "of_little_endian (c # cs) = of_char c + 256 * of_little_endian cs"

definition md5_pad :: "bytes \<Rightarrow> bytes" where
  "md5_pad b =
     b @ CHR 0x80 # replicate ((119 - length b mod 64) mod 64) (CHR 0x00)
     @ little_endian 8 (8 * int (length b) mod 2 ^ 64)"

fun chunks :: "nat \<Rightarrow> 'a list \<Rightarrow> 'a list list" where
  "chunks n [] = []"
| "chunks n (x # xs) = (if n = 0 then [] else take n (x # xs) # chunks n (drop n (x # xs)))"

definition md5_words :: "bytes \<Rightarrow> 32 word list" where
  "md5_words b = map (\<lambda>w. word_of_int (of_little_endian w)) (chunks 4 b)"

definition md5_sum :: "bytes \<Rightarrow> bytes" where
  "md5_sum b =
     (case foldl md5_block (0x67452301, 0xEFCDAB89, 0x98BADCFE, 0x10325476) (map md5_words (chunks 64 (md5_pad b)))
      of (a, b, c, d) \<Rightarrow> concat (map (\<lambda>w. little_endian 4 (uint w)) [a, b, c, d]))"

lemma length_little_endian [simp]: "length (little_endian k n) = k"
  by (induction k n rule: little_endian.induct) simp_all

lemma length_md5_sum [simp]: "length (md5_sum b) = 16"
  by (simp add: md5_sum_def split: prod.splits)

text \<open>The padded message is a whole number of blocks, and it ends with the message's length in bits.\<close>

lemma md5_pad_length: "n < 64 \<Longrightarrow> 64 dvd (119 - n) mod 64 + n + (9 :: nat)"
proof (cases "n < 56")
  case True
  then have "(119 - n) mod 64 = (64 + (55 - n)) mod 64" by simp
  also have "\<dots> = 55 - n" by (subst mod_add_self1) simp
  finally show ?thesis using True by simp
qed simp

lemma md5_pad_blocks: "64 dvd length (md5_pad b)"
proof -
  let ?k = "(119 - length b mod 64) mod 64"
  have "?k + length b + 9 = (?k + length b mod 64 + 9) + 64 * (length b div 64)" by simp
  moreover have "64 dvd (?k + length b mod 64 + 9) + 64 * (length b div 64)"
    by (intro dvd_add md5_pad_length) simp_all
  ultimately have "64 dvd ?k + length b + 9" by (simp only:)
  then show ?thesis by (simp add: md5_pad_def ac_simps)
qed

lemma of_little_endian_inverse: "0 \<le> n \<Longrightarrow> n < 256 ^ k \<Longrightarrow> of_little_endian (little_endian k n) = n"
  by (induction k n rule: little_endian.induct) (auto simp: less_mult_imp_div_less)

section \<open>UTF-16\<close>

definition utf16_units :: "rune \<Rightarrow> nat list" where
  "utf16_units r =
     (if r < 0xD800 \<or> 0xE000 \<le> r \<and> r < 0x10000 then [r]
      else if 0x10000 \<le> r \<and> r \<le> 0x10FFFF then
        [0xD800 + (r - 0x10000) div 1024 mod 1024, 0xDC00 + (r - 0x10000) mod 1024]
      else [RuneError])"

definition utf16_Encode :: "rune list \<Rightarrow> nat list" where
  "utf16_Encode rs = concat (map utf16_units rs)"

section \<open>Strings\<close>

text \<open>\<^verbatim>\<open>strings.ToLower\<close>; \<^verbatim>\<open>lower\<close> is \<^verbatim>\<open>unicode.ToLower\<close> on the runes outside ASCII.  A byte that is not part of a
  rune becomes the replacement character.\<close>

definition unicode_ToLower :: "(rune \<Rightarrow> rune) \<Rightarrow> rune \<Rightarrow> rune" where
  "unicode_ToLower lower r =
     (if r < 128 then (if 0x41 \<le> r \<and> r \<le> 0x5A then r + 0x20 else r) else lower r)"

definition ToLower :: "(rune \<Rightarrow> rune) \<Rightarrow> string \<Rightarrow> string" where
  "ToLower lower s = encodeRunes (map (unicode_ToLower lower) (runes s))"

text \<open>\<^verbatim>\<open>strings.ReplaceAll(s, old, new)\<close> for an \<^verbatim>\<open>old\<close> of one byte.\<close>

definition ReplaceAll :: "string \<Rightarrow> char \<Rightarrow> string \<Rightarrow> string" where
  "ReplaceAll s old new = concat (map (\<lambda>c. if c = old then new else [c]) s)"

lemma ToLower_ascii: "ascii_string s \<Longrightarrow> ascii_string (ToLower lower s)"
  unfolding ToLower_def
proof (induction s)
  case (Cons c s)
  then have "unicode_ToLower lower (ord c) < 128" by (simp add: unicode_ToLower_def is_ascii_def)
  with Cons show ?case by (simp add: is_ascii_def)
qed simp

end
