(* ===== verification/LDAP_Bind.thy ===== *)
theory LDAP_Bind
  imports LDAP_Request Go_Digest "HOL-Library.AList"
begin

text \<open>
  Binding, \<^verbatim>\<open>src/v3/bind.go\<close>: simple binds, DIGEST-MD5 with its parameter parser, EXTERNAL, NTLM and GSSAPI.
  An operation meets the connection as in \<^verbatim>\<open>LDAP_Request\<close>; a bind of several exchanges takes one
  session per exchange.  The packages \<^verbatim>\<open>go-ntlmssp\<close> and \<^verbatim>\<open>md4\<close>, the NTLM negotiator and the GSSAPI client are
  arguments; so is what \<^verbatim>\<open>rand.Read\<close> returns.
\<close>

section \<open>Bind requests\<close>

definition bind_packet :: "ber \<Rightarrow> string \<Rightarrow> packet option \<Rightarrow> packet option" where
  "bind_packet B username auth =
     do { auth \<leftarrow> auth;
          appendChildren B (application B ApplicationBindRequest ''Bind Request'')
            [ber_NewInteger B ClassUniversal TypePrimitive TagInteger (VInt 3) ''Version'',
             octets B username ''User Name'', auth] }"

definition sasl_auth :: "ber \<Rightarrow> string \<Rightarrow> packet list \<Rightarrow> packet option" where
  "sasl_auth B mechanism credentials =
     appendChildren B (ber_Encode B ClassContext TypeConstructed 3 (VString []) ''authentication'')
       (octets B mechanism ''SASL Mech'' # credentials)"

text \<open>The later exchanges of a bind build their envelope themselves and do not test for a nil connection.\<close>

definition send_envelope :: "ber \<Rightarrow> session \<Rightarrow> request \<Rightarrow> (go_error option) outcome" where
  "send_envelope B s appendTo =
     do { packet \<leftarrow> ber_AppendChild B
            (ber_Encode B ClassUniversal TypeConstructed TagSequence VNil ''LDAP Request'')
            (ber_NewInteger B ClassUniversal TypePrimitive TagInteger (VInt64 (sint (se_id s))) ''MessageID'');
          (_, packet) \<leftarrow> appendTo packet;
          Some ([SendMessage packet], se_send s packet) }"

definition receive :: "PacketResponse option list \<Rightarrow> go_error + packet" where
  "receive responses =
     (case responses of
        [] \<Rightarrow> Inl response_channel_closed
      | packetResponse # _ \<Rightarrow>
          (case ReadPacket packetResponse of
             (packet, Some err) \<Rightarrow> Inl (ErrTextOf ''read packet: '' err)
           | (packet, None) \<Rightarrow> Inr packet))"

definition empty_password :: go_error where
  "empty_password = NewError ErrorEmptyPassword (ErrText ''ldap: empty password not allowed by the client'')"

section \<open>Simple bind\<close>

record SimpleBindRequest =
  sb_Username :: string
  sb_Password :: string
  sb_Controls :: "control list"
  sb_AllowEmptyPassword :: bool

text \<open>\<^verbatim>\<open>SimpleBindResult\<close>, \<^verbatim>\<open>DigestMD5BindResult\<close> and \<^verbatim>\<open>NTLMBindResult\<close> hold the same.\<close>

record BindResult =
  bres_Controls :: "control list"

definition NewSimpleBindRequest :: "string \<Rightarrow> string \<Rightarrow> control list \<Rightarrow> SimpleBindRequest" where
  "NewSimpleBindRequest username password controls =
     \<lparr>sb_Username = username, sb_Password = password, sb_Controls = controls, sb_AllowEmptyPassword = False\<rparr>"

definition SimpleBindRequest_appendTo :: "ber \<Rightarrow> SimpleBindRequest \<Rightarrow> request" where
  "SimpleBindRequest_appendTo B req =
     append_request B
       (bind_packet B (sb_Username req)
         (Some (ber_NewString B ClassContext TypePrimitive 0 (sb_Password req) ''Password'')))
       (sb_Controls req)"

definition bind_response ::
  "ber \<Rightarrow> uuid_FromBytes \<Rightarrow> (rune \<Rightarrow> bool) \<Rightarrow> packet \<Rightarrow> (BindResult option \<times> go_error option) option" where
  "bind_response B fb ip packet =
     do { r \<leftarrow> response_controls B fb ip packet;
          case r of
            Inl e \<Rightarrow> Some (None, Some (ErrTextOf ''failed to decode child control: '' e))
          | Inr cs \<Rightarrow> do { err \<leftarrow> GetLDAPError packet; Some (Some \<lparr>bres_Controls = cs\<rparr>, err) } }"

definition simple_bind_exchange ::
  "ber \<Rightarrow> uuid_FromBytes \<Rightarrow> (rune \<Rightarrow> bool) \<Rightarrow> session \<Rightarrow> SimpleBindRequest
   \<Rightarrow> (BindResult option \<times> go_error option) outcome" where
  "simple_bind_exchange B fb ip s req =
     do { (calls, r) \<leftarrow> exchange B s (SimpleBindRequest_appendTo B req);
          case r of
            Inl e \<Rightarrow> Some (calls, None, Some e)
          | Inr packet \<Rightarrow> do { x \<leftarrow> bind_response B fb ip packet; Some (calls, x) } }"

definition SimpleBind ::
  "ber \<Rightarrow> uuid_FromBytes \<Rightarrow> (rune \<Rightarrow> bool) \<Rightarrow> session \<Rightarrow> SimpleBindRequest
   \<Rightarrow> (BindResult option \<times> go_error option) outcome" where
  "SimpleBind B fb ip s req =
     (if sb_Password req = [] \<and> \<not> sb_AllowEmptyPassword req then Some ([], None, Some empty_password)
      else simple_bind_exchange B fb ip s req)"

definition only_error :: "('a \<times> go_error option) outcome \<Rightarrow> (go_error option) outcome" where
  "only_error r = do { (calls, _, err) \<leftarrow> r; Some (calls, err) }"

definition Conn_Bind ::
  "ber \<Rightarrow> uuid_FromBytes \<Rightarrow> (rune \<Rightarrow> bool) \<Rightarrow> session \<Rightarrow> string \<Rightarrow> string \<Rightarrow> (go_error option) outcome" where
  "Conn_Bind B fb ip s username password =
     only_error (SimpleBind B fb ip s
       \<lparr>sb_Username = username, sb_Password = password, sb_Controls = [], sb_AllowEmptyPassword = False\<rparr>)"

definition UnauthenticatedBind ::
  "ber \<Rightarrow> uuid_FromBytes \<Rightarrow> (rune \<Rightarrow> bool) \<Rightarrow> session \<Rightarrow> string \<Rightarrow> (go_error option) outcome" where
  "UnauthenticatedBind B fb ip s username =
     only_error (SimpleBind B fb ip s
       \<lparr>sb_Username = username, sb_Password = [], sb_Controls = [], sb_AllowEmptyPassword = True\<rparr>)"

section \<open>The parameters of a digest challenge\<close>

text \<open>
  \<^verbatim>\<open>parseParams\<close> is a machine with three states over the bytes.  \<^verbatim>\<open>string(str[i])\<close> is the UTF-8 text of the
  rune with the number of the byte.  A Go map is an association list that holds each key once.
\<close>

type_synonym params = "(string \<times> string) list"

datatype parse_state = ReadingKey | ReadingValue | InsideQuotes

record parser =
  pp_m :: params
  pp_key :: string
  pp_value :: string
  pp_state :: parse_state
  pp_escaped :: bool

definition syntax_error :: "nat \<Rightarrow> go_error" where
  "syntax_error i = ErrText (''syntax error on '' @ decimal i)"

definition string_of_byte :: "char \<Rightarrow> string" where
  "string_of_byte c = EncodeRune (ord c)"

definition linear_space :: "char \<Rightarrow> bool" where
  "linear_space c \<longleftrightarrow> c = CHR '' '' \<or> c = CHR 0x09"

definition add_value :: "char \<Rightarrow> parser \<Rightarrow> parser" where
  "add_value c st = st\<lparr>pp_value := pp_value st @ string_of_byte c\<rparr>"

definition store :: "parser \<Rightarrow> parser" where
  "store st = st\<lparr>pp_m := AList.update (pp_key st) (pp_value st) (pp_m st)\<rparr>"

definition parse_byte :: "nat \<Rightarrow> char \<Rightarrow> parser \<Rightarrow> go_error + parser" where
  "parse_byte i c st =
     (case pp_state st of
        ReadingKey \<Rightarrow>
          if linear_space c then Inr st
          else if c \<noteq> CHR ''='' then Inr (st\<lparr>pp_key := pp_key st @ string_of_byte c\<rparr>)
          else Inr (st\<lparr>pp_state := ReadingValue\<rparr>)
      | ReadingValue \<Rightarrow>
          if linear_space c then Inr st
          else if c = CHR '','' then Inr ((store st)\<lparr>pp_state := ReadingKey, pp_key := [], pp_value := []\<rparr>)
          else if c = DQUOTE then
            (if pp_value st \<noteq> [] then Inl (syntax_error i) else Inr (st\<lparr>pp_state := InsideQuotes\<rparr>))
          else Inr (add_value c st)
      | InsideQuotes \<Rightarrow>
          if pp_escaped st then Inr ((add_value c st)\<lparr>pp_escaped := False\<rparr>)
          else if c = BSLASH then Inr (st\<lparr>pp_escaped := True\<rparr>)
          else if c = DQUOTE then Inr (st\<lparr>pp_state := ReadingValue\<rparr>)
          else Inr (add_value c st))"

fun parse_bytes :: "nat \<Rightarrow> string \<Rightarrow> parser \<Rightarrow> go_error + params" where
  "parse_bytes i [] st =
     (if pp_state st = ReadingValue then Inr (pp_m (store st)) else Inl (syntax_error i))"
| "parse_bytes i (c # cs) st =
     (case parse_byte i c st of Inl e \<Rightarrow> Inl e | Inr st \<Rightarrow> parse_bytes (Suc i) cs st)"

definition parseParams :: "string \<Rightarrow> go_error + params" where
  "parseParams str =
     parse_bytes 0 str \<lparr>pp_m = [], pp_key = [], pp_value = [], pp_state = ReadingKey, pp_escaped = False\<rparr>"

text \<open>\<^verbatim>\<open>params["..."]\<close>: a key that is missing gives the empty string.\<close>

definition param :: "params \<Rightarrow> string \<Rightarrow> string" where
  "param m key = (case map_of m key of None \<Rightarrow> [] | Some v \<Rightarrow> v)"

section \<open>DIGEST-MD5\<close>

definition md5Hash :: "bytes \<Rightarrow> bytes" where
  "md5Hash b = md5_sum b"

definition quotedStringEscape :: "string \<Rightarrow> string" where
  "quotedStringEscape s = ReplaceAll (ReplaceAll s BSLASH [BSLASH, BSLASH]) DQUOTE [BSLASH, DQUOTE]"

text \<open>The hash chain of RFC 2831; \<^verbatim>\<open>rb\<close> is what \<^verbatim>\<open>randomBytes(16)\<close> returns.\<close>

definition digest_ha1 :: "params \<Rightarrow> string \<Rightarrow> string \<Rightarrow> string \<Rightarrow> string" where
  "digest_ha1 params cnonce username password =
     (let y = md5Hash (username @ '':'' @ param params ''realm'' @ '':'' @ password);
          a1 = y @ '':'' @ param params ''nonce'' @ '':'' @ cnonce
            @ (if param params ''authzid'' \<noteq> [] then '':'' @ param params ''authzid'' else [])
      in hex_encode (md5Hash a1))"

definition digest_response :: "params \<Rightarrow> string \<Rightarrow> string \<Rightarrow> string \<Rightarrow> string \<Rightarrow> string" where
  "digest_response params cnonce uri username password =
     (let ha1 = digest_ha1 params cnonce username password;
          ha2 = hex_encode (md5Hash (''AUTHENTICATE'' @ '':'' @ uri));
          kd = ha1 @ '':'' @ param params ''nonce'' @ '':'' @ ''00000001'' @ '':'' @ cnonce @ '':'' @ ''auth'' @ '':'' @ ha2
      in hex_encode (md5Hash kd))"

definition computeResponse ::
  "go_error + bytes \<Rightarrow> params \<Rightarrow> string \<Rightarrow> string \<Rightarrow> string \<Rightarrow> go_error + string" where
  "computeResponse rb params uri username password =
     (case rb of
        Inl err \<Rightarrow> Inl err
      | Inr rb \<Rightarrow>
          (let cnonce = hex_encode rb; resp = digest_response params cnonce uri username password in
           Inr (''username='' @ [DQUOTE] @ quotedStringEscape username @ [DQUOTE]
             @ '',realm='' @ [DQUOTE] @ quotedStringEscape (param params ''realm'') @ [DQUOTE]
             @ '',nonce='' @ [DQUOTE] @ quotedStringEscape (param params ''nonce'') @ [DQUOTE]
             @ '',cnonce='' @ [DQUOTE] @ cnonce @ [DQUOTE]
             @ '',nc=00000001,qop=auth,digest-uri='' @ [DQUOTE] @ quotedStringEscape uri @ [DQUOTE]
             @ '',response='' @ resp)))"

record DigestMD5BindRequest =
  dg_Host :: string
  dg_Username :: string
  dg_Password :: string
  dg_Controls :: "control list"

definition DigestMD5BindRequest_appendTo :: "ber \<Rightarrow> DigestMD5BindRequest \<Rightarrow> request" where
  "DigestMD5BindRequest_appendTo B req =
     append_request B (bind_packet B [] (sasl_auth B ''DIGEST-MD5'' [])) (dg_Controls req)"

text \<open>
  The challenge in the first response: \<^const>\<open>Inl\<close> returns with that error, \<^verbatim>\<open>Inr None\<close> goes on without
  parameters.
\<close>

definition digest_challenge :: "packet \<Rightarrow> (go_error option + bytes option) option" where
  "digest_challenge packet =
     (if length (Children packet) = 2 then
        do { response \<leftarrow> deref (Children packet ! 1);
             if length (Children response) = 4 then
               do { child \<leftarrow> deref (Children response ! 0);
                    if Tag child \<noteq> TagEnumerated then map_option Inl (GetLDAPError packet)
                    else
                      do { code \<leftarrow> as_int64 (Value child);
                           if code \<noteq> 14 then map_option Inl (GetLDAPError packet)
                           else
                             do { child \<leftarrow> deref (Children response ! 3);
                                  if Tag child \<noteq> TagObjectDescriptor \<or> Data child = None
                                  then map_option Inl (GetLDAPError packet)
                                  else Some (Inr (Data child)) } } }
             else Some (Inr None) }
      else Some (Inr None))"

text \<open>Whether the second response asks to go on; the tag is cut to the eight bits of \<^verbatim>\<open>ber.Type\<close>.\<close>

definition bind_in_progress :: "packet \<Rightarrow> bool option" where
  "bind_in_progress packet =
     do { packet \<leftarrow> deref packet;
          if length (Children packet) = 2 \<and> Children packet ! 1 \<noteq> NilPacket then
            (let response = Children packet ! 1 in
             if ClassType response = ClassApplication \<and> TagType response = TypeConstructed
                \<and> 3 \<le> length (Children response) then
               do { k \<leftarrow> deref (Children response ! 0);
                    if Tag k mod 256 = TagInteger \<or> Tag k mod 256 = TagEnumerated then
                      do { code \<leftarrow> as_int64 (Value k); Some ((word_of_int code :: 16 word) = 14) }
                    else Some False }
             else Some False)
          else Some False }"

text \<open>
  The second exchange, and the third, which sends the first request again.  The deferred calls of
  \<^verbatim>\<open>finishMessage\<close> run when the bind returns, the last one first.
\<close>

definition digest_third ::
  "ber \<Rightarrow> session \<Rightarrow> DigestMD5BindRequest \<Rightarrow> packet \<Rightarrow> (go_error + packet) outcome" where
  "digest_third B s req packet =
     do { again \<leftarrow> bind_in_progress packet;
          if again then
            do { (calls, err) \<leftarrow> doRequest B s (DigestMD5BindRequest_appendTo B req);
                 case err of
                   Some e \<Rightarrow> Some (calls, Inl e)
                 | None \<Rightarrow> Some (calls @ [ReceiveResponse, FinishMessage], receive (se_responses s)) }
          else Some ([], Inr packet) }"

definition digest_second ::
  "ber \<Rightarrow> session \<Rightarrow> session \<Rightarrow> DigestMD5BindRequest \<Rightarrow> string \<Rightarrow> (go_error + packet) outcome" where
  "digest_second B s s' req resp =
     do { (calls, err) \<leftarrow> send_envelope B s
            (append_request B (bind_packet B [] (sasl_auth B ''DIGEST-MD5'' [octets B resp ''Credentials''])) []);
          case err of
            Some e \<Rightarrow> Some (calls, Inl (ErrTextOf ''send message: '' e))
          | None \<Rightarrow>
              (case receive (se_responses s) of
                 Inl e \<Rightarrow> Some (calls @ [ReceiveResponse, FinishMessage], Inl e)
               | Inr packet \<Rightarrow>
                   do { (more, r) \<leftarrow> digest_third B s' req packet;
                        Some (calls @ [ReceiveResponse] @ more @ [FinishMessage], r) }) }"

definition bind_result :: "go_error + packet \<Rightarrow> (BindResult option \<times> go_error option) option" where
  "bind_result r =
     (case r of
        Inl e \<Rightarrow> Some (None, Some e)
      | Inr packet \<Rightarrow> do { err \<leftarrow> GetLDAPError packet; Some (Some \<lparr>bres_Controls = []\<rparr>, err) })"

definition digest_answer ::
  "ber \<Rightarrow> (rune \<Rightarrow> rune) \<Rightarrow> go_error + bytes \<Rightarrow> session \<Rightarrow> session \<Rightarrow> DigestMD5BindRequest \<Rightarrow> packet
   \<Rightarrow> (BindResult option \<times> go_error option) outcome" where
  "digest_answer B lower rb s s' req packet =
     do { challenge \<leftarrow> digest_challenge packet;
          case challenge of
            Inl err \<Rightarrow> Some ([], Some \<lparr>bres_Controls = []\<rparr>, err)
          | Inr None \<Rightarrow> do { x \<leftarrow> bind_result (Inr packet); Some ([], x) }
          | Inr (Some data) \<Rightarrow>
              (case parseParams data of
                 Inl e \<Rightarrow> Some ([], Some \<lparr>bres_Controls = []\<rparr>, Some (ErrTextOf ''parsing digest-challenge: '' e))
               | Inr params \<Rightarrow>
                   if params = [] then do { x \<leftarrow> bind_result (Inr packet); Some ([], x) }
                   else
                     (case computeResponse rb params (''ldap/'' @ ToLower lower (dg_Host req))
                             (dg_Username req) (dg_Password req) of
                        Inl e \<Rightarrow> Some ([], None, Some (ErrTextOf ''compute digest-md5 response: '' e))
                      | Inr resp \<Rightarrow>
                          do { (calls, r) \<leftarrow> digest_second B s s' req resp;
                               x \<leftarrow> bind_result r;
                               Some (calls, x) })) }"

definition DigestMD5Bind ::
  "ber \<Rightarrow> (rune \<Rightarrow> rune) \<Rightarrow> go_error + bytes \<Rightarrow> session \<Rightarrow> session \<Rightarrow> session \<Rightarrow> DigestMD5BindRequest
   \<Rightarrow> (BindResult option \<times> go_error option) outcome" where
  "DigestMD5Bind B lower rb s1 s2 s3 req =
     (if dg_Password req = [] then Some ([], None, Some empty_password)
      else
        do { (calls, err) \<leftarrow> doRequest B s1 (DigestMD5BindRequest_appendTo B req);
             case err of
               Some e \<Rightarrow> Some (calls, None, Some e)
             | None \<Rightarrow>
                 (case readPacket (se_responses s1) of
                    Inl e \<Rightarrow> Some (calls @ [ReceiveResponse, FinishMessage], None, Some e)
                  | Inr packet \<Rightarrow>
                      do { (more, x) \<leftarrow> digest_answer B lower rb s2 s3 req packet;
                           Some (calls @ [ReceiveResponse] @ more @ [FinishMessage], x) }) })"

definition MD5Bind ::
  "ber \<Rightarrow> (rune \<Rightarrow> rune) \<Rightarrow> go_error + bytes \<Rightarrow> session \<Rightarrow> session \<Rightarrow> session \<Rightarrow> string \<Rightarrow> string \<Rightarrow> string
   \<Rightarrow> (go_error option) outcome" where
  "MD5Bind B lower rb s1 s2 s3 host username password =
     only_error (DigestMD5Bind B lower rb s1 s2 s3
       \<lparr>dg_Host = host, dg_Username = username, dg_Password = password, dg_Controls = []\<rparr>)"

section \<open>EXTERNAL\<close>

definition externalBindRequest :: "ber \<Rightarrow> request" where
  "externalBindRequest B =
     append_request B (bind_packet B [] (sasl_auth B ''EXTERNAL'' [octets B [] ''SASL Cred''])) []"

definition ExternalBind :: "ber \<Rightarrow> session \<Rightarrow> (go_error option) outcome" where
  "ExternalBind B s =
     do { (calls, r) \<leftarrow> exchange B s (externalBindRequest B);
          case r of
            Inl e \<Rightarrow> Some (calls, Some e)
          | Inr packet \<Rightarrow> do { e \<leftarrow> GetLDAPError packet; Some (calls, e) } }"

section \<open>NTLM\<close>

text \<open>The packages \<^verbatim>\<open>go-ntlmssp\<close> and \<^verbatim>\<open>md4\<close>, and the interface \<^verbatim>\<open>NTLMNegotiator\<close>.\<close>

record ntlm_library =
  ntlm_NewNegotiateMessage :: "string \<Rightarrow> string \<Rightarrow> go_error + bytes"
  ntlm_ProcessChallengeWithHash :: "bytes \<Rightarrow> string \<Rightarrow> string \<Rightarrow> go_error + bytes"
  ntlm_ProcessChallenge :: "bytes \<Rightarrow> string \<Rightarrow> string \<Rightarrow> bool \<Rightarrow> go_error + bytes"
  ntlm_GetDomain :: "string \<Rightarrow> string \<times> string \<times> bool"
  md4_Sum :: "bytes \<Rightarrow> bytes"

record NTLMNegotiator =
  ng_Negotiate :: "string \<Rightarrow> string \<Rightarrow> go_error + bytes"
  ng_ChallengeResponse :: "bytes \<Rightarrow> string \<Rightarrow> string \<Rightarrow> go_error + bytes"

record NTLMBindRequest =
  nt_Domain :: string
  nt_Username :: string
  nt_Password :: string
  nt_AllowEmptyPassword :: bool
  nt_Hash :: string
  nt_Controls :: "control list"
  nt_Negotiator :: "NTLMNegotiator option"

definition negotiate_message :: "ntlm_library \<Rightarrow> NTLMBindRequest \<Rightarrow> go_error + bytes" where
  "negotiate_message N req =
     (case nt_Negotiator req of
        None \<Rightarrow> map_sum (ErrTextOf ''create NTLM negotiate message: '') id
          (ntlm_NewNegotiateMessage N (nt_Domain req) [])
      | Some ng \<Rightarrow> map_sum (ErrTextOf ''create NTLM negotiate message with custom negotiator: '') id
          (ng_Negotiate ng (nt_Domain req) []))"

definition ntlm_bind_packet :: "ber \<Rightarrow> nat \<Rightarrow> bytes \<Rightarrow> packet option" where
  "ntlm_bind_packet B tag message =
     bind_packet B [] (Some (ber_Encode B ClassContext TypePrimitive tag (VBytes message) ''authentication''))"

definition NTLMBindRequest_appendTo :: "ber \<Rightarrow> ntlm_library \<Rightarrow> NTLMBindRequest \<Rightarrow> request" where
  "NTLMBindRequest_appendTo B N req envelope =
     (case negotiate_message N req of
        Inl e \<Rightarrow> Some (Some e, envelope)
      | Inr negMessage \<Rightarrow>
          append_request B (ntlm_bind_packet B TagEnumerated negMessage) (nt_Controls req) envelope)"

definition ntHash :: "ntlm_library \<Rightarrow> string \<Rightarrow> string" where
  "ntHash N pass =
     hex_encode (md4_Sum N (concat (map (\<lambda>u. little_endian 2 (int u)) (utf16_Encode (runes pass)))))"

text \<open>The challenge: \<^const>\<open>Inl\<close> returns with that error, \<^verbatim>\<open>Inr None\<close> is a nil slice.\<close>

definition ntlm_challenge :: "packet \<Rightarrow> (go_error option + bytes option) option" where
  "ntlm_challenge packet =
     (if length (Children packet) = 2 then
        do { response \<leftarrow> deref (Children packet ! 1);
             if length (Children response) = 3 then
               do { child \<leftarrow> deref (Children response ! 1);
                    if length (ByteValue child) < 7 \<or> take 7 (ByteValue child) \<noteq> ''NTLMSSP''
                    then map_option Inl (GetLDAPError packet)
                    else Some (Inr (Some (ByteValue child))) }
             else Some (Inr None) }
      else Some (Inr None))"

definition process_challenge :: "ntlm_library \<Rightarrow> NTLMBindRequest \<Rightarrow> bytes \<Rightarrow> go_error + bytes" where
  "process_challenge N req challenge =
     (if nt_Hash req = [] \<and> nt_Password req = [] \<and> \<not> nt_AllowEmptyPassword req then
        Inl (ErrText ''need a password or hash to generate reply'')
      else
        (case nt_Negotiator req of
           None \<Rightarrow>
             if nt_Hash req \<noteq> [] then ntlm_ProcessChallengeWithHash N challenge (nt_Username req) (nt_Hash req)
             else
               (case ntlm_GetDomain N (nt_Username req) of (_, _, domainNeeded) \<Rightarrow>
                  ntlm_ProcessChallenge N challenge (nt_Username req) (nt_Password req) domainNeeded)
         | Some ng \<Rightarrow>
             ng_ChallengeResponse ng challenge (nt_Username req)
               (if nt_Hash req = [] then ntHash N (nt_Password req) else nt_Hash req)))"

definition ntlm_second :: "ber \<Rightarrow> session \<Rightarrow> bytes \<Rightarrow> (go_error + packet) outcome" where
  "ntlm_second B s responseMessage =
     do { (calls, err) \<leftarrow> send_envelope B s
            (append_request B (ntlm_bind_packet B TagEmbeddedPDV responseMessage) []);
          case err of
            Some e \<Rightarrow> Some (calls, Inl (ErrTextOf ''send message: '' e))
          | None \<Rightarrow> Some (calls @ [ReceiveResponse, FinishMessage], receive (se_responses s)) }"

definition ntlm_answer ::
  "ber \<Rightarrow> ntlm_library \<Rightarrow> session \<Rightarrow> NTLMBindRequest \<Rightarrow> packet \<Rightarrow> (BindResult option \<times> go_error option) outcome" where
  "ntlm_answer B N s req packet =
     do { challenge \<leftarrow> ntlm_challenge packet;
          case challenge of
            Inl err \<Rightarrow> Some ([], Some \<lparr>bres_Controls = []\<rparr>, err)
          | Inr None \<Rightarrow> do { x \<leftarrow> bind_result (Inr packet); Some ([], x) }
          | Inr (Some challenge) \<Rightarrow>
              (case process_challenge N req challenge of
                 Inl e \<Rightarrow> Some ([], Some \<lparr>bres_Controls = []\<rparr>, Some (ErrTextOf ''process NTLM challenge: '' e))
               | Inr responseMessage \<Rightarrow>
                   do { (calls, r) \<leftarrow> ntlm_second B s responseMessage;
                        x \<leftarrow> bind_result r;
                        Some (calls, x) }) }"

definition NTLMChallengeBind ::
  "ber \<Rightarrow> ntlm_library \<Rightarrow> session \<Rightarrow> session \<Rightarrow> NTLMBindRequest \<Rightarrow> (BindResult option \<times> go_error option) outcome" where
  "NTLMChallengeBind B N s1 s2 req =
     (if \<not> nt_AllowEmptyPassword req \<and> nt_Password req = [] \<and> nt_Hash req = []
      then Some ([], None, Some empty_password)
      else
        do { (calls, err) \<leftarrow> doRequest B s1 (NTLMBindRequest_appendTo B N req);
             case err of
               Some e \<Rightarrow> Some (calls, None, Some e)
             | None \<Rightarrow>
                 (case readPacket (se_responses s1) of
                    Inl e \<Rightarrow> Some (calls @ [ReceiveResponse, FinishMessage], None, Some e)
                  | Inr packet \<Rightarrow>
                      do { (more, x) \<leftarrow> ntlm_answer B N s2 req packet;
                           Some (calls @ [ReceiveResponse] @ more @ [FinishMessage], x) }) })"

definition ntlm_request :: "string \<Rightarrow> string \<Rightarrow> string \<Rightarrow> bool \<Rightarrow> string \<Rightarrow> NTLMBindRequest" where
  "ntlm_request domain username password allow hash =
     \<lparr>nt_Domain = domain, nt_Username = username, nt_Password = password, nt_AllowEmptyPassword = allow,
      nt_Hash = hash, nt_Controls = [], nt_Negotiator = None\<rparr>"

definition NTLMBind ::
  "ber \<Rightarrow> ntlm_library \<Rightarrow> session \<Rightarrow> session \<Rightarrow> string \<Rightarrow> string \<Rightarrow> string \<Rightarrow> (go_error option) outcome" where
  "NTLMBind B N s1 s2 domain username password =
     only_error (NTLMChallengeBind B N s1 s2 (ntlm_request domain username password False []))"

definition NTLMUnauthenticatedBind ::
  "ber \<Rightarrow> ntlm_library \<Rightarrow> session \<Rightarrow> session \<Rightarrow> string \<Rightarrow> string \<Rightarrow> (go_error option) outcome" where
  "NTLMUnauthenticatedBind B N s1 s2 domain username =
     only_error (NTLMChallengeBind B N s1 s2 (ntlm_request domain username [] True []))"

definition NTLMBindWithHash ::
  "ber \<Rightarrow> ntlm_library \<Rightarrow> session \<Rightarrow> session \<Rightarrow> string \<Rightarrow> string \<Rightarrow> string \<Rightarrow> (go_error option) outcome" where
  "NTLMBindWithHash B N s1 s2 domain username hash =
     only_error (NTLMChallengeBind B N s1 s2 (ntlm_request domain username [] False hash))"

section \<open>GSSAPI\<close>

text \<open>
  The interface \<^verbatim>\<open>GSSAPIClient\<close> as operations on a state, which may panic.  The token of \<^verbatim>\<open>InitSecContext\<close> is
  nil, \<^const>\<open>None\<close>, on the first call.
\<close>

record 'c GSSAPIClient =
  gss_InitSecContextWithOptions ::
    "'c \<Rightarrow> string \<Rightarrow> bytes option \<Rightarrow> int list \<Rightarrow> ('c \<times> bytes \<times> bool \<times> go_error option) option"
  gss_NegotiateSaslAuth :: "'c \<Rightarrow> bytes option \<Rightarrow> string \<Rightarrow> ('c \<times> bytes \<times> go_error option) option"
  gss_DeleteSecContext :: "'c \<Rightarrow> 'c"

record GSSAPIBindRequest =
  gb_ServicePrincipalName :: string
  gb_AuthZID :: string
  gb_Controls :: "control list"

text \<open>
  What \<^verbatim>\<open>saslBindTokenExchange\<close> makes of a response.  It goes by the description the reader has left in
  the packet.
\<close>

definition sasl_token :: "packet \<Rightarrow> (go_error + bytes option) option" where
  "sasl_token packet =
     (let failed = map_option (\<lambda>err. case err of None \<Rightarrow> Inr None | Some e \<Rightarrow> Inl e) (GetLDAPError packet) in
      if length (Children packet) \<noteq> 2 then Some (Inl (ErrText ''bad bind response''))
      else
        do { protocolOp \<leftarrow> deref (Children packet ! 1);
             if Description protocolOp \<noteq> ''Bind Response'' then failed
             else
               do { resultCode \<leftarrow> nth_child protocolOp 0;
                    resultCode \<leftarrow> deref resultCode;
                    if Tag resultCode \<noteq> TagEnumerated then failed
                    else
                      do { code \<leftarrow> as_int64 (Value resultCode);
                           if code = 14 then
                             if length (Children protocolOp) < 3 then failed
                             else
                               do { referral \<leftarrow> nth_child protocolOp 3;
                                    referral \<leftarrow> deref referral;
                                    if Description referral \<noteq> ''Referral'' \<or> ClassType referral \<noteq> ClassContext
                                       \<or> Tag referral \<noteq> TagObjectDescriptor then failed
                                    else do { d \<leftarrow> Data referral; Some (Inr (Some d)) } }
                           else if code = 0 then Some (Inr None)
                           else failed } } })"

definition sasl_request :: "ber \<Rightarrow> control list \<Rightarrow> bytes \<Rightarrow> request" where
  "sasl_request B reqControls reqToken =
     append_request B
       (bind_packet B [] (sasl_auth B ''GSSAPI'' (if reqToken \<noteq> [] then [octets B reqToken ''Credentials''] else [])))
       reqControls"

definition saslBindTokenExchange ::
  "ber \<Rightarrow> session \<Rightarrow> control list \<Rightarrow> bytes \<Rightarrow> (go_error + bytes option) outcome" where
  "saslBindTokenExchange B s reqControls reqToken =
     do { (calls, err) \<leftarrow> send_envelope B s (sasl_request B reqControls reqToken);
          case err of
            Some e \<Rightarrow> Some (calls, Inl e)
          | None \<Rightarrow>
              (case readPacket (se_responses s) of
                 Inl e \<Rightarrow> Some (calls @ [ReceiveResponse, FinishMessage], Inl e)
               | Inr packet \<Rightarrow>
                   do { x \<leftarrow> sasl_token packet; Some (calls @ [ReceiveResponse, FinishMessage], x) }) }"

text \<open>
  The loop, one session per exchange, with the client's state.  When the list of sessions ends before the
  loop does, the result is \<^const>\<open>None\<close>: the client is still binding.
\<close>

definition gss_step ::
  "'c GSSAPIClient \<Rightarrow> GSSAPIBindRequest \<Rightarrow> int list \<Rightarrow> bool \<Rightarrow> bytes option \<Rightarrow> 'c
   \<Rightarrow> ('c \<times> bytes \<times> bool \<times> go_error option) option" where
  "gss_step C req APOptions needInit recvToken c =
     (if needInit then gss_InitSecContextWithOptions C c (gb_ServicePrincipalName req) recvToken APOptions
      else
        do { (c, reqToken, err) \<leftarrow> gss_NegotiateSaslAuth C c recvToken (gb_AuthZID req);
             Some (c, reqToken, False, err) })"

fun gss_loop ::
  "ber \<Rightarrow> 'c GSSAPIClient \<Rightarrow> GSSAPIBindRequest \<Rightarrow> int list \<Rightarrow> session list \<Rightarrow> bool \<Rightarrow> bytes option \<Rightarrow> 'c
   \<Rightarrow> (go_error option option \<times> 'c) outcome" where
  "gss_loop B C req APOptions [] needInit recvToken c = Some ([], None, c)"
| "gss_loop B C req APOptions (s # ss) needInit recvToken c =
     do { (c, reqToken, needInit, err) \<leftarrow> gss_step C req APOptions needInit recvToken c;
          case err of
            Some e \<Rightarrow> Some ([], Some (Some e), c)
          | None \<Rightarrow>
              do { (calls, r) \<leftarrow> saslBindTokenExchange B s (gb_Controls req) reqToken;
                   case r of
                     Inl e \<Rightarrow> Some (calls, Some (Some e), c)
                   | Inr recvToken \<Rightarrow>
                       if \<not> needInit \<and> (recvToken = None \<or> recvToken = Some []) then Some (calls, Some None, c)
                       else
                         do { (more, x) \<leftarrow> gss_loop B C req APOptions ss needInit recvToken c;
                              Some (calls @ more, x) } } }"

definition GSSAPIBindRequestWithAPOptions ::
  "ber \<Rightarrow> 'c GSSAPIClient \<Rightarrow> session list \<Rightarrow> 'c \<Rightarrow> GSSAPIBindRequest \<Rightarrow> int list
   \<Rightarrow> (go_error option option \<times> 'c) outcome" where
  "GSSAPIBindRequestWithAPOptions B C ss c req APOptions =
     do { (calls, r, c) \<leftarrow> gss_loop B C req APOptions ss True None c;
          Some (calls, r, if r = None then c else gss_DeleteSecContext C c) }"

definition Conn_GSSAPIBindRequest ::
  "ber \<Rightarrow> 'c GSSAPIClient \<Rightarrow> session list \<Rightarrow> 'c \<Rightarrow> GSSAPIBindRequest \<Rightarrow> (go_error option option \<times> 'c) outcome" where
  "Conn_GSSAPIBindRequest B C ss c req = GSSAPIBindRequestWithAPOptions B C ss c req []"

definition GSSAPIBind ::
  "ber \<Rightarrow> 'c GSSAPIClient \<Rightarrow> session list \<Rightarrow> 'c \<Rightarrow> string \<Rightarrow> string \<Rightarrow> (go_error option option \<times> 'c) outcome" where
  "GSSAPIBind B C ss c servicePrincipal authzid =
     Conn_GSSAPIBindRequest B C ss c
       \<lparr>gb_ServicePrincipalName = servicePrincipal, gb_AuthZID = authzid, gb_Controls = []\<rparr>"

end
