(* ===== verification/GSSAPI_Client.thy ===== *)
theory GSSAPI_Client
  imports LDAP_Bind
begin

text \<open>
  The two GSSAPI clients, \<^verbatim>\<open>src/v3/gssapi/client.go\<close> over the package \<^verbatim>\<open>gokrb5\<close> and \<^verbatim>\<open>src/v3/gssapi/sspi.go\<close> over
  the package \<^verbatim>\<open>sspi\<close>.  The packages are records of operations; a client is an instance of the interface
  \<^verbatim>\<open>GSSAPIClient\<close> of \<^verbatim>\<open>LDAP_Bind\<close>.
\<close>

unbundle bit_operations_syntax

section \<open>Wrap tokens\<close>

text \<open>The structure \<^verbatim>\<open>gssapi.WrapToken\<close> and big-endian numbers.\<close>

record WrapToken =
  wt_Flags :: "8 word"
  wt_EC :: "16 word"
  wt_RRC :: "16 word"
  wt_SndSeqNum :: "64 word"
  wt_CheckSum :: bytes
  wt_Payload :: bytes

definition big_endian :: "nat \<Rightarrow> int \<Rightarrow> bytes" where
  "big_endian k n = rev (little_endian k n)"

definition of_big_endian :: "bytes \<Rightarrow> int" where
  "of_big_endian b = of_little_endian (rev b)"

text \<open>\<^verbatim>\<open>b[i:j]\<close> and \<^verbatim>\<open>b[i]\<close>; out of range they panic.\<close>

definition slice :: "bytes \<Rightarrow> int \<Rightarrow> int \<Rightarrow> bytes option" where
  "slice b i j =
     (if 0 \<le> i \<and> i \<le> j \<and> j \<le> int (length b) then Some (take (nat (j - i)) (drop (nat i) b)) else None)"

definition byte_at :: "bytes \<Rightarrow> nat \<Rightarrow> (8 word) option" where
  "byte_at b i = (if i < length b then Some (of_char (b ! i)) else None)"

abbreviation (input) HdrLen :: int where "HdrLen \<equiv> 16"
abbreviation (input) FillerByte :: "8 word" where "FillerByte \<equiv> 0xFF"

definition getGssWrapTokenId :: bytes where
  "getGssWrapTokenId = [CHR 0x05, CHR 0x04]"

text \<open>The header's flags, checked; \<^verbatim>\<open>checksumL\<close> is a 16-bit number, the offset an \<^verbatim>\<open>int\<close>.\<close>

definition wrap_header :: "bytes \<Rightarrow> bool \<Rightarrow> (go_error + 8 word) option" where
  "wrap_header b expectFromAcceptor =
     (if length b < 16 then Some (Inl (ErrText ''bytes shorter than header length''))
      else
        do { tokenId \<leftarrow> slice b 0 2;
             if getGssWrapTokenId \<noteq> tokenId then
               Some (Inl (ErrText (''wrong Token ID. Expected '' @ hex_encode getGssWrapTokenId
                                   @ '', was '' @ hex_encode tokenId)))
             else
               do { flags \<leftarrow> byte_at b 2;
                    filler \<leftarrow> byte_at b 3;
                    let isFromAcceptor = (flags AND 0x01 = 1) in
                    if isFromAcceptor \<and> \<not> expectFromAcceptor then
                      Some (Inl (ErrText ''unexpected acceptor flag is set: not expecting a token from the acceptor''))
                    else if \<not> isFromAcceptor \<and> expectFromAcceptor then
                      Some (Inl (ErrText ''expected acceptor flag is not set: expecting a token from the acceptor, not the initiator''))
                    else if filler \<noteq> FillerByte then
                      do { f \<leftarrow> slice b 3 4;
                           Some (Inl (ErrText (''unexpected filler byte: expecting 0xFF, was '' @ hex_encode f @ '' ''))) }
                    else Some (Inr flags) } })"

definition UnmarshalWrapToken :: "WrapToken \<Rightarrow> bytes \<Rightarrow> bool \<Rightarrow> (WrapToken \<times> go_error option) option" where
  "UnmarshalWrapToken wt b expectFromAcceptor =
     do { r \<leftarrow> wrap_header b expectFromAcceptor;
          case r of
            Inl e \<Rightarrow> Some (wt, Some e)
          | Inr flags \<Rightarrow>
              do { ec \<leftarrow> slice b 4 6;
                   let checksumL = (word_of_int (of_big_endian ec) :: 16 word) in
                   if int (length b) - HdrLen < uint checksumL then
                     Some (wt, Some (ErrText (''inconsistent checksum length: '' @ decimal (length b)
                       @ '' bytes to parse, checksum length is '' @ decimal (unat checksumL))))
                   else
                     do { let payloadStart = HdrLen + uint checksumL;
                          rrc \<leftarrow> slice b 6 8;
                          snd \<leftarrow> slice b 8 16;
                          checkSum \<leftarrow> slice b 16 payloadStart;
                          payload \<leftarrow> slice b payloadStart (int (length b));
                          Some (wt\<lparr>wt_Flags := flags, wt_EC := checksumL, wt_RRC := word_of_int (of_big_endian rrc),
                                   wt_SndSeqNum := word_of_int (of_big_endian snd), wt_CheckSum := checkSum,
                                   wt_Payload := payload\<rparr>, None) } } }"

definition empty_WrapToken :: WrapToken where
  "empty_WrapToken = \<lparr>wt_Flags = 0, wt_EC = 0, wt_RRC = 0, wt_SndSeqNum = 0, wt_CheckSum = [], wt_Payload = []\<rparr>"

section \<open>The Kerberos client\<close>

text \<open>
  What the client calls of \<^verbatim>\<open>gokrb5\<close>: its own client, whose state is \<^verbatim>\<open>'l\<close>, tickets, keys, tokens and their
  encrypted parts.
\<close>

record ('l, 'tkt, 'k, 't, 'e) krb_library =
  krb_GetServiceTicket :: "'l \<Rightarrow> string \<Rightarrow> 'l \<times> (go_error + 'tkt \<times> 'k)"
  krb_NewKRB5TokenAPREQ :: "'l \<Rightarrow> 'tkt \<Rightarrow> 'k \<Rightarrow> int list \<Rightarrow> int list \<Rightarrow> 'l \<times> (go_error + 't)"
  krb_Marshal :: "'t \<Rightarrow> go_error + bytes"
  krb_Unmarshal :: "bytes \<Rightarrow> go_error + 't"
  krb_IsAPRep :: "'t \<Rightarrow> bool"
  krb_IsKRBError :: "'t \<Rightarrow> bool"
  krb_KRBError :: "'t \<Rightarrow> go_error"
  krb_EncPart :: "'t \<Rightarrow> 'e"
  krb_DecryptEncPart :: "'e \<Rightarrow> 'k \<Rightarrow> int \<Rightarrow> go_error + bytes"
  krb_UnmarshalEncAPRepPart :: "bytes \<Rightarrow> go_error + 'k"
  krb_no_key :: 'k
  krb_Verify :: "WrapToken \<Rightarrow> 'k \<Rightarrow> int \<Rightarrow> go_error option"
  krb_HMACBitLength :: "'k \<Rightarrow> go_error + int"
  krb_SetCheckSum :: "WrapToken \<Rightarrow> 'k \<Rightarrow> int \<Rightarrow> go_error + WrapToken"
  krb_MarshalWrapToken :: "WrapToken \<Rightarrow> go_error + bytes"
  krb_Destroy :: "'l \<Rightarrow> 'l"

record ('l, 'k) krb_Client =
  kc_Client :: 'l
  kc_ekey :: 'k
  kc_Subkey :: 'k

abbreviation (input) AP_REP_ENCPART :: int where "AP_REP_ENCPART \<equiv> 12"
abbreviation (input) GSSAPI_ACCEPTOR_SEAL :: int where "GSSAPI_ACCEPTOR_SEAL \<equiv> 22"
abbreviation (input) GSSAPI_INITIATOR_SEAL :: int where "GSSAPI_INITIATOR_SEAL \<equiv> 24"

text \<open>
  The constructors read the configuration and the credentials; the settings are passed on.  A new client has the
  zero keys.
\<close>

record ('l, 'conf, 'kt, 'cc, 'opt) krb_setup =
  krb_LoadConfig :: "string \<Rightarrow> go_error + 'conf"
  krb_LoadKeytab :: "string \<Rightarrow> go_error + 'kt"
  krb_LoadCCache :: "string \<Rightarrow> go_error + 'cc"
  krb_NewWithKeytab :: "string \<Rightarrow> string \<Rightarrow> 'kt \<Rightarrow> 'conf \<Rightarrow> 'opt list \<Rightarrow> 'l"
  krb_NewWithPassword :: "string \<Rightarrow> string \<Rightarrow> string \<Rightarrow> 'conf \<Rightarrow> 'opt list \<Rightarrow> 'l"
  krb_NewFromCCache :: "'cc \<Rightarrow> 'conf \<Rightarrow> 'opt list \<Rightarrow> go_error + 'l"

definition new_krb_Client :: "('l, 'tkt, 'k, 't, 'e) krb_library \<Rightarrow> 'l \<Rightarrow> ('l, 'k) krb_Client" where
  "new_krb_Client K l = \<lparr>kc_Client = l, kc_ekey = krb_no_key K, kc_Subkey = krb_no_key K\<rparr>"

definition NewClientWithKeytab ::
  "('l, 'tkt, 'k, 't, 'e) krb_library \<Rightarrow> ('l, 'conf, 'kt, 'cc, 'opt) krb_setup \<Rightarrow> string \<Rightarrow> string \<Rightarrow> string
   \<Rightarrow> string \<Rightarrow> 'opt list \<Rightarrow> go_error + ('l, 'k) krb_Client" where
  "NewClientWithKeytab K S username realm keytabPath krb5confPath settings =
     (case krb_LoadConfig S krb5confPath of
        Inl e \<Rightarrow> Inl e
      | Inr krb5conf \<Rightarrow>
          (case krb_LoadKeytab S keytabPath of
             Inl e \<Rightarrow> Inl e
           | Inr keytab \<Rightarrow> Inr (new_krb_Client K (krb_NewWithKeytab S username realm keytab krb5conf settings))))"

definition NewClientWithPassword ::
  "('l, 'tkt, 'k, 't, 'e) krb_library \<Rightarrow> ('l, 'conf, 'kt, 'cc, 'opt) krb_setup \<Rightarrow> string \<Rightarrow> string \<Rightarrow> string
   \<Rightarrow> string \<Rightarrow> 'opt list \<Rightarrow> go_error + ('l, 'k) krb_Client" where
  "NewClientWithPassword K S username realm password krb5confPath settings =
     (case krb_LoadConfig S krb5confPath of
        Inl e \<Rightarrow> Inl e
      | Inr krb5conf \<Rightarrow> Inr (new_krb_Client K (krb_NewWithPassword S username realm password krb5conf settings)))"

definition NewClientFromCCache ::
  "('l, 'tkt, 'k, 't, 'e) krb_library \<Rightarrow> ('l, 'conf, 'kt, 'cc, 'opt) krb_setup \<Rightarrow> string \<Rightarrow> string
   \<Rightarrow> 'opt list \<Rightarrow> go_error + ('l, 'k) krb_Client" where
  "NewClientFromCCache K S ccachePath krb5confPath settings =
     (case krb_LoadConfig S krb5confPath of
        Inl e \<Rightarrow> Inl e
      | Inr krb5conf \<Rightarrow>
          (case krb_LoadCCache S ccachePath of
             Inl e \<Rightarrow> Inl e
           | Inr ccache \<Rightarrow> map_sum id (new_krb_Client K) (krb_NewFromCCache S ccache krb5conf settings)))"

text \<open>\<^verbatim>\<open>ContextFlagInteg\<close>, \<^verbatim>\<open>ContextFlagConf\<close> and \<^verbatim>\<open>ContextFlagMutual\<close>.\<close>

definition gssapiFlags :: "int list" where
  "gssapiFlags = [32, 16, 2]"

definition krb_DeleteSecContext ::
  "('l, 'tkt, 'k, 't, 'e) krb_library \<Rightarrow> ('l, 'k) krb_Client \<Rightarrow> ('l, 'k) krb_Client" where
  "krb_DeleteSecContext K c = c\<lparr>kc_ekey := krb_no_key K, kc_Subkey := krb_no_key K\<rparr>"

definition krb_Close ::
  "('l, 'tkt, 'k, 't, 'e) krb_library \<Rightarrow> ('l, 'k) krb_Client \<Rightarrow> ('l, 'k) krb_Client" where
  "krb_Close K c = c\<lparr>kc_Client := krb_Destroy K (kc_Client c)\<rparr>"

text \<open>The first call: a ticket and the token that presents it.\<close>

definition krb_init_first ::
  "('l, 'tkt, 'k, 't, 'e) krb_library \<Rightarrow> ('l, 'k) krb_Client \<Rightarrow> string \<Rightarrow> int list
   \<Rightarrow> ('l, 'k) krb_Client \<times> bytes \<times> bool \<times> go_error option" where
  "krb_init_first K c target APOptions =
     (case krb_GetServiceTicket K (kc_Client c) target of
        (l, Inl e) \<Rightarrow> (c\<lparr>kc_Client := l\<rparr>, [], False, Some e)
      | (l, Inr (tkt, ekey)) \<Rightarrow>
          (case krb_NewKRB5TokenAPREQ K l tkt ekey gssapiFlags APOptions of
             (l, Inl e) \<Rightarrow> (c\<lparr>kc_Client := l, kc_ekey := ekey\<rparr>, [], False, Some e)
           | (l, Inr token) \<Rightarrow>
               (case krb_Marshal K token of
                  Inl e \<Rightarrow> (c\<lparr>kc_Client := l, kc_ekey := ekey\<rparr>, [], False, Some e)
                | Inr output \<Rightarrow> (c\<lparr>kc_Client := l, kc_ekey := ekey\<rparr>, output, True, None))))"

text \<open>A later call: the server's reply, which completes the context when it is an AP-REP.\<close>

definition krb_read_reply ::
  "('l, 'tkt, 'k, 't, 'e) krb_library \<Rightarrow> ('l, 'k) krb_Client \<Rightarrow> 't \<Rightarrow> go_error + ('l, 'k) krb_Client \<times> bool" where
  "krb_read_reply K c token =
     (if krb_IsAPRep K token then
        (case krb_DecryptEncPart K (krb_EncPart K token) (kc_ekey c) AP_REP_ENCPART of
           Inl e \<Rightarrow> Inl e
         | Inr encpart \<Rightarrow>
             (case krb_UnmarshalEncAPRepPart K encpart of
                Inl e \<Rightarrow> Inl e
              | Inr subkey \<Rightarrow> Inr (c\<lparr>kc_Subkey := subkey\<rparr>, True)))
      else Inr (c, False))"

definition krb_init_reply ::
  "('l, 'tkt, 'k, 't, 'e) krb_library \<Rightarrow> ('l, 'k) krb_Client \<Rightarrow> bytes
   \<Rightarrow> ('l, 'k) krb_Client \<times> bytes \<times> bool \<times> go_error option" where
  "krb_init_reply K c input =
     (case krb_Unmarshal K input of
        Inl e \<Rightarrow> (c, [], False, Some e)
      | Inr token \<Rightarrow>
          (case krb_read_reply K c token of
             Inl e \<Rightarrow> (c, [], False, Some e)
           | Inr (c, completed) \<Rightarrow>
               if krb_IsKRBError K token then (c, [], True, Some (krb_KRBError K token))
               else (c, [], \<not> completed, None)))"

definition krb_InitSecContextWithOptions ::
  "('l, 'tkt, 'k, 't, 'e) krb_library \<Rightarrow> ('l, 'k) krb_Client \<Rightarrow> string \<Rightarrow> bytes option \<Rightarrow> int list
   \<Rightarrow> ('l, 'k) krb_Client \<times> bytes \<times> bool \<times> go_error option" where
  "krb_InitSecContextWithOptions K c target input APOptions =
     (case input of None \<Rightarrow> krb_init_first K c target APOptions | Some input \<Rightarrow> krb_init_reply K c input)"

definition krb_InitSecContext ::
  "('l, 'tkt, 'k, 't, 'e) krb_library \<Rightarrow> ('l, 'k) krb_Client \<Rightarrow> string \<Rightarrow> bytes option
   \<Rightarrow> ('l, 'k) krb_Client \<times> bytes \<times> bool \<times> go_error option" where
  "krb_InitSecContext K c target input = krb_InitSecContextWithOptions K c target input []"

text \<open>The last step: the server's wrapped offer is verified, and the answer asks for no security layer.\<close>

definition no_layer :: bytes where
  "no_layer = [CHR 0x00, CHR 0x00, CHR 0x00, CHR 0x00]"

definition krb_answer ::
  "('l, 'tkt, 'k, 't, 'e) krb_library \<Rightarrow> 'k \<Rightarrow> string \<Rightarrow> go_error + bytes" where
  "krb_answer K key authzid =
     (case krb_HMACBitLength K key of
        Inl e \<Rightarrow> Inl e
      | Inr bits \<Rightarrow>
          (case krb_SetCheckSum K
                  \<lparr>wt_Flags = 0b100, wt_EC = word_of_int (bits div 8), wt_RRC = 0, wt_SndSeqNum = 1, wt_CheckSum = [],
                   wt_Payload = no_layer @ authzid\<rparr> key GSSAPI_INITIATOR_SEAL of
             Inl e \<Rightarrow> Inl e
           | Inr token \<Rightarrow> krb_MarshalWrapToken K token))"

definition krb_key :: "('l, 'k) krb_Client \<Rightarrow> WrapToken \<Rightarrow> 'k" where
  "krb_key c token = (if wt_Flags token AND 0b100 \<noteq> 0 then kc_Subkey c else kc_ekey c)"

definition krb_NegotiateSaslAuth ::
  "('l, 'tkt, 'k, 't, 'e) krb_library \<Rightarrow> ('l, 'k) krb_Client \<Rightarrow> bytes \<Rightarrow> string \<Rightarrow> (go_error + bytes) option" where
  "krb_NegotiateSaslAuth K c input authzid =
     do { (token, err) \<leftarrow> UnmarshalWrapToken empty_WrapToken input True;
          Some (case err of
                  Some e \<Rightarrow> Inl e
                | None \<Rightarrow>
                    if wt_Flags token AND 0b1 = 0 then
                      Inl (ErrText ''got a Wrapped token that's not from the server'')
                    else
                      (case krb_Verify K token (krb_key c token) GSSAPI_ACCEPTOR_SEAL of
                         Some e \<Rightarrow> Inl e
                       | None \<Rightarrow>
                           if length (wt_Payload token) \<noteq> 4 then
                             Inl (ErrText ''server send bad final token for SASL GSSAPI Handshake'')
                           else krb_answer K (krb_key c token) authzid)) }"

text \<open>A slice that may be nil, read as bytes; a result with an error as the interface returns it.\<close>

definition nil_bytes :: "bytes option \<Rightarrow> bytes" where
  "nil_bytes t = (case t of None \<Rightarrow> [] | Some b \<Rightarrow> b)"

definition returned :: "'c \<Rightarrow> go_error + bytes \<Rightarrow> 'c \<times> bytes \<times> go_error option" where
  "returned c r = (case r of Inl e \<Rightarrow> (c, [], Some e) | Inr b \<Rightarrow> (c, b, None))"

definition krb_client :: "('l, 'tkt, 'k, 't, 'e) krb_library \<Rightarrow> ('l, 'k) krb_Client GSSAPIClient" where
  "krb_client K =
     \<lparr>gss_InitSecContextWithOptions = (\<lambda>c target input options. Some (krb_InitSecContextWithOptions K c target input options)),
      gss_NegotiateSaslAuth = (\<lambda>c input authzid. map_option (returned c) (krb_NegotiateSaslAuth K c (nil_bytes input) authzid)),
      gss_DeleteSecContext = krb_DeleteSecContext K\<rparr>"

section \<open>The SSPI client\<close>

text \<open>
  What the client calls of the package \<^verbatim>\<open>sspi\<close>.  A context is a pointer that may be nil; a method on it may panic.
\<close>

record ('x, 'cred) sspi_library =
  sspi_AcquireCurrentUserCredentials :: "go_error + 'cred"
  sspi_AcquireUserCredentials :: "string \<Rightarrow> string \<Rightarrow> string \<Rightarrow> go_error + 'cred"
  sspi_NewClientContextWithChannelBindings :: "'cred \<Rightarrow> string \<Rightarrow> 32 word \<Rightarrow> bytes \<Rightarrow> go_error + 'x \<times> bool \<times> bytes"
  sspi_NewClientContextWithFlags :: "'cred \<Rightarrow> string \<Rightarrow> 32 word \<Rightarrow> go_error + 'x \<times> bool \<times> bytes"
  sspi_Update :: "'x option \<Rightarrow> bytes \<Rightarrow> ('x option \<times> (go_error + bool \<times> bytes)) option"
  sspi_VerifyFlags :: "'x option \<Rightarrow> go_error option option"
  sspi_DecryptMessage :: "'x option \<Rightarrow> bytes \<Rightarrow> ('x option \<times> (go_error + 32 word \<times> bytes)) option"
  sspi_EncryptMessage :: "'x option \<Rightarrow> bytes \<Rightarrow> 32 word \<Rightarrow> ('x option \<times> (go_error + bytes)) option"
  sspi_ReleaseContext :: "'x option \<Rightarrow> 'x option \<times> go_error option"
  sspi_ReleaseCredentials :: "'cred \<Rightarrow> 'cred \<times> go_error option"

record ('x, 'cred) SSPIClient =
  sc_creds :: 'cred
  sc_ctx :: "'x option"
  sc_channelBindings :: bytes

definition NewSSPIClientWithCredentials :: "'cred \<Rightarrow> ('x, 'cred) SSPIClient" where
  "NewSSPIClientWithCredentials creds = \<lparr>sc_creds = creds, sc_ctx = None, sc_channelBindings = []\<rparr>"

definition NewSSPIClient :: "('x, 'cred) sspi_library \<Rightarrow> go_error + ('x, 'cred) SSPIClient" where
  "NewSSPIClient W = map_sum id NewSSPIClientWithCredentials (sspi_AcquireCurrentUserCredentials W)"

definition NewSSPIClientWithUserCredentials ::
  "('x, 'cred) sspi_library \<Rightarrow> string \<Rightarrow> string \<Rightarrow> string \<Rightarrow> go_error + ('x, 'cred) SSPIClient" where
  "NewSSPIClientWithUserCredentials W domain username password =
     map_sum id (\<lambda>creds. \<lparr>sc_creds = creds, sc_ctx = None, sc_channelBindings = []\<rparr>)
       (sspi_AcquireUserCredentials W domain username password)"

text \<open>Channel bindings; the hash functions of Go's \<^verbatim>\<open>crypto\<close> are the argument \<^verbatim>\<open>hash\<close>.\<close>

datatype SignatureAlgorithm =
    UnknownSignatureAlgorithm | MD2WithRSA | MD5WithRSA | SHA1WithRSA | SHA256WithRSA | SHA384WithRSA | SHA512WithRSA
  | DSAWithSHA1 | DSAWithSHA256 | ECDSAWithSHA1 | ECDSAWithSHA256 | ECDSAWithSHA384 | ECDSAWithSHA512
  | SHA256WithRSAPSS | SHA384WithRSAPSS | SHA512WithRSAPSS | PureEd25519

datatype crypto_Hash = SHA256 | SHA384 | SHA512

record x509_Certificate =
  x_SignatureAlgorithm :: SignatureAlgorithm
  x_Raw :: bytes

definition calculateCertificateHash :: "(crypto_Hash \<Rightarrow> bytes \<Rightarrow> bytes) \<Rightarrow> x509_Certificate \<Rightarrow> bytes option" where
  "calculateCertificateHash hash cert =
     (case x_SignatureAlgorithm cert of
        SHA256WithRSA \<Rightarrow> Some (hash SHA256 (x_Raw cert))
      | SHA256WithRSAPSS \<Rightarrow> Some (hash SHA256 (x_Raw cert))
      | ECDSAWithSHA256 \<Rightarrow> Some (hash SHA256 (x_Raw cert))
      | DSAWithSHA256 \<Rightarrow> Some (hash SHA256 (x_Raw cert))
      | SHA384WithRSA \<Rightarrow> Some (hash SHA384 (x_Raw cert))
      | SHA384WithRSAPSS \<Rightarrow> Some (hash SHA384 (x_Raw cert))
      | ECDSAWithSHA384 \<Rightarrow> Some (hash SHA384 (x_Raw cert))
      | SHA512WithRSA \<Rightarrow> Some (hash SHA512 (x_Raw cert))
      | SHA512WithRSAPSS \<Rightarrow> Some (hash SHA512 (x_Raw cert))
      | ECDSAWithSHA512 \<Rightarrow> Some (hash SHA512 (x_Raw cert))
      | MD5WithRSA \<Rightarrow> Some (hash SHA256 (x_Raw cert))
      | SHA1WithRSA \<Rightarrow> Some (hash SHA256 (x_Raw cert))
      | ECDSAWithSHA1 \<Rightarrow> Some (hash SHA256 (x_Raw cert))
      | DSAWithSHA1 \<Rightarrow> Some (hash SHA256 (x_Raw cert))
      | _ \<Rightarrow> None)"

definition put_bytes :: "bytes \<Rightarrow> nat \<Rightarrow> bytes \<Rightarrow> bytes" where
  "put_bytes buf i b = take i buf @ b @ drop (i + length b) buf"

definition createChannelBindingsStructure :: "bytes \<Rightarrow> bytes" where
  "createChannelBindingsStructure applicationData =
     (let appDataLen = (word_of_nat (length applicationData) :: 32 word); appDataOffset = (32 :: 32 word);
          buf = replicate (32 + length applicationData) (CHR 0x00);
          buf = put_bytes buf 24 (little_endian 4 (uint appDataLen));
          buf = put_bytes buf 28 (little_endian 4 (uint appDataOffset))
      in put_bytes buf 32 applicationData)"

definition NewSSPIClientWithChannelBinding ::
  "('x, 'cred) sspi_library \<Rightarrow> (crypto_Hash \<Rightarrow> bytes \<Rightarrow> bytes) \<Rightarrow> x509_Certificate
   \<Rightarrow> go_error + ('x, 'cred) SSPIClient" where
  "NewSSPIClientWithChannelBinding W hash cert =
     (case sspi_AcquireCurrentUserCredentials W of
        Inl e \<Rightarrow> Inl e
      | Inr creds \<Rightarrow>
          (case calculateCertificateHash hash cert of
             None \<Rightarrow> Inl (ErrText ''failed to calculate certificate hash'')
           | Some certHash \<Rightarrow>
               Inr \<lparr>sc_creds = creds, sc_ctx = None,
                    sc_channelBindings = createChannelBindingsStructure (''tls-server-end-point:'' @ certHash)\<rparr>))"

definition sspi_DeleteSecContext ::
  "('x, 'cred) sspi_library \<Rightarrow> ('x, 'cred) SSPIClient \<Rightarrow> ('x, 'cred) SSPIClient \<times> go_error option" where
  "sspi_DeleteSecContext W c =
     (case sspi_ReleaseContext W (sc_ctx c) of (ctx, err) \<Rightarrow> (c\<lparr>sc_ctx := ctx\<rparr>, err))"

definition sspi_Close ::
  "('x, 'cred) sspi_library \<Rightarrow> ('x, 'cred) SSPIClient \<Rightarrow> ('x, 'cred) SSPIClient \<times> go_error option" where
  "sspi_Close W c =
     (case sspi_DeleteSecContext W c of (c, err1) \<Rightarrow>
        (case sspi_ReleaseCredentials W (sc_creds c) of (creds, err2) \<Rightarrow>
           (c\<lparr>sc_creds := creds\<rparr>, if err1 \<noteq> None then err1 else err2)))"

text \<open>\<^verbatim>\<open>ISC_REQ_INTEGRITY | ISC_REQ_CONFIDENTIALITY | ISC_REQ_MUTUAL_AUTH\<close>\<close>

definition sspiFlags :: "32 word" where
  "sspiFlags = 0x10000 OR 0x10 OR 0x2"

definition sspi_InitSecContextWithOptions ::
  "('x, 'cred) sspi_library \<Rightarrow> ('x, 'cred) SSPIClient \<Rightarrow> string \<Rightarrow> bytes option \<Rightarrow> int list
   \<Rightarrow> (('x, 'cred) SSPIClient \<times> bytes \<times> bool \<times> go_error option) option" where
  "sspi_InitSecContextWithOptions W c target token APOptions =
     (case token of
        None \<Rightarrow>
          Some (case (if sc_channelBindings c \<noteq> [] then
                        sspi_NewClientContextWithChannelBindings W (sc_creds c) target sspiFlags (sc_channelBindings c)
                      else sspi_NewClientContextWithFlags W (sc_creds c) target sspiFlags) of
                  Inl e \<Rightarrow> (c, [], False, Some e)
                | Inr (ctx, completed, output) \<Rightarrow> (c\<lparr>sc_ctx := Some ctx\<rparr>, output, \<not> completed, None))
      | Some token \<Rightarrow>
          do { (ctx, r) \<leftarrow> sspi_Update W (sc_ctx c) token;
               let c = c\<lparr>sc_ctx := ctx\<rparr>;
               case r of
                 Inl e \<Rightarrow> Some (c, [], False, Some e)
               | Inr (completed, output) \<Rightarrow>
                   do { err \<leftarrow> sspi_VerifyFlags W ctx;
                        Some (case err of
                                Some e \<Rightarrow> (c, [], False, Some (ErrTextOf ''error verifying flags: '' e))
                              | None \<Rightarrow> (c, output, \<not> completed, None)) } })"

definition sspi_InitSecContext ::
  "('x, 'cred) sspi_library \<Rightarrow> ('x, 'cred) SSPIClient \<Rightarrow> string \<Rightarrow> bytes option
   \<Rightarrow> (('x, 'cred) SSPIClient \<times> bytes \<times> bool \<times> go_error option) option" where
  "sspi_InitSecContext W c target token = sspi_InitSecContextWithOptions W c target token []"

definition handshakePayload :: "8 word \<Rightarrow> 32 word \<Rightarrow> bytes \<Rightarrow> bytes" where
  "handshakePayload secLayer maxSize authzid =
     (let truncatedSize = (if secLayer \<noteq> 0 then (if 0xFFFFFF > maxSize then maxSize else 0xFFFFFF) else 0);
          payload = big_endian 4 (uint truncatedSize)
      in payload[0 := char_of (uint secLayer)] @ authzid)"

abbreviation (input) KERB_WRAP_NO_ENCRYPT :: "32 word" where "KERB_WRAP_NO_ENCRYPT \<equiv> 0x80000001"

text \<open>The selected layer is always 0, so the sizes of the context are never asked for.\<close>

definition sspi_NegotiateSaslAuth ::
  "('x, 'cred) sspi_library \<Rightarrow> ('x, 'cred) SSPIClient \<Rightarrow> bytes \<Rightarrow> string
   \<Rightarrow> (('x, 'cred) SSPIClient \<times> bytes \<times> go_error option) option" where
  "sspi_NegotiateSaslAuth W c token authzid =
     do { (ctx, r) \<leftarrow> sspi_DecryptMessage W (sc_ctx c) token;
          let c = c\<lparr>sc_ctx := ctx\<rparr>;
          case r of
            Inl e \<Rightarrow> Some (c, [], Some (ErrWrap ''error decrypting message: '' e))
          | Inr (flags, inputPayload) \<Rightarrow>
              if flags AND KERB_WRAP_NO_ENCRYPT = 0 then Some (c, [], Some (ErrText ''message encrypted''))
              else if length inputPayload \<noteq> 4 then Some (c, [], Some (ErrText ''bad server token''))
              else if inputPayload ! 0 = CHR 0x00 \<and> inputPayload \<noteq> no_layer then
                Some (c, [], Some (ErrText ''bad server token''))
              else
                do { (ctx, r) \<leftarrow> sspi_EncryptMessage W ctx (handshakePayload 0 0 authzid) KERB_WRAP_NO_ENCRYPT;
                     let c = c\<lparr>sc_ctx := ctx\<rparr>;
                     Some (case r of
                             Inl e \<Rightarrow> (c, [], Some (ErrWrap ''error encrypting message: '' e))
                           | Inr output \<Rightarrow> (c, output, None)) } }"

definition sspi_client :: "('x, 'cred) sspi_library \<Rightarrow> ('x, 'cred) SSPIClient GSSAPIClient" where
  "sspi_client W =
     \<lparr>gss_InitSecContextWithOptions = sspi_InitSecContextWithOptions W,
      gss_NegotiateSaslAuth = (\<lambda>c token authzid. sspi_NegotiateSaslAuth W c (nil_bytes token) authzid),
      gss_DeleteSecContext = (\<lambda>c. fst (sspi_DeleteSecContext W c))\<rparr>"

end
