(* ===== verification/Bind_Digest.thy ===== *)
theory Bind_Digest
  imports LDAP_Bind
begin

text \<open>
  What \<^verbatim>\<open>parseParams\<close> reads from a digest challenge and what \<^verbatim>\<open>computeResponse\<close> writes: the list of
  directives of RFC 2831 is stated as a syntax of its own, the parser reads every text of that syntax, and the
  response is such a text.
\<close>

section \<open>Directives\<close>

datatype directive_value = Token string | Quoted string

text \<open>A directive with the white space before the key, around the equals sign and after the value.\<close>

record directive =
  di_before :: string
  di_key :: string
  di_equals :: string
  di_after :: string
  di_value :: directive_value
  di_behind :: string

fun value_text :: "directive_value \<Rightarrow> string" where
  "value_text (Token v) = v"
| "value_text (Quoted v) = DQUOTE # quotedStringEscape v @ [DQUOTE]"

fun value_bytes :: "directive_value \<Rightarrow> string" where
  "value_bytes (Token v) = v"
| "value_bytes (Quoted v) = v"

definition directive_text :: "directive \<Rightarrow> string" where
  "directive_text d =
     di_before d @ di_key d @ di_equals d @ CHR ''='' # di_after d @ value_text (di_value d) @ di_behind d"

definition challenge_text :: "directive list \<Rightarrow> string" where
  "challenge_text ds = join '','' (map directive_text ds)"

abbreviation spaces :: "string \<Rightarrow> bool" where
  "spaces w \<equiv> list_all linear_space w"

definition token_byte :: "char \<Rightarrow> bool" where
  "token_byte c \<longleftrightarrow> \<not> linear_space c \<and> c \<noteq> CHR '','' \<and> c \<noteq> DQUOTE"

definition key_byte :: "char \<Rightarrow> bool" where
  "key_byte c \<longleftrightarrow> \<not> linear_space c \<and> c \<noteq> CHR ''=''"

definition directive_ok :: "directive \<Rightarrow> bool" where
  "directive_ok d \<longleftrightarrow> spaces (di_before d) \<and> spaces (di_equals d) \<and> spaces (di_after d) \<and> spaces (di_behind d)
     \<and> list_all key_byte (di_key d) \<and> (\<forall>v. di_value d = Token v \<longrightarrow> list_all token_byte v)"

text \<open>The bytes of a text, each taken for the rune of its number: what the parser stores.\<close>

definition byte_runes :: "string \<Rightarrow> string" where
  "byte_runes s = concat (map string_of_byte s)"

lemma byte_runes_simps [simp]:
  "byte_runes [] = []" "byte_runes (c # s) = string_of_byte c @ byte_runes s"
  by (simp_all add: byte_runes_def)

lemma byte_runes_ascii: "ascii_string s \<Longrightarrow> byte_runes s = s"
  by (induction s) (simp_all add: string_of_byte_def is_ascii_def)

lemma byte_runes_length: "length s \<le> length (byte_runes s)"
proof (induction s)
  case (Cons c s)
  have "string_of_byte c \<noteq> []" by (simp add: string_of_byte_def)
  with Cons show ?case by (cases "string_of_byte c") simp_all
qed simp

lemma byte_runes_id_iff: "byte_runes s = s \<longleftrightarrow> ascii_string s"
proof
  show "byte_runes s = s \<Longrightarrow> ascii_string s"
  proof (induction s)
    case (Cons c s)
    have "is_ascii c"
    proof (rule ccontr)
      assume "\<not> is_ascii c"
      then have "2 \<le> length (string_of_byte c)"
        by (simp add: string_of_byte_def is_ascii_def length_EncodeRune_ge2)
      with byte_runes_length [of s] have "length (c # s) < length (byte_runes (c # s))" by simp
      with Cons.prems show False by simp
    qed
    with Cons show ?case by (simp add: string_of_byte_def is_ascii_def)
  qed simp
qed (rule byte_runes_ascii)

section \<open>The parser on directives\<close>

lemma quotedStringEscape_Cons [simp]:
  "quotedStringEscape (c # s)
     = (if c = BSLASH then [BSLASH, BSLASH] else if c = DQUOTE then [BSLASH, DQUOTE] else [c]) @ quotedStringEscape s"
  "quotedStringEscape [] = []"
  by (simp_all add: quotedStringEscape_def ReplaceAll_def)

lemma parse_spaces:
  assumes "spaces w" "pp_state st \<noteq> InsideQuotes"
  shows "parse_bytes i (w @ cs) st = parse_bytes (i + length w) cs st"
  using assms
  by (induction w arbitrary: i) (auto simp: parse_byte_def split: parse_state.splits)

lemma parse_key:
  assumes "list_all key_byte k" "pp_state st = ReadingKey"
  shows "parse_bytes i (k @ cs) st = parse_bytes (i + length k) cs (st\<lparr>pp_key := pp_key st @ byte_runes k\<rparr>)"
  using assms
  by (induction k arbitrary: i st) (simp_all add: parse_byte_def key_byte_def)

lemma parse_token:
  assumes "list_all token_byte v" "pp_state st = ReadingValue"
  shows "parse_bytes i (v @ cs) st = parse_bytes (i + length v) cs (st\<lparr>pp_value := pp_value st @ byte_runes v\<rparr>)"
  using assms
  by (induction v arbitrary: i st) (simp_all add: parse_byte_def token_byte_def add_value_def)

lemma parse_quoted:
  assumes "pp_state st = InsideQuotes" "\<not> pp_escaped st"
  shows "parse_bytes i (quotedStringEscape v @ DQUOTE # cs) st
    = parse_bytes (i + length (quotedStringEscape v) + 1) cs
        (st\<lparr>pp_value := pp_value st @ byte_runes v, pp_state := ReadingValue\<rparr>)"
  using assms
proof (induction v arbitrary: i st)
  case Nil
  then show ?case by (simp add: parse_byte_def)
next
  case (Cons c v)
  from Cons.prems show ?case
    by (cases st; cases "c = BSLASH \<or> c = DQUOTE") (auto simp: parse_byte_def add_value_def Cons.IH)
qed

text \<open>What the parser holds after a directive, before the comma or the end.\<close>

definition read_directive :: "directive \<Rightarrow> params \<Rightarrow> parser" where
  "read_directive d m =
     \<lparr>pp_m = m, pp_key = byte_runes (di_key d), pp_value = byte_runes (value_bytes (di_value d)),
      pp_state = ReadingValue, pp_escaped = False\<rparr>"

definition next_directive :: "params \<Rightarrow> parser" where
  "next_directive m = \<lparr>pp_m = m, pp_key = [], pp_value = [], pp_state = ReadingKey, pp_escaped = False\<rparr>"

lemma parse_value:
  assumes "\<forall>v. x = Token v \<longrightarrow> list_all token_byte v" "pp_state st = ReadingValue" "pp_value st = []" "\<not> pp_escaped st"
  shows "\<exists>j. parse_bytes i (value_text x @ cs) st = parse_bytes j cs (st\<lparr>pp_value := byte_runes (value_bytes x)\<rparr>)"
proof (cases x)
  case (Token v)
  with assms show ?thesis by (auto simp: parse_token)
next
  case (Quoted v)
  with assms show ?thesis
    by (cases st) (auto simp: parse_byte_def linear_space_def parse_quoted)
qed

lemma parse_directive:
  assumes "directive_ok d"
  shows "\<exists>j. parse_bytes i (directive_text d @ cs) (next_directive m) = parse_bytes j cs (read_directive d m)"
proof -
  note ok = assms [unfolded directive_ok_def]
  let ?st = "(next_directive m)\<lparr>pp_key := byte_runes (di_key d)\<rparr>"
  let ?rest = "di_after d @ value_text (di_value d) @ di_behind d @ cs"
  have "parse_bytes i (directive_text d @ cs) (next_directive m)
      = parse_bytes (i + length (di_before d) + length (di_key d) + length (di_equals d)) (CHR ''='' # ?rest) ?st"
    unfolding directive_text_def using ok by (simp add: parse_spaces parse_key next_directive_def)
  moreover have "\<exists>j. parse_bytes i' (CHR ''='' # ?rest) ?st = parse_bytes j cs (read_directive d m)" for i'
  proof -
    let ?st' = "?st\<lparr>pp_state := ReadingValue\<rparr>"
    have "parse_bytes i' (CHR ''='' # ?rest) ?st
        = parse_bytes (Suc i' + length (di_after d)) (value_text (di_value d) @ di_behind d @ cs) ?st'"
      using ok by (simp add: parse_spaces parse_byte_def linear_space_def next_directive_def)
    moreover obtain j where "parse_bytes (Suc i' + length (di_after d)) (value_text (di_value d) @ di_behind d @ cs) ?st'
        = parse_bytes j (di_behind d @ cs) (?st'\<lparr>pp_value := byte_runes (value_bytes (di_value d))\<rparr>)"
      using parse_value [of "di_value d" ?st'] ok by (force simp: next_directive_def)
    moreover have "?st'\<lparr>pp_value := byte_runes (value_bytes (di_value d))\<rparr> = read_directive d m"
      by (simp add: read_directive_def next_directive_def)
    ultimately show ?thesis using ok by (auto simp: parse_spaces read_directive_def)
  qed
  ultimately show ?thesis by metis
qed

definition store_directive :: "directive \<Rightarrow> params \<Rightarrow> params" where
  "store_directive d m = AList.update (byte_runes (di_key d)) (byte_runes (value_bytes (di_value d))) m"

lemma store_read_directive: "store (read_directive d m) = (read_directive d m)\<lparr>pp_m := store_directive d m\<rparr>"
  by (simp add: store_def read_directive_def store_directive_def)

lemma parse_challenge:
  assumes "ds \<noteq> []" "list_all directive_ok ds"
  shows "parse_bytes i (challenge_text ds) (next_directive m) = Inr (fold store_directive ds m)"
  using assms
proof (induction ds arbitrary: i m)
  case (Cons d ds)
  show ?case
  proof (cases "ds = []")
    case True
    obtain j where "parse_bytes i (directive_text d @ []) (next_directive m) = parse_bytes j [] (read_directive d m)"
      using parse_directive [of d i "[]"] Cons.prems by auto
    with True show ?thesis by (simp add: challenge_text_def store_read_directive) (simp add: read_directive_def)
  next
    case False
    obtain j where j: "parse_bytes i (directive_text d @ CHR '','' # challenge_text ds) (next_directive m)
        = parse_bytes j (CHR '','' # challenge_text ds) (read_directive d m)"
      using parse_directive [of d i "CHR '','' # challenge_text ds"] Cons.prems by auto
    have "parse_byte j CHR '','' (read_directive d m) = Inr (next_directive (store_directive d m))"
      unfolding parse_byte_def store_read_directive
      by (simp add: linear_space_def read_directive_def next_directive_def)
    moreover have "challenge_text (d # ds) = directive_text d @ CHR '','' # challenge_text ds"
      using False by (cases ds) (simp_all add: challenge_text_def)
    ultimately show ?thesis using j Cons False by simp
  qed
qed simp

definition directive_pair :: "directive \<Rightarrow> string \<times> string" where
  "directive_pair d = (byte_runes (di_key d), byte_runes (value_bytes (di_value d)))"

lemma map_of_fold_store:
  "map_of (fold store_directive ds m) = map_of m ++ map_of (rev (map directive_pair ds))"
  by (induction ds arbitrary: m)
    (simp_all add: store_directive_def directive_pair_def update_conv' map_add_def fun_eq_iff split: option.splits)

lemma parseParams_challenge:
  assumes "ds \<noteq> []" "list_all directive_ok ds"
  shows "\<exists>m. parseParams (challenge_text ds) = Inr m \<and> map_of m = map_of (rev (map directive_pair ds))"
  using parse_challenge [OF assms, of 0 "[]"] map_of_fold_store [of ds "[]"]
  by (simp add: parseParams_def next_directive_def)

text \<open>The map is never empty: \<^verbatim>\<open>DigestMD5Bind\<close> answers every challenge it could parse.\<close>

lemma parse_bytes_not_empty: "parse_bytes i cs st = Inr m \<Longrightarrow> m \<noteq> []"
proof (induction i cs st rule: parse_bytes.induct)
  case (1 i st)
  moreover have "AList.update k v m' \<noteq> []" for k v :: string and m' by (cases m') auto
  ultimately show ?case by (auto simp: store_def split: if_splits)
qed (auto split: sum.splits)

lemma parseParams_not_empty: "parseParams s \<noteq> Inr []"
  using parse_bytes_not_empty by (force simp: parseParams_def)

section \<open>The response\<close>

text \<open>The response as directives, without white space.\<close>

definition plain :: "string \<Rightarrow> directive_value \<Rightarrow> directive" where
  "plain key v = \<lparr>di_before = [], di_key = key, di_equals = [], di_after = [], di_value = v, di_behind = []\<rparr>"

lemma plain_sel [simp]:
  "di_key (plain key v) = key" "di_value (plain key v) = v"
  "directive_text (plain key v) = key @ CHR ''='' # value_text v"
  "directive_ok (plain key v) \<longleftrightarrow> list_all key_byte key \<and> (\<forall>x. v = Token x \<longrightarrow> list_all token_byte x)"
  by (auto simp: plain_def directive_text_def directive_ok_def)

definition response_directives :: "params \<Rightarrow> string \<Rightarrow> string \<Rightarrow> string \<Rightarrow> string \<Rightarrow> directive list" where
  "response_directives params cnonce uri username password =
     [plain ''username'' (Quoted username), plain ''realm'' (Quoted (param params ''realm'')),
      plain ''nonce'' (Quoted (param params ''nonce'')), plain ''cnonce'' (Quoted cnonce),
      plain ''nc'' (Token ''00000001''), plain ''qop'' (Token ''auth''), plain ''digest-uri'' (Quoted uri),
      plain ''response'' (Token (digest_response params cnonce uri username password))]"

lemma hexDigit_token: "n < 16 \<Longrightarrow> token_byte (hexDigit n) \<and> BSLASH \<noteq> hexDigit n \<and> is_ascii (hexDigit n)"
  using ord_hexDigit [of n]
  by (auto simp: token_byte_def linear_space_def char_lit_iff eq_commute [of BSLASH] split: if_splits)

lemma hex_encode_token:
  "list_all token_byte (hex_encode s)" "ascii_string (hex_encode s)" "BSLASH \<notin> set (hex_encode s)"
  by (induction s) (simp_all add: hex_encode_def hexByte_def hexDigit_token)

lemma quotedStringEscape_hex: "quotedStringEscape (hex_encode s) = hex_encode s"
proof -
  have "list_all token_byte x \<Longrightarrow> BSLASH \<notin> set x \<Longrightarrow> quotedStringEscape x = x" for x
    by (induction x) (auto simp: token_byte_def)
  then show ?thesis using hex_encode_token by blast
qed

lemma computeResponse_text:
  "computeResponse (Inr rb) params uri username password
     = Inr (challenge_text (response_directives params (hex_encode rb) uri username password))"
  by (simp add: computeResponse_def Let_def challenge_text_def response_directives_def quotedStringEscape_hex)

lemma response_directives_ok:
  "list_all directive_ok (response_directives params (hex_encode rb) uri username password)"
  by (simp add: response_directives_def digest_response_def Let_def hex_encode_token)
    (simp add: key_byte_def token_byte_def linear_space_def)

text \<open>
  The server's side, RFC 2831, section 2.1.2.1, for the algorithm \<^verbatim>\<open>md5-sess\<close>: \<^verbatim>\<open>colons\<close> is the RFC's
  concatenation with colons, \<^verbatim>\<open>KD\<close> its keyed digest.
\<close>

fun colons :: "string list \<Rightarrow> string" where
  "colons [] = []"
| "colons [x] = x"
| "colons (x # y # ys) = x @ CHR '':'' # colons (y # ys)"

definition KD :: "string \<Rightarrow> string \<Rightarrow> bytes" where
  "KD k s = md5_sum (colons [k, s])"

definition rfc_A1 :: "(string \<Rightarrow> string) \<Rightarrow> string \<Rightarrow> bytes" where
  "rfc_A1 f password =
     colons ([md5_sum (colons [f ''username'', f ''realm'', password]), f ''nonce'', f ''cnonce'']
       @ (if f ''authzid'' = [] then [] else [f ''authzid'']))"

definition rfc_A2 :: "(string \<Rightarrow> string) \<Rightarrow> string" where
  "rfc_A2 f = colons [''AUTHENTICATE'', f ''digest-uri'']"

definition rfc_response :: "(string \<Rightarrow> string) \<Rightarrow> string \<Rightarrow> string" where
  "rfc_response f password =
     hex_encode (KD (hex_encode (md5_sum (rfc_A1 f password)))
       (colons [f ''nonce'', f ''nc'', f ''cnonce'', f ''qop'', hex_encode (md5_sum (rfc_A2 f))]))"

lemma digest_response_rfc:
  assumes "f ''realm'' = param params ''realm''" "f ''nonce'' = param params ''nonce''"
    and "f ''authzid'' = []" "param params ''authzid'' = []" "f ''nc'' = ''00000001''" "f ''qop'' = ''auth''"
  shows "digest_response params (f ''cnonce'') (f ''digest-uri'') (f ''username'') password = rfc_response f password"
  by (simp add: digest_response_def digest_ha1_def rfc_response_def rfc_A1_def rfc_A2_def KD_def md5Hash_def assms)

lemma ascii_literals:
  "ascii_string ''username''" "ascii_string ''realm''" "ascii_string ''nonce''" "ascii_string ''cnonce''"
  "ascii_string ''nc''" "ascii_string ''qop''" "ascii_string ''digest-uri''" "ascii_string ''response''"
  "ascii_string ''00000001''" "ascii_string ''auth''"
  by (simp_all add: is_ascii_def)

text \<open>
  The text \<^verbatim>\<open>computeResponse\<close> sends gives back the user name, the realm and the nonce of the challenge, the
  client's nonce, the URI and the hash, whatever quotes and backslashes they hold.  A server that knows the
  password and hashes what it reads as the RFC says arrives at the response that was sent, unless the challenge
  held an \<^verbatim>\<open>authzid\<close>, which the client hashes and does not send.
\<close>

definition server_accepts :: "params \<Rightarrow> string \<Rightarrow> bool" where
  "server_accepts m password \<longleftrightarrow> map_of m ''response'' = Some (rfc_response (param m) password)"

lemma computeResponse_verifiable:
  assumes "ascii_string username" "ascii_string uri"
    and "ascii_string (param params ''realm'')" "ascii_string (param params ''nonce'')"
    and "param params ''authzid'' = []"
  shows "\<exists>resp m. computeResponse (Inr rb) params uri username password = Inr resp \<and> parseParams resp = Inr m
    \<and> map_of m ''username'' = Some username \<and> map_of m ''realm'' = Some (param params ''realm'')
    \<and> map_of m ''nonce'' = Some (param params ''nonce'') \<and> map_of m ''cnonce'' = Some (hex_encode rb)
    \<and> map_of m ''nc'' = Some ''00000001'' \<and> map_of m ''qop'' = Some ''auth'' \<and> map_of m ''digest-uri'' = Some uri
    \<and> server_accepts m password"
proof -
  let ?resp = "digest_response params (hex_encode rb) uri username password"
  have resp: "ascii_string ?resp" by (simp add: digest_response_def Let_def hex_encode_token)
  obtain m where m: "parseParams (challenge_text (response_directives params (hex_encode rb) uri username password)) = Inr m"
    "map_of m = map_of (rev (map directive_pair (response_directives params (hex_encode rb) uri username password)))"
    using parseParams_challenge [OF _ response_directives_ok] by (force simp: response_directives_def)
  have pairs: "map directive_pair (response_directives params (hex_encode rb) uri username password)
      = [(''username'', username), (''realm'', param params ''realm''), (''nonce'', param params ''nonce''),
         (''cnonce'', hex_encode rb), (''nc'', ''00000001''), (''qop'', ''auth''), (''digest-uri'', uri), (''response'', ?resp)]"
    unfolding response_directives_def directive_pair_def
    by (simp only: list.map plain_sel value_bytes.simps byte_runes_ascii assms resp hex_encode_token ascii_literals)
  have f: "map_of m ''username'' = Some username" "map_of m ''realm'' = Some (param params ''realm'')"
    "map_of m ''nonce'' = Some (param params ''nonce'')" "map_of m ''cnonce'' = Some (hex_encode rb)"
    "map_of m ''nc'' = Some ''00000001''" "map_of m ''qop'' = Some ''auth''" "map_of m ''digest-uri'' = Some uri"
    "map_of m ''response'' = Some ?resp" "map_of m ''authzid'' = None"
    unfolding m(2) pairs by simp_all
  then have "rfc_response (param m) password = ?resp"
    using digest_response_rfc [of "param m" params password] assms(5) by (simp add: param_def)
  with f m(1) show ?thesis unfolding computeResponse_text server_accepts_def by auto
qed

section \<open>Properties\<close>

definition directive_ascii :: "directive \<Rightarrow> bool" where
  "directive_ascii d \<longleftrightarrow> ascii_string (di_key d) \<and> ascii_string (value_bytes (di_value d))"

text \<open>C36. \<^verbatim>\<open>parseParams\<close> reads every non-empty list of directives of RFC 2831 without empty elements, with white
  space around keys and values and with quotes and backslashes escaped in quoted values: a key has the value of its last directive.  Keys and values are
  taken byte by byte as runes, so they are kept exactly when they are ASCII.\<close>

theorem parseParams_directives:
  assumes "ds \<noteq> []" "list_all directive_ok ds"
  shows "\<exists>m. parseParams (challenge_text ds) = Inr m \<and> m \<noteq> [] \<and> map_of m = map_of (rev (map directive_pair ds))
    \<and> (list_all directive_ascii ds \<longrightarrow> map_of m = map_of (rev (map (\<lambda>d. (di_key d, value_bytes (di_value d))) ds)))
    \<and> (\<forall>d. directive_pair d = (di_key d, value_bytes (di_value d)) \<longleftrightarrow> directive_ascii d)"
proof -
  obtain m where m: "parseParams (challenge_text ds) = Inr m" "map_of m = map_of (rev (map directive_pair ds))"
    using parseParams_challenge [OF assms] by blast
  have "map directive_pair ds = map (\<lambda>d. (di_key d, value_bytes (di_value d))) ds" if "list_all directive_ascii ds"
    using that by (auto simp: list_all_iff directive_ascii_def directive_pair_def byte_runes_ascii)
  moreover have "directive_pair d = (di_key d, value_bytes (di_value d)) \<longleftrightarrow> directive_ascii d" for d
    by (simp add: directive_pair_def directive_ascii_def byte_runes_id_iff)
  moreover have "m \<noteq> []" using m(1) parseParams_not_empty [of "challenge_text ds"] by auto
  ultimately show ?thesis using m by (metis (no_types, lifting))
qed

theorem parseParams_directives_witness:
  "let ds = [(plain ''realm'' (Quoted (''a'' @ [DQUOTE]))), (plain ''nonce'' (Quoted ''n''))\<lparr>di_before := '' ''\<rparr>]
   in challenge_text ds = ''realm='' @ [DQUOTE, CHR ''a'', BSLASH, DQUOTE, DQUOTE] @ '', nonce='' @ [DQUOTE, CHR ''n'', DQUOTE]
     \<and> (\<exists>m. parseParams (challenge_text ds) = Inr m \<and> map_of m ''realm'' = Some (''a'' @ [DQUOTE]))"
proof -
  let ?ds = "[(plain ''realm'' (Quoted (''a'' @ [DQUOTE]))), (plain ''nonce'' (Quoted ''n''))\<lparr>di_before := '' ''\<rparr>]"
  have "list_all directive_ok ?ds" "list_all directive_ascii ?ds"
    by (simp_all add: directive_ok_def directive_ascii_def plain_def key_byte_def linear_space_def is_ascii_def)
  moreover have "challenge_text ?ds
      = ''realm='' @ [DQUOTE, CHR ''a'', BSLASH, DQUOTE, DQUOTE] @ '', nonce='' @ [DQUOTE, CHR ''n'', DQUOTE]"
    by (simp add: challenge_text_def plain_def directive_text_def)
  moreover obtain m where "parseParams (challenge_text ?ds) = Inr m"
    "list_all directive_ascii ?ds \<longrightarrow> map_of m = map_of (rev (map (\<lambda>d. (di_key d, value_bytes (di_value d))) ?ds))"
    using parseParams_directives [of ?ds] calculation(1) by blast
  ultimately show ?thesis unfolding Let_def by (auto simp: plain_def)
qed

end
