(* ===== verification/Bind_Properties.thy ===== *)
theory Bind_Properties
  imports Bind_Digest Request_Properties
begin

text \<open>
  What the binds of \<^verbatim>\<open>LDAP_Bind\<close> send, how they leave the connection, and the GSSAPI handshake, which goes by the
  descriptions that the reader has put into the packets.
\<close>

section \<open>Bind requests\<close>

definition bind_element :: "string \<Rightarrow> (packet \<Rightarrow> bool) \<Rightarrow> packet \<Rightarrow> bool" where
  "bind_element name auth r \<longleftrightarrow> is_application ApplicationBindRequest r \<and> length (Children r) = 3
     \<and> Value (Children r ! 0) = VInt 3 \<and> Value (Children r ! 1) = VString name \<and> auth (Children r ! 2)"

definition simple_auth :: "string \<Rightarrow> packet \<Rightarrow> bool" where
  "simple_auth password a \<longleftrightarrow> ClassType a = ClassContext \<and> Tag a = 0 \<and> Value a = VString password"

definition sasl_element :: "string \<Rightarrow> bytes \<Rightarrow> packet \<Rightarrow> bool" where
  "sasl_element mechanism credentials a \<longleftrightarrow> ClassType a = ClassContext \<and> Tag a = 3
     \<and> map Value (Children a) = VString mechanism # (if credentials = [] then [] else [VString credentials])"

context ber_library
begin

lemma bind_packet_element:
  assumes "auth = Some a" "usable a" "shape a"
  shows "\<exists>r. bind_packet B name auth = Some r \<and> usable r \<and> bind_element name shape r"
proof -
  let ?ks = "[ber_NewInteger B ClassUniversal TypePrimitive TagInteger (VInt 3) ''Version'', octets B name ''User Name'', a]"
  have l: "list_all usable ?ks" using assms by simp
  obtain r where "appendChildren B (application B ApplicationBindRequest ''Bind Request'') ?ks = Some r" "usable r"
    "Children r = ?ks" "ClassType r = ClassApplication" "Tag r = ApplicationBindRequest"
    by (rule appendChildren_fresh [OF _ _ l, of "application B ApplicationBindRequest ''Bind Request''"]) simp_all
  with assms show ?thesis
    by (simp add: bind_packet_def bind_element_def is_application_def del: appendChildren.simps)
qed

lemma SimpleBindRequest_appends:
  assumes "list_all encodable (sb_Controls req)"
  shows "appends B (SimpleBindRequest_appendTo B req)
    (bind_element (sb_Username req) (simple_auth (sb_Password req))) (sb_Controls req)"
proof -
  let ?a = "ber_NewString B ClassContext TypePrimitive 0 (sb_Password req) ''Password''"
  obtain r where "bind_packet B (sb_Username req) (Some ?a) = Some r" "usable r"
    "bind_element (sb_Username req) (simple_auth (sb_Password req)) r"
    using bind_packet_element [OF refl, of ?a "simple_auth (sb_Password req)" "sb_Username req"]
    by (auto simp: simple_auth_def)
  then show ?thesis unfolding SimpleBindRequest_appendTo_def by (intro appends_append_request assms)
qed

lemma sasl_appends:
  assumes "list_all encodable controls"
  shows "appends B (append_request B (bind_packet B [] (sasl_auth B mech
      (if token \<noteq> [] then [octets B token ''Credentials''] else []))) controls)
    (bind_element [] (sasl_element mech token)) controls"
proof -
  let ?auth = "ber_Encode B ClassContext TypeConstructed 3 (VString []) ''authentication''"
  let ?ks = "octets B mech ''SASL Mech'' # (if token \<noteq> [] then [octets B token ''Credentials''] else [])"
  have l: "list_all usable ?ks" by simp
  obtain a where a: "appendChildren B ?auth ?ks = Some a" "usable a" "Children a = ?ks" "ClassType a = ClassContext"
    "Tag a = 3"
    by (rule appendChildren_fresh [OF _ _ l, of ?auth]) simp_all
  then have "sasl_element mech token a" by (simp add: sasl_element_def)
  with a obtain r where "bind_packet B [] (sasl_auth B mech (tl ?ks)) = Some r" "usable r"
    "bind_element [] (sasl_element mech token) r"
    using bind_packet_element [of "sasl_auth B mech (tl ?ks)" a] by (auto simp: sasl_auth_def)
  then show ?thesis by (intro appends_append_request assms) simp_all
qed

text \<open>The later exchanges send as the first one does on a connection that is not nil.\<close>

lemma send_envelope_doRequest:
  "send_envelope B s (append_request B pkt controls) = doRequest B (s\<lparr>se_nil := False\<rparr>) (append_request B pkt controls)"
proof -
  have "append_request B pkt controls env = Some (e, env') \<Longrightarrow> e = None" for env e env'
    by (auto simp: append_request_def split: bind_splits if_splits)
  then show ?thesis by (auto simp: send_envelope_def doRequest_def split: Option.bind_splits option.splits)
qed

lemma send_envelope_appends:
  assumes "appends B (append_request B pkt controls) shape controls" "\<And>p. se_send s p = None"
    and "\<And>p. shape p \<Longrightarrow> ClassType p = ClassApplication \<and> Tag p = code"
  obtains p where "send_envelope B s (append_request B pkt controls) = Some ([SendMessage p], None)"
    "is_request B s code controls p" "shape (Children p ! 1)"
proof -
  let ?s = "s\<lparr>se_nil := False\<rparr>"
  obtain p where "doRequest B ?s (append_request B pkt controls) = Some ([SendMessage p], None)"
    "is_request B ?s code controls p" "shape (Children p ! 1)"
    by (rule doRequest_sends [OF assms(1), where s = ?s and code = code]) (use assms(2,3) in auto)
  moreover have "is_request B ?s = is_request B s" by (intro ext) (simp add: is_request_def)
  ultimately show thesis by (intro that [of p]) (simp_all only: send_envelope_doRequest)
qed

lemma send_envelope_sends:
  assumes "list_all encodable controls" "\<And>p. se_send s p = None"
  obtains p where "send_envelope B s (append_request B (bind_packet B [] (sasl_auth B mech
      (if token \<noteq> [] then [octets B token ''Credentials''] else []))) controls) = Some ([SendMessage p], None)"
    "is_request B s ApplicationBindRequest controls p" "bind_element [] (sasl_element mech token) (Children p ! 1)"
  by (rule send_envelope_appends [OF sasl_appends [OF assms(1)] assms(2), where code = ApplicationBindRequest])
    (auto simp: bind_element_def is_application_def)

end

section \<open>Simple bind\<close>

interpretation simple_bind: exchange_operation B "SimpleBindRequest_appendTo B req" "\<lambda>e. (None, Some e)"
    "bind_response B fb ip" "\<lambda>s. simple_bind_exchange B fb ip s req" for B fb ip req
  by unfold_locales (simp add: simple_bind_exchange_def)

interpretation external_bind: exchange_operation B "externalBindRequest B" Some GetLDAPError "ExternalBind B" for B
  by unfold_locales (simp add: ExternalBind_def)

section \<open>Messages left open\<close>

text \<open>
  The calls of a bind replayed on its sessions: the number of messages that were accepted and not yet finished.
  A response is received and a message finished only while one is open.
\<close>

fun replay :: "session list \<Rightarrow> nat \<Rightarrow> call list \<Rightarrow> (session list \<times> nat) option" where
  "replay ss n [] = Some (ss, n)"
| "replay (s # ss) n (SendMessage p # cs) = replay ss (if se_send s p = None then Suc n else n) cs"
| "replay ss (Suc n) (ReceiveResponse # cs) = replay ss (Suc n) cs"
| "replay ss (Suc n) (FinishMessage # cs) = replay ss n cs"
| "replay _ _ _ = None"

definition orderly :: "session list \<Rightarrow> call list \<Rightarrow> bool" where
  "orderly ss calls \<longleftrightarrow> (\<exists>ss'. replay ss 0 calls = Some (ss', 0))"

lemma replay_append:
  "replay ss n (cs @ ds) = (case replay ss n cs of None \<Rightarrow> None | Some (ss', m) \<Rightarrow> replay ss' m ds)"
  by (induction ss n cs rule: replay.induct) simp_all

lemma replay_inside: "replay ss n cs = Some (ss', m) \<Longrightarrow> replay (ss @ tt) (n + k) cs = Some (ss' @ tt, m + k)"
  by (induction ss n cs rule: replay.induct) (auto split: if_splits)

lemma orderly_Nil [simp]: "orderly ss []"
  by (simp add: orderly_def)

lemma orderly_refused: "Some e = se_send s p \<Longrightarrow> orderly (s # ss) [SendMessage p]"
  by (auto simp: orderly_def split: option.splits dest: sym)

lemma orderly_nested:
  assumes "se_send s p = None" "orderly ss calls"
  shows "orderly (s # ss) (SendMessage p # ReceiveResponse # calls @ [FinishMessage])"
proof -
  obtain ss' where "replay ss 0 calls = Some (ss', 0)" using assms(2) by (auto simp: orderly_def)
  from replay_inside [OF this, of "[]" 1] have "replay ss 1 calls = Some (ss', 1)" by simp
  with assms(1) show ?thesis by (simp add: orderly_def replay_append)
qed

lemma orderly_exchange [simp]:
  "se_send s p = None \<Longrightarrow> orderly (s # ss) [SendMessage p, ReceiveResponse, FinishMessage]"
  using orderly_nested [of s p ss "[]"] by simp

lemma orderly_sequence:
  assumes "se_send s p = None" "orderly ss calls"
  shows "orderly (s # ss) ([SendMessage p, ReceiveResponse, FinishMessage] @ calls)"
  using assms by (simp add: orderly_def)

lemma orderly_more: "orderly ss calls \<Longrightarrow> orderly (ss @ tt) calls"
  using replay_inside [of ss 0 calls _ 0 tt 0] by (auto simp: orderly_def)

lemma send_envelope_calls:
  assumes "send_envelope B s app = Some (calls, err)"
  shows "\<exists>p. calls = [SendMessage p] \<and> err = se_send s p"
  using assms by (auto simp: send_envelope_def split: bind_splits)

text \<open>An exchange that was refused, and one with the rest of the bind inside.\<close>

lemma doRequest_orderly:
  "doRequest B s app = Some (calls, Some e) \<Longrightarrow> orderly (s # ss) calls"
  "doRequest B s app = Some (calls, None) \<Longrightarrow> orderly (s # ss) (calls @ [ReceiveResponse, FinishMessage])"
  "doRequest B s app = Some (calls, None) \<Longrightarrow> orderly ss inner
     \<Longrightarrow> orderly (s # ss) (calls @ ReceiveResponse # inner @ [FinishMessage])"
  by (auto dest!: doRequest_calls simp: orderly_nested intro: orderly_refused)

lemma send_envelope_orderly:
  "send_envelope B s app = Some (calls, Some e) \<Longrightarrow> orderly (s # ss) calls"
  "send_envelope B s app = Some (calls, None) \<Longrightarrow> orderly (s # ss) (calls @ [ReceiveResponse, FinishMessage])"
  "send_envelope B s app = Some (calls, None) \<Longrightarrow> orderly ss inner
     \<Longrightarrow> orderly (s # ss) (calls @ ReceiveResponse # inner @ [FinishMessage])"
  "send_envelope B s app = Some (calls, None) \<Longrightarrow> orderly ss inner
     \<Longrightarrow> orderly (s # ss) (calls @ ReceiveResponse # FinishMessage # inner)"
  by (auto dest!: send_envelope_calls simp: orderly_nested orderly_sequence [simplified] intro: orderly_refused)

lemma exchange_operation_orderly:
  assumes "exchange_operation B app fail handle operation" "operation s = Some (calls, x)"
  shows "orderly [s] calls"
  using assms(2) unfolding exchange_operation.operation_exchange [OF assms(1)] exchange_def
  by (fastforce split: bind_splits sum.splits option.splits intro: doRequest_orderly)

lemma digest_third_orderly: "digest_third B s req q = Some (calls, x) \<Longrightarrow> orderly [s] calls"
  unfolding digest_third_def
  by (fastforce split: bind_splits option.splits if_splits intro: doRequest_orderly)

lemma digest_second_orderly: "digest_second B s s' req resp = Some (calls, x) \<Longrightarrow> orderly [s, s'] calls"
  unfolding digest_second_def
  by (fastforce split: bind_splits option.splits sum.splits intro: send_envelope_orderly digest_third_orderly)

lemma digest_answer_orderly: "digest_answer B lower rb s s' req q = Some (calls, x) \<Longrightarrow> orderly [s, s'] calls"
  unfolding digest_answer_def
  by (fastforce split: bind_splits option.splits sum.splits if_splits intro: digest_second_orderly)

lemma DigestMD5Bind_orderly: "DigestMD5Bind B lower rb s1 s2 s3 req = Some (calls, x) \<Longrightarrow> orderly [s1, s2, s3] calls"
  unfolding DigestMD5Bind_def
  by (fastforce split: bind_splits option.splits sum.splits if_splits intro: doRequest_orderly digest_answer_orderly)

lemma ntlm_answer_orderly: "ntlm_answer B N s req q = Some (calls, x) \<Longrightarrow> orderly [s] calls"
  unfolding ntlm_answer_def ntlm_second_def
  by (fastforce split: bind_splits option.splits sum.splits intro: send_envelope_orderly)

lemma NTLMChallengeBind_orderly: "NTLMChallengeBind B N s1 s2 req = Some (calls, x) \<Longrightarrow> orderly [s1, s2] calls"
  unfolding NTLMChallengeBind_def
  by (fastforce split: bind_splits option.splits sum.splits if_splits intro: doRequest_orderly ntlm_answer_orderly)

lemma sasl_exchange_orderly:
  "saslBindTokenExchange B s controls token = Some (calls, Inl e) \<Longrightarrow> orderly (s # ss) calls"
  "saslBindTokenExchange B s controls token = Some (calls, Inr t) \<Longrightarrow> orderly ss inner
     \<Longrightarrow> orderly (s # ss) (calls @ inner)"
  unfolding saslBindTokenExchange_def
  by (fastforce split: bind_splits option.splits sum.splits intro: send_envelope_orderly)+

lemma gss_loop_orderly:
  "gss_loop B C req opts ss needInit recv c = Some (calls, x) \<Longrightarrow> orderly ss calls"
proof (induction ss arbitrary: needInit recv c calls x)
  case (Cons s ss)
  note finish = sasl_exchange_orderly(2) [of _ _ _ _ _ _ _ "[]", simplified]
  from Cons show ?case
    by (auto split: prod.splits option.splits bind_splits sum.splits if_splits
        intro: sasl_exchange_orderly finish)
qed simp

lemma SimpleBind_orderly: "SimpleBind B fb ip s req = Some (calls, x) \<Longrightarrow> orderly [s] calls"
  unfolding SimpleBind_def
  by (fastforce split: if_splits intro: exchange_operation_orderly [OF simple_bind.exchange_operation_axioms])

section \<open>Properties\<close>

lemma bind_response_result:
  assumes "is_LDAPResult q code dn msg" "done_controls B fb ip q cs"
  shows "bind_response B fb ip q = Some (Some \<lparr>bres_Controls = cs\<rparr>, result_error q code dn msg)"
  using assms by (simp add: bind_response_def response_controls_decoded GetLDAPError_of_LDAPResult result_error_def)

lemma simple_bind_exchanged:
  assumes "ber_library B" "\<not> se_nil s" "\<And>p. se_send s p = None" "readPacket (se_responses s) = Inr q"
    and "is_LDAPResult q code dn msg" "done_controls B fb ip q cs"
    and "list_all encodable (sb_Controls req)"
  shows "exchanged B s ApplicationBindRequest (sb_Controls req)
      (bind_element (sb_Username req) (simple_auth (sb_Password req)))
      (Some \<lparr>bres_Controls = cs\<rparr>, result_error q code dn msg) (simple_bind_exchange B fb ip s req)"
  by (rule exchangedI [OF assms(1-4) simple_bind.exchange_operation_axioms
        ber_library.SimpleBindRequest_appends [OF assms(1,7)] _ bind_response_result [OF assms(5,6)]])
    (simp add: bind_element_def)

text \<open>C18. \<^verbatim>\<open>SimpleBind\<close> on a working connection: with an empty password that is not explicitly allowed nothing is
  sent and the error is reported; otherwise one bind request of version 3 goes out with exactly the
  user name, the password and the controls, one response is received, and the result is its controls
  with nil or the server's error.  \<^verbatim>\<open>Bind\<close> never sends an empty password.\<close>

theorem SimpleBind_answered:
  assumes "ber_library B" "\<not> se_nil s" "\<And>p. se_send s p = None" "readPacket (se_responses s) = Inr q"
    and "is_LDAPResult q code dn msg" "done_controls B fb ip q cs"
    and "list_all encodable (sb_Controls req)"
  shows "(if sb_Password req = [] \<and> \<not> sb_AllowEmptyPassword req
          then SimpleBind B fb ip s req = Some ([], None, Some empty_password)
          else exchanged B s ApplicationBindRequest (sb_Controls req)
                 (bind_element (sb_Username req) (simple_auth (sb_Password req)))
                 (Some \<lparr>bres_Controls = cs\<rparr>, result_error q code dn msg) (SimpleBind B fb ip s req))
    \<and> Conn_Bind B fb ip s username [] = Some ([], Some empty_password)"
  using simple_bind_exchanged [OF assms]
  by (simp add: SimpleBind_def Conn_Bind_def only_error_def)

definition controlled_answer :: "int \<Rightarrow> packet list \<Rightarrow> packet" where
  "controlled_answer code ks = Packet ClassUniversal TypeConstructed 16 VNil [] (Some [])
     (Children (answer ApplicationBindResponse code) @ [Packet ClassContext TypeConstructed 0 VNil [] (Some []) ks []]) []"

theorem SimpleBind_answered_witness:
  "\<exists>pk. exchanged ref_ber (working [controlled_answer 49 [pk]]) ApplicationBindRequest []
     (bind_element ''cn=me'' (simple_auth ''secret''))
     (Some \<lparr>bres_Controls = [ControlPaging 10 ''n'']\<rparr>,
      Some (LdapError (ErrText ''denied'') 49 ''dc=x'' (controlled_answer 49 [pk])))
     (SimpleBind ref_ber (\<lambda>s. Inr s) (\<lambda>_. True) (working [controlled_answer 49 [pk]])
       (NewSimpleBindRequest ''cn=me'' ''secret'' []))"
proof -
  obtain pk where pk: "decodes ref_ber (\<lambda>s. Inr s) (\<lambda>_. True) pk (ControlPaging 10 ''n'')"
    using paging_control_arrives by blast
  let ?q = "controlled_answer 49 [pk]"
  have "?q \<noteq> NilPacket" "is_LDAPResult ?q 49 ''dc=x'' ''denied''"
    by (simp_all add: controlled_answer_def answer_def is_LDAPResult_def)
  moreover have "done_controls ref_ber (\<lambda>s. Inr s) (\<lambda>_. True) ?q [ControlPaging 10 ''n'']"
    using pk by (simp add: done_controls_def controlled_answer_def answer_def)
  ultimately show ?thesis
    using SimpleBind_answered [OF ref.ber_library_axioms, of "working [?q]" ?q 49 "''dc=x''" "''denied''"
        "\<lambda>s. Inr s" "\<lambda>_. True" "[ControlPaging 10 ''n'']" "NewSimpleBindRequest ''cn=me'' ''secret'' []" "[]"]
    by (intro exI [of _ pk]) (simp add: NewSimpleBindRequest_def result_error_def)
qed

text \<open>C19. Whatever the server, the network and the GSSAPI client answer, a bind that returns has finished every message
  it had accepted: one \<^verbatim>\<open>finishMessage\<close> per accepted request, none for a refused one, and no response is
  awaited while no message is open.\<close>

theorem binds_balanced:
  "(SimpleBind B fb ip s sreq = Some (calls, xs) \<longrightarrow> orderly [s] calls)
   \<and> (ExternalBind B s = Some (calls, xe) \<longrightarrow> orderly [s] calls)
   \<and> (DigestMD5Bind B lower rb s1 s2 s3 dreq = Some (calls, xd) \<longrightarrow> orderly [s1, s2, s3] calls)
   \<and> (NTLMChallengeBind B N s1 s2 nreq = Some (calls, xn) \<longrightarrow> orderly [s1, s2] calls)
   \<and> (GSSAPIBindRequestWithAPOptions B C ss c greq opts = Some (calls, xg) \<longrightarrow> orderly ss calls)"
  using exchange_operation_orderly [OF external_bind.exchange_operation_axioms]
  by (auto simp: GSSAPIBindRequestWithAPOptions_def SimpleBind_orderly DigestMD5Bind_orderly NTLMChallengeBind_orderly
      split: bind_splits dest: gss_loop_orderly)

theorem binds_balanced_witness:
  "let s = working [answer ApplicationBindResponse 0]; req = NewSimpleBindRequest ''cn=me'' ''secret'' []
   in \<exists>calls x. SimpleBind ref_ber (\<lambda>s. Inr s) (\<lambda>_. True) s req = Some (calls, x) \<and> calls \<noteq> [] \<and> orderly [s] calls"
proof -
  let ?q = "answer ApplicationBindResponse 0" and ?req = "NewSimpleBindRequest ''cn=me'' ''secret'' []"
  have "?q \<noteq> NilPacket" "done_controls ref_ber (\<lambda>s. Inr s) (\<lambda>_. True) ?q []"
    by (simp_all add: answer_def done_controls_def)
  then have "\<exists>calls x. simple_bind_exchange ref_ber (\<lambda>s. Inr s) (\<lambda>_. True) (working [?q]) ?req = Some (calls, x) \<and> calls \<noteq> []"
    using simple_bind_exchanged [OF ref.ber_library_axioms, of "working [?q]" ?q 0 "''dc=x''" "''denied''"
        "\<lambda>s. Inr s" "\<lambda>_. True" "[]" ?req]
    by (auto simp: answer_LDAPResult NewSimpleBindRequest_def exchanged_def)
  then obtain calls x where "SimpleBind ref_ber (\<lambda>s. Inr s) (\<lambda>_. True) (working [?q]) ?req = Some (calls, x)" "calls \<noteq> []"
    by (auto simp: SimpleBind_def NewSimpleBindRequest_def)
  moreover from binds_balanced [THEN conjunct1, rule_format, OF this(1)] have "orderly [working [?q]] calls" .
  ultimately show ?thesis unfolding Let_def by blast
qed

end
