(* ===== verification/Bind_Handshake.thy ===== *)
theory Bind_Handshake
  imports Bind_Properties
begin

text \<open>
  The GSSAPI bind against a server: what \<^verbatim>\<open>saslBindTokenExchange\<close> finds in a bind response after the reader
  of \<^verbatim>\<open>LDAP_Conn\<close> has described it, and the handshake of client and server as a whole.
\<close>

section \<open>Bind responses as the reader delivers them\<close>

text \<open>The reader passes the packet on as \<^verbatim>\<open>addLDAPDescriptions\<close> leaves it.\<close>

definition delivered :: "ber \<Rightarrow> string \<Rightarrow> packet \<Rightarrow> packet" where
  "delivered B panic p = fst (addLDAPDescriptions B panic p)"

text \<open>A bind response on the wire, with the server's credentials or without.\<close>

definition sasl_credentials :: "bytes option \<Rightarrow> packet list \<Rightarrow> bool" where
  "sasl_credentials t ks \<longleftrightarrow>
     (case t of None \<Rightarrow> ks = []
      | Some d \<Rightarrow> \<exists>k. ks = [k] \<and> ClassType k = ClassContext \<and> Tag k = TagObjectDescriptor \<and> Data k = Some d)"

definition is_bind_response :: "packet \<Rightarrow> int \<Rightarrow> bytes option \<Rightarrow> bool" where
  "is_bind_response p code t \<longleftrightarrow> p \<noteq> NilPacket \<and> (\<exists>i r k0 k1 k2 ks dn msg. Children p = [i, r] \<and> i \<noteq> NilPacket
     \<and> ClassType r = ClassApplication \<and> TagType r = TypeConstructed \<and> Tag r = ApplicationBindResponse
     \<and> Children r = [k0, k1, k2] @ ks \<and> sasl_credentials t ks
     \<and> Tag k0 = TagEnumerated \<and> Value k0 = VInt64 code \<and> Tag k1 = TagOctetString \<and> Value k1 = VString dn
     \<and> Tag k2 = TagOctetString \<and> Value k2 = VString msg)"

lemma tag_not_nil: "Tag p = g \<Longrightarrow> 0 < g \<Longrightarrow> p \<noteq> NilPacket"
  by auto

lemma describe_not_nil: "k \<noteq> NilPacket \<Longrightarrow> describe ds k = (set_Description ds k, Edited)"
  by (simp add: describe_def)

lemma Description_set_Description [simp]: "p \<noteq> NilPacket \<Longrightarrow> Description (set_Description ds p) = ds"
  by (cases p) simp_all

lemma edit_case_id:
  "(case x of (p', Edited) \<Rightarrow> (p', Edited) | (p', Refused e) \<Rightarrow> (p', Refused e) | (p', Panicked) \<Rightarrow> (p', Panicked)) = x"
  by (simp split: prod.splits edit_end.splits)

lemma delivered_bind_response:
  assumes "is_bind_response p code t"
  shows "\<exists>i r k0 k1 k2 ks. delivered B panic p \<noteq> NilPacket \<and> Children (delivered B panic p) = [i, r] \<and> r \<noteq> NilPacket
    \<and> Description r = ''Bind Response'' \<and> Children r = [k0, k1, k2] @ ks \<and> k0 \<noteq> NilPacket
    \<and> Tag k0 = TagEnumerated \<and> Value k0 = VInt64 code \<and> sasl_credentials t ks
    \<and> (\<forall>k \<in> set ks. Description k = ''Referral'')"
proof -
  from assms obtain i r k0 k1 k2 ks dn msg where p: "p \<noteq> NilPacket" "Children p = [i, r]" "i \<noteq> NilPacket"
    "ClassType r = ClassApplication" "TagType r = TypeConstructed" "Tag r = ApplicationBindResponse"
    "Children r = [k0, k1, k2] @ ks" "sasl_credentials t ks"
    "Tag k0 = TagEnumerated" "Value k0 = VInt64 code" "Tag k1 = TagOctetString" "Value k1 = VString dn"
    "Tag k2 = TagOctetString" "Value k2 = VString msg"
    unfolding is_bind_response_def by blast
  have nn: "r \<noteq> NilPacket" "k0 \<noteq> NilPacket" "k1 \<noteq> NilPacket" "k2 \<noteq> NilPacket" using p by auto
  obtain c t' g v b d ds where P: "p = Packet c t' g v b d [i, r] ds" using p(1,2) by (cases p) auto
  let ?q = "Packet c t' g v b d [set_Description ''Message ID'' i, set_Description ''Bind Response'' r] ''LDAP Response''"
  have "is_LDAPResult ?q code dn msg" using p nn by (simp add: is_LDAPResult_def)
  then have "\<exists>a b c. result_descriptions ?q = Some (a, b, c)"
    by (simp add: result_descriptions_def GetLDAPError_of_LDAPResult)
  then obtain a1 a2 a3 where rd: "result_descriptions ?q = Some (a1, a2, a3)" by blast
  have 1: "describe_response B p = addDefaultLDAPResponseDescriptions B ?q"
    using p nn unfolding describe_response_def P
    by (simp add: then_edit_def at_child_def describe_not_nil edit_case_id set_child_def Let_def describe_message_def
        ApplicationMap_def)
  let ?ks = "map (set_Description ''Referral'') ks"
  let ?r = "set_Children ([set_Description (''Result Code ('' @ a1 @ '')'') k0, set_Description (''Matched DN ('' @ a2 @ '')'') k1,
      set_Description a3 k2] @ ?ks) (set_Description ''Bind Response'' r)"
  have cs: "ks = [] \<or> (\<exists>k. ks = [k] \<and> k \<noteq> NilPacket)"
    using p(8) tag_not_nil [of _ TagObjectDescriptor] by (cases t) (auto simp: sasl_credentials_def)
  obtain c2 t2 g2 v2 b2 d2 ds2 where R: "r = Packet c2 t2 g2 v2 b2 d2 ([k0, k1, k2] @ ks) ds2"
    using nn(1) p(7) by (cases r) auto
  have 2: "addDefaultLDAPResponseDescriptions B ?q
      = (Packet c t' g v b d [set_Description ''Message ID'' i, ?r] ''LDAP Response'', Edited)"
    using cs p(3) nn rd unfolding addDefaultLDAPResponseDescriptions_def R
    by (auto simp: then_edit_def at_child_def describe_not_nil edit_case_id set_child_def control_descriptions_def)
  have "delivered B panic p = Packet c t' g v b d [set_Description ''Message ID'' i, ?r] ''LDAP Response''"
    by (simp add: delivered_def addLDAPDescriptions_def 1 2)
  moreover have "sasl_credentials t ?ks" "\<forall>k \<in> set ?ks. Description k = ''Referral''"
    using p(8) cs by (cases t; auto simp: sasl_credentials_def)+
  ultimately show ?thesis using p nn R by simp
qed
lemma sasl_token_delivered:
  assumes "is_bind_response p code t"
  shows "code = 14 \<Longrightarrow> t = Some d \<Longrightarrow> sasl_token (delivered B panic p) = Some (Inr (Some d))"
    and "code = 14 \<Longrightarrow> t = None \<Longrightarrow> sasl_token (delivered B panic p) = None"
    and "code = 0 \<Longrightarrow> sasl_token (delivered B panic p) = Some (Inr None)"
proof -
  obtain i r k0 k1 k2 ks where q: "Children (delivered B panic p) = [i, r]" "r \<noteq> NilPacket"
    "Description r = ''Bind Response''" "Children r = [k0, k1, k2] @ ks" "k0 \<noteq> NilPacket"
    "Tag k0 = TagEnumerated" "Value k0 = VInt64 code" "sasl_credentials t ks" "\<forall>k \<in> set ks. Description k = ''Referral''"
    using delivered_bind_response [OF assms, of B panic] by blast
  note defs = sasl_token_def Let_def deref_def nth_child_def
  show "sasl_token (delivered B panic p) = Some (Inr (Some d))" if "code = 14" "t = Some d"
  proof -
    from q(8) that(2) obtain k where "ks = [k]" "ClassType k = ClassContext" "Tag k = TagObjectDescriptor" "Data k = Some d"
      by (auto simp: sasl_credentials_def)
    with q that show ?thesis by (auto simp: defs)
  qed
  show "sasl_token (delivered B panic p) = None" if "code = 14" "t = None"
    using q that by (simp add: defs sasl_credentials_def)
  show "sasl_token (delivered B panic p) = Some (Inr None)" if "code = 0"
    using q that by (simp add: defs)
qed

section \<open>The handshake\<close>

text \<open>
  The protocol between the two ends: the server answers the client's n-th token with the n-th of a list of
  replies, a token or its success.  The result is what the client sends and the state it is left in; the
  handshake is complete when the client needs no more tokens and the reply has none.
\<close>

definition final_reply :: "bytes option \<Rightarrow> bool" where
  "final_reply t \<longleftrightarrow> t = None \<or> t = Some []"

fun handshake ::
  "'c GSSAPIClient \<Rightarrow> GSSAPIBindRequest \<Rightarrow> int list \<Rightarrow> bool \<Rightarrow> bytes option \<Rightarrow> 'c \<Rightarrow> bytes option list
   \<Rightarrow> (bytes list \<times> 'c) option" where
  "handshake C req opts needInit recv c [] = None"
| "handshake C req opts needInit recv c (t # ts) =
     (case gss_step C req opts needInit recv c of
        Some (c', out, needInit', None) \<Rightarrow>
          if \<not> needInit' \<and> final_reply t then (if ts = [] then Some ([out], c') else None)
          else map_option (\<lambda>(outs, c). (out # outs, c)) (handshake C req opts needInit' t c' ts)
      | _ \<Rightarrow> None)"

text \<open>A session that answers with a reply: a token comes with code 14, a success without one.\<close>

definition replies :: "ber \<Rightarrow> string \<Rightarrow> session \<Rightarrow> bytes option \<Rightarrow> bool" where
  "replies B panic s t \<longleftrightarrow> (\<forall>p. se_send s p = None)
     \<and> (\<exists>p. readPacket (se_responses s) = Inr (delivered B panic p)
          \<and> is_bind_response p (case t of None \<Rightarrow> 0 | Some _ \<Rightarrow> 14) t)"

definition sent_token :: "ber \<Rightarrow> control list \<Rightarrow> session \<times> bytes \<Rightarrow> packet \<Rightarrow> bool" where
  "sent_token B controls x p \<longleftrightarrow> is_request B (fst x) ApplicationBindRequest controls p
     \<and> bind_element [] (sasl_element ''GSSAPI'' (snd x)) (Children p ! 1)"

definition exchanges :: "packet list \<Rightarrow> call list" where
  "exchanges ps = concat (map (\<lambda>p. [SendMessage p, ReceiveResponse, FinishMessage]) ps)"

context ber_library
begin

lemma token_exchange:
  assumes "list_all encodable controls" "replies B panic s t"
  obtains p where "saslBindTokenExchange B s controls token = Some ([SendMessage p, ReceiveResponse, FinishMessage], Inr t)"
    "sent_token B controls (s, token) p"
proof -
  from assms(2) obtain q where s: "\<And>p. se_send s p = None" "readPacket (se_responses s) = Inr (delivered B panic q)"
    "is_bind_response q (case t of None \<Rightarrow> 0 | Some _ \<Rightarrow> 14) t"
    by (auto simp: replies_def)
  obtain p where p: "send_envelope B s (sasl_request B controls token) = Some ([SendMessage p], None)"
    "sent_token B controls (s, token) p"
    using send_envelope_sends [OF assms(1) s(1), of "''GSSAPI''" token] by (auto simp: sent_token_def sasl_request_def)
  have "sasl_token (delivered B panic q) = Some (Inr t)"
    using sasl_token_delivered [OF s(3)] by (cases t) simp_all
  with p(1) s(2) show thesis by (intro that [OF _ p(2)]) (simp add: saslBindTokenExchange_def)
qed

lemma gss_loop_handshake:
  assumes "list_all encodable (gb_Controls req)" "list_all2 (replies B panic) ss ts"
    and "handshake C req opts needInit recv c ts = Some (outs, c')"
  shows "\<exists>ps. gss_loop B C req opts ss needInit recv c = Some (exchanges ps, Some None, c')
    \<and> list_all2 (sent_token B (gb_Controls req)) (zip ss outs) ps"
  using assms(2,3)
proof (induction ts arbitrary: ss needInit recv c outs rule: list.induct)
  case (Cons t ts)
  from Cons.prems(1) obtain s ss' where ss: "ss = s # ss'" "replies B panic s t" "list_all2 (replies B panic) ss' ts"
    by (auto simp: list_all2_Cons2)
  obtain c1 out need where step: "gss_step C req opts needInit recv c = Some (c1, out, need, None)"
    using Cons.prems(2) by (auto split: prod.splits option.splits)
  obtain p where p: "saslBindTokenExchange B s (gb_Controls req) out
      = Some ([SendMessage p, ReceiveResponse, FinishMessage], Inr t)" "sent_token B (gb_Controls req) (s, out) p"
    by (rule token_exchange [OF assms(1) ss(2)])
  show ?case
  proof (cases "\<not> need \<and> final_reply t")
    case True
    with Cons.prems(2) step p ss show ?thesis
      by (auto simp: final_reply_def exchanges_def split: if_splits intro!: exI [of _ "[p]"])
  next
    case False
    with Cons.prems(2) step obtain outs' where outs: "outs = out # outs'"
      "handshake C req opts need t c1 ts = Some (outs', c')"
      by (auto split: if_splits)
    then obtain ps where "gss_loop B C req opts ss' need t c1 = Some (exchanges ps, Some None, c')"
      "list_all2 (sent_token B (gb_Controls req)) (zip ss' outs') ps"
      using Cons.IH [OF ss(3)] by blast
    with False step p ss outs show ?thesis
      by (auto simp: final_reply_def exchanges_def intro!: exI [of _ "p # ps"])
  qed
qed simp

end

lemma length_handshake: "handshake C req opts needInit recv c ts = Some (outs, c') \<Longrightarrow> length outs = length ts"
  by (induction ts arbitrary: needInit recv c outs)
    (fastforce split: prod.splits option.splits if_splits)+

section \<open>The digest exchange\<close>

text \<open>The first response: a bind in progress with the challenge as the server's credentials.\<close>

definition is_digest_challenge :: "packet \<Rightarrow> bytes \<Rightarrow> bool" where
  "is_digest_challenge q text \<longleftrightarrow> length (Children q) = 2 \<and> length (Children (Children q ! 1)) = 4
     \<and> (let ks = Children (Children q ! 1) in Tag (ks ! 0) = TagEnumerated \<and> Value (ks ! 0) = VInt64 14
        \<and> Tag (ks ! 3) = TagObjectDescriptor \<and> Data (ks ! 3) = Some text)"

lemma digest_challenge_text: "is_digest_challenge q text \<Longrightarrow> digest_challenge q = Some (Inr (Some text))"
  by (auto simp: is_digest_challenge_def digest_challenge_def deref_def Let_def)

lemma bind_not_in_progress:
  assumes "is_LDAPResult q code dn msg" "code mod 65536 \<noteq> 14"
  shows "bind_in_progress q = Some False"
proof -
  have "(word_of_int code :: 16 word) \<noteq> 14" using assms(2) by (simp add: word_uint_eq_iff uint_word_of_int)
  with assms(1) show ?thesis
    by (auto simp: is_LDAPResult_def bind_in_progress_def deref_def Let_def)
qed

lemma computeResponse_not_Nil: "computeResponse (Inr rb) params uri username password \<noteq> Inr []"
  by (simp add: computeResponse_def Let_def)

context ber_library
begin

lemma digest_second_sends:
  assumes "\<And>p. se_send s p = None" "receive (se_responses s) = Inr q" "bind_in_progress q = Some False" "resp \<noteq> []"
  obtains p where "digest_second B s s' req resp = Some ([SendMessage p, ReceiveResponse, FinishMessage], Inr q)"
    "is_request B s ApplicationBindRequest [] p" "bind_element [] (sasl_element ''DIGEST-MD5'' resp) (Children p ! 1)"
proof -
  obtain p where "send_envelope B s (append_request B (bind_packet B [] (sasl_auth B ''DIGEST-MD5''
      (if resp \<noteq> [] then [octets B resp ''Credentials''] else []))) []) = Some ([SendMessage p], None)"
    "is_request B s ApplicationBindRequest [] p" "bind_element [] (sasl_element ''DIGEST-MD5'' resp) (Children p ! 1)"
    by (rule send_envelope_sends [OF _ assms(1), of "[]" "''DIGEST-MD5''" resp]) simp_all
  with assms(2-4) show thesis
    by (intro that [of p]) (simp_all add: digest_second_def digest_third_def)
qed

lemma DigestMD5Bind_exchanges:
  assumes "\<not> se_nil s1" "\<And>p. se_send s1 p = None" "\<And>p. se_send s2 p = None" "dg_Password req \<noteq> []"
    and "list_all encodable (dg_Controls req)" "readPacket (se_responses s1) = Inr q1" "receive (se_responses s2) = Inr q2"
    and "is_digest_challenge q1 text" "parseParams text = Inr params"
    and "computeResponse rb params (''ldap/'' @ ToLower lower (dg_Host req)) (dg_Username req) (dg_Password req) = Inr resp"
    and "is_LDAPResult q2 code dn msg" "code mod 65536 \<noteq> 14" "resp \<noteq> []"
  obtains p1 p2 where "DigestMD5Bind B lower rb s1 s2 s3 req
      = Some ([SendMessage p1, ReceiveResponse, SendMessage p2, ReceiveResponse, FinishMessage, FinishMessage],
          Some \<lparr>bres_Controls = []\<rparr>, result_error q2 code dn msg)"
    "is_request B s1 ApplicationBindRequest (dg_Controls req) p1"
    "bind_element [] (sasl_element ''DIGEST-MD5'' []) (Children p1 ! 1)"
    "is_request B s2 ApplicationBindRequest [] p2" "bind_element [] (sasl_element ''DIGEST-MD5'' resp) (Children p2 ! 1)"
proof -
  obtain p1 where p1: "doRequest B s1 (DigestMD5BindRequest_appendTo B req) = Some ([SendMessage p1], None)"
    "is_request B s1 ApplicationBindRequest (dg_Controls req) p1"
    "bind_element [] (sasl_element ''DIGEST-MD5'' []) (Children p1 ! 1)"
    unfolding DigestMD5BindRequest_appendTo_def
    by (rule doRequest_sends [OF sasl_appends [OF assms(5), of "''DIGEST-MD5''" "[]", simplified] assms(1,2)])
      (auto simp: bind_element_def is_application_def)
  obtain p2 where p2: "digest_second B s2 s3 req resp = Some ([SendMessage p2, ReceiveResponse, FinishMessage], Inr q2)"
    "is_request B s2 ApplicationBindRequest [] p2" "bind_element [] (sasl_element ''DIGEST-MD5'' resp) (Children p2 ! 1)"
    by (rule digest_second_sends [OF assms(3,7) bind_not_in_progress [OF assms(11,12)] assms(13)])
  have "params \<noteq> []" using assms(9) parseParams_not_empty by auto
  with assms p2(1) have "digest_answer B lower rb s2 s3 req q1
      = Some ([SendMessage p2, ReceiveResponse, FinishMessage], Some \<lparr>bres_Controls = []\<rparr>, result_error q2 code dn msg)"
    by (simp add: digest_answer_def digest_challenge_text bind_result_def GetLDAPError_of_LDAPResult result_error_def)
  with p1(1) assms(4,6) show thesis
    by (intro that [OF _ p1(2,3) p2(2,3)]) (simp add: DigestMD5Bind_def)
qed

end

section \<open>Properties\<close>

text \<open>C12. The GSSAPI bind carries out the handshake: when the client and a server's replies complete the
  protocol, the bind returns without an error after one exchange per reply.  The client is given the
  server's tokens in order as the reader delivers them, its own tokens go out in bind requests of the
  GSSAPI mechanism in order, every message is finished, and the security context is deleted.\<close>

theorem GSSAPIBind_handshake:
  assumes "ber_library B" "list_all encodable (gb_Controls req)" "list_all2 (replies B panic) ss ts"
    and "handshake C req opts True None c ts = Some (outs, c')"
  shows "\<exists>ps. GSSAPIBindRequestWithAPOptions B C ss c req opts
        = Some (exchanges ps, Some None, gss_DeleteSecContext C c')
    \<and> length ps = length ts \<and> list_all2 (sent_token B (gb_Controls req)) (zip ss outs) ps"
proof -
  obtain ps where ps: "gss_loop B C req opts ss True None c = Some (exchanges ps, Some None, c')"
    "list_all2 (sent_token B (gb_Controls req)) (zip ss outs) ps"
    using ber_library.gss_loop_handshake [OF assms] by blast
  moreover have "length ps = length ts"
    using list_all2_lengthD [OF ps(2)] list_all2_lengthD [OF assms(3)] length_handshake [OF assms(4)] by simp
  ultimately show ?thesis by (auto simp: GSSAPIBindRequestWithAPOptions_def)
qed

definition bind_answer :: "int \<Rightarrow> bytes option \<Rightarrow> packet" where
  "bind_answer code t = Packet ClassUniversal TypeConstructed 16 VNil [] (Some []) [
     Packet ClassUniversal TypePrimitive 2 (VInt64 7) [] (Some []) [] [],
     Packet ClassApplication TypeConstructed 1 VNil [] (Some []) ([
       Packet ClassUniversal TypePrimitive 10 (VInt64 code) [] (Some []) [] [],
       Packet ClassUniversal TypePrimitive 4 (VString []) [] (Some []) [] [],
       Packet ClassUniversal TypePrimitive 4 (VString []) [] (Some []) [] []]
       @ (case t of None \<Rightarrow> [] | Some d \<Rightarrow> [Packet ClassContext TypePrimitive 7 VNil [] (Some d) [] []])) []] []"

lemma bind_answer_response: "is_bind_response (bind_answer code t) code t"
  by (auto simp: is_bind_response_def bind_answer_def sasl_credentials_def split: option.splits)

text \<open>A client that needs two tokens; its state is what it was given.\<close>

definition two_token_client :: "bytes option list GSSAPIClient" where
  "two_token_client =
     \<lparr>gss_InitSecContextWithOptions = (\<lambda>c target t options. Some (c @ [t], ''hello'', t = None, None)),
      gss_NegotiateSaslAuth = (\<lambda>c t authzid. Some (c @ [t], authzid, None)), gss_DeleteSecContext = id\<rparr>"

definition answering :: "int \<Rightarrow> bytes option \<Rightarrow> session" where
  "answering code t = working [delivered ref_ber [] (bind_answer code t)]"

lemma answering_replies: "replies ref_ber [] (answering (case t of None \<Rightarrow> 0 | Some _ \<Rightarrow> 14) t) t"
proof -
  let ?code = "case t of None \<Rightarrow> 0 | Some _ \<Rightarrow> 14"
  have "delivered ref_ber [] (bind_answer ?code t) \<noteq> NilPacket"
    using delivered_bind_response [OF bind_answer_response] by blast
  then show ?thesis unfolding replies_def answering_def
    by (intro conjI allI exI [of _ "bind_answer ?code t"] bind_answer_response) simp_all
qed

theorem GSSAPIBind_handshake_witness:
  "\<exists>ps. GSSAPIBindRequestWithAPOptions ref_ber two_token_client
       [answering 14 (Some ''a''), answering 14 (Some ''b''), answering 0 None] []
       \<lparr>gb_ServicePrincipalName = ''ldap/h'', gb_AuthZID = ''me'', gb_Controls = []\<rparr> []
     = Some (exchanges ps, Some None, [None, Some ''a'', Some ''b'']) \<and> length ps = 3"
proof -
  let ?req = "\<lparr>gb_ServicePrincipalName = ''ldap/h'', gb_AuthZID = ''me'', gb_Controls = []\<rparr>"
  let ?ts = "[Some ''a'', Some ''b'', None]"
  have h: "handshake two_token_client ?req [] True None [] ?ts
      = Some ([''hello'', ''hello'', ''me''], [None, Some ''a'', Some ''b''])"
    by (simp add: gss_step_def two_token_client_def final_reply_def)
  have r: "list_all2 (replies ref_ber [])
      [answering 14 (Some ''a''), answering 14 (Some ''b''), answering 0 None] ?ts"
    using answering_replies [of "Some ''a''"] answering_replies [of "Some ''b''"] answering_replies [of None] by simp
  have "list_all encodable (gb_Controls ?req)" by simp
  moreover have "gss_DeleteSecContext two_token_client x = x" for x by (simp add: two_token_client_def)
  moreover have "length ?ts = 3" by simp
  ultimately show ?thesis using GSSAPIBind_handshake [OF ref.ber_library_axioms _ r h] by metis
qed

text \<open>C38. A server that answers a GSSAPI bind with the code for a bind in progress and no credentials, which the protocol
  allows, makes the bind panic: the response has three elements, and the code looks at the fourth.\<close>

theorem sasl_without_credentials_panics:
  assumes "ber_library B" "list_all encodable controls" "\<And>p. se_send s p = None"
    and "readPacket (se_responses s) = Inr (delivered B panic p)" "is_bind_response p 14 None"
  shows "saslBindTokenExchange B s controls token = None"
proof -
  obtain q where "send_envelope B s (sasl_request B controls token) = Some ([SendMessage q], None)"
    unfolding sasl_request_def by (rule ber_library.send_envelope_sends [OF assms(1-3)])
  then show ?thesis using assms(4) sasl_token_delivered(2) [OF assms(5)] by (simp add: saslBindTokenExchange_def)
qed

theorem sasl_without_credentials_panics_witness:
  "saslBindTokenExchange ref_ber (answering 14 None) [] ''token'' = None"
proof -
  have "delivered ref_ber [] (bind_answer 14 None) \<noteq> NilPacket"
    using delivered_bind_response [OF bind_answer_response] by blast
  then show ?thesis unfolding answering_def
    by (intro sasl_without_credentials_panics [OF ref.ber_library_axioms _ _ _ bind_answer_response]) simp_all
qed

definition challenge_param :: "directive list \<Rightarrow> string \<Rightarrow> string" where
  "challenge_param ds key =
     (case map_of (rev (map (\<lambda>d. (di_key d, value_bytes (di_value d))) ds)) key of None \<Rightarrow> [] | Some v \<Rightarrow> v)"

lemma parsed_challenge:
  assumes "ds \<noteq> []" "list_all directive_ok ds" "list_all directive_ascii ds" "''authzid'' \<notin> di_key ` set ds"
  obtains params where "parseParams (challenge_text ds) = Inr params" "param params = challenge_param ds"
    "param params ''authzid'' = []" "\<forall>key. ascii_string (param params key)"
proof -
  let ?ps = "map (\<lambda>d. (di_key d, value_bytes (di_value d))) ds"
  have pairs: "map directive_pair ds = ?ps"
    using assms(3) by (auto simp: list_all_iff directive_ascii_def directive_pair_def byte_runes_ascii)
  obtain params where params: "parseParams (challenge_text ds) = Inr params" "map_of params = map_of (rev ?ps)"
    using parseParams_challenge [OF assms(1,2)] pairs by auto
  have "ascii_string v" if "map_of (rev ?ps) key = Some v" for key v
    using map_of_SomeD [OF that] assms(3) by (auto simp: list_all_iff directive_ascii_def)
  moreover have "map_of (rev ?ps) ''authzid'' = None" using assms(4) by (auto simp: map_of_eq_None_iff image_image)
  ultimately show thesis
    using params by (intro that [of params]) (auto simp: param_def challenge_param_def fun_eq_iff split: option.splits)
qed

text \<open>C14. DIGEST-MD5: for every challenge a server can write in ASCII without an \<^verbatim>\<open>authzid\<close>, the bind sends the
  mechanism, then a response that gives the server back the user name, the realm and the nonce of the challenge
  and the URI of the host, and that a server which knows the password and computes the digest of RFC 2831 over what
  it reads accepts; it finishes both
  messages and returns nil or the error of the second response.\<close>

theorem DigestMD5Bind_authenticates:
  assumes "ber_library B" "\<not> se_nil s1" "\<And>p. se_send s1 p = None" "\<And>p. se_send s2 p = None"
    and "dg_Password req \<noteq> []" "list_all encodable (dg_Controls req)"
    and "ascii_string (dg_Username req)" "ascii_string (dg_Host req)"
    and "readPacket (se_responses s1) = Inr q1" "is_digest_challenge q1 (challenge_text ds)"
    and "ds \<noteq> []" "list_all directive_ok ds" "list_all directive_ascii ds" "''authzid'' \<notin> di_key ` set ds"
    and "receive (se_responses s2) = Inr q2" "is_LDAPResult q2 code dn msg" "code mod 65536 \<noteq> 14"
  shows "\<exists>p1 p2 resp m. DigestMD5Bind B lower (Inr rb) s1 s2 s3 req
      = Some ([SendMessage p1, ReceiveResponse, SendMessage p2, ReceiveResponse, FinishMessage, FinishMessage],
          Some \<lparr>bres_Controls = []\<rparr>, result_error q2 code dn msg)
    \<and> is_request B s1 ApplicationBindRequest (dg_Controls req) p1
    \<and> bind_element [] (sasl_element ''DIGEST-MD5'' []) (Children p1 ! 1)
    \<and> is_request B s2 ApplicationBindRequest [] p2
    \<and> bind_element [] (sasl_element ''DIGEST-MD5'' resp) (Children p2 ! 1)
    \<and> parseParams resp = Inr m \<and> map_of m ''username'' = Some (dg_Username req)
    \<and> map_of m ''realm'' = Some (challenge_param ds ''realm'') \<and> map_of m ''nonce'' = Some (challenge_param ds ''nonce'')
    \<and> map_of m ''digest-uri'' = Some (''ldap/'' @ ToLower lower (dg_Host req))
    \<and> server_accepts m (dg_Password req)"
proof -
  obtain params where params: "parseParams (challenge_text ds) = Inr params"
    "param params = challenge_param ds" "param params ''authzid'' = []" "\<forall>key. ascii_string (param params key)"
    by (rule parsed_challenge [OF assms(11-14)])
  let ?uri = "''ldap/'' @ ToLower lower (dg_Host req)"
  have "ascii_string ?uri" using ToLower_ascii [OF assms(8)] by (simp add: is_ascii_def)
  from computeResponse_verifiable [OF assms(7) this params(4) [rule_format] params(4) [rule_format] params(3), of rb "dg_Password req"]
  obtain resp m where resp: "computeResponse (Inr rb) params ?uri (dg_Username req) (dg_Password req) = Inr resp"
    "parseParams resp = Inr m" "map_of m ''username'' = Some (dg_Username req)"
    "map_of m ''realm'' = Some (param params ''realm'')" "map_of m ''nonce'' = Some (param params ''nonce'')"
    "map_of m ''digest-uri'' = Some ?uri" "server_accepts m (dg_Password req)"
    by (elim exE conjE)
  moreover have "resp \<noteq> []" using resp(1) computeResponse_not_Nil by metis
  ultimately show ?thesis
    using ber_library.DigestMD5Bind_exchanges [OF assms(1-6,9,15,10) params(1) resp(1) assms(16,17)] params(2)
    by metis
qed

definition sample_challenge :: "directive list" where
  "sample_challenge = [plain ''realm'' (Quoted ''h.org''), plain ''nonce'' (Quoted [DQUOTE]), plain ''qop'' (Token ''auth'')]"

lemma sample_challenge_ok:
  "sample_challenge \<noteq> []" "list_all directive_ok sample_challenge" "list_all directive_ascii sample_challenge"
  "''authzid'' \<notin> di_key ` set sample_challenge" "challenge_param sample_challenge ''nonce'' = [DQUOTE]"
  by (simp_all add: sample_challenge_def directive_ascii_def is_ascii_def key_byte_def token_byte_def linear_space_def
      challenge_param_def)

lemma bind_answer_challenge: "is_digest_challenge (bind_answer 14 (Some text)) text"
  by (simp add: is_digest_challenge_def bind_answer_def)

lemma working_receive [simp]: "q \<noteq> NilPacket \<Longrightarrow> receive (se_responses (working (q # qs))) = Inr q"
  by (simp add: working_def receive_def ReadPacket_def)

theorem DigestMD5Bind_authenticates_witness:
  "\<exists>p1 p2 resp m. DigestMD5Bind ref_ber (\<lambda>r. r) (Inr ''abcdefghijklmnop'')
       (working [bind_answer 14 (Some (challenge_text sample_challenge))]) (working [answer ApplicationBindResponse 0])
       (working []) \<lparr>dg_Host = ''H.org'', dg_Username = ''me'', dg_Password = ''secret'', dg_Controls = []\<rparr>
     = Some ([SendMessage p1, ReceiveResponse, SendMessage p2, ReceiveResponse, FinishMessage, FinishMessage],
         Some \<lparr>bres_Controls = []\<rparr>, None)
     \<and> parseParams resp = Inr m \<and> map_of m ''nonce'' = Some [DQUOTE] \<and> server_accepts m ''secret''"
proof -
  let ?req = "\<lparr>dg_Host = ''H.org'', dg_Username = ''me'', dg_Password = ''secret'', dg_Controls = []\<rparr>"
  let ?q = "bind_answer 14 (Some (challenge_text sample_challenge))" and ?q2 = "answer ApplicationBindResponse 0"
  have req: "dg_Password ?req \<noteq> []" "list_all encodable (dg_Controls ?req)" "ascii_string (dg_Username ?req)"
    "ascii_string (dg_Host ?req)" "dg_Password ?req = ''secret''"
    by (simp_all add: is_ascii_def)
  have nil: "?q \<noteq> NilPacket" "?q2 \<noteq> NilPacket" by (simp_all add: bind_answer_def answer_def)
  have err: "result_error ?q2 0 ''dc=x'' ''denied'' = None" by (simp add: result_error_def)
  have code: "(0 :: int) mod 65536 \<noteq> 14" by simp
  from DigestMD5Bind_authenticates [OF ref.ber_library_axioms working_sel(1) working_sel(3) working_sel(3) req(1-4)
      working_read [OF nil(1), of "[]"] bind_answer_challenge sample_challenge_ok(1-4)
      working_receive [OF nil(2), of "[]"] answer_LDAPResult code, of "\<lambda>r. r" "''abcdefghijklmnop''" "working []"]
  show ?thesis unfolding err sample_challenge_ok(5) req(5) by (elim exE conjE) (intro exI conjI)
qed

end
