(* ===== verification/GSSAPI_Properties.thy ===== *)
theory GSSAPI_Properties
  imports GSSAPI_Client Bind_Handshake
begin

text \<open>
  The GSSAPI clients: the parser of wrap tokens and its inverse, what a bind with the Kerberos client proves
  about the server, and what the clients answer in the last step.
\<close>

section \<open>Wrap tokens\<close>

definition wrap_bytes :: "WrapToken \<Rightarrow> bytes" where
  "wrap_bytes wt =
     getGssWrapTokenId @ [char_of (uint (wt_Flags wt)), CHR 0xFF] @ big_endian 2 (uint (wt_EC wt))
     @ big_endian 2 (uint (wt_RRC wt)) @ big_endian 8 (uint (wt_SndSeqNum wt)) @ wt_CheckSum wt @ wt_Payload wt"

definition wrap_ok :: "bool \<Rightarrow> WrapToken \<Rightarrow> bool" where
  "wrap_ok fromAcceptor wt \<longleftrightarrow> length (wt_CheckSum wt) = unat (wt_EC wt) \<and> (wt_Flags wt AND 1 = 1 \<longleftrightarrow> fromAcceptor)"

lemma length_big_endian [simp]: "length (big_endian k n) = k"
  by (simp add: big_endian_def)

lemma of_big_endian_inverse: "0 \<le> n \<Longrightarrow> n < 256 ^ k \<Longrightarrow> of_big_endian (big_endian k n) = n"
  by (simp add: of_big_endian_def big_endian_def of_little_endian_inverse)

lemma int_of_char_bounds [simp]: "0 \<le> (of_char c :: int)" "(of_char c :: int) < 256"
  using pos_mod_sign [of 256 "of_char c :: int"] pos_mod_bound [of 256 "of_char c :: int"] by simp_all

lemma of_little_endian_bounds: "0 \<le> of_little_endian b \<and> of_little_endian b < 256 ^ length b"
proof (induction b)
  case (Cons c b)
  have "of_char c + 256 * n < 256 * m" if "n + 1 \<le> m" for n m :: int
    using that int_of_char_bounds [of c] by linarith
  with Cons show ?case by simp
qed simp

lemma little_endian_inverse: "little_endian (length b) (of_little_endian b) = b"
proof (induction b)
  case (Cons c b)
  have "(of_char c + 256 * of_little_endian b) mod 256 = (of_char c :: int)"
    "(of_char c + 256 * of_little_endian b) div 256 = of_little_endian b"
    by (simp_all add: div_mult_self2)
  with Cons show ?case by simp
qed simp

lemma big_endian_inverse: "length b = k \<Longrightarrow> big_endian k (of_big_endian b) = b"
  using little_endian_inverse [of "rev b"] by (simp add: big_endian_def of_big_endian_def)

lemma of_big_endian_bounds: "length b = k \<Longrightarrow> 0 \<le> of_big_endian b \<and> of_big_endian b < 256 ^ k"
  using of_little_endian_bounds [of "rev b"] by (simp add: of_big_endian_def)

lemma wrap_bytes_split:
  assumes "16 \<le> length b"
  shows "take 2 b @ [b ! 2, b ! 3] @ take 2 (drop 4 b) @ take 2 (drop 6 b) @ take 8 (drop 8 b) @ drop 16 b = b"
proof -
  have "b = take 2 b @ drop 2 b" "drop 2 b = take 2 (drop 2 b) @ drop 4 b"
    "drop 4 b = take 2 (drop 4 b) @ drop 6 b" "drop 6 b = take 2 (drop 6 b) @ drop 8 b"
    "drop 8 b = take 8 (drop 8 b) @ drop 16 b"
    using append_take_drop_id [of 2 "drop 2 b"] append_take_drop_id [of 2 "drop 4 b"]
      append_take_drop_id [of 2 "drop 6 b"] append_take_drop_id [of 8 "drop 8 b"] by simp_all
  moreover have "take 2 (drop 2 b) = [b ! 2, b ! 3]"
    using assms by (simp add: list_eq_iff_nth_eq less_Suc_eq numeral_eq_Suc)
  ultimately show ?thesis by metis
qed

text \<open>What the parser reads from the fixed part of the header.\<close>

definition header_number :: "bytes \<Rightarrow> nat \<Rightarrow> nat \<Rightarrow> int" where
  "header_number b i k = of_big_endian (take k (drop i b))"

lemma big_endian_header:
  assumes "i + k \<le> length b"
  shows "big_endian k (header_number b i k) = take k (drop i b)" "0 \<le> header_number b i k" "header_number b i k < 256 ^ k"
  unfolding header_number_def using assms
  by (simp_all add: big_endian_inverse of_big_endian_bounds [of "take k (drop i b)" k])

lemma slice_header:
  "16 \<le> length b \<Longrightarrow> slice b 4 6 = Some (take 2 (drop 4 b)) \<and> slice b 6 8 = Some (take 2 (drop 6 b))
     \<and> slice b 8 16 = Some (take 8 (drop 8 b))"
  by (simp add: slice_def)

lemma wrap_header_total: "\<exists>r. wrap_header b x = Some r"
  by (auto simp: wrap_header_def slice_def byte_at_def Let_def)

lemma uint_of_char: "uint (of_char c :: 8 word) = of_char c"
  by (cases c) (simp add: of_char_def)

lemma wrap_header_cases:
  assumes "wrap_header b x = Some (Inr flags)"
  shows "16 \<le> length b" "take 2 b = getGssWrapTokenId" "b ! 2 = char_of (uint flags)" "b ! 3 = CHR 0xFF"
    "flags AND 1 = 1 \<longleftrightarrow> x"
proof -
  have c: "c = char_of (uint (of_char c :: 8 word))" for c by (simp add: uint_of_char)
  from assms show "16 \<le> length b" "take 2 b = getGssWrapTokenId" "flags AND 1 = 1 \<longleftrightarrow> x"
    by (auto simp: wrap_header_def slice_def byte_at_def Let_def split: if_splits)
  from assms have "flags = of_char (b ! 2)" "(of_char (b ! 3) :: 8 word) = 0xFF"
    by (auto simp: wrap_header_def slice_def byte_at_def Let_def split: if_splits)
  then show "b ! 2 = char_of (uint flags)" "b ! 3 = CHR 0xFF" using c [of "b ! 2"] c [of "b ! 3"] by (simp_all add: char_of_def)
qed

text \<open>The whole parser, once the header is accepted.\<close>

lemma UnmarshalWrapToken_accepted:
  assumes "wrap_header b x = Some (Inr flags)"
  shows "UnmarshalWrapToken wt b x =
    (let n = header_number b 4 2 in
     if int (length b) - 16 < n then
       Some (wt, Some (ErrText (''inconsistent checksum length: '' @ decimal (length b)
         @ '' bytes to parse, checksum length is '' @ decimal (nat n))))
     else Some (wt\<lparr>wt_Flags := flags, wt_EC := word_of_int n, wt_RRC := word_of_int (header_number b 6 2),
        wt_SndSeqNum := word_of_int (header_number b 8 8), wt_CheckSum := take (nat n) (drop 16 b),
        wt_Payload := drop (16 + nat n) b\<rparr>, None))"
proof -
  let ?n = "header_number b 4 2"
  note len = wrap_header_cases(1) [OF assms]
  have n: "0 \<le> ?n" "?n < 65536" using big_endian_header(2,3) [of 4 2 b] len by simp_all
  then have u: "uint (word_of_int ?n :: 16 word) = ?n" by (simp add: uint_word_of_int)
  then have un: "unat (word_of_int ?n :: 16 word) = nat ?n" by (simp add: unat_eq_nat_uint)
  have "slice b 16 (16 + ?n) = Some (take (nat ?n) (drop 16 b))" "slice b (16 + ?n) (int (length b)) = Some (drop (16 + nat ?n) b)"
    if "\<not> int (length b) - 16 < ?n"
    using that n by (simp_all add: slice_def nat_add_distrib)
  with assms u un slice_header [OF len] show ?thesis
    unfolding UnmarshalWrapToken_def by (simp add: header_number_def [symmetric] Let_def)
qed

lemma UnmarshalWrapToken_total: "\<exists>r. UnmarshalWrapToken wt b x = Some r"
proof -
  obtain r where r: "wrap_header b x = Some r" using wrap_header_total by blast
  show ?thesis
  proof (cases r)
    case (Inl e)
    with r show ?thesis by (simp add: UnmarshalWrapToken_def)
  next
    case (Inr flags)
    with r show ?thesis by (simp add: UnmarshalWrapToken_accepted Let_def)
  qed
qed

lemma UnmarshalWrapToken_sound:
  assumes "UnmarshalWrapToken wt b x = Some (wt', None)"
  shows "wrap_ok x wt' \<and> wrap_bytes wt' = b"
proof -
  from assms obtain flags where h: "wrap_header b x = Some (Inr flags)"
    by (auto simp: UnmarshalWrapToken_def split: bind_splits sum.splits)
  note hc = wrap_header_cases [OF h]
  let ?n = "header_number b 4 2"
  have b: "big_endian 2 ?n = take 2 (drop 4 b)" "big_endian 2 (header_number b 6 2) = take 2 (drop 6 b)"
    "big_endian 8 (header_number b 8 8) = take 8 (drop 8 b)"
    and n: "0 \<le> ?n" "?n < 65536" "0 \<le> header_number b 6 2" "header_number b 6 2 < 65536"
    "0 \<le> header_number b 8 8" "header_number b 8 8 < 2 ^ 64"
    using big_endian_header [of 4 2 b] big_endian_header [of 6 2 b] big_endian_header [of 8 8 b] hc(1) by simp_all
  then have u: "uint (word_of_int ?n :: 16 word) = ?n" "uint (word_of_int (header_number b 6 2) :: 16 word) = header_number b 6 2"
    "uint (word_of_int (header_number b 8 8) :: 64 word) = header_number b 8 8"
    by (simp_all add: uint_word_of_int)
  from assms have wt': "\<not> int (length b) - 16 < ?n" "wt' = wt\<lparr>wt_Flags := flags, wt_EC := word_of_int ?n,
      wt_RRC := word_of_int (header_number b 6 2), wt_SndSeqNum := word_of_int (header_number b 8 8),
      wt_CheckSum := take (nat ?n) (drop 16 b), wt_Payload := drop (16 + nat ?n) b\<rparr>"
    by (simp_all add: UnmarshalWrapToken_accepted [OF h] Let_def split: if_splits)
  have "length (take (nat ?n) (drop 16 b)) = unat (word_of_int ?n :: 16 word)"
    using wt'(1) n(1) u(1) by (simp add: unat_eq_nat_uint)
  then have "wrap_ok x wt'" unfolding wrap_ok_def wt'(2) using hc(5) by simp
  moreover have "take (nat ?n) (drop 16 b) @ drop (16 + nat ?n) b = drop 16 b"
    by (metis add.commute append_take_drop_id drop_drop)
  then have "wrap_bytes wt' = take 2 b @ [b ! 2, b ! 3] @ take 2 (drop 4 b) @ take 2 (drop 6 b) @ take 8 (drop 8 b) @ drop 16 b"
    unfolding wrap_bytes_def wt'(2) using hc(2-4) by (simp add: u b)
  ultimately show ?thesis using wrap_bytes_split [OF hc(1)] by simp
qed

lemma uint_bounds: "0 \<le> uint (w :: 16 word)" "uint (w :: 16 word) < 256 ^ 2" "0 \<le> uint (v :: 64 word)" "uint (v :: 64 word) < 256 ^ 8"
  using uint_bounded [of w] uint_bounded [of v] by simp_all

lemma UnmarshalWrapToken_complete:
  assumes "wrap_ok x wt"
  shows "UnmarshalWrapToken wt0 (wrap_bytes wt) x = Some (wt, None)"
proof -
  let ?b = "wrap_bytes wt"
  have flags: "of_char (char_of (uint (wt_Flags wt)) :: char) = wt_Flags wt"
    using uint_bounded [of "wt_Flags wt"] by (simp add: word_uint_eq_iff uint_of_char)
  have len: "length ?b = 16 + length (wt_CheckSum wt) + length (wt_Payload wt)"
    by (simp add: wrap_bytes_def getGssWrapTokenId_def)
  have h: "wrap_header ?b x = Some (Inr (wt_Flags wt))"
    using assms len flags unfolding wrap_header_def wrap_ok_def
    by (auto simp: slice_def byte_at_def wrap_bytes_def getGssWrapTokenId_def Let_def)
  have n: "header_number ?b 4 2 = uint (wt_EC wt)" "header_number ?b 6 2 = uint (wt_RRC wt)"
    "header_number ?b 8 8 = uint (wt_SndSeqNum wt)"
    by (simp_all add: header_number_def wrap_bytes_def getGssWrapTokenId_def of_big_endian_inverse [OF uint_bounds(1,2)]
        of_big_endian_inverse [OF uint_bounds(3,4)])
  have d: "drop 16 ?b = wt_CheckSum wt @ wt_Payload wt" by (simp add: wrap_bytes_def getGssWrapTokenId_def)
  have ec: "nat (uint (wt_EC wt)) = length (wt_CheckSum wt)" using assms by (simp add: wrap_ok_def)
  have "drop (16 + length (wt_CheckSum wt)) ?b = wt_Payload wt"
    using d by (metis add.commute append_eq_conv_conj drop_drop)
  moreover have "\<not> int (length ?b) - 16 < uint (wt_EC wt)" using len ec by linarith
  ultimately show ?thesis
    unfolding UnmarshalWrapToken_accepted [OF h] n Let_def ec d by simp
qed

section \<open>Mutual authentication\<close>

text \<open>
  A key the client got with a ticket for the service, and a token that proves its sender knows the key: an
  AP-REP whose encrypted part opens with it.
\<close>

definition session_key :: "('l, 'tkt, 'k, 't, 'e) krb_library \<Rightarrow> string \<Rightarrow> 'k \<Rightarrow> bool" where
  "session_key K target ekey \<longleftrightarrow> (\<exists>l l' tkt. krb_GetServiceTicket K l target = (l', Inr (tkt, ekey)))"

definition authentic_reply :: "('l, 'tkt, 'k, 't, 'e) krb_library \<Rightarrow> 'k \<Rightarrow> bytes \<Rightarrow> bool" where
  "authentic_reply K ekey t \<longleftrightarrow>
     (\<exists>token encpart subkey. krb_Unmarshal K t = Inr token \<and> krb_IsAPRep K token
        \<and> krb_DecryptEncPart K (krb_EncPart K token) ekey AP_REP_ENCPART = Inr encpart
        \<and> krb_UnmarshalEncAPRepPart K encpart = Inr subkey)"

definition received :: "session list \<Rightarrow> bytes \<Rightarrow> bool" where
  "received ss t \<longleftrightarrow> (\<exists>s \<in> set ss. \<exists>q. readPacket (se_responses s) = Inr q \<and> sasl_token q = Some (Inr (Some t)))"

lemma krb_init_first_step:
  "krb_init_first K c target opts = (c', out, need, None) \<Longrightarrow> need \<and> session_key K target (kc_ekey c')"
  unfolding krb_init_first_def session_key_def by (fastforce split: prod.splits sum.splits)

lemma krb_init_reply_step:
  "krb_init_reply K c t = (c', out, need, None) \<Longrightarrow> (\<not> need \<longrightarrow> authentic_reply K (kc_ekey c) t) \<and> kc_ekey c' = kc_ekey c"
  unfolding krb_init_reply_def krb_read_reply_def authentic_reply_def by (auto split: sum.splits if_splits)

lemma krb_step:
  assumes "gss_step (krb_client K) req opts True recv c = Some (c', out, need, None)"
    and "recv \<noteq> None \<Longrightarrow> session_key K (gb_ServicePrincipalName req) (kc_ekey c)"
  shows "session_key K (gb_ServicePrincipalName req) (kc_ekey c')"
    and "\<not> need \<Longrightarrow> \<exists>t. recv = Some t \<and> authentic_reply K (kc_ekey c') t"
  using assms
  by (auto simp: gss_step_def krb_client_def krb_InitSecContextWithOptions_def split: option.splits
      dest!: krb_init_first_step krb_init_reply_step)

lemma sasl_exchange_received:
  "saslBindTokenExchange B s controls token = Some (calls, Inr (Some t)) \<Longrightarrow> received [s] t"
  by (auto simp: saslBindTokenExchange_def received_def split: bind_splits option.splits sum.splits)

lemma krb_loop_authenticates:
  assumes "gss_loop B (krb_client K) req opts ss True recv c = Some (calls, Some None, c')"
    and "recv \<noteq> None \<Longrightarrow> session_key K (gb_ServicePrincipalName req) (kc_ekey c)"
    and "\<And>t. recv = Some t \<Longrightarrow> P t" "\<And>s t. s \<in> set ss \<Longrightarrow> received [s] t \<Longrightarrow> P t"
  shows "\<exists>ekey t. session_key K (gb_ServicePrincipalName req) ekey \<and> authentic_reply K ekey t \<and> P t"
  using assms
proof (induction ss arbitrary: recv c calls)
  case (Cons s ss)
  from Cons.prems(1) obtain c1 out need where step: "gss_step (krb_client K) req opts True recv c = Some (c1, out, need, None)"
    by (auto split: bind_splits option.splits)
  note key = krb_step [OF step Cons.prems(2)]
  show ?case
  proof (cases need)
    case False
    with key Cons.prems(3) show ?thesis by blast
  next
    case True
    with Cons.prems(1) step obtain more t cs where
      t: "saslBindTokenExchange B s (gb_Controls req) out = Some (more, Inr t)"
      "gss_loop B (krb_client K) req opts ss True t c1 = Some (cs, Some None, c')"
      by (auto split: bind_splits sum.splits)
    then have "P x" if "t = Some x" for x
      using that Cons.prems(4) [of s x] sasl_exchange_received [of B s] by auto
    with key(1) Cons.prems(4) show ?thesis by (intro Cons.IH [OF t(2)]) auto
  qed
qed simp

section \<open>No security layer\<close>

text \<open>
  What both clients promise of the last step: a token they answer with is the wrapping of four zero octets and the
  authorization identity.
\<close>

locale no_layer_client =
  fixes C :: "'c GSSAPIClient"
    and wraps :: "bytes \<Rightarrow> bytes \<Rightarrow> bool"
  assumes negotiate: "gss_NegotiateSaslAuth C c t authzid = Some (c', out, None) \<Longrightarrow> wraps (no_layer @ authzid) out"
begin

lemma step_no_layer:
  "gss_step C req opts False recv c = Some (c', out, need, None) \<Longrightarrow> \<not> need \<and> wraps (no_layer @ gb_AuthZID req) out"
  using negotiate by (auto simp: gss_step_def split: bind_splits)

lemma handshake_no_layer:
  assumes "handshake C req opts False recv c ts = Some (outs, c')"
  shows "list_all (wraps (no_layer @ gb_AuthZID req)) outs"
  using assms
proof (induction ts arbitrary: recv c outs)
  case (Cons t ts)
  from Cons.prems obtain c1 out need where step: "gss_step C req opts False recv c = Some (c1, out, need, None)"
    by (auto split: option.splits prod.splits)
  with Cons step_no_layer [OF step] show ?case by (auto split: if_splits)
qed simp

end

definition krb_wraps :: "('l, 'tkt, 'k, 't, 'e) krb_library \<Rightarrow> bytes \<Rightarrow> bytes \<Rightarrow> bool" where
  "krb_wraps K payload out \<longleftrightarrow>
     (\<exists>key ec token. krb_SetCheckSum K
        \<lparr>wt_Flags = 0b100, wt_EC = ec, wt_RRC = 0, wt_SndSeqNum = 1, wt_CheckSum = [], wt_Payload = payload\<rparr>
        key GSSAPI_INITIATOR_SEAL = Inr token \<and> krb_MarshalWrapToken K token = Inr out)"

definition sspi_wraps :: "('x, 'cred) sspi_library \<Rightarrow> bytes \<Rightarrow> bytes \<Rightarrow> bool" where
  "sspi_wraps W payload out \<longleftrightarrow> (\<exists>ctx ctx'. sspi_EncryptMessage W ctx payload KERB_WRAP_NO_ENCRYPT = Some (ctx', Inr out))"

lemma handshakePayload_no_layer: "handshakePayload 0 maxSize authzid = no_layer @ authzid"
  by (simp add: handshakePayload_def big_endian_def no_layer_def numeral_eq_Suc char_of_def)

text \<open>With a security layer the size is cut to the three octets it has.\<close>

lemma handshakePayload_layer:
  assumes "secLayer \<noteq> 0"
  shows "handshakePayload secLayer maxSize authzid
    = char_of (uint secLayer) # big_endian 3 (min (uint maxSize) 0xFFFFFF) @ authzid"
proof -
  have "min (uint maxSize) 0xFFFFFF = uint (if 0xFFFFFF > maxSize then maxSize else 0xFFFFFF)"
    by (auto simp: min_def word_less_def)
  with assms show ?thesis by (simp add: handshakePayload_def big_endian_def numeral_eq_Suc list_update_append)
qed

lemma krb_answer_wraps: "krb_answer K key authzid = Inr out \<Longrightarrow> krb_wraps K (no_layer @ authzid) out"
  unfolding krb_answer_def krb_wraps_def by (auto split: sum.splits)

lemma krb_negotiate_wraps:
  "krb_NegotiateSaslAuth K c input authzid = Some (Inr out) \<Longrightarrow> krb_wraps K (no_layer @ authzid) out"
  by (auto simp: krb_NegotiateSaslAuth_def krb_answer_wraps split: bind_splits option.splits if_splits)

lemma returned_None: "returned c r = (c', out, None) \<longleftrightarrow> r = Inr out \<and> c' = c"
  by (cases r) (auto simp: returned_def)

interpretation krb: no_layer_client "krb_client K" "krb_wraps K" for K
  by unfold_locales (auto simp: krb_client_def returned_None krb_negotiate_wraps)

lemma sspi_negotiate_wraps:
  "sspi_NegotiateSaslAuth W c input authzid = Some (c', out, None) \<Longrightarrow> sspi_wraps W (no_layer @ authzid) out"
  unfolding sspi_NegotiateSaslAuth_def sspi_wraps_def handshakePayload_no_layer Let_def
  by (fastforce split: bind_splits sum.splits if_splits)

interpretation sspi: no_layer_client "sspi_client W" "sspi_wraps W" for W
  by unfold_locales (auto simp: sspi_client_def sspi_negotiate_wraps)

section \<open>A Kerberos library\<close>

text \<open>
  An instance for the witnesses: one service, whose tickets have the session key 7; its AP-REP opens with that key and
  gives the subkey 8, under which its offer of layers verifies.
\<close>

definition sample_krb :: "(unit, unit, nat, bytes, bytes) krb_library" where
  "sample_krb =
     \<lparr>krb_GetServiceTicket = (\<lambda>l target. (l, if target = ''ldap/h'' then Inr ((), 7) else Inl (ErrText ''unknown''))),
      krb_NewKRB5TokenAPREQ = (\<lambda>l tkt ekey flags opts. (l, Inr ''AP-REQ'')), krb_Marshal = Inr, krb_Unmarshal = Inr,
      krb_IsAPRep = (\<lambda>t. t = ''AP-REP''), krb_IsKRBError = (\<lambda>t. False), krb_KRBError = ErrText, krb_EncPart = id,
      krb_DecryptEncPart = (\<lambda>e k u. if k = 7 then Inr e else Inl (ErrText ''integrity'')),
      krb_UnmarshalEncAPRepPart = (\<lambda>b. Inr 8), krb_no_key = 0,
      krb_Verify = (\<lambda>t k u. if k = 8 then None else Some (ErrText ''checksum'')), krb_HMACBitLength = (\<lambda>k. Inr 16),
      krb_SetCheckSum = (\<lambda>t k u. Inr (t\<lparr>wt_CheckSum := ''ck''\<rparr>)), krb_MarshalWrapToken = (\<lambda>t. Inr (wrap_bytes t)),
      krb_Destroy = id\<rparr>"

definition sample_offer :: WrapToken where
  "sample_offer = \<lparr>wt_Flags = 5, wt_EC = 2, wt_RRC = 0, wt_SndSeqNum = 9, wt_CheckSum = ''ab'', wt_Payload = no_layer\<rparr>"

definition sample_answer :: bytes where
  "sample_answer = wrap_bytes \<lparr>wt_Flags = 4, wt_EC = 2, wt_RRC = 0, wt_SndSeqNum = 1, wt_CheckSum = ''ck'',
     wt_Payload = no_layer @ ''me''\<rparr>"

lemma sample_krb_sel:
  "krb_GetServiceTicket sample_krb l ''ldap/h'' = (l, Inr ((), 7))" "krb_NewKRB5TokenAPREQ sample_krb l tkt k fs os = (l, Inr ''AP-REQ'')"
  "krb_Marshal sample_krb t = Inr t" "krb_Unmarshal sample_krb t = Inr t" "krb_IsAPRep sample_krb t \<longleftrightarrow> t = ''AP-REP''"
  "\<not> krb_IsKRBError sample_krb t" "krb_EncPart sample_krb t = t" "krb_DecryptEncPart sample_krb t 7 u = Inr t"
  "krb_UnmarshalEncAPRepPart sample_krb t = Inr 8"
  by (simp_all add: sample_krb_def)

lemma sample_offer_ok: "wrap_ok True sample_offer"
  by (simp add: wrap_ok_def sample_offer_def)

lemma sample_negotiate:
  "kc_Subkey c = 8 \<Longrightarrow> krb_NegotiateSaslAuth sample_krb c (wrap_bytes sample_offer) ''me'' = Some (Inr sample_answer)"
  unfolding krb_NegotiateSaslAuth_def UnmarshalWrapToken_complete [OF sample_offer_ok]
  by (simp add: sample_krb_def sample_offer_def sample_answer_def krb_key_def krb_answer_def no_layer_def)

lemma sample_handshake:
  "handshake (krb_client sample_krb) \<lparr>gb_ServicePrincipalName = ''ldap/h'', gb_AuthZID = ''me'', gb_Controls = []\<rparr> [] True None
     \<lparr>kc_Client = (), kc_ekey = 0, kc_Subkey = 0\<rparr> [Some ''AP-REP'', Some (wrap_bytes sample_offer), None]
   = Some ([''AP-REQ'', [], sample_answer], \<lparr>kc_Client = (), kc_ekey = 7, kc_Subkey = 8\<rparr>)"
proof -
  have "wrap_bytes sample_offer \<noteq> []" by (simp add: wrap_bytes_def getGssWrapTokenId_def)
  then show ?thesis
    by (simp add: gss_step_def krb_client_def krb_InitSecContextWithOptions_def krb_init_first_def krb_init_reply_def
        krb_read_reply_def final_reply_def nil_bytes_def returned_def sample_negotiate sample_krb_sel)
qed

section \<open>Properties\<close>

text \<open>C13. A GSSAPI bind with the Kerberos client that returns without an error has authenticated the server: whatever
  the server sent and in whatever order, one of the tokens received was an AP-REP whose encrypted part
  opened with the session key of a ticket for the service principal the caller named.\<close>

theorem Kerberos_bind_authenticates_server:
  assumes "GSSAPIBindRequestWithAPOptions B (krb_client K) ss c req opts = Some (calls, Some None, c')"
  shows "\<exists>ekey t. session_key K (gb_ServicePrincipalName req) ekey \<and> authentic_reply K ekey t \<and> received ss t"
proof -
  from assms obtain c1 where "gss_loop B (krb_client K) req opts ss True None c = Some (calls, Some None, c1)"
    by (auto simp: GSSAPIBindRequestWithAPOptions_def split: bind_splits)
  then show ?thesis
    by (rule krb_loop_authenticates) (auto simp: received_def)
qed

lemma sample_bind:
  "\<exists>calls c'. GSSAPIBindRequestWithAPOptions ref_ber (krb_client sample_krb)
     [answering 14 (Some ''AP-REP''), answering 14 (Some (wrap_bytes sample_offer)), answering 0 None]
     \<lparr>kc_Client = (), kc_ekey = 0, kc_Subkey = 0\<rparr>
     \<lparr>gb_ServicePrincipalName = ''ldap/h'', gb_AuthZID = ''me'', gb_Controls = []\<rparr> [] = Some (calls, Some None, c')"
proof -
  let ?ts = "[Some ''AP-REP'', Some (wrap_bytes sample_offer), None]"
  have "list_all2 (replies ref_ber [])
      [answering 14 (Some ''AP-REP''), answering 14 (Some (wrap_bytes sample_offer)), answering 0 None] ?ts"
    using answering_replies [of "Some ''AP-REP''"] answering_replies [of "Some (wrap_bytes sample_offer)"]
      answering_replies [of None] by simp
  moreover have "list_all encodable (gb_Controls \<lparr>gb_ServicePrincipalName = ''ldap/h'', gb_AuthZID = ''me'', gb_Controls = []\<rparr>)"
    by simp
  ultimately show ?thesis
    unfolding GSSAPIBindRequestWithAPOptions_def using ref.gss_loop_handshake [OF _ _ sample_handshake]
    by (fastforce simp del: gss_loop.simps)
qed

theorem Kerberos_bind_authenticates_server_witness:
  "\<exists>ekey t. session_key sample_krb ''ldap/h'' ekey \<and> authentic_reply sample_krb ekey t
     \<and> received [answering 14 (Some ''AP-REP''), answering 14 (Some (wrap_bytes sample_offer)), answering 0 None] t"
proof -
  obtain calls c' where "GSSAPIBindRequestWithAPOptions ref_ber (krb_client sample_krb)
      [answering 14 (Some ''AP-REP''), answering 14 (Some (wrap_bytes sample_offer)), answering 0 None]
      \<lparr>kc_Client = (), kc_ekey = 0, kc_Subkey = 0\<rparr>
      \<lparr>gb_ServicePrincipalName = ''ldap/h'', gb_AuthZID = ''me'', gb_Controls = []\<rparr> [] = Some (calls, Some None, c')"
    using sample_bind by blast
  from Kerberos_bind_authenticates_server [OF this] show ?thesis by simp
qed

text \<open>C33. The parser of wrap tokens never panics: every slice is within the bytes received, for all 65536 checksum
  lengths.  It accepts exactly the encodings of tokens whose checksum has the length in the header and
  whose sender flag is the expected one, and returns the token that was encoded.\<close>

theorem UnmarshalWrapToken_exact:
  "(\<exists>wt' err. UnmarshalWrapToken wt b x = Some (wt', err)
      \<and> (err = None \<longleftrightarrow> (\<exists>token. wrap_ok x token \<and> b = wrap_bytes token))
      \<and> (err \<noteq> None \<longrightarrow> wt' = wt))
   \<and> (wrap_ok x token \<longrightarrow> UnmarshalWrapToken wt (wrap_bytes token) x = Some (token, None))"
proof -
  obtain wt' err where r: "UnmarshalWrapToken wt b x = Some (wt', err)" using UnmarshalWrapToken_total by fastforce
  then have "wt' = wt" if "err \<noteq> None"
    using that by (auto simp: UnmarshalWrapToken_def Let_def split: bind_splits sum.splits if_splits)
  moreover have "err = None \<longleftrightarrow> (\<exists>token. wrap_ok x token \<and> b = wrap_bytes token)"
  proof
    assume "err = None"
    with r UnmarshalWrapToken_sound [of wt b x wt'] show "\<exists>token. wrap_ok x token \<and> b = wrap_bytes token" by auto
  next
    assume "\<exists>token. wrap_ok x token \<and> b = wrap_bytes token"
    with r UnmarshalWrapToken_complete [of x _ wt] show "err = None" by auto
  qed
  ultimately show ?thesis using r UnmarshalWrapToken_complete by blast
qed

theorem UnmarshalWrapToken_exact_witness:
  "UnmarshalWrapToken empty_WrapToken (wrap_bytes sample_offer) True = Some (sample_offer, None)"
  using UnmarshalWrapToken_exact [of empty_WrapToken "[]" True sample_offer] sample_offer_ok by simp

text \<open>C34. Neither client ever negotiates a security layer: a token with which they answer the last step is the wrapping of
  four zero octets and the caller's authorization identity, and so are all tokens sent once the context is
  set up.  The Kerberos client answers only a token from the server that verifies under the acceptor's key and
  carries four octets.\<close>

theorem clients_select_no_layer:
  "(krb_NegotiateSaslAuth K c input authzid = Some (Inr out)
     \<longrightarrow> krb_wraps K (no_layer @ authzid) out
       \<and> (\<exists>token. wrap_ok True token \<and> input = wrap_bytes token \<and> length (wt_Payload token) = 4
            \<and> krb_Verify K token (krb_key c token) GSSAPI_ACCEPTOR_SEAL = None))
   \<and> (sspi_NegotiateSaslAuth W d input authzid = Some (d', out, None) \<longrightarrow> sspi_wraps W (no_layer @ authzid) out)
   \<and> (handshake (krb_client K) req opts False recv c ts = Some (kouts, c')
        \<longrightarrow> list_all (krb_wraps K (no_layer @ gb_AuthZID req)) kouts)
   \<and> (handshake (sspi_client W) req opts False recv d ts = Some (souts, d'')
        \<longrightarrow> list_all (sspi_wraps W (no_layer @ gb_AuthZID req)) souts)"
proof (intro conjI impI)
  assume r: "krb_NegotiateSaslAuth K c input authzid = Some (Inr out)"
  then show "krb_wraps K (no_layer @ authzid) out" by (rule krb_negotiate_wraps)
  from r show "\<exists>token. wrap_ok True token \<and> input = wrap_bytes token \<and> length (wt_Payload token) = 4
      \<and> krb_Verify K token (krb_key c token) GSSAPI_ACCEPTOR_SEAL = None"
    using UnmarshalWrapToken_sound [of empty_WrapToken input True]
    by (fastforce simp: krb_NegotiateSaslAuth_def split: bind_splits option.splits if_splits)
qed (fact sspi_negotiate_wraps krb.handshake_no_layer sspi.handshake_no_layer)+

text \<open>An SSPI package for the witness: messages are wrapped by a mark in front.\<close>

definition sample_sspi :: "(unit, unit) sspi_library" where
  "sample_sspi =
     \<lparr>sspi_AcquireCurrentUserCredentials = Inr (), sspi_AcquireUserCredentials = (\<lambda>_ _ _. Inr ()),
      sspi_NewClientContextWithChannelBindings = (\<lambda>_ _ _ _. Inr ((), False, ''hello'')),
      sspi_NewClientContextWithFlags = (\<lambda>_ _ _. Inr ((), False, ''hello'')),
      sspi_Update = (\<lambda>x _. Some (x, Inr (True, []))), sspi_VerifyFlags = (\<lambda>_. Some None),
      sspi_DecryptMessage = (\<lambda>x t. Some (x, Inr (KERB_WRAP_NO_ENCRYPT, tl t))),
      sspi_EncryptMessage = (\<lambda>x t _. Some (x, Inr (CHR ''W'' # t))),
      sspi_ReleaseContext = (\<lambda>x. (x, None)), sspi_ReleaseCredentials = (\<lambda>c. (c, None))\<rparr>"

theorem clients_select_no_layer_witness:
  "(\<exists>token. wrap_ok True token \<and> wrap_bytes sample_offer = wrap_bytes token
     \<and> krb_Verify sample_krb token (krb_key \<lparr>kc_Client = (), kc_ekey = 7, kc_Subkey = 8\<rparr> token) GSSAPI_ACCEPTOR_SEAL = None)
   \<and> krb_wraps sample_krb (no_layer @ ''me'') sample_answer
   \<and> sspi_wraps sample_sspi (no_layer @ ''me'') (CHR ''W'' # no_layer @ ''me'')"
proof -
  have "krb_NegotiateSaslAuth sample_krb \<lparr>kc_Client = (), kc_ekey = 7, kc_Subkey = 8\<rparr> (wrap_bytes sample_offer) ''me''
      = Some (Inr sample_answer)"
    by (simp add: sample_negotiate)
  note krb = clients_select_no_layer [THEN conjunct1, rule_format, OF this]
  have "sspi_NegotiateSaslAuth sample_sspi (NewSSPIClientWithCredentials ()) ''Wabcd'' ''me''
      = Some (NewSSPIClientWithCredentials (), CHR ''W'' # no_layer @ ''me'', None)"
    by (simp add: sspi_NegotiateSaslAuth_def sample_sspi_def NewSSPIClientWithCredentials_def handshakePayload_no_layer)
  note sspi = clients_select_no_layer [THEN conjunct2, THEN conjunct1, rule_format, OF this]
  from krb sspi show ?thesis by blast
qed

end
