(* ===== verification/Conn_Routing.thy ===== *)
theory Conn_Routing
  imports Conn_Invariant "HOL-Library.Sublist"
begin

text \<open>
  Which client gets which response.  The reader puts the packets it receives on the message channel and the
  processing loop hands them to the contexts registered under their ids; here it is shown that a client gets
  only packets with its own id, in the order of their arrival and each at most once, and that it gets all of
  them unless it stops listening.
\<close>

section \<open>Packets on their way\<close>

fun response_for :: "int64 \<Rightarrow> messagePacket \<Rightarrow> packet option" where
  "response_for i (MessageResponse j p) = (if j = i then Some p else None)"
| "response_for i _ = None"

definition pending :: "int64 \<Rightarrow> conn \<Rightarrow> packet list" where
  "pending i l = List.map_filter (response_for i) (c_chanMessage l)"

definition answers :: "nat \<Rightarrow> conn \<Rightarrow> packet list" where
  "answers c l = map pr_Packet (filter (\<lambda>r. pr_Error r = None) (cx_received (c_store l c)))"

definition addressed :: "int64 \<Rightarrow> packet list \<Rightarrow> packet list" where
  "addressed i ps = filter (\<lambda>p. message_id p = Some i) ps"

text \<open>What has reached a client and what still waits for it in the channel.\<close>

definition flow :: "nat \<Rightarrow> conn \<Rightarrow> packet list" where
  "flow c l = answers c l @ pending (ctx_id l c) l"

definition routed :: "system \<Rightarrow> bool" where
  "routed s \<longleftrightarrow> (\<forall>i. subseq (pending i (s_conn s)) (addressed i (s_arrived s)))
     \<and> (\<forall>c < c_fresh (s_conn s). subseq (flow c (s_conn s)) (addressed (ctx_id (s_conn s) c) (s_arrived s)))"

lemma pending_push: "c_chanMessage l' = c_chanMessage l @ [m] \<Longrightarrow>
    pending i l' = pending i l @ (case response_for i m of None \<Rightarrow> [] | Some p \<Rightarrow> [p])"
  by (simp add: pending_def List.map_filter_def split: option.splits)

lemma pending_pop: "c_chanMessage l = m # c_chanMessage l' \<Longrightarrow>
    pending i l = (case response_for i m of None \<Rightarrow> [] | Some p \<Rightarrow> [p]) @ pending i l'"
  by (simp add: pending_def List.map_filter_def split: option.splits)

lemma pending_same: "c_chanMessage l' = c_chanMessage l \<Longrightarrow> pending i l' = pending i l"
  by (simp add: pending_def)

lemma addressed_append [simp]:
  "addressed i (ps @ [p]) = addressed i ps @ (if message_id p = Some i then [p] else [])"
  by (simp add: addressed_def)

section \<open>The handlers\<close>

lemma sendResponse_answers:
  "sendResponse c r d l = Some l' \<Longrightarrow>
   answers e l' = answers e l @ (if d \<and> e = c \<and> pr_Error r = None then [pr_Packet r] else [])"
  by (auto simp: sendResponse_def answers_def split: if_splits)

lemma close_responses_answers: "close_responses c l = Some l' \<Longrightarrow> answers e l' = answers e l"
  by (auto simp: close_responses_def answers_def split: if_splits)

lemma answers_fields [simp]:
  "answers c (l\<lparr>c_messageContexts := m\<rparr>) = answers c l" "answers c (l\<lparr>c_written := w\<rparr>) = answers c l"
  "answers c (l\<lparr>c_chanMessage := ms\<rparr>) = answers c l" "answers c (setError e l) = answers c l"
  "answers c (l\<lparr>c_running := b, c_confirmed := d\<rparr>) = answers c l"
  by (simp_all add: answers_def setError_def)

lemma drop_context_answers: "drop_context i c l = Some l' \<Longrightarrow> answers e l' = answers e l"
  by (auto simp: drop_context_def dest!: close_responses_answers)

lemma quiet_handlers_answers:
  "handle_request B ev i p c l = Some l' \<Longrightarrow> answers e l' = answers e l"
  "handle_timeout ev i l = Some l' \<Longrightarrow> answers e l' = answers e l"
  "handle_finish i l = Some l' \<Longrightarrow> answers e l' = answers e l"
  by (auto simp: handle_request_def handle_timeout_def handle_finish_def bind_eq_Some_conv
      split: option.splits
      dest!: sendResponse_answers [where e = e] close_responses_answers [where e = e] drop_context_answers [where e = e])

lemma cleanup_context_answers: "cleanup_context d i l = Some l' \<Longrightarrow> answers e l' = answers e l"
  by (auto simp: cleanup_context_def bind_eq_Some_conv split: option.splits bool.splits
      dest!: sendResponse_answers [where e = e] close_responses_answers [where e = e])

lemma cleanup_contexts_answers: "cleanup_contexts d is l = Some l' \<Longrightarrow> answers e l' = answers e l"
  by (induction "is" arbitrary: l) (auto simp: bind_eq_Some_conv dest!: cleanup_context_answers)

text \<open>A response goes to the context registered under its id, if the client takes it.\<close>

lemma handle_response_answers:
  "handle_response ev i p l = Some l' \<Longrightarrow>
   answers e l' = answers e l @ (if ev_delivered ev \<and> c_messageContexts l i = Some e then [p] else [])"
  by (auto simp: handle_response_def split: option.splits dest!: sendResponse_answers)

definition handed :: "env \<Rightarrow> messagePacket \<Rightarrow> conn \<Rightarrow> nat \<Rightarrow> packet list" where
  "handed ev m l c =
     (case m of MessageResponse i p \<Rightarrow> if ev_delivered ev \<and> c_messageContexts l i = Some c then [p] else [] | _ \<Rightarrow> [])"

lemma processMessage_answers:
  assumes "processMessage B ev order l = Some l'" "c_chanMessage l = m # ms"
  shows "answers c l' = answers c l @ handed ev m l c"
proof (cases m)
  case MessageQuit
  with assms show ?thesis
    by (auto simp: processMessage_def cleanup_def handed_def bind_eq_Some_conv dest!: cleanup_contexts_answers)
next
  case (MessageResponse i p)
  with assms show ?thesis
    by (auto simp: processMessage_def handed_def dest!: handle_response_answers)
qed (use assms in \<open>auto simp: processMessage_def handed_def dest!: quiet_handlers_answers\<close>)

lemma processMessage_flow:
  assumes "processMessage B ev order l = Some l'" "contexts_inv l"
  shows "subseq (pending i l') (pending i l)" "subseq (flow c l') (flow c l)"
proof -
  obtain m ms where chan: "c_chanMessage l = m # ms"
    using assms(1) by (cases "c_chanMessage l") (auto simp: processMessage_def)
  have "c_chanMessage l' = ms" using processMessage_effect [OF assms(1) chan] by (auto simp: framed_def split: if_splits)
  with chan have pop: "pending i l = (case response_for i m of None \<Rightarrow> [] | Some p \<Rightarrow> [p]) @ pending i l'" for i
    by (simp add: pending_pop)
  show "subseq (pending i l') (pending i l)" unfolding pop by (rule list_emb_append2) simp
  have "\<And>i. c_messageContexts l i = Some c \<Longrightarrow> ctx_id l c = i"
    using assms(2) ctx_okD(7) unfolding contexts_inv_def by blast
  then have "subseq (handed ev m l c) (case response_for (ctx_id l c) m of None \<Rightarrow> [] | Some p \<Rightarrow> [p])"
    by (cases m) (auto simp: handed_def)
  then show "subseq (flow c l') (flow c l)"
    unfolding flow_def processMessage_answers [OF assms(1) chan] processMessage_keeps(7) [OF assms(1)] pop
    by (simp add: list_emb_append_mono)
qed

section \<open>Every step keeps the routes\<close>

lemma reader_packet_route:
  assumes "reader_packet B panic p l = Some r" "r = RContinue l' \<or> r = RStop clean l'"
  shows "c_fresh l' = c_fresh l" "c_store l' = c_store l" "c_closing l' = c_closing l"
    "pending i l' = pending i l
       \<or> message_id (fst (addLDAPDescriptions B panic p)) = Some i \<and> pending i l' = pending i l @ [fst (addLDAPDescriptions B panic p)]"
  using assms
  by (auto simp: reader_packet_def Let_def bind_eq_Some_conv setError_def pending_def List.map_filter_def
      elim!: sendProcessMessage_cases split: if_splits option.splits)

lemma routed_same:
  assumes "routed s" "\<And>i. pending i (s_conn s') = pending i (s_conn s)" "c_fresh (s_conn s') = c_fresh (s_conn s)"
    "\<And>c. answers c (s_conn s') = answers c (s_conn s)" "\<And>c. ctx_id (s_conn s') c = ctx_id (s_conn s) c"
    "s_arrived s' = s_arrived s"
  shows "routed s'"
  using assms(1) unfolding routed_def flow_def assms(2-6) .

lemma routed_frame:
  assumes "routed s" "c_chanMessage (s_conn s') = c_chanMessage (s_conn s)" "c_fresh (s_conn s') = c_fresh (s_conn s)"
    "\<And>c. cx_received (c_store (s_conn s') c) = cx_received (c_store (s_conn s) c)"
    "\<And>c. cx_id (c_store (s_conn s') c) = cx_id (c_store (s_conn s) c)" "s_arrived s' = s_arrived s"
  shows "routed s'"
  by (rule routed_same [OF assms(1)]) (simp_all add: pending_same [OF assms(2)] assms(3-) answers_def ctx_id_def)

lemma routed_push:
  assumes "routed s" "c_chanMessage (s_conn s') = c_chanMessage (s_conn s) @ [m]" "\<And>i. response_for i m = None"
    "c_fresh (s_conn s') = c_fresh (s_conn s)" "c_store (s_conn s') = c_store (s_conn s)" "s_arrived s' = s_arrived s"
  shows "routed s'"
  by (rule routed_same [OF assms(1)])
    (simp_all add: pending_push [OF assms(2)] assms(3-) answers_def ctx_id_def)

lemma routed_send:
  assumes "routed s" "sendProcessMessage m (s_conn s) = Some (ok, l)" "\<And>i. response_for i m = None"
    "s_conn s' = l" "s_arrived s' = s_arrived s"
  shows "routed s'"
  using assms(2)
proof (cases rule: sendProcessMessage_cases)
  case refused
  show ?thesis by (rule routed_frame [OF assms(1)]) (simp_all add: assms(4,5) refused)
next
  case sent
  show ?thesis by (rule routed_push [OF assms(1) _ assms(3)]) (simp_all add: assms(4,5) sent)
qed

lemma routed_enqueue:
  assumes "routed s" and l: "l = (s_conn s)\<lparr>c_store := (c_store (s_conn s))(c_fresh (s_conn s) := new_context i),
      c_fresh := c_fresh (s_conn s) + 1, c_chanMessage := c_chanMessage (s_conn s) @ [MessageRequest i p n]\<rparr>"
  shows "routed (s\<lparr>s_conn := l, s_admitted := ids, s_held := h\<rparr>)"
proof -
  have p: "pending j l = pending j (s_conn s)" for j
    using pending_push [of l "s_conn s" "MessageRequest i p n" j] by (simp add: l)
  have "flow (c_fresh (s_conn s)) l = pending i (s_conn s)"
    by (simp add: flow_def p ctx_id_def answers_def) (simp add: l new_context_def)
  moreover have "flow c l = flow c (s_conn s)" "ctx_id l c = ctx_id (s_conn s) c" if "c < c_fresh (s_conn s)" for c
    using that by (simp_all add: flow_def p ctx_id_def answers_def) (simp_all add: l)
  moreover have "ctx_id l (c_fresh (s_conn s)) = i" "c_fresh l = Suc (c_fresh (s_conn s))"
    by (simp_all add: l ctx_id_def new_context_def)
  ultimately show ?thesis using assms(1) by (auto simp: routed_def p less_Suc_eq)
qed

lemma routed_read:
  assumes "routed s" "reader_packet B panic p (s_conn s) = Some r" "r = RContinue l \<or> r = RStop clean l"
  shows "routed (s\<lparr>s_conn := l, s_arrived := s_arrived s @ [fst (addLDAPDescriptions B panic p)]\<rparr>)"
proof -
  note r = reader_packet_route [OF assms(2,3)]
  have more: "subseq (xs @ pending i l) (addressed i (s_arrived s @ [fst (addLDAPDescriptions B panic p)]))"
    if "subseq (xs @ pending i (s_conn s)) (addressed i (s_arrived s))" for i xs
    using r(4) [of i]
  proof
    assume "pending i l = pending i (s_conn s)"
    with that show ?thesis by (auto intro: list_emb_prefix)
  next
    assume "message_id (fst (addLDAPDescriptions B panic p)) = Some i
      \<and> pending i l = pending i (s_conn s) @ [fst (addLDAPDescriptions B panic p)]"
    with list_emb_append_mono [OF that, of "[fst (addLDAPDescriptions B panic p)]"] show ?thesis by simp
  qed
  have "flow c l = answers c (s_conn s) @ pending (ctx_id (s_conn s) c) l" "ctx_id l c = ctx_id (s_conn s) c" for c
    by (simp_all add: flow_def answers_def ctx_id_def r(2))
  with assms(1) more [of "[]"] more show ?thesis
    by (simp add: routed_def flow_def [of _ "s_conn s"] r(1))
qed

lemma step_routed:
  assumes "step B s s'" "routed s" "contexts_inv (s_conn s)"
  shows "routed s'"
proof -
  note frame = routed_frame [OF assms(2)]
  from assms(1) show ?thesis
  proof (cases rule: step.cases)
    case (enqueue i ids p r l)
    from enqueue(5,3) show ?thesis
    proof (cases rule: sendMessage_enqueue_cases)
      case refused
      show ?thesis by (rule frame) (simp_all add: enqueue(1) refused)
    next
      case sent
      with enqueue(1) routed_enqueue [OF assms(2)] show ?thesis by simp
    qed
  next
    case (finish_report i "is" ok l)
    show ?thesis by (rule routed_send [OF assms(2) finish_report(4)]) (simp_all add: finish_report(1))
  next
    case (timer i ok l)
    show ?thesis by (rule routed_send [OF assms(2) timer(3)]) (simp_all add: timer(1))
  next
    case (read panic p r l clean)
    with routed_read [OF assms(2) read(3,4)] show ?thesis by simp
  next
    case (close_begin "first" l)
    from close_begin(3) show ?thesis
    proof (cases rule: Close_begin_cases)
      case again
      show ?thesis by (rule frame) (simp_all add: close_begin(1) again)
    next
      case first
      show ?thesis by (rule routed_push [OF assms(2), of _ MessageQuit]) (simp_all add: close_begin(1) first)
    qed
  next
    case (process order ev l)
    have "subseq (flow c l) (addressed (ctx_id (s_conn s) c) (s_arrived s))" if "c < c_fresh (s_conn s)" for c
      using processMessage_flow(2) [OF process(6) assms(3)] assms(2) that subseq_order.trans unfolding routed_def by blast
    moreover have "subseq (pending i l) (addressed i (s_arrived s))" for i
      using processMessage_flow(1) [OF process(6) assms(3)] assms(2) subseq_order.trans unfolding routed_def by blast
    ultimately show ?thesis using process(1) by (simp add: routed_def processMessage_keeps(2,7) [OF process(6)])
  qed (auto intro!: frame simp: nextMessageID_def sendMessage_admit_def finishMessage_count_def close_done_def
      reader_error_def SetTimeout_def IsClosing_def Close_end_def split: if_splits)
qed

lemma reachable_routed: "reachable B isTLS s \<Longrightarrow> s_issued s < 2 ^ 64 \<Longrightarrow> routed s"
proof (induction rule: reachable.induct)
  case start
  show ?case by (simp add: routed_def system_start_def Start_def NewConn_def pending_def List.map_filter_def)
next
  case (next_step s s')
  then have bound: "s_issued s < 2 ^ 64" using step_issued [OF next_step.hyps(2)] by simp
  have "contexts_inv (s_conn s)" using reachable_inv [OF next_step.hyps(1) bound] by (simp add: conn_inv_def)
  with step_routed [OF next_step.hyps(2) next_step.IH [OF bound]] show ?case .
qed

section \<open>Nothing is lost\<close>

text \<open>
  Runs in which the server answers only requests that have left the channel, and in which the client, when the
  loop offers it a response, is there to receive it: of the three ways out of the select in \<^verbatim>\<open>sendResponse\<close> the
  environment takes the first.  What the loop offers, and to whom, is left to the code.
\<close>

definition prompted :: "system \<Rightarrow> system \<Rightarrow> bool" where
  "prompted s s' \<longleftrightarrow>
     (\<forall>p i. s_arrived s' = s_arrived s @ [p] \<and> message_id p = Some i \<longrightarrow>
        (\<exists>c < c_fresh (s_conn s). ctx_id (s_conn s) c = i \<and> c \<notin> set (waiting (s_conn s))))"

definition attentive :: "ber \<Rightarrow> system \<Rightarrow> system \<Rightarrow> bool" where
  "attentive B s s' \<longleftrightarrow>
     (\<forall>i p. c_chanMessage (s_conn s) = MessageResponse i p # c_chanMessage (s_conn s') \<longrightarrow>
        (\<exists>ev order. ev_delivered ev \<and> processMessage B ev order (s_conn s) = Some (s_conn s')))"

inductive lively :: "ber \<Rightarrow> bool \<Rightarrow> system \<Rightarrow> bool" for B isTLS where
  start: "lively B isTLS (system_start isTLS)"
| next_step: "lively B isTLS s \<Longrightarrow> step B s s' \<Longrightarrow> prompted s s' \<Longrightarrow> attentive B s s' \<Longrightarrow> lively B isTLS s'"

lemma lively_reachable: "lively B isTLS s \<Longrightarrow> reachable B isTLS s"
  by (induction rule: lively.induct) (auto intro: reachable.intros)

definition complete :: "system \<Rightarrow> bool" where
  "complete s \<longleftrightarrow> (\<not> c_closing (s_conn s) \<longrightarrow>
     (\<forall>i. addressed i (s_arrived s) \<noteq> [] \<longrightarrow>
        (\<exists>c < c_fresh (s_conn s). ctx_id (s_conn s) c = i \<and> c \<notin> set (waiting (s_conn s))))
     \<and> (\<forall>c < c_fresh (s_conn s). \<not> ctx_closed (s_conn s) c \<longrightarrow>
        flow c (s_conn s) = addressed (ctx_id (s_conn s) c) (s_arrived s)))"

lemma completeI:
  assumes "\<And>i. \<not> c_closing (s_conn s) \<Longrightarrow> addressed i (s_arrived s) \<noteq> [] \<Longrightarrow>
      \<exists>c < c_fresh (s_conn s). ctx_id (s_conn s) c = i \<and> c \<notin> set (waiting (s_conn s))"
    and "\<And>c. \<not> c_closing (s_conn s) \<Longrightarrow> c < c_fresh (s_conn s) \<Longrightarrow> \<not> ctx_closed (s_conn s) c \<Longrightarrow>
      flow c (s_conn s) = addressed (ctx_id (s_conn s) c) (s_arrived s)"
  shows "complete s"
  using assms unfolding complete_def by blast

lemma completeD:
  assumes "complete s" "\<not> c_closing (s_conn s)"
  shows "addressed i (s_arrived s) \<noteq> [] \<Longrightarrow>
      \<exists>c < c_fresh (s_conn s). ctx_id (s_conn s) c = i \<and> c \<notin> set (waiting (s_conn s))"
    and "c < c_fresh (s_conn s) \<Longrightarrow> \<not> ctx_closed (s_conn s) c \<Longrightarrow>
      flow c (s_conn s) = addressed (ctx_id (s_conn s) c) (s_arrived s)"
  using assms unfolding complete_def by blast+

lemma complete_closing: "c_closing (s_conn s) \<Longrightarrow> complete s"
  by (simp add: complete_def)

text \<open>A request that still waits in the channel has not been answered.\<close>

lemma waiting_unanswered:
  assumes "complete s" "\<not> c_closing (s_conn s)" "contexts_inv (s_conn s)" "c \<in> set (waiting (s_conn s))"
  shows "addressed (ctx_id (s_conn s) c) (s_arrived s) = []"
proof (rule ccontr)
  have ok: "ctx_ok (waiting (s_conn s)) (c_messageContexts (s_conn s)) (c_fresh (s_conn s)) (ctx_closed (s_conn s)) (ctx_id (s_conn s))"
    using assms(3) by (simp add: contexts_inv_def)
  assume "addressed (ctx_id (s_conn s) c) (s_arrived s) \<noteq> []"
  with completeD(1) [OF assms(1,2)] obtain d where d: "d < c_fresh (s_conn s)"
    "ctx_id (s_conn s) d = ctx_id (s_conn s) c" "d \<notin> set (waiting (s_conn s))" by blast
  have "c < c_fresh (s_conn s)" using ctx_okD(2) [OF ok assms(4)] .
  with d inj_onD [OF ctx_okD(6) [OF ok], of d c] assms(4) show False by auto
qed

lemma complete_frame:
  assumes "complete s" "c_chanMessage (s_conn s') = c_chanMessage (s_conn s)" "c_fresh (s_conn s') = c_fresh (s_conn s)"
    "\<And>c. cx_received (c_store (s_conn s') c) = cx_received (c_store (s_conn s) c)"
    "\<And>c. cx_id (c_store (s_conn s') c) = cx_id (c_store (s_conn s) c)"
    "\<And>c. cx_closed (c_store (s_conn s') c) = cx_closed (c_store (s_conn s) c)"
    "c_closing (s_conn s') = c_closing (s_conn s)" "s_arrived s' = s_arrived s"
  shows "complete s'"
  using assms(1) unfolding complete_def flow_def waiting_same [OF assms(2)] pending_same [OF assms(2)]
  by (simp add: assms(3-) answers_def ctx_id_def ctx_closed_def)

lemma complete_send:
  assumes "complete s" "sendProcessMessage m (s_conn s) = Some (ok, l)" "\<And>i. response_for i m = None" "request_ctx m = None"
    "s_conn s' = l" "s_arrived s' = s_arrived s"
  shows "complete s'"
  using assms(2)
proof (cases rule: sendProcessMessage_cases)
  case refused
  then show ?thesis by (intro complete_closing) (simp add: assms(5))
next
  case sent
  have "c_chanMessage l = c_chanMessage (s_conn s) @ [m]" by (simp add: sent)
  from pending_push [OF this] waiting_append [OF this] have "pending i l = pending i (s_conn s)" "waiting l = waiting (s_conn s)" for i
    by (simp_all add: assms(3,4))
  with assms(1,5,6) show ?thesis
    unfolding complete_def flow_def by (simp add: sent answers_def ctx_id_def ctx_closed_def)
qed

lemma complete_enqueue:
  assumes "complete s" "conn_inv s" "routed s" "s_admitted s = add_mset i ids" "\<not> c_closing (s_conn s)"
    and l: "l = (s_conn s)\<lparr>c_store := (c_store (s_conn s))(c_fresh (s_conn s) := new_context i),
      c_fresh := c_fresh (s_conn s) + 1, c_chanMessage := c_chanMessage (s_conn s) @ [MessageRequest i p (c_fresh (s_conn s))]\<rparr>"
  shows "complete (s\<lparr>s_conn := l, s_admitted := ids, s_held := h\<rparr>)"
proof -
  let ?n = "c_fresh (s_conn s)"
  have new: "\<forall>c < ?n. ctx_id (s_conn s) c \<noteq> i" using assms(2,4,5) by (auto simp: conn_inv_def ids_inv_def)
  then have none: "addressed i (s_arrived s) = []" using completeD(1) [OF assms(1,5), of i] by blast
  with assms(3) have empty: "pending i (s_conn s) = []" by (metis routed_def list_emb_Nil2)
  have chan: "c_chanMessage l = c_chanMessage (s_conn s) @ [MessageRequest i p ?n]" by (simp add: l)
  from pending_push [OF chan] waiting_append [OF chan]
  have p: "pending j l = pending j (s_conn s)" "waiting l = waiting (s_conn s) @ [?n]" for j by simp_all
  have id: "ctx_id l ?n = i" "answers ?n l = []" "c_fresh l = Suc ?n" "c_closing l = c_closing (s_conn s)"
    by (simp_all add: l ctx_id_def answers_def new_context_def)
  have old: "ctx_id l c = ctx_id (s_conn s) c" "answers c l = answers c (s_conn s)" "ctx_closed l c = ctx_closed (s_conn s) c"
    if "c < ?n" for c
    using that by (simp_all add: l ctx_id_def answers_def ctx_closed_def)
  show ?thesis
  proof (rule completeI)
    fix j assume "addressed j (s_arrived (s\<lparr>s_conn := l, s_admitted := ids, s_held := h\<rparr>)) \<noteq> []"
    then obtain c where "c < ?n" "ctx_id (s_conn s) c = j" "c \<notin> set (waiting (s_conn s))"
      using completeD(1) [OF assms(1,5), of j] by auto
    then show "\<exists>c < c_fresh (s_conn (s\<lparr>s_conn := l, s_admitted := ids, s_held := h\<rparr>)).
        ctx_id (s_conn (s\<lparr>s_conn := l, s_admitted := ids, s_held := h\<rparr>)) c = j \<and> c \<notin> set (waiting (s_conn (s\<lparr>s_conn := l, s_admitted := ids, s_held := h\<rparr>)))"
      by (intro exI [of _ c]) (simp add: id(3) p(2) old)
  next
    fix c assume "c < c_fresh (s_conn (s\<lparr>s_conn := l, s_admitted := ids, s_held := h\<rparr>))"
      "\<not> ctx_closed (s_conn (s\<lparr>s_conn := l, s_admitted := ids, s_held := h\<rparr>)) c"
    then show "flow c (s_conn (s\<lparr>s_conn := l, s_admitted := ids, s_held := h\<rparr>))
        = addressed (ctx_id (s_conn (s\<lparr>s_conn := l, s_admitted := ids, s_held := h\<rparr>)) c) (s_arrived (s\<lparr>s_conn := l, s_admitted := ids, s_held := h\<rparr>))"
      using completeD(2) [OF assms(1,5), of c] none empty
      by (auto simp: flow_def id p old less_Suc_eq)
  qed
qed

lemma reader_packet_open:
  assumes "reader_packet B panic p l = Some r" "r = RContinue l' \<or> r = RStop clean l'" "\<not> c_closing l"
  shows "pending i l' = pending i l @ addressed i [fst (addLDAPDescriptions B panic p)]" "waiting l' = waiting l"
proof -
  have "message_id q = None" if "length (Children q) = 0" for q
    using that by (simp add: message_id_def nth_child_def)
  with assms show "pending i l' = pending i l @ addressed i [fst (addLDAPDescriptions B panic p)]" "waiting l' = waiting l"
    by (auto simp: reader_packet_def Let_def bind_eq_Some_conv setError_def pending_def waiting_def List.map_filter_def
        addressed_def elim!: sendProcessMessage_cases split: if_splits option.splits)
qed

lemma complete_read:
  assumes "complete s" "reader_packet B panic p (s_conn s) = Some r" "r = RContinue l \<or> r = RStop clean l"
    and s': "s' = s\<lparr>s_conn := l, s_arrived := s_arrived s @ [fst (addLDAPDescriptions B panic p)]\<rparr>" and "prompted s s'"
  shows "complete s'"
proof (cases "c_closing (s_conn s)")
  case True
  with reader_packet_route(3) [OF assms(2,3)] show ?thesis by (intro complete_closing) (simp add: s')
next
  case False
  note route = reader_packet_route [OF assms(2,3)] reader_packet_open [OF assms(2,3) False]
  have id: "ctx_id l = ctx_id (s_conn s)" "ctx_closed l = ctx_closed (s_conn s)" "answers c l = answers c (s_conn s)" for c
    by (simp_all add: fun_eq_iff ctx_id_def ctx_closed_def answers_def route(2))
  let ?q = "fst (addLDAPDescriptions B panic p)"
  show ?thesis
  proof (rule completeI)
    fix i assume "addressed i (s_arrived s') \<noteq> []"
    then have "addressed i (s_arrived s) \<noteq> [] \<or> message_id ?q = Some i" by (auto simp: s' split: if_splits)
    then have "\<exists>c < c_fresh (s_conn s). ctx_id (s_conn s) c = i \<and> c \<notin> set (waiting (s_conn s))"
      using completeD(1) [OF assms(1) False] assms(5) unfolding prompted_def s' by fastforce
    then show "\<exists>c < c_fresh (s_conn s'). ctx_id (s_conn s') c = i \<and> c \<notin> set (waiting (s_conn s'))"
      by (simp add: s' id route)
  next
    fix c assume "c < c_fresh (s_conn s')" "\<not> ctx_closed (s_conn s') c"
    then show "flow c (s_conn s') = addressed (ctx_id (s_conn s') c) (s_arrived s')"
      using completeD(2) [OF assms(1) False, of c] by (simp add: s' flow_def id route addressed_def)
  qed
qed

text \<open>Channels that are closed stay closed.\<close>

lemma sendResponse_closed: "sendResponse c r d l = Some l' \<Longrightarrow> ctx_closed l' = ctx_closed l"
  by (auto simp: sendResponse_def ctx_closed_def fun_eq_iff split: if_splits)

lemma close_responses_closed: "close_responses c l = Some l' \<Longrightarrow> ctx_closed l e \<Longrightarrow> ctx_closed l' e"
  by (auto simp: close_responses_def ctx_closed_def split: if_splits)

lemma ctx_closed_fields [simp]:
  "ctx_closed (l\<lparr>c_messageContexts := m\<rparr>) = ctx_closed l" "ctx_closed (l\<lparr>c_written := w\<rparr>) = ctx_closed l"
  "ctx_closed (l\<lparr>c_chanMessage := ms\<rparr>) = ctx_closed l" "ctx_closed (setError e l) = ctx_closed l"
  by (simp_all add: ctx_closed_def fun_eq_iff setError_def)

lemma handlers_closed:
  "handle_request B ev i p c l = Some l' \<Longrightarrow> ctx_closed l e \<Longrightarrow> ctx_closed l' e"
  "handle_response ev i p l = Some l' \<Longrightarrow> ctx_closed l e \<Longrightarrow> ctx_closed l' e"
  "handle_timeout ev i l = Some l' \<Longrightarrow> ctx_closed l e \<Longrightarrow> ctx_closed l' e"
  "handle_finish i l = Some l' \<Longrightarrow> ctx_closed l e \<Longrightarrow> ctx_closed l' e"
  by (auto simp: handle_request_def handle_response_def handle_timeout_def handle_finish_def drop_context_def
      bind_eq_Some_conv split: option.splits dest!: sendResponse_closed close_responses_closed [where e = e])

lemma processMessage_closed:
  assumes "processMessage B ev order l = Some l'" "c_chanMessage l = m # ms" "m \<noteq> MessageQuit" "ctx_closed l e"
  shows "ctx_closed l' e"
  using assms by (cases m) (auto simp: processMessage_def dest: handlers_closed [where e = e])

lemma complete_process:
  assumes "complete s" "conn_inv s" "routed s" "processMessage B ev order (s_conn s) = Some l"
    and "\<And>i p. c_chanMessage (s_conn s) = MessageResponse i p # c_chanMessage l \<Longrightarrow> ev_delivered ev"
  shows "complete (s\<lparr>s_conn := l\<rparr>)"
proof (cases "c_closing (s_conn s)")
  case True
  with processMessage_keeps(1) [OF assms(4)] show ?thesis by (intro complete_closing) simp
next
  case False
  note keeps = processMessage_keeps [OF assms(4)]
  have inv: "contexts_inv (s_conn s)" using assms(2) by (simp add: conn_inv_def)
  have ok: "ctx_ok (waiting (s_conn s)) (c_messageContexts (s_conn s)) (c_fresh (s_conn s)) (ctx_closed (s_conn s)) (ctx_id (s_conn s))"
    using inv by (simp add: contexts_inv_def)
  obtain m ms where chan: "c_chanMessage (s_conn s) = m # ms"
    using assms(4) by (cases "c_chanMessage (s_conn s)") (auto simp: processMessage_def)
  have m: "m \<noteq> MessageQuit" using assms(2) False chan by (auto simp: conn_inv_def closing_inv_def Let_def)
  have ms: "c_chanMessage l = ms" using processMessage_effect [OF assms(4) chan] by (auto simp: framed_def split: if_splits)
  have pop: "pending i (s_conn s) = (case response_for i m of None \<Rightarrow> [] | Some p \<Rightarrow> [p]) @ pending i l" for i
    using chan ms by (simp add: pending_pop)
  have wait: "set (waiting l) \<subseteq> set (waiting (s_conn s))" using waiting_Cons [OF chan ms] by auto
  show ?thesis
  proof (rule completeI)
    fix i assume "addressed i (s_arrived (s\<lparr>s_conn := l\<rparr>)) \<noteq> []"
    then show "\<exists>c < c_fresh (s_conn (s\<lparr>s_conn := l\<rparr>)). ctx_id (s_conn (s\<lparr>s_conn := l\<rparr>)) c = i
        \<and> c \<notin> set (waiting (s_conn (s\<lparr>s_conn := l\<rparr>)))"
      using completeD(1) [OF assms(1) False, of i] wait by (auto simp: keeps)
  next
    fix c assume "c < c_fresh (s_conn (s\<lparr>s_conn := l\<rparr>))" "\<not> ctx_closed (s_conn (s\<lparr>s_conn := l\<rparr>)) c"
    then have c: "c < c_fresh (s_conn s)" "\<not> ctx_closed (s_conn s) c"
      using processMessage_closed [OF assms(4) chan m] by (auto simp: keeps)
    have "handed ev m (s_conn s) c = (case response_for (ctx_id (s_conn s) c) m of None \<Rightarrow> [] | Some p \<Rightarrow> [p])"
    proof (cases m)
      case (MessageResponse i p)
      show ?thesis
      proof (cases "ctx_id (s_conn s) c = i")
        case True
        have "pending i (s_conn s) \<noteq> []" using pop [of i] by (simp add: MessageResponse)
        with assms(3) have "addressed i (s_arrived s) \<noteq> []" by (metis list_emb_Nil2 routed_def)
        then have "c \<notin> set (waiting (s_conn s))"
          using waiting_unanswered [OF assms(1) False inv] True by blast
        then have reg: "c_messageContexts (s_conn s) i = Some c"
          using ctx_okD(5) [OF ok c(1)] ctx_okD(7) [OF ok] c(2) True by (fastforce simp: ran_def)
        moreover have "ev_delivered ev" using assms(5) chan ms by (simp add: MessageResponse)
        ultimately show ?thesis using True by (simp add: MessageResponse handed_def)
      next
        case False
        with ctx_okD(7) [OF ok] show ?thesis by (fastforce simp: MessageResponse handed_def)
      qed
    qed (simp_all add: handed_def)
    then have "flow c l = flow c (s_conn s)"
      by (simp add: flow_def keeps pop processMessage_answers [OF assms(4) chan])
    with completeD(2) [OF assms(1) False c] show "flow c (s_conn (s\<lparr>s_conn := l\<rparr>))
        = addressed (ctx_id (s_conn (s\<lparr>s_conn := l\<rparr>)) c) (s_arrived (s\<lparr>s_conn := l\<rparr>))"
      by (simp add: keeps)
  qed
qed

lemma step_complete:
  assumes "step B s s'" "complete s" "conn_inv s" "routed s" "prompted s s'" "attentive B s s'"
  shows "complete s'"
proof -
  note frame = complete_frame [OF assms(2)]
  from assms(1) show ?thesis
  proof (cases rule: step.cases)
    case (enqueue i ids p r l)
    from enqueue(5,3) show ?thesis
    proof (cases rule: sendMessage_enqueue_cases)
      case refused
      show ?thesis by (rule frame) (simp_all add: enqueue(1) refused)
    next
      case sent
      with enqueue(1) complete_enqueue [OF assms(2-4) enqueue(2)] show ?thesis by simp
    qed
  next
    case (finish_report i "is" ok l)
    show ?thesis by (rule complete_send [OF assms(2) finish_report(4)]) (simp_all add: finish_report(1))
  next
    case (timer i ok l)
    show ?thesis by (rule complete_send [OF assms(2) timer(3)]) (simp_all add: timer(1))
  next
    case (read panic p r l clean)
    from complete_read [OF assms(2) read(3,4,1) assms(5)] show ?thesis .
  next
    case (close_begin "first" l)
    from close_begin(3) show ?thesis
      by (cases rule: Close_begin_cases) (auto intro!: complete_closing simp: close_begin(1))
  next
    case (process order ev l)
    show ?thesis
    proof (cases "\<exists>i p. c_chanMessage (s_conn s) = MessageResponse i p # c_chanMessage l")
      case True
      with assms(6) process(1) obtain ev' order' where "ev_delivered ev'" "processMessage B ev' order' (s_conn s) = Some l"
        by (auto simp: attentive_def)
      with complete_process [OF assms(2-4)] process(1) show ?thesis by simp
    next
      case False
      with complete_process [OF assms(2-4) process(6)] process(1) show ?thesis by auto
    qed
  qed (auto intro!: frame simp: nextMessageID_def sendMessage_admit_def finishMessage_count_def close_done_def
      reader_error_def SetTimeout_def IsClosing_def Close_end_def split: if_splits)
qed

lemma lively_complete: "lively B isTLS s \<Longrightarrow> s_issued s < 2 ^ 64 \<Longrightarrow> complete s"
proof (induction rule: lively.induct)
  case start
  show ?case by (simp add: complete_def system_start_def Start_def NewConn_def addressed_def)
next
  case (next_step s s')
  then have bound: "s_issued s < 2 ^ 64" using step_issued [OF next_step.hyps(2)] by simp
  note reach = lively_reachable [OF next_step.hyps(1)]
  show ?case
    using step_complete [OF next_step.hyps(2) next_step.IH [OF bound] reachable_inv [OF reach bound] reachable_routed [OF reach bound]
      next_step.hyps(3,4)] .
qed

section \<open>Properties\<close>

text \<open>C5. However the goroutines interleave, and whatever arrives from the network, a client is handed only packets
  that carry the id of its own request, in the order in which they arrived and each at most once; and no packet is
  handed to two clients.\<close>

theorem responses_routed:
  assumes "reachable B isTLS s" "s_issued s < 2 ^ 64" "c < c_fresh (s_conn s)"
  shows "subseq (answers c (s_conn s)) (addressed (cx_id (c_store (s_conn s) c)) (s_arrived s))
    \<and> (\<forall>d < c_fresh (s_conn s). d \<noteq> c \<longrightarrow> set (answers c (s_conn s)) \<inter> set (answers d (s_conn s)) = {})"
proof -
  have inj: "inj_on (ctx_id (s_conn s)) {..<c_fresh (s_conn s)}"
    using reachable_inv [OF assms(1,2)] ctx_okD(6) unfolding conn_inv_def contexts_inv_def by blast
  have sub: "subseq (answers d (s_conn s)) (addressed (ctx_id (s_conn s) d) (s_arrived s))" if "d < c_fresh (s_conn s)" for d
  proof -
    have "subseq (answers d (s_conn s)) (flow d (s_conn s))" unfolding flow_def by (rule prefix_imp_subseq) simp
    also have "subseq (flow d (s_conn s)) (addressed (ctx_id (s_conn s) d) (s_arrived s))"
      using reachable_routed [OF assms(1,2)] that by (simp add: routed_def)
    finally show ?thesis .
  qed
  have tag: "message_id p = Some (ctx_id (s_conn s) d)" if "d < c_fresh (s_conn s)" "p \<in> set (answers d (s_conn s))" for d p
    using list_emb_set [OF sub [OF that(1)] that(2)] by (auto simp: addressed_def)
  have "set (answers c (s_conn s)) \<inter> set (answers d (s_conn s)) = {}" if d: "d < c_fresh (s_conn s)" "d \<noteq> c" for d
  proof (rule ccontr)
    assume "set (answers c (s_conn s)) \<inter> set (answers d (s_conn s)) \<noteq> {}"
    then obtain p where "p \<in> set (answers c (s_conn s))" "p \<in> set (answers d (s_conn s))" by blast
    from tag [OF assms(3) this(1)] tag [OF d(1) this(2)] inj_onD [OF inj, of d c] d assms(3) show False by simp
  qed
  with sub [OF assms(3)] show ?thesis by (simp add: ctx_id_def)
qed

text \<open>C4. On a connection that is not being closed, with a server that answers only what it was asked and clients that
  take what they are handed, the connection is a perfect demultiplexer: what a client has received, followed by what
  waits for it in the channel, is exactly what has arrived with its id.\<close>

theorem responses_complete:
  assumes "lively B isTLS s" "s_issued s < 2 ^ 64" "\<not> c_closing (s_conn s)"
    and "c < c_fresh (s_conn s)" "\<not> cx_closed (c_store (s_conn s) c)"
  shows "answers c (s_conn s) @ pending (cx_id (c_store (s_conn s) c)) (s_conn s)
    = addressed (cx_id (c_store (s_conn s) c)) (s_arrived s)"
  using completeD(2) [OF lively_complete [OF assms(1,2)] assms(3,4)] assms(5)
  by (simp add: flow_def ctx_id_def ctx_closed_def)

text \<open>A run for the witnesses: the request of \<^verbatim>\<open>enqueued_one\<close> is written, a packet with its id arrives and is handed over.\<close>

definition packet_one :: packet where
  "packet_one = fst (addLDAPDescriptions ref_ber [] request_one)"

definition written_one :: system where
  "written_one = (let l = s_conn enqueued_one in
     enqueued_one\<lparr>s_conn := l\<lparr>c_chanMessage := [], c_written := [ber_Bytes ref_ber request_one],
       c_messageContexts := [1 \<mapsto> 0]\<rparr>\<rparr>)"

definition arrived_one :: system where
  "arrived_one = written_one\<lparr>s_conn := (s_conn written_one)\<lparr>c_chanMessage := [MessageResponse 1 packet_one]\<rparr>,
     s_arrived := [packet_one]\<rparr>"

definition answered_one :: system where
  "answered_one = arrived_one\<lparr>s_conn := update_ctx 0 (\<lambda>x. x\<lparr>cx_received := [\<lparr>pr_Packet = packet_one, pr_Error = None\<rparr>]\<rparr>)
     (s_conn written_one)\<rparr>"

lemmas run_one_simps = answered_one_def arrived_one_def written_one_def enqueued_one_def Let_def conn_one_simps new_context_def

lemma packet_one_id: "message_id packet_one = Some 1" "Children packet_one \<noteq> []"
  by (simp_all add: packet_one_def request_one_def addLDAPDescriptions_def describe_response_def then_edit_def describe_def
      at_child_def set_child_def message_id_def nth_child_def deref_def)

lemma step_written: "step ref_ber enqueued_one written_one"
  unfolding written_one_def Let_def
  by (rule process [of _ "[]" _ "\<lparr>ev_write_error = None, ev_delivered = True\<rparr>"])
    (simp_all add: run_one_simps processMessage_def handle_request_def)

lemma step_arrived: "step ref_ber written_one arrived_one"
proof -
  have "step ref_ber written_one (written_one\<lparr>s_conn := (s_conn written_one)\<lparr>c_chanMessage := [MessageResponse 1 packet_one]\<rparr>,
      s_arrived := s_arrived written_one @ [fst (addLDAPDescriptions ref_ber [] request_one)]\<rparr>)"
  proof (rule read [of _ _ "[]" request_one])
    show "reader_packet ref_ber [] request_one (s_conn written_one)
        = Some (RContinue ((s_conn written_one)\<lparr>c_chanMessage := [MessageResponse 1 packet_one]\<rparr>))"
      unfolding reader_packet_def packet_one_def [symmetric]
      by (simp add: packet_one_id Let_def sendProcessMessage_def push_def IsClosing_def run_one_simps)
  qed (simp_all add: unblocked_def can_send_def run_one_simps)
  then show ?thesis by (simp add: arrived_one_def packet_one_def run_one_simps)
qed

lemma processed_one:
  "processMessage ref_ber \<lparr>ev_write_error = None, ev_delivered = True\<rparr> [1] (s_conn arrived_one) = Some (s_conn answered_one)"
  by (simp add: run_one_simps processMessage_def handle_response_def sendResponse_def update_ctx_def)

lemma step_answered: "step ref_ber arrived_one answered_one"
proof -
  have "answered_one = arrived_one\<lparr>s_conn := s_conn answered_one\<rparr>" by (simp add: answered_one_def)
  moreover have "step ref_ber arrived_one (arrived_one\<lparr>s_conn := s_conn answered_one\<rparr>)"
    by (rule process [OF _ _ _ _ processed_one]) (simp_all add: run_one_simps)
  ultimately show ?thesis by simp
qed

lemma lively_quiet:
  "lively B isTLS s \<Longrightarrow> step B s s' \<Longrightarrow> s_arrived s' = s_arrived s \<Longrightarrow>
   (\<And>i p ms. c_chanMessage (s_conn s) \<noteq> MessageResponse i p # ms) \<Longrightarrow> lively B isTLS s'"
  by (erule lively.next_step) (simp_all add: prompted_def attentive_def)

lemma lively_one: "lively ref_ber False answered_one"
proof -
  have "lively ref_ber False taken_one"
    by (rule lively_quiet [OF lively.start step_taken]) (simp_all add: taken_one_def conn_one_simps)
  then have "lively ref_ber False (admitted_one noFlags)"
    by (rule lively_quiet [OF _ step_admitted]) (simp_all add: taken_one_def conn_one_simps)
  then have "lively ref_ber False enqueued_one"
    by (rule lively_quiet [OF _ step_enqueued]) (simp_all add: run_one_simps)
  then have "lively ref_ber False written_one"
    by (rule lively_quiet [OF _ step_written]) (simp_all add: run_one_simps)
  then have "lively ref_ber False arrived_one"
    by (rule lively.next_step [OF _ step_arrived])
      (simp_all add: prompted_def attentive_def packet_one_id run_one_simps waiting_def List.map_filter_def ctx_id_def)
  then show ?thesis
  proof (rule lively.next_step [OF _ step_answered])
    show "attentive ref_ber arrived_one answered_one"
      using processed_one unfolding attentive_def by (metis env.select_convs(2))
  qed (simp add: prompted_def run_one_simps)
qed

lemma answered_one_state:
  "s_issued answered_one < 2 ^ 64" "\<not> c_closing (s_conn answered_one)" "c_fresh (s_conn answered_one) = 1"
  "\<not> cx_closed (c_store (s_conn answered_one) 0)" "cx_id (c_store (s_conn answered_one) 0) = 1"
  "answers 0 (s_conn answered_one) = [packet_one]"
  by (simp_all add: run_one_simps answers_def update_ctx_def)

theorem responses_routed_witness: "subseq [packet_one] (addressed 1 (s_arrived answered_one))"
  using responses_routed [OF lively_reachable [OF lively_one] answered_one_state(1), of 0] by (simp add: answered_one_state)

theorem responses_complete_witness:
  "packet_one # pending 1 (s_conn answered_one) = addressed 1 (s_arrived answered_one)"
  using responses_complete [OF lively_one answered_one_state(1), of 0] by (simp add: answered_one_state)

end
