(* ===== verification/LDAP_Dial.thy ===== *)
theory LDAP_Dial
  imports LDAP_Bind
begin

text \<open>
  Connecting, \<^verbatim>\<open>src/v3/conn.go\<close>: the URL of a server, the address that is dialled, and the upgrade of a connection by
  StartTLS.  The packages \<^verbatim>\<open>net\<close> and \<^verbatim>\<open>crypto/tls\<close> as far as they reach the network, and \<^verbatim>\<open>url.Parse\<close>, are
  arguments; the functions of \<^verbatim>\<open>net\<close> and \<^verbatim>\<open>net/url\<close> that only work on text are modelled.
\<close>

section \<open>Text routines of Go's packages\<close>

text \<open>\<^verbatim>\<open>strings.IndexByte\<close>; \<^const>\<open>None\<close> is -1.\<close>

fun IndexByte :: "string \<Rightarrow> char \<Rightarrow> nat option" where
  "IndexByte [] c = None"
| "IndexByte (x # s) c = (if x = c then Some 0 else map_option Suc (IndexByte s c))"

definition LastIndexByte :: "string \<Rightarrow> char \<Rightarrow> nat option" where
  "LastIndexByte s c = map_option (\<lambda>i. length s - 1 - i) (IndexByte (rev s) c)"

text \<open>\<^verbatim>\<open>net.SplitHostPort\<close>.  The caller does not look at the error, so there is one for all causes.\<close>

definition SplitHostPort :: "string \<Rightarrow> (string \<times> string) option" where
  "SplitHostPort hostport =
     (case LastIndexByte hostport (CHR '':'') of
        None \<Rightarrow> None
      | Some i \<Rightarrow>
          (let finish = (\<lambda>host j k.
                 if CHR ''['' \<in> set (drop j hostport) \<or> CHR '']'' \<in> set (drop k hostport) then None
                 else Some (host, drop (i + 1) hostport))
           in
             if hostport ! 0 = CHR ''['' then
               (case IndexByte hostport (CHR '']'') of
                  None \<Rightarrow> None
                | Some end \<Rightarrow>
                    if end + 1 \<noteq> i then None
                    else finish (take (end - 1) (drop 1 hostport)) 1 (end + 1))
             else if CHR '':'' \<in> set (take i hostport) then None
             else finish (take i hostport) 0 0))"

definition JoinHostPort :: "string \<Rightarrow> string \<Rightarrow> string" where
  "JoinHostPort host port =
     (if CHR '':'' \<in> set host then ''['' @ host @ '']:'' @ port else host @ '':'' @ port)"

text \<open>\<^verbatim>\<open>url.PathUnescape\<close>; the error names the three bytes at the bad escape.\<close>

fun path_unescape :: "string \<Rightarrow> string + string" where
  "path_unescape [] = Inr []"
| "path_unescape (c # s) =
     (if c = CHR ''%'' then
        (case s of
           a # b # r \<Rightarrow>
             (case (hexValue a, hexValue b) of
                (Some x, Some y) \<Rightarrow> map_sum id (\<lambda>t. char_of (x * 16 + y) # t) (path_unescape r)
              | _ \<Rightarrow> Inl (take 3 (c # s)))
         | _ \<Rightarrow> Inl (take 3 (c # s)))
      else map_sum id (\<lambda>t. c # t) (path_unescape s))"

definition PathUnescape :: "(rune \<Rightarrow> bool) \<Rightarrow> string \<Rightarrow> go_error + string" where
  "PathUnescape ip s = map_sum (\<lambda>e. ErrText (''invalid URL escape '' @ Quote ip e)) id (path_unescape s)"

section \<open>Dialling\<close>

text \<open>The fields of \<^verbatim>\<open>url.URL\<close> the code looks at.\<close>

record URL =
  u_Scheme :: string
  u_Host :: string
  u_Path :: string

text \<open>A network connection, with its interface telling whether it is a \<^verbatim>\<open>*tls.Conn\<close>.\<close>

datatype 'n net_Conn = PlainConn 'n | TLSConn 'n

record ('d, 't, 'n, 'st) net_library =
  net_Dialer :: "int \<Rightarrow> 'd"
  net_Dial :: "'d \<Rightarrow> string \<Rightarrow> string \<Rightarrow> go_error + 'n"
  net_DialTimeout :: "string \<Rightarrow> string \<Rightarrow> int \<Rightarrow> go_error + 'n"
  tls_DialWithDialer :: "'d \<Rightarrow> string \<Rightarrow> string \<Rightarrow> 't option \<Rightarrow> go_error + 'n"
  tls_Handshake :: "'n \<Rightarrow> 't option \<Rightarrow> string option"
  tls_ConnectionState :: "'n \<Rightarrow> 'st"
  tls_no_state :: 'st
  url_Parse :: "string \<Rightarrow> go_error + URL"

definition DefaultTimeout :: int where
  "DefaultTimeout = 60 * 1000000000"

definition DefaultLdapPort :: string where
  "DefaultLdapPort = ''389''"

definition DefaultLdapsPort :: string where
  "DefaultLdapsPort = ''636''"

record ('d, 't) DialContext =
  dc_dialer :: "'d option"
  dc_tlsConfig :: "'t option"

type_synonym ('d, 't) DialOpt = "('d, 't) DialContext \<Rightarrow> ('d, 't) DialContext"

definition DialWithDialer :: "'d option \<Rightarrow> ('d, 't) DialOpt" where
  "DialWithDialer d dc = dc\<lparr>dc_dialer := d\<rparr>"

definition DialWithTLSConfig :: "'t option \<Rightarrow> ('d, 't) DialOpt" where
  "DialWithTLSConfig tc dc = dc\<lparr>dc_tlsConfig := tc\<rparr>"

definition DialWithTLSDialer :: "'t option \<Rightarrow> 'd option \<Rightarrow> ('d, 't) DialOpt" where
  "DialWithTLSDialer tlsConfig dialer dc = dc\<lparr>dc_tlsConfig := tlsConfig, dc_dialer := dialer\<rparr>"

text \<open>A nil dialer is dereferenced by the packages.\<close>

definition dial_plain ::
  "('d, 't, 'n, 'st) net_library \<Rightarrow> ('d, 't) DialContext \<Rightarrow> string \<Rightarrow> string \<Rightarrow> (go_error + 'n net_Conn) option" where
  "dial_plain N dc network addr =
     do { d \<leftarrow> dc_dialer dc; Some (map_sum id PlainConn (net_Dial N d network addr)) }"

definition dial_tls ::
  "('d, 't, 'n, 'st) net_library \<Rightarrow> ('d, 't) DialContext \<Rightarrow> string \<Rightarrow> string \<Rightarrow> (go_error + 'n net_Conn) option" where
  "dial_tls N dc network addr =
     do { d \<leftarrow> dc_dialer dc; Some (map_sum id TLSConn (tls_DialWithDialer N d network addr (dc_tlsConfig dc))) }"

definition socket_path :: "URL \<Rightarrow> string" where
  "socket_path u =
     (let path = (if u_Host u = [] then u_Path u else u_Host u)
      in if path = [] \<or> path = ''/'' then ''/var/run/slapd/ldapi'' else path)"

definition host_port :: "URL \<Rightarrow> string \<Rightarrow> string" where
  "host_port u defaultPort =
     (let (host, port) = (case SplitHostPort (u_Host u) of None \<Rightarrow> (u_Host u, []) | Some hp \<Rightarrow> hp)
      in JoinHostPort host (if port = [] then defaultPort else port))"

definition DialContext_dial ::
  "('d, 't, 'n, 'st) net_library \<Rightarrow> ('d, 't) DialContext \<Rightarrow> URL \<Rightarrow> (go_error + 'n net_Conn) option" where
  "DialContext_dial N dc u =
     (if u_Scheme u = ''ldapi'' then dial_plain N dc ''unix'' (socket_path u)
      else if u_Scheme u = ''cldap'' then dial_plain N dc ''udp'' (host_port u DefaultLdapPort)
      else if u_Scheme u = ''ldap'' then dial_plain N dc ''tcp'' (host_port u DefaultLdapPort)
      else if u_Scheme u = ''ldaps'' then dial_tls N dc ''tcp'' (host_port u DefaultLdapsPort)
      else Some (Inl (ErrText (''Unknown scheme '' @ [CHR 0x27] @ u_Scheme u @ [CHR 0x27]))))"

text \<open>\<^verbatim>\<open>Dial\<close> and \<^verbatim>\<open>DialTLS\<close>; the result is the network connection with the started \<^verbatim>\<open>Conn\<close> on it.\<close>

definition started :: "bool \<Rightarrow> go_error + 'n net_Conn \<Rightarrow> go_error + 'n net_Conn \<times> conn" where
  "started isTLS r = map_sum (NewError ErrorNetwork) (\<lambda>c. (c, Start (NewConn isTLS))) r"

definition Dial :: "('d, 't, 'n, 'st) net_library \<Rightarrow> string \<Rightarrow> string \<Rightarrow> go_error + 'n net_Conn \<times> conn" where
  "Dial N network addr = started False (map_sum id PlainConn (net_DialTimeout N network addr DefaultTimeout))"

definition DialTLS ::
  "('d, 't, 'n, 'st) net_library \<Rightarrow> string \<Rightarrow> string \<Rightarrow> 't option \<Rightarrow> go_error + 'n net_Conn \<times> conn" where
  "DialTLS N network addr config =
     started True (map_sum id TLSConn (tls_DialWithDialer N (net_Dialer N DefaultTimeout) network addr config))"

definition parseLDAPURL :: "('d, 't, 'n, 'st) net_library \<Rightarrow> (rune \<Rightarrow> bool) \<Rightarrow> string \<Rightarrow> go_error + URL" where
  "parseLDAPURL N ip addr =
     (if take 8 addr \<noteq> ''ldapi://'' then url_Parse N addr
      else
        (let rest = drop 8 addr;
             (host, path) = (case IndexByte rest (CHR ''/'') of None \<Rightarrow> (rest, []) | Some i \<Rightarrow> (take i rest, drop i rest))
         in case PathUnescape ip host of
              Inl err \<Rightarrow> Inl (ErrWrap (''ldapi: invalid host '' @ Quote ip host @ '': '') err)
            | Inr decodedHost \<Rightarrow> Inr \<lparr>u_Scheme = ''ldapi'', u_Host = decodedHost, u_Path = path\<rparr>))"

definition dial_context ::
  "('d, 't, 'n, 'st) net_library \<Rightarrow> ('d, 't) DialOpt list \<Rightarrow> ('d, 't) DialContext" where
  "dial_context N opts =
     (let dc = fold (\<lambda>opt dc. opt dc) opts \<lparr>dc_dialer = None, dc_tlsConfig = None\<rparr>
      in if dc_dialer dc = None then dc\<lparr>dc_dialer := Some (net_Dialer N DefaultTimeout)\<rparr> else dc)"

definition DialURL ::
  "('d, 't, 'n, 'st) net_library \<Rightarrow> (rune \<Rightarrow> bool) \<Rightarrow> string \<Rightarrow> ('d, 't) DialOpt list
   \<Rightarrow> (go_error + 'n net_Conn \<times> conn) option" where
  "DialURL N ip addr opts =
     (case parseLDAPURL N ip addr of
        Inl err \<Rightarrow> Some (Inl (NewError ErrorNetwork err))
      | Inr u \<Rightarrow>
          do { r \<leftarrow> DialContext_dial N (dial_context N opts) u;
               Some (started (u_Scheme u = ''ldaps'') r) })"

section \<open>StartTLS\<close>

text \<open>
  What becomes of the connection besides the calls in the trace: nothing, or it is encrypted, marked so, and a
  new reader runs on it.
\<close>

datatype 'n tls_effect = Unchanged | Encrypted "'n net_Conn"

definition start_tls_request :: "ber \<Rightarrow> request" where
  "start_tls_request B =
     append_request B
       (appendChildren B (application B ApplicationExtendedRequest ''Start TLS'')
         [ber_NewString B ClassContext TypePrimitive 0 ''1.3.6.1.4.1.1466.20037'' ''TLS Extended Command'']) []"

definition start_tls_handshake ::
  "('d, 't, 'n, 'st) net_library \<Rightarrow> 'n \<Rightarrow> 't option \<Rightarrow> packet \<Rightarrow> (go_error option \<times> 'n tls_effect) outcome" where
  "start_tls_handshake N c config packet =
     do { err \<leftarrow> GetLDAPError packet;
          case err of
            Some e \<Rightarrow> Some ([], Some e, Unchanged)
          | None \<Rightarrow>
              (case tls_Handshake N c config of
                 Some t \<Rightarrow> Some ([CloseConn],
                   Some (NewError ErrorNetwork (ErrText (''TLS handshake failed ('' @ t @ '')''))), Unchanged)
               | None \<Rightarrow> Some ([], None, Encrypted (TLSConn c))) }"

definition StartTLS ::
  "ber \<Rightarrow> ('d, 't, 'n, 'st) net_library \<Rightarrow> session \<Rightarrow> bool \<Rightarrow> 'n \<Rightarrow> 't option
   \<Rightarrow> (go_error option \<times> 'n tls_effect) outcome" where
  "StartTLS B N s isTLS c config =
     (if isTLS then Some ([], Some (NewError ErrorNetwork (ErrText ''ldap: already encrypted'')), Unchanged)
      else
        do { (calls, err) \<leftarrow> send_envelope B s (start_tls_request B);
             case err of
               Some e \<Rightarrow> Some (calls, Some e, Unchanged)
             | None \<Rightarrow>
                 (case se_responses s of
                    [] \<Rightarrow> Some (calls @ [ReceiveResponse, FinishMessage], Some response_channel_closed, Unchanged)
                  | packetResponse # _ \<Rightarrow>
                      (case ReadPacket packetResponse of
                         (_, Some e) \<Rightarrow> Some (calls @ [ReceiveResponse, FinishMessage], Some e, Unchanged)
                       | (packet, None) \<Rightarrow>
                           do { (more, x) \<leftarrow> start_tls_handshake N c config packet;
                                Some (calls @ [ReceiveResponse] @ more @ [FinishMessage], x) })) })"

definition TLSConnectionState :: "('d, 't, 'n, 'st) net_library \<Rightarrow> 'n net_Conn \<Rightarrow> 'st \<times> bool" where
  "TLSConnectionState N c = (case c of TLSConn t \<Rightarrow> (tls_ConnectionState N t, True) | PlainConn _ \<Rightarrow> (tls_no_state N, False))"

end
