(* ===== verification/Dial_Properties.thy ===== *)
theory Dial_Properties
  imports LDAP_Dial Bind_Properties
begin

text \<open>
  Connecting: which address is dialled for a URL, the encoding of socket paths in it, and what StartTLS makes of the
  server's response.
\<close>

section \<open>Splitting and joining addresses\<close>

lemma IndexByte_append: "c \<notin> set a \<Longrightarrow> IndexByte (a @ c # b) c = Some (length a)"
  by (induction a) auto

lemma IndexByte_None: "IndexByte s c = None \<longleftrightarrow> c \<notin> set s"
  by (induction s) auto

lemma LastIndexByte_append: "c \<notin> set b \<Longrightarrow> LastIndexByte (a @ c # b) c = Some (length a)"
  by (simp add: LastIndexByte_def IndexByte_append [of c "rev b" "rev a", simplified])

lemma LastIndexByte_less: "LastIndexByte s c = Some i \<Longrightarrow> i < length s"
  by (cases s) (auto simp: LastIndexByte_def)

lemma LastIndexByte_None: "c \<notin> set s \<Longrightarrow> LastIndexByte s c = None"
  by (simp add: LastIndexByte_def IndexByte_None)

text \<open>Host names and literal addresses have no brackets, and ports no colons either.\<close>

definition plain_host :: "string \<Rightarrow> bool" where
  "plain_host host \<longleftrightarrow> CHR ''['' \<notin> set host \<and> CHR '']'' \<notin> set host"

definition plain_port :: "string \<Rightarrow> bool" where
  "plain_port port \<longleftrightarrow> plain_host port \<and> CHR '':'' \<notin> set port"

lemma SplitHostPort_JoinHostPort:
  assumes "plain_host host" "plain_port port"
  shows "SplitHostPort (JoinHostPort host port) = Some (host, port)"
proof (cases "CHR '':'' \<in> set host")
  case True
  let ?s = "CHR ''['' # host @ CHR '']'' # CHR '':'' # port"
  have "LastIndexByte ((CHR ''['' # host @ [CHR '']'']) @ CHR '':'' # port) (CHR '':'') = Some (length host + 2)"
    using assms(2) by (subst LastIndexByte_append) (simp_all add: plain_port_def)
  then have colon: "LastIndexByte ?s (CHR '':'') = Some (length host + 2)" by simp
  have "IndexByte ((CHR ''['' # host) @ CHR '']'' # CHR '':'' # port) (CHR '']'') = Some (length host + 1)"
    using assms(1) by (subst IndexByte_append) (simp_all add: plain_host_def)
  then have bracket: "IndexByte ?s (CHR '']'') = Some (length host + 1)" by simp
  show ?thesis
    using assms True colon bracket by (simp add: SplitHostPort_def JoinHostPort_def Let_def plain_host_def plain_port_def)
next
  case False
  let ?s = "host @ CHR '':'' # port"
  have colon: "LastIndexByte ?s (CHR '':'') = Some (length host)"
    using assms(2) by (simp add: LastIndexByte_append plain_port_def)
  have "?s ! 0 \<noteq> CHR ''[''" using assms(1) by (cases host) (auto simp: plain_host_def)
  with assms False colon show ?thesis
    by (simp add: SplitHostPort_def JoinHostPort_def Let_def plain_host_def plain_port_def)
qed

lemma SplitHostPort_no_port:
  assumes "CHR '':'' \<notin> set host"
  shows "SplitHostPort host = None"
  by (simp add: SplitHostPort_def LastIndexByte_None [OF assms])

lemma SplitHostPort_bracketed:
  assumes "plain_host host"
  shows "SplitHostPort (''['' @ host @ '']'') = None" "SplitHostPort (''[['' @ host @ '']]:'' @ port) = None"
proof -
  have "IndexByte ((CHR ''['' # host) @ CHR '']'' # []) (CHR '']'') = Some (length host + 1)"
    using assms by (subst IndexByte_append) (simp_all add: plain_host_def)
  then show "SplitHostPort (''['' @ host @ '']'') = None"
    by (auto simp: SplitHostPort_def Let_def dest: LastIndexByte_less split: option.splits)
  have "IndexByte ((CHR ''['' # CHR ''['' # host) @ CHR '']'' # CHR '']'' # CHR '':'' # port) (CHR '']'') = Some (length host + 2)"
    using assms by (subst IndexByte_append) (simp_all add: plain_host_def)
  moreover have "CHR '']'' \<in> set (drop i (''[['' @ host @ '']]:'' @ port))" if "i = length host + 3" for i
    using that by (simp add: numeral_3_eq_3)
  ultimately show "SplitHostPort (''[['' @ host @ '']]:'' @ port) = None"
    by (auto simp: SplitHostPort_def Let_def split: option.splits)
qed

section \<open>What is dialled\<close>

text \<open>The three schemes over the network: their transport, whether TLS comes first, and their port.\<close>

definition dialled ::
  "('d, 't, 'n, 'st) net_library \<Rightarrow> 'd \<Rightarrow> 't option \<Rightarrow> string \<Rightarrow> string \<Rightarrow> go_error + 'n net_Conn" where
  "dialled N d config scheme a =
     (if scheme = ''ldaps'' then map_sum id TLSConn (tls_DialWithDialer N d ''tcp'' a config)
      else map_sum id PlainConn (net_Dial N d (if scheme = ''cldap'' then ''udp'' else ''tcp'') a))"

definition default_port :: "string \<Rightarrow> string" where
  "default_port scheme = (if scheme = ''ldaps'' then ''636'' else ''389'')"

lemma dial_context_dialer: "\<exists>d. dc_dialer (dial_context N opts) = Some d"
  by (simp add: dial_context_def Let_def)

lemma DialURL_network:
  assumes "take 8 addr \<noteq> ''ldapi://''" "url_Parse N addr = Inr u" "u_Scheme u \<in> {''ldap'', ''ldaps'', ''cldap''}"
  obtains d where "dc_dialer (dial_context N opts) = Some d"
    "DialURL N ip addr opts = Some (started (u_Scheme u = ''ldaps'')
       (dialled N d (dc_tlsConfig (dial_context N opts)) (u_Scheme u) (host_port u (default_port (u_Scheme u)))))"
proof -
  obtain d where d: "dc_dialer (dial_context N opts) = Some d" using dial_context_dialer [of N opts] by (elim exE)
  have "DialURL N ip addr opts
      = do { r \<leftarrow> DialContext_dial N (dial_context N opts) u; Some (started (u_Scheme u = ''ldaps'') r) }"
    unfolding DialURL_def parseLDAPURL_def if_P [OF assms(1)] assms(2) sum.case ..
  moreover have "DialContext_dial N (dial_context N opts) u
      = Some (dialled N d (dc_tlsConfig (dial_context N opts)) (u_Scheme u) (host_port u (default_port (u_Scheme u))))"
    using assms(3) d
    by (elim insertE emptyE) (simp_all add: DialContext_dial_def dial_plain_def dial_tls_def dialled_def default_port_def
        DefaultLdapPort_def DefaultLdapsPort_def)
  ultimately show thesis by (intro that [OF d]) simp
qed

lemma host_port_split:
  assumes "plain_host host" "plain_port port" "plain_port p"
    and "u_Host u = JoinHostPort host port \<or> CHR '':'' \<notin> set host \<and> port = [] \<and> u_Host u = host"
  shows "SplitHostPort (host_port u p) = Some (host, if port = [] then p else port)"
proof -
  have "host_port u p = JoinHostPort host (if port = [] then p else port)"
    using assms(4)
  proof
    assume "u_Host u = JoinHostPort host port"
    then show ?thesis by (simp only: host_port_def SplitHostPort_JoinHostPort [OF assms(1,2)] option.case Let_def prod.case)
  next
    assume "CHR '':'' \<notin> set host \<and> port = [] \<and> u_Host u = host"
    then show ?thesis by (simp add: host_port_def SplitHostPort_no_port)
  qed
  with assms show ?thesis by (simp add: SplitHostPort_JoinHostPort)
qed

section \<open>Socket paths\<close>

text \<open>The texts that stand for a path in the host of a URL: a byte is written as it is or as two hexadecimal digits.\<close>

inductive percent_encoded :: "string \<Rightarrow> string \<Rightarrow> bool" where
  end_of_path: "percent_encoded [] []"
| literal: "c \<noteq> CHR ''%'' \<Longrightarrow> c \<noteq> CHR ''/'' \<Longrightarrow> percent_encoded p e \<Longrightarrow> percent_encoded (c # p) (c # e)"
| escaped: "hexValue a = Some x \<Longrightarrow> hexValue b = Some y \<Longrightarrow> percent_encoded p e \<Longrightarrow>
    percent_encoded (char_of (x * 16 + y) # p) (CHR ''%'' # a # b # e)"

lemma hexValue_not_slash: "hexValue a = Some x \<Longrightarrow> a \<noteq> CHR ''/''"
  by (auto simp: hexValue_def)

lemma percent_encoded_slash: "percent_encoded p e \<Longrightarrow> CHR ''/'' \<notin> set e"
  by (induction rule: percent_encoded.induct) (auto dest: hexValue_not_slash)

lemma path_unescape_encoded: "percent_encoded p e \<Longrightarrow> path_unescape e = Inr p"
  by (induction rule: percent_encoded.induct) simp_all

lemma path_unescape_sound: "path_unescape e = Inr p \<Longrightarrow> CHR ''/'' \<notin> set e \<Longrightarrow> percent_encoded p e"
proof (induction e arbitrary: p rule: path_unescape.induct)
  case (2 c s)
  have tail: "\<exists>t. path_unescape r = Inr t \<and> p = f t" if "map_sum id f (path_unescape r) = Inr p" for f r
    using that by (cases "path_unescape r") auto
  show ?case
  proof (cases "c = CHR ''%''")
    case True
    with 2 show ?thesis
      by (auto split: list.splits option.splits dest!: tail intro!: percent_encoded.escaped)
  next
    case False
    with 2 show ?thesis by (auto dest!: tail intro!: percent_encoded.literal)
  qed
qed (auto intro: percent_encoded.end_of_path)

lemma percent_encoding: "percent_encoded p (concat (map (\<lambda>c. CHR ''%'' # hexByte c) p))"
proof (induction p)
  case (Cons c p)
  have "ord c div 16 < 16" "ord c mod 16 < 16" using ord_less_256 [of c] by simp_all
  with Cons escaped [of "hexDigit (ord c div 16)" "ord c div 16" "hexDigit (ord c mod 16)" "ord c mod 16" p] show ?case
    by (simp add: hexByte_def)
qed (simp add: end_of_path)

lemma parse_ldapi:
  assumes "CHR ''/'' \<notin> set e" "rest = [] \<or> hd rest = CHR ''/''"
  shows "parseLDAPURL N ip (''ldapi://'' @ e @ rest) =
    (case PathUnescape ip e of
       Inl err \<Rightarrow> Inl (ErrWrap (''ldapi: invalid host '' @ Quote ip e @ '': '') err)
     | Inr host \<Rightarrow> Inr \<lparr>u_Scheme = ''ldapi'', u_Host = host, u_Path = rest\<rparr>)"
proof -
  have "(case IndexByte (e @ rest) (CHR ''/'') of None \<Rightarrow> (e @ rest, []) | Some i \<Rightarrow> (take i (e @ rest), drop i (e @ rest))) = (e, rest)"
  proof (cases rest)
    case Nil
    with assms(1) show ?thesis by (simp add: IndexByte_None [THEN iffD2])
  next
    case (Cons c r)
    with assms show ?thesis by (simp add: IndexByte_append)
  qed
  moreover have "take 8 (''ldapi://'' @ e @ rest) = ''ldapi://''" "drop 8 (''ldapi://'' @ e @ rest) = e @ rest" by simp_all
  ultimately show ?thesis unfolding parseLDAPURL_def Let_def by (simp only: prod.case if_False simp_thms)
qed

section \<open>StartTLS\<close>

definition tls_element :: "packet \<Rightarrow> bool" where
  "tls_element r \<longleftrightarrow> ClassType r = ClassApplication \<and> Tag r = ApplicationExtendedRequest
     \<and> (\<exists>k. Children r = [k] \<and> ClassType k = ClassContext \<and> Tag k = 0 \<and> Value k = VString ''1.3.6.1.4.1.1466.20037'')"

context ber_library
begin

lemma start_tls_appends: "appends B (start_tls_request B) tls_element []"
proof -
  let ?ks = "[ber_NewString B ClassContext TypePrimitive 0 ''1.3.6.1.4.1.1466.20037'' ''TLS Extended Command'']"
  have l: "list_all usable ?ks" by simp
  obtain r where "appendChildren B (application B ApplicationExtendedRequest ''Start TLS'') ?ks = Some r" "usable r"
    "Children r = ?ks" "ClassType r = ClassApplication" "Tag r = ApplicationExtendedRequest"
    by (rule appendChildren_fresh [OF _ _ l, of "application B ApplicationExtendedRequest ''Start TLS''"]) simp_all
  then show ?thesis unfolding start_tls_request_def
    by (intro appends_append_request [of _ r]) (simp_all add: tls_element_def del: appendChildren.simps)
qed

lemma StartTLS_sends:
  assumes "\<And>p. se_send s p = None" "se_responses s = Some \<lparr>pr_Packet = q, pr_Error = None\<rparr> # rs" "q \<noteq> NilPacket"
  obtains p where "is_request B s ApplicationExtendedRequest [] p" "tls_element (Children p ! 1)"
    "StartTLS B N s False c config = map_option (\<lambda>(more, x). ([SendMessage p, ReceiveResponse] @ more @ [FinishMessage], x))
       (start_tls_handshake N c config q)"
proof -
  obtain p where p: "send_envelope B s (start_tls_request B) = Some ([SendMessage p], None)"
    "is_request B s ApplicationExtendedRequest [] p" "tls_element (Children p ! 1)"
    using start_tls_appends unfolding start_tls_request_def
    by (rule send_envelope_appends [OF _ assms(1), where code = ApplicationExtendedRequest]) (auto simp: tls_element_def)
  have "ReadPacket (Some \<lparr>pr_Packet = q, pr_Error = None\<rparr>) = (q, None)" using assms(3) by (simp add: ReadPacket_def)
  with p(1) assms(2) show thesis
    by (intro that [OF p(2,3)]) (auto simp: StartTLS_def split: bind_splits)
qed

end

section \<open>Properties\<close>

text \<open>A network that records what is dialled.\<close>

definition recording_net :: "URL \<Rightarrow> (int, unit, string \<times> string, unit) net_library" where
  "recording_net u =
     \<lparr>net_Dialer = id, net_Dial = (\<lambda>d network addr. Inr (network, addr)),
      net_DialTimeout = (\<lambda>network addr t. Inr (network, addr)),
      tls_DialWithDialer = (\<lambda>d network addr config. Inr (network, addr)), tls_Handshake = (\<lambda>c config. None),
      tls_ConnectionState = (\<lambda>c. ()), tls_no_state = (), url_Parse = (\<lambda>addr. Inr u)\<rparr>"

lemma recording_net_sel [simp]:
  "url_Parse (recording_net u) addr = Inr u" "net_Dial (recording_net u) d network addr = Inr (network, addr)"
  "tls_DialWithDialer (recording_net u) d network addr config = Inr (network, addr)"
  "tls_Handshake (recording_net u) c config = None"
  by (simp_all add: recording_net_def)

text \<open>C16. For an \<^verbatim>\<open>ldap\<close>, \<^verbatim>\<open>ldaps\<close> or \<^verbatim>\<open>cldap\<close> URL whose host is a name, an IPv4 address, or either or an IPv6 address
  with a port, \<^verbatim>\<open>DialURL\<close> dials an address that denotes that host and that port, or the default port of the scheme; the
  transport is the scheme's, and TLS is spoken exactly for \<^verbatim>\<open>ldaps\<close>.\<close>

theorem DialURL_address:
  assumes "take 8 addr \<noteq> ''ldapi://''" "url_Parse N addr = Inr u" "u_Scheme u \<in> {''ldap'', ''ldaps'', ''cldap''}"
    and "plain_host host" "plain_port port"
    and "u_Host u = JoinHostPort host port \<or> CHR '':'' \<notin> set host \<and> port = [] \<and> u_Host u = host"
  shows "\<exists>d a. dc_dialer (dial_context N opts) = Some d
    \<and> SplitHostPort a = Some (host, if port = [] then default_port (u_Scheme u) else port)
    \<and> DialURL N ip addr opts = Some (started (u_Scheme u = ''ldaps'')
        (dialled N d (dc_tlsConfig (dial_context N opts)) (u_Scheme u) a))"
proof -
  have "plain_port (default_port (u_Scheme u))" by (simp add: default_port_def plain_port_def plain_host_def)
  from host_port_split [OF assms(4,5) this assms(6)] DialURL_network [OF assms(1-3)] show ?thesis by metis
qed

theorem DialURL_address_witness:
  "let u = \<lparr>u_Scheme = ''ldap'', u_Host = ''h'', u_Path = []\<rparr> in
   \<exists>a. SplitHostPort a = Some (''h'', ''389'')
     \<and> DialURL (recording_net u) (\<lambda>_. True) ''ldap://h'' [] = Some (Inr (PlainConn (''tcp'', a), Start (NewConn False)))"
proof -
  let ?u = "\<lparr>u_Scheme = ''ldap'', u_Host = ''h'', u_Path = []\<rparr>"
  have "take 8 ''ldap://h'' \<noteq> ''ldapi://''" "u_Scheme ?u \<in> {''ldap'', ''ldaps'', ''cldap''}" "plain_host ''h''" "plain_port []"
    "u_Host ?u = JoinHostPort ''h'' [] \<or> CHR '':'' \<notin> set ''h'' \<and> [] = ([] :: string) \<and> u_Host ?u = ''h''"
    by (simp_all add: plain_host_def plain_port_def)
  from DialURL_address [OF this(1) recording_net_sel(1) this(2-5), of "[]" "\<lambda>_. True"] show ?thesis
    by (auto simp: dialled_def started_def default_port_def)
qed

text \<open>C37. An IPv6 address without a port, as in \<^verbatim>\<open>ldap://[::1]\<close>, is dialled with its brackets doubled, and no address
  in that form can be split again: the dial fails although the URL is valid.\<close>

theorem IPv6_without_port_misdialled:
  assumes "take 8 addr \<noteq> ''ldapi://''" "url_Parse N addr = Inr u" "u_Scheme u \<in> {''ldap'', ''ldaps'', ''cldap''}"
    and "plain_host host" "CHR '':'' \<in> set host" "u_Host u = ''['' @ host @ '']''"
  shows "\<exists>d a. dc_dialer (dial_context N opts) = Some d
    \<and> a = ''[['' @ host @ '']]:'' @ default_port (u_Scheme u) \<and> SplitHostPort a = None
    \<and> DialURL N ip addr opts = Some (started (u_Scheme u = ''ldaps'')
        (dialled N d (dc_tlsConfig (dial_context N opts)) (u_Scheme u) a))"
proof -
  obtain d where d: "dc_dialer (dial_context N opts) = Some d"
    "DialURL N ip addr opts = Some (started (u_Scheme u = ''ldaps'')
      (dialled N d (dc_tlsConfig (dial_context N opts)) (u_Scheme u) (host_port u (default_port (u_Scheme u)))))"
    by (rule DialURL_network [OF assms(1-3)])
  have "host_port u p = ''[['' @ host @ '']]:'' @ p" for p
    using assms(5) by (simp add: host_port_def assms(6) SplitHostPort_bracketed(1) [OF assms(4), simplified] JoinHostPort_def)
  with d SplitHostPort_bracketed(2) [OF assms(4)] show ?thesis by metis
qed

theorem IPv6_without_port_misdialled_witness:
  "let u = \<lparr>u_Scheme = ''ldap'', u_Host = ''[::1]'', u_Path = []\<rparr> in
   DialURL (recording_net u) (\<lambda>_. True) ''ldap://[::1]'' []
     = Some (Inr (PlainConn (''tcp'', ''[[::1]]:389''), Start (NewConn False)))
   \<and> SplitHostPort ''[[::1]]:389'' = None"
proof -
  let ?u = "\<lparr>u_Scheme = ''ldap'', u_Host = ''[::1]'', u_Path = []\<rparr>"
  have "take 8 ''ldap://[::1]'' \<noteq> ''ldapi://''" "u_Scheme ?u \<in> {''ldap'', ''ldaps'', ''cldap''}" "plain_host ''::1''"
    "CHR '':'' \<in> set ''::1''" "u_Host ?u = ''['' @ ''::1'' @ '']''"
    by (simp_all add: plain_host_def)
  from IPv6_without_port_misdialled [OF this(1) recording_net_sel(1) this(2-5), of "[]" "\<lambda>_. True"] show ?thesis
    by (auto simp: dialled_def started_def default_port_def)
qed

text \<open>C17. Socket paths survive the URL: every path has a text that can stand in the host of an \<^verbatim>\<open>ldapi\<close> URL, and for each of its
  texts, with digits in either case and whatever DN follows, \<^verbatim>\<open>DialURL\<close> dials the socket at exactly that path, the
  empty path and the root apart, which the code replaces; a host
  that is no such text is refused before anything is dialled.\<close>

theorem DialURL_ldapi:
  assumes "CHR ''/'' \<notin> set e" "rest = [] \<or> hd rest = CHR ''/''"
  shows "(\<exists>t. percent_encoded p t)
    \<and> (percent_encoded p e \<and> p \<noteq> [] \<and> p \<noteq> ''/'' \<longrightarrow>
        (\<exists>d. dc_dialer (dial_context N opts) = Some d
           \<and> DialURL N ip (''ldapi://'' @ e @ rest) opts = Some (started False (map_sum id PlainConn (net_Dial N d ''unix'' p)))))
    \<and> ((\<nexists>p. percent_encoded p e) \<longrightarrow> (\<exists>err. DialURL N ip (''ldapi://'' @ e @ rest) opts = Some (Inl (NewError ErrorNetwork err))))"
proof (intro conjI impI)
  show "\<exists>t. percent_encoded p t" using percent_encoding by blast
next
  assume p: "percent_encoded p e \<and> p \<noteq> [] \<and> p \<noteq> ''/''"
  obtain d where d: "dc_dialer (dial_context N opts) = Some d" using dial_context_dialer [of N opts] by (elim exE)
  have "parseLDAPURL N ip (''ldapi://'' @ e @ rest) = Inr \<lparr>u_Scheme = ''ldapi'', u_Host = p, u_Path = rest\<rparr>"
  proof -
    have "PathUnescape ip e = Inr p" using p path_unescape_encoded [of p e] by (simp add: PathUnescape_def)
    then show ?thesis by (simp only: parse_ldapi [OF assms] sum.case)
  qed
  then have "DialURL N ip (''ldapi://'' @ e @ rest) opts = Some (started False (map_sum id PlainConn (net_Dial N d ''unix'' p)))"
    unfolding DialURL_def using d p by (simp add: DialContext_dial_def dial_plain_def socket_path_def)
  with d show "\<exists>d. dc_dialer (dial_context N opts) = Some d
      \<and> DialURL N ip (''ldapi://'' @ e @ rest) opts = Some (started False (map_sum id PlainConn (net_Dial N d ''unix'' p)))"
    by blast
next
  assume "\<nexists>p. percent_encoded p e"
  then obtain x where "path_unescape e = Inl x"
    using path_unescape_sound [OF _ assms(1)] by (cases "path_unescape e") auto
  then have "\<exists>err. parseLDAPURL N ip (''ldapi://'' @ e @ rest) = Inl err"
    by (simp only: parse_ldapi [OF assms] PathUnescape_def map_sum.simps sum.case) blast
  then show "\<exists>err. DialURL N ip (''ldapi://'' @ e @ rest) opts = Some (Inl (NewError ErrorNetwork err))"
    unfolding DialURL_def by (elim exE) (simp only: sum.case, blast)
qed

theorem DialURL_ldapi_witness:
  "DialURL (recording_net \<lparr>u_Scheme = [], u_Host = [], u_Path = []\<rparr>) (\<lambda>_. True) (''ldapi://'' @ ''%2frun%2Fl'' @ ''/dc=x'') []
     = Some (Inr (PlainConn (''unix'', ''/run/l''), Start (NewConn False)))"
proof -
  have slash: "CHR ''/'' \<notin> set ''%2frun%2Fl''" by simp
  moreover have "path_unescape ''%2frun%2Fl'' = Inr ''/run/l''" by code_simp
  ultimately have "percent_encoded ''/run/l'' ''%2frun%2Fl''" by (intro path_unescape_sound)
  then have "percent_encoded ''/run/l'' ''%2frun%2Fl'' \<and> ''/run/l'' \<noteq> [] \<and> ''/run/l'' \<noteq> ''/''" by simp
  moreover have "''/dc=x'' = [] \<or> hd ''/dc=x'' = CHR ''/''" by simp
  ultimately obtain d where "DialURL (recording_net \<lparr>u_Scheme = [], u_Host = [], u_Path = []\<rparr>) (\<lambda>_. True)
      (''ldapi://'' @ ''%2frun%2Fl'' @ ''/dc=x'') [] = Some (started False (map_sum id PlainConn
        (net_Dial (recording_net \<lparr>u_Scheme = [], u_Host = [], u_Path = []\<rparr>) d ''unix'' ''/run/l'')))"
    using DialURL_ldapi [OF slash, of "''/dc=x''" "''/run/l''" "recording_net \<lparr>u_Scheme = [], u_Host = [], u_Path = []\<rparr>" "[]" "\<lambda>_. True"]
    by blast
  then show ?thesis by (simp only: recording_net_sel map_sum.simps started_def)
qed

text \<open>C15. StartTLS on a connection without TLS sends the extended request and finishes it.  On success of the request and
  of the handshake the connection is encrypted and gets a new reader; when the handshake fails it is closed.  But
  when the server refuses, the connection is neither closed nor given a reader, although the reader ended with
  that response: from then on nothing is read from the server.\<close>

theorem StartTLS_answered:
  assumes "ber_library B" "\<And>p. se_send s p = None" "is_LDAPResult q code dn msg" "q = fst (addLDAPDescriptions B panic p0)"
    and "se_responses s = Some \<lparr>pr_Packet = q, pr_Error = None\<rparr> # rs"
    and "c_isStartingTLS l" "\<not> c_closing l" "\<not> c_chanClosed l" "message_id q = Some i"
  shows "\<exists>p. is_request B s ApplicationExtendedRequest [] p \<and> tls_element (Children p ! 1)
    \<and> StartTLS B N s False c config = Some (
        if \<not> 65536 dvd code then ([SendMessage p, ReceiveResponse, FinishMessage], result_error q code dn msg, Unchanged)
        else case tls_Handshake N c config of
          None \<Rightarrow> ([SendMessage p, ReceiveResponse, FinishMessage], None, Encrypted (TLSConn c))
        | Some t \<Rightarrow> ([SendMessage p, ReceiveResponse, CloseConn, FinishMessage],
            Some (NewError ErrorNetwork (ErrText (''TLS handshake failed ('' @ t @ '')''))), Unchanged))
    \<and> (\<exists>l'. reader_packet B panic p0 l = Some (RStop True l'))
    \<and> (\<exists>e. StartTLS B N s True c config = Some ([], Some e, Unchanged))"
proof -
  have nil: "q \<noteq> NilPacket" using assms(3) by (auto simp: is_LDAPResult_def)
  obtain p where p: "is_request B s ApplicationExtendedRequest [] p" "tls_element (Children p ! 1)"
    "StartTLS B N s False c config = map_option (\<lambda>(more, x). ([SendMessage p, ReceiveResponse] @ more @ [FinishMessage], x))
       (start_tls_handshake N c config q)"
    by (rule ber_library.StartTLS_sends [OF assms(1,2,5) nil])
  have "Children q \<noteq> []" using assms(3) by (auto simp: is_LDAPResult_def)
  then have "\<exists>l'. reader_packet B panic p0 l = Some (RStop True l')"
    using assms(6-9) by (simp add: reader_packet_def assms(4) [symmetric] sendProcessMessage_def push_def IsClosing_def)
  with p show ?thesis
    by (auto simp: start_tls_handshake_def GetLDAPError_of_LDAPResult [OF assms(3)] result_error_def StartTLS_def split: option.splits)
qed

definition tls_refusal :: packet where
  "tls_refusal = fst (addLDAPDescriptions ref_ber [] (answer ApplicationExtendedResponse 52))"

lemma tls_refusal_result: "is_LDAPResult tls_refusal 52 ''dc=x'' ''denied''" "message_id tls_refusal = Some 7"
  by (simp_all add: tls_refusal_def answer_def addLDAPDescriptions_def describe_response_def then_edit_def describe_def
      at_child_def set_child_def describe_message_def is_LDAPResult_def message_id_def nth_child_def deref_def)

theorem StartTLS_answered_witness:
  "(\<exists>p. StartTLS ref_ber (recording_net \<lparr>u_Scheme = [], u_Host = [], u_Path = []\<rparr>) (working [tls_refusal]) False (''tcp'', ''h:389'') None
       = Some ([SendMessage p, ReceiveResponse, FinishMessage], Some (LdapError (ErrText ''denied'') 52 ''dc=x'' tls_refusal), Unchanged))
   \<and> (\<exists>l'. reader_packet ref_ber [] (answer ApplicationExtendedResponse 52) ((Start (NewConn False))\<lparr>c_isStartingTLS := True\<rparr>)
       = Some (RStop True l'))"
proof -
  let ?l = "(Start (NewConn False))\<lparr>c_isStartingTLS := True\<rparr>"
  have l: "c_isStartingTLS ?l" "\<not> c_closing ?l" "\<not> c_chanClosed ?l" by (simp_all add: Start_def NewConn_def)
  have r: "se_responses (working [tls_refusal]) = Some \<lparr>pr_Packet = tls_refusal, pr_Error = None\<rparr> # []" by (simp add: working_def)
  have err: "result_error tls_refusal 52 ''dc=x'' ''denied'' = Some (LdapError (ErrText ''denied'') 52 ''dc=x'' tls_refusal)"
    by (simp add: result_error_def)
  have code: "\<not> (65536 :: int) dvd 52" by simp
  from StartTLS_answered [OF ref.ber_library_axioms working_sel(3) tls_refusal_result(1) tls_refusal_def r l tls_refusal_result(2),
      of "recording_net \<lparr>u_Scheme = [], u_Host = [], u_Path = []\<rparr>" "(''tcp'', ''h:389'')" None]
  show ?thesis unfolding err if_P [OF code] by blast
qed

end
