(* ===== verification/LDAP_Text.thy ===== *)
theory LDAP_Text
  imports LDAP_Search
begin

text \<open>
  Texts for humans: the \<^verbatim>\<open>String\<close> methods of the controls (\<^verbatim>\<open>src/v3/control.go\<close>), the printing methods of entries and
  results (\<^verbatim>\<open>src/v3/search.go\<close>) and \<^verbatim>\<open>DebugBinaryFile\<close> (\<^verbatim>\<open>src/v3/ldap.go\<close>).  The table of printable runes is the
  argument \<^verbatim>\<open>ip\<close>, the text of a UUID, from a third-party package, the argument \<^verbatim>\<open>us\<close>.
\<close>

section \<open>Formats\<close>

text \<open>\<^verbatim>\<open>%t\<close>, \<^verbatim>\<open>%b\<close>, and \<^verbatim>\<open>%s\<close> of a list of strings.\<close>

definition format_t :: "bool \<Rightarrow> string" where
  "format_t b = (if b then ''true'' else ''false'')"

fun binary_digits :: "nat \<Rightarrow> string" where
  "binary_digits n = (if n < 2 then [hexDigit n] else binary_digits (n div 2) @ [hexDigit (n mod 2)])"

definition format_b :: "int \<Rightarrow> string" where
  "format_b i = (if i < 0 then ''-'' @ binary_digits (nat (- i)) else binary_digits (nat i))"

definition format_list :: "string list \<Rightarrow> string" where
  "format_list xs = ''['' @ join '' '' xs @ '']''"

text \<open>The head that most controls share.\<close>

definition control_head :: "(rune \<Rightarrow> bool) \<Rightarrow> string \<Rightarrow> string" where
  "control_head ip controlType = ''Control Type: '' @ ControlTypeMap controlType @ '' ('' @ Quote ip controlType @ '')''"

section \<open>Controls\<close>

text \<open>The text of a \<^verbatim>\<open>ControlString\<close> is in \<^verbatim>\<open>LDAP_Search\<close>.\<close>

definition ControlPaging_String :: "(rune \<Rightarrow> bool) \<Rightarrow> 32 word \<Rightarrow> bytes \<Rightarrow> string" where
  "ControlPaging_String ip pagingSize cookie =
     control_head ip ControlTypePaging @ ''  Criticality: '' @ format_t False @ ''  PagingSize: '' @ decimal (unat pagingSize)
     @ ''  Cookie: '' @ Quote ip cookie"

definition ControlBeheraPasswordPolicy_String :: "(rune \<Rightarrow> bool) \<Rightarrow> BeheraPasswordPolicy \<Rightarrow> string" where
  "ControlBeheraPasswordPolicy_String ip c =
     control_head ip ControlTypeBeheraPasswordPolicy @ ''  Criticality: '' @ format_t False @ ''  Expire: '' @ show_int (bp_Expire c)
     @ ''  Grace: '' @ show_int (bp_Grace c) @ ''  Error: '' @ show_int (bp_Error c) @ '', ErrorString: '' @ bp_ErrorString c"

definition ControlVChuPasswordMustChange_String :: "(rune \<Rightarrow> bool) \<Rightarrow> bool \<Rightarrow> string" where
  "ControlVChuPasswordMustChange_String ip mustChange =
     control_head ip ControlTypeVChuPasswordMustChange @ ''  Criticality: '' @ format_t False @ ''  MustChange: '' @ format_t mustChange"

definition ControlVChuPasswordWarning_String :: "(rune \<Rightarrow> bool) \<Rightarrow> int \<Rightarrow> string" where
  "ControlVChuPasswordWarning_String ip expire =
     control_head ip ControlTypeVChuPasswordWarning @ ''  Criticality: '' @ format_t False @ ''  Expire: '' @ format_b expire"

definition ControlManageDsaIT_String :: "(rune \<Rightarrow> bool) \<Rightarrow> bool \<Rightarrow> string" where
  "ControlManageDsaIT_String ip criticality =
     control_head ip ControlTypeManageDsaIT @ ''  Criticality: '' @ format_t criticality"

definition ControlMicrosoftNotification_String :: "(rune \<Rightarrow> bool) \<Rightarrow> string" where
  "ControlMicrosoftNotification_String ip = control_head ip ControlTypeMicrosoftNotification"

definition ControlMicrosoftSDFlags_String :: "(rune \<Rightarrow> bool) \<Rightarrow> string" where
  "ControlMicrosoftSDFlags_String ip = control_head ip ControlTypeMicrosoftSDFlags"

definition ControlMicrosoftShowDeleted_String :: "(rune \<Rightarrow> bool) \<Rightarrow> string" where
  "ControlMicrosoftShowDeleted_String ip = control_head ip ControlTypeMicrosoftShowDeleted"

definition ControlMicrosoftServerLinkTTL_String :: "(rune \<Rightarrow> bool) \<Rightarrow> string" where
  "ControlMicrosoftServerLinkTTL_String ip = control_head ip ControlTypeMicrosoftServerLinkTTL"

definition ControlSubtreeDelete_String :: "(rune \<Rightarrow> bool) \<Rightarrow> string" where
  "ControlSubtreeDelete_String ip = control_head ip ControlTypeSubtreeDelete"

definition ControlDirSync_String :: "(rune \<Rightarrow> bool) \<Rightarrow> bool \<Rightarrow> int \<Rightarrow> int \<Rightarrow> string" where
  "ControlDirSync_String ip criticality flags maxAttrCount =
     ''ControlType: '' @ ControlTypeMap ControlTypeDirSync @ '' ('' @ Quote ip ControlTypeDirSync @ '') Criticality: ''
     @ format_t criticality @ '' ControlValue: Flags: '' @ show_int flags @ '' MaxAttrCount: '' @ show_int maxAttrCount"

text \<open>\<^verbatim>\<open>%+v\<close> prints the pointers to the sort keys as addresses, which are the argument.\<close>

definition ControlServerSideSorting_String :: "(rune \<Rightarrow> bool) \<Rightarrow> string list \<Rightarrow> string" where
  "ControlServerSideSorting_String ip addresses =
     ''Control Type: Server Side Sorting ('' @ Quote ip ControlTypeServerSideSorting @ '')  Criticality:'' @ format_t False
     @ '' '' @ format_list addresses"

definition ControlServerSideSortingResult_String :: "(rune \<Rightarrow> bool) \<Rightarrow> bool \<Rightarrow> int \<Rightarrow> string" where
  "ControlServerSideSortingResult_String ip criticality result =
     ''Control Type: Server Side Sorting Result ('' @ Quote ip ControlTypeServerSideSortingResult @ '') Criticality:''
     @ format_t criticality @ '' ResultCode:'' @ show_int result"

definition ControlSyncRequest_String :: "(rune \<Rightarrow> bool) \<Rightarrow> bool \<Rightarrow> int \<Rightarrow> bytes \<Rightarrow> bool \<Rightarrow> string" where
  "ControlSyncRequest_String ip criticality mode cookie reloadHint =
     control_head ip ControlTypeSyncRequest @ ''  Criticality: '' @ format_t criticality @ '' Mode: '' @ show_int mode
     @ '' Cookie: '' @ cookie @ '' ReloadHint: '' @ format_t reloadHint"

definition ControlSyncState_String ::
  "(rune \<Rightarrow> bool) \<Rightarrow> (uuid \<Rightarrow> string) \<Rightarrow> bool \<Rightarrow> int \<Rightarrow> uuid \<Rightarrow> bytes \<Rightarrow> string" where
  "ControlSyncState_String ip us criticality state entryUUID cookie =
     control_head ip ControlTypeSyncState @ ''  Criticality: '' @ format_t criticality @ '' State: '' @ show_int state
     @ '' EntryUUID: '' @ us entryUUID @ '' Cookie: '' @ cookie"

definition ControlSyncDone_String :: "(rune \<Rightarrow> bool) \<Rightarrow> bool \<Rightarrow> bytes \<Rightarrow> bool \<Rightarrow> string" where
  "ControlSyncDone_String ip criticality cookie refreshDeletes =
     control_head ip ControlTypeSyncDone @ ''  Criticality: '' @ format_t criticality @ '' Cookie: '' @ cookie
     @ '' RefreshDeletes: '' @ format_t refreshDeletes"

definition ControlSyncInfoNewCookie_String :: "bytes \<Rightarrow> string" where
  "ControlSyncInfoNewCookie_String cookie = ''NewCookie[Cookie: '' @ cookie @ '']''"

definition ControlSyncInfoRefreshDelete_String :: "bytes \<times> bool \<Rightarrow> string" where
  "ControlSyncInfoRefreshDelete_String c =
     ''RefreshDelete[Cookie: '' @ fst c @ '' RefreshDone: '' @ format_t (snd c) @ '']''"

definition ControlSyncInfoRefreshPresent_String :: "bytes \<times> bool \<Rightarrow> string" where
  "ControlSyncInfoRefreshPresent_String c =
     ''RefreshPresent[Cookie: '' @ fst c @ '' RefreshDone: '' @ format_t (snd c) @ '']''"

definition ControlSyncInfoSyncIdSet_String :: "(uuid \<Rightarrow> string) \<Rightarrow> ControlSyncInfoSyncIdSet \<Rightarrow> string" where
  "ControlSyncInfoSyncIdSet_String us c =
     ''SyncIdSet[Cookie: '' @ si_Cookie c @ '' RefreshDeletes: '' @ format_t (si_RefreshDeletes c)
     @ '' SyncUUIDs: '' @ format_list (map us (si_SyncUUIDs c)) @ '']''"

text \<open>A method on a nil pointer panics inside \<^verbatim>\<open>fmt\<close>, which writes \<^verbatim>\<open><nil>\<close> instead.\<close>

definition or_nil :: "('a \<Rightarrow> string) \<Rightarrow> 'a option \<Rightarrow> string" where
  "or_nil f x = (case x of None \<Rightarrow> ''<nil>'' | Some y \<Rightarrow> f y)"

definition ControlSyncInfo_String ::
  "(rune \<Rightarrow> bool) \<Rightarrow> (uuid \<Rightarrow> string) \<Rightarrow> bool \<Rightarrow> nat \<Rightarrow> bytes option \<Rightarrow> (bytes \<times> bool) option \<Rightarrow> (bytes \<times> bool) option
   \<Rightarrow> ControlSyncInfoSyncIdSet option \<Rightarrow> string" where
  "ControlSyncInfo_String ip us criticality val newCookie refreshDelete refreshPresent syncIdSet =
     control_head ip ControlTypeSyncInfo @ ''  Criticality: '' @ format_t criticality @ '' Value: '' @ decimal val
     @ '' '' @ or_nil ControlSyncInfoNewCookie_String newCookie
     @ '' '' @ or_nil ControlSyncInfoRefreshDelete_String refreshDelete
     @ '' '' @ or_nil ControlSyncInfoRefreshPresent_String refreshPresent
     @ '' '' @ or_nil (ControlSyncInfoSyncIdSet_String us) syncIdSet"

text \<open>The method of the interface \<^verbatim>\<open>Control\<close>.\<close>

fun Control_String :: "(rune \<Rightarrow> bool) \<Rightarrow> (uuid \<Rightarrow> string) \<Rightarrow> string list \<Rightarrow> control \<Rightarrow> string" where
  "Control_String ip us addresses (ControlString t c v) = ControlString_String ip (ControlString t c v)"
| "Control_String ip us addresses (ControlPaging n k) = ControlPaging_String ip n k"
| "Control_String ip us addresses (ControlBeheraPasswordPolicy c) = ControlBeheraPasswordPolicy_String ip c"
| "Control_String ip us addresses (ControlVChuPasswordMustChange b) = ControlVChuPasswordMustChange_String ip b"
| "Control_String ip us addresses (ControlVChuPasswordWarning e) = ControlVChuPasswordWarning_String ip e"
| "Control_String ip us addresses (ControlManageDsaIT c) = ControlManageDsaIT_String ip c"
| "Control_String ip us addresses ControlMicrosoftNotification = ControlMicrosoftNotification_String ip"
| "Control_String ip us addresses (ControlMicrosoftSDFlags c v) = ControlMicrosoftSDFlags_String ip"
| "Control_String ip us addresses ControlMicrosoftShowDeleted = ControlMicrosoftShowDeleted_String ip"
| "Control_String ip us addresses ControlMicrosoftServerLinkTTL = ControlMicrosoftServerLinkTTL_String ip"
| "Control_String ip us addresses ControlSubtreeDelete = ControlSubtreeDelete_String ip"
| "Control_String ip us addresses (ControlDirSync c f m k) = ControlDirSync_String ip c f m"
| "Control_String ip us addresses (ControlServerSideSorting ks) = ControlServerSideSorting_String ip addresses"
| "Control_String ip us addresses (ControlServerSideSortingResult c r) = ControlServerSideSortingResult_String ip c r"
| "Control_String ip us addresses (ControlSyncRequest c m k h) = ControlSyncRequest_String ip c m k h"
| "Control_String ip us addresses (ControlSyncState c s u k) = ControlSyncState_String ip us c s u k"
| "Control_String ip us addresses (ControlSyncDone c k d) = ControlSyncDone_String ip c k d"
| "Control_String ip us addresses (ControlSyncInfo c v n d p s) = ControlSyncInfo_String ip us c v n d p s"

section \<open>Entries and results\<close>

text \<open>What is written to the standard output; \<^verbatim>\<open>strings.Repeat\<close> panics on a negative count.\<close>

definition indentation :: "int \<Rightarrow> string option" where
  "indentation n = (if n < 0 then None else Some (replicate (nat n) (CHR '' '')))"

definition newline :: string where
  "newline = [CHR 0x0A]"

definition EntryAttribute_Print :: "EntryAttribute \<Rightarrow> string" where
  "EntryAttribute_Print e = ea_Name e @ '': '' @ format_list (ea_Values e) @ newline"

definition EntryAttribute_PrettyPrint :: "int \<Rightarrow> EntryAttribute \<Rightarrow> string option" where
  "EntryAttribute_PrettyPrint indent e =
     do { sp \<leftarrow> indentation indent; Some (sp @ ea_Name e @ '': '' @ format_list (ea_Values e) @ newline) }"

definition Entry_Print :: "Entry \<Rightarrow> string" where
  "Entry_Print e = ''DN: '' @ en_DN e @ newline @ concat (map EntryAttribute_Print (en_Attributes e))"

definition concat_option :: "string option list \<Rightarrow> string option" where
  "concat_option xs = (if None \<in> set xs then None else Some (concat (map the xs)))"

definition Entry_PrettyPrint :: "int \<Rightarrow> Entry \<Rightarrow> string option" where
  "Entry_PrettyPrint indent e =
     do { sp \<leftarrow> indentation indent;
          attrs \<leftarrow> concat_option (map (EntryAttribute_PrettyPrint (indent + 2)) (en_Attributes e));
          Some (sp @ ''DN: '' @ en_DN e @ newline @ attrs) }"

definition SearchResult_Print :: "SearchResult \<Rightarrow> string" where
  "SearchResult_Print s = concat (map Entry_Print (res_Entries s))"

definition SearchResult_PrettyPrint :: "int \<Rightarrow> SearchResult \<Rightarrow> string option" where
  "SearchResult_PrettyPrint indent s = concat_option (map (Entry_PrettyPrint indent) (res_Entries s))"

text \<open>A single result that holds a referral or controls has no entry.\<close>

definition SearchSingleResult_Print :: "Entry option \<Rightarrow> string option" where
  "SearchSingleResult_Print e = map_option Entry_Print e"

definition SearchSingleResult_PrettyPrint :: "int \<Rightarrow> Entry option \<Rightarrow> string option" where
  "SearchSingleResult_PrettyPrint indent e = do { e \<leftarrow> e; Entry_PrettyPrint indent e }"

section \<open>Dumping a file\<close>

datatype dump = DumpBytes bytes | DumpPacket packet

definition DebugBinaryFile ::
  "ber \<Rightarrow> (string \<Rightarrow> go_error + bytes) \<Rightarrow> string \<Rightarrow> string \<Rightarrow> dump list \<times> go_error option" where
  "DebugBinaryFile B readFile panic fileName =
     (case readFile fileName of
        Inl e \<Rightarrow> ([], Some (NewError ErrorDebugging e))
      | Inr file \<Rightarrow>
          (case ber_DecodePacketErr B file of
             Inl e \<Rightarrow> ([DumpBytes file], Some (ErrTextOf ''failed to decode packet: '' e))
           | Inr packet \<Rightarrow>
               (case addLDAPDescriptions B panic packet of
                  (_, Some e) \<Rightarrow> ([DumpBytes file], Some e)
                | (packet, None) \<Rightarrow> ([DumpBytes file, DumpPacket packet], None))))"

section \<open>Lemmas\<close>

text \<open>
  The head of a text names the type of the control, for every control but two: DirSync writes its head differently,
  and the sort controls are named without the table.
\<close>

lemma Control_String_head:
  assumes "GetControlType x \<notin> {ControlTypeDirSync, ControlTypeServerSideSorting, ControlTypeServerSideSortingResult}"
  shows "\<exists>t. Control_String ip us addresses x = control_head ip (GetControlType x) @ t"
  using assms
  by (cases x) (simp_all add: control_head_def ControlPaging_String_def ControlBeheraPasswordPolicy_String_def
      ControlVChuPasswordMustChange_String_def ControlVChuPasswordWarning_String_def ControlManageDsaIT_String_def
      ControlMicrosoftNotification_String_def ControlMicrosoftSDFlags_String_def ControlMicrosoftShowDeleted_String_def
      ControlMicrosoftServerLinkTTL_String_def ControlSubtreeDelete_String_def ControlSyncRequest_String_def
      ControlSyncState_String_def ControlSyncDone_String_def ControlSyncInfo_String_def)

text \<open>The time until a password expires is written in base two: ten seconds read as one thousand and ten.\<close>

lemma password_warning_binary: "format_b 10 = show_int 1010"
  by code_simp

text \<open>Printing panics only on a negative indentation or when there is no entry.\<close>

lemma concat_option_None: "concat_option xs = None \<longleftrightarrow> None \<in> set xs"
  by (simp add: concat_option_def)

lemma Entry_PrettyPrint_panics: "Entry_PrettyPrint indent e = None \<longleftrightarrow> indent < 0"
proof (cases "indent < 0")
  case False
  then have "None \<notin> set (map (EntryAttribute_PrettyPrint (indent + 2)) (en_Attributes e))"
    by (auto simp: EntryAttribute_PrettyPrint_def indentation_def)
  then obtain t where "concat_option (map (EntryAttribute_PrettyPrint (indent + 2)) (en_Attributes e)) = Some t"
    using concat_option_None by blast
  with False show ?thesis by (simp add: Entry_PrettyPrint_def indentation_def)
qed (simp add: Entry_PrettyPrint_def indentation_def)

lemma SearchSingleResult_PrettyPrint_panics:
  "SearchSingleResult_PrettyPrint indent e = None \<longleftrightarrow> e = None \<or> indent < 0"
  by (cases e) (simp_all add: SearchSingleResult_PrettyPrint_def Entry_PrettyPrint_panics)

lemma SearchResult_PrettyPrint_panics:
  "SearchResult_PrettyPrint indent s = None \<longleftrightarrow> res_Entries s \<noteq> [] \<and> indent < 0"
  by (cases "res_Entries s") (auto simp: SearchResult_PrettyPrint_def concat_option_None Entry_PrettyPrint_panics image_iff
      eq_commute [of None])

end
