(* ===== verification/Spec2Isabelle.thy ===== *)
theory Spec2Isabelle
  imports DN_Parse Postal_Address Conn_Invariant Entry_Properties Async_Properties Search_Types GSSAPI_Properties
    Conn_Routing Dial_Properties LDAP_Text
begin

text \<open>
  A verification development for the LDAP client library under \<^verbatim>\<open>src/v3\<close>, written in Go.

  \<^bold>\<open>The program.\<close>  A connection (\<^verbatim>\<open>conn.go\<close>) multiplexes the requests of many goroutines over one network
  connection: clients send messages to a processing loop, a reader goroutine feeds the responses to it, and
  the loop hands each response to the client that waits for it.  On top of it stand the operations
  (\<^verbatim>\<open>request.go\<close>, \<^verbatim>\<open>add.go\<close>, \<^verbatim>\<open>del.go\<close>, \<^verbatim>\<open>modify.go\<close>, \<^verbatim>\<open>moddn.go\<close>, \<^verbatim>\<open>compare.go\<close>, \<^verbatim>\<open>extended.go\<close>,
  \<^verbatim>\<open>passwdmodify.go\<close>, \<^verbatim>\<open>whoami.go\<close>, \<^verbatim>\<open>unbind.go\<close>, \<^verbatim>\<open>search.go\<close>, \<^verbatim>\<open>response.go\<close>), each of which builds a packet, sends it,
  reads responses and finishes the message.  They use the filter compiler (\<^verbatim>\<open>filter.go\<close>), the controls
  (\<^verbatim>\<open>control.go\<close>), the result codes and errors (\<^verbatim>\<open>error.go\<close>) and the escaping functions (\<^verbatim>\<open>ldap.go\<close>).
  A client dials a URL or wraps a network connection, may turn on TLS with \<^verbatim>\<open>StartTLS\<close> (\<^verbatim>\<open>conn.go\<close>), and binds
  (\<^verbatim>\<open>bind.go\<close>): with a name and a password, with SASL EXTERNAL, DIGEST-MD5, NTLM, or with a GSSAPI client, of which
  \<^verbatim>\<open>gssapi/\<close> has two, one over a Kerberos library and one over the Windows SSPI.
  Distinguished names (\<^verbatim>\<open>dn.go\<close>) and postal addresses (\<^verbatim>\<open>postaladdress.go\<close>) are values an application parses and
  compares.

  \<^bold>\<open>Conventions.\<close>  A Go string and a byte slice are both a list of bytes, \<^typ>\<open>string\<close>; a rune is a number;
  a structure is a record with a short prefix per field, an interface a datatype; integers whose width matters
  are words.  \<^const>\<open>None\<close> is a panic, errors are values of \<^typ>\<open>go_error\<close>, and a function that returns a value and
  an error returns a pair or a sum as the code does.  The third-party packages and the tables of Go's
  \<^verbatim>\<open>unicode\<close> package are arguments: the record \<^typ>\<open>ber\<close> of the packet library's routines, \<^verbatim>\<open>sf\<close> for
  \<^verbatim>\<open>unicode.SimpleFold\<close>, \<^verbatim>\<open>ip\<close> for \<^verbatim>\<open>unicode.IsPrint\<close>, \<^verbatim>\<open>fb\<close> for \<^verbatim>\<open>uuid.FromBytes\<close>, \<^verbatim>\<open>pt\<close> for the
  parser of times, \<^verbatim>\<open>lower\<close> for \<^verbatim>\<open>unicode.ToLower\<close> outside ASCII, \<^verbatim>\<open>us\<close> for the text of a UUID, and the records
  \<^verbatim>\<open>net_library\<close>, \<^verbatim>\<open>krb_library\<close>, \<^verbatim>\<open>sspi_library\<close> and \<^verbatim>\<open>ntlm_library\<close> of the network, Kerberos, SSPI and
  NTLM routines the code calls.  What is known of them is stated by the locales \<^verbatim>\<open>ber_library\<close> (constructors,
  \<^verbatim>\<open>AppendChild\<close>, and that \<^verbatim>\<open>Encode\<close> writes no content for an application tag), \<^verbatim>\<open>ber_wire\<close> (what arrives when a
  packet is sent; the raw bytes the decoder keeps for an element that is not universal are left open), \<^verbatim>\<open>ber_decoder\<close> (the decoder's packets hold no
  nil pointer) and \<^verbatim>\<open>simple_folding\<close>.  \<^verbatim>\<open>Ber_Reference\<close> is an instance of the first three, the
  definite-length encoding of X.690, and \<^verbatim>\<open>DN_Fold\<close> has one of the fourth; the witnesses use them and nothing
  else does.

  \<^bold>\<open>The theories.\<close>
  \<^item> \<^verbatim>\<open>LDAP_Prelude\<close>: bytes, lists, the interface \<^verbatim>\<open>codec\<close> of an encoder with a decoder.  \<^verbatim>\<open>Go_Utf8\<close>,
    \<^verbatim>\<open>Go_Strings\<close>, \<^verbatim>\<open>Go_Strconv\<close>: what the code uses of Go's libraries (UTF-8, hexadecimal, trimming, joining,
    \<^verbatim>\<open>EqualFold\<close>, quoting, numbers).  \<^verbatim>\<open>Ber_Packet\<close>, \<^verbatim>\<open>Ber_Reference\<close>, \<^verbatim>\<open>Ber_Wire\<close>: packets and the
    library's contracts.
  \<^item> \<^verbatim>\<open>DN_Text\<close>, \<^verbatim>\<open>DN_Fold\<close>, \<^verbatim>\<open>LDAP_DN\<close> model \<^verbatim>\<open>dn.go\<close>.  \<^verbatim>\<open>DN_Equality\<close>: equality and ancestry are equality and
    proper suffixes up to the order of the attributes in an RDN and to case.  \<^verbatim>\<open>DN_Parse\<close>: parsing and printing
    are inverse on the DNs parsing can give.
  \<^item> \<^verbatim>\<open>LDAP_Error\<close> models \<^verbatim>\<open>error.go\<close>, \<^verbatim>\<open>LDAP_Escape\<close> the escaping functions, \<^verbatim>\<open>Postal_Address\<close> \<^verbatim>\<open>postaladdress.go\<close>,
    each with its properties.
  \<^item> \<^verbatim>\<open>LDAP_Filter\<close> models \<^verbatim>\<open>filter.go\<close>.  The recursion of the compiler carries fuel, \<^verbatim>\<open>2 * length f + 2\<close>, since every
    nested call starts at least one byte later or returns; \<^verbatim>\<open>Filter_Total\<close> shows that it is never used up
    and that the compiler returns on every string.  \<^verbatim>\<open>Filter_Roundtrip\<close> states the abstract syntax of RFC 4515,
    its text and its packet, and shows that compiler and decompiler implement them.
  \<^item> \<^verbatim>\<open>LDAP_Conn\<close> models the operations of \<^verbatim>\<open>conn.go\<close>, cut at the points where another goroutine can run;
    \<^verbatim>\<open>Conn_Steps\<close> is the step relation in which clients, timers, the reader and the processing loop
    interleave, with the contexts the clients hold; \<^verbatim>\<open>Conn_Invariant\<close> has the invariant of the reachable states and what follows from it: no panic, no
    client that waits on a context nothing refers to, StartTLS alone on the connection.  Message ids are 64-bit
    words; the invariant is stated for fewer than \<^verbatim>\<open>2 ^ 64\<close> messages.  The state of the system also records what
    arrived from the server; \<^verbatim>\<open>Conn_Routing\<close> shows from it that a client is handed only its own responses, in
    order and once, and all of them when the server answers only what it was asked and the client wins every
    select between a hand-over and its own end.
  \<^item> \<^verbatim>\<open>LDAP_Dial\<close> models dialling, the URLs and \<^verbatim>\<open>StartTLS\<close>; \<^verbatim>\<open>Dial_Properties\<close>: which address a URL
    dials and how the connection ends up after \<^verbatim>\<open>StartTLS\<close>, an IPv6 host without a port included.
  \<^item> \<^verbatim>\<open>Control_Types\<close>, \<^verbatim>\<open>LDAP_Control\<close> model \<^verbatim>\<open>control.go\<close>; \<^verbatim>\<open>Control_Codec\<close> shows the round trip over the network, where
    encoding and decoding panic and where they cannot.  \<^verbatim>\<open>Control_Typing\<close>: a decoded control has the structure of
    its type, and which cookie a list of controls holds.  Packets are at most 2147483647 bytes long, the library's
    own limit.
  \<^item> \<^verbatim>\<open>LDAP_Request\<close> models the requests and the operations with one response.  An operation sees the
    connection through a \<^typ>\<open>session\<close>, what its calls return, and its first result is the list of calls it made.
    \<^verbatim>\<open>Request_Properties\<close>: the locale \<^verbatim>\<open>exchange_operation\<close>, interpreted on the eight operations, what their
    requests carry and what they make of a response.
  \<^item> \<^verbatim>\<open>LDAP_Describe\<close> models the packet descriptions of \<^verbatim>\<open>ldap.go\<close>, which the reader adds to every packet and which
    rewrite the controls in it.  \<^verbatim>\<open>LDAP_Bind\<close> models \<^verbatim>\<open>bind.go\<close>, with MD5 as in RFC 1321 in \<^verbatim>\<open>Go_Digest\<close>.
    \<^verbatim>\<open>Bind_Properties\<close>: simple binds and the
    messages every bind finishes.  \<^verbatim>\<open>Bind_Digest\<close>: the parser of challenges, and the
    digest of RFC 2831 as a server computes it.  \<^verbatim>\<open>Bind_Handshake\<close>: the DIGEST-MD5 and GSSAPI
    exchanges against a server.  \<^verbatim>\<open>GSSAPI_Client\<close> models \<^verbatim>\<open>gssapi/client.go\<close> and \<^verbatim>\<open>gssapi/sspi.go\<close>; \<^verbatim>\<open>GSSAPI_Properties\<close>:
    mutual authentication, the security layer, and the wrap tokens.
  \<^item> \<^verbatim>\<open>LDAP_Entry\<close>, \<^verbatim>\<open>LDAP_Search\<close>, \<^verbatim>\<open>Search_Async\<close> model \<^verbatim>\<open>search.go\<close> and \<^verbatim>\<open>response.go\<close>.  The loop of a search runs over
    the list of responses, which ends where the channel is closed; a paged search runs over a list of sessions and
    is still searching when the list is used up; an asynchronous search runs under a schedule that decides
    every select and every hand-over.  \<^verbatim>\<open>Entry_Properties\<close>: lookup and \<^verbatim>\<open>Unmarshal\<close>.  \<^verbatim>\<open>Search_Properties\<close>: what
    \<^verbatim>\<open>Search\<close> and \<^verbatim>\<open>SearchWithPaging\<close> return for the messages a server sends.  \<^verbatim>\<open>Search_Types\<close>: the controls of a
    result have the structure of their type, and a paged search panics exactly when one of its searches does.  \<^verbatim>\<open>Async_Properties\<close>: every
    operation finishes an accepted request exactly once, an uncancelled asynchronous search delivers what \<^verbatim>\<open>Search\<close>
    returns, and what becomes of a panic in its goroutine.
  \<^item> \<^verbatim>\<open>LDAP_Text\<close> models the texts for humans: the \<^verbatim>\<open>String\<close> methods of the controls, the printing methods of
    results, and \<^verbatim>\<open>DebugBinaryFile\<close>.

  \<^bold>\<open>How the parts meet.\<close>  The calls in the result of an operation are the client steps of \<^verbatim>\<open>Conn_Steps\<close>: a message
  is sent, responses are received, the message is finished.  That the operations finish a message once and
  last is the discipline the step relation gives a client.  The filter of a search request is the packet
  \<^verbatim>\<open>Filter_Roundtrip\<close> describes, the controls of a request and of a response those of \<^verbatim>\<open>Control_Codec\<close>, the result of
  an operation the error \<^verbatim>\<open>LDAP_Error\<close> reads from the response.

  A bind makes the same calls, one exchange per step of its mechanism.  \<^verbatim>\<open>StartTLS\<close> is an exchange of its own:
  the reader stops after the response, which is the flag \<^verbatim>\<open>Conn_Steps\<close> keeps, and is started again once the
  connection is encrypted.

  \<^bold>\<open>Not modelled.\<close>  \<^verbatim>\<open>client.go\<close> declares an interface and \<^verbatim>\<open>doc.go\<close> holds the package comment.  \<^verbatim>\<open>debug.go\<close> writes
  to the logger when debugging is on; the model has it off.  The network, TLS, Kerberos, NTLM and BER
  libraries are not part of the repository and are arguments of the definitions, as said above.
\<close>

end
